(* ===== verification/Moved_Prelude.thy ===== *)
theory Moved_Prelude
  imports Main "HOL-Library.Word"
begin

text \<open>
  Shared vocabulary of the development: the fixed-width integers of the Rust sources, Rust's
  saturating and checked arithmetic on them, \<open>Result\<close> as a sum type with its combinators, and
  the generic list lemmas the component theories use.

  Conventions. A Rust \<open>uN\<close> or \<open>UN\<close> is an \<open>N word\<close>. The operators \<open>+\<close>, \<open>-\<close>, \<open>*\<close> of the
  256-bit integer type of the sources wrap around, as \<open>+\<close>, \<open>-\<close> and \<open>*\<close> on words do. A byte array
  or a byte vector is a list of \<open>8 word\<close>; fixed lengths are stated as hypotheses where they
  matter. \<open>Result<A, E>\<close> is \<open>E + A\<close> with \<open>Inl\<close> for \<open>Err\<close>; a panic is an \<open>Inl\<close> of its own type.
\<close>

section \<open>Machine integers\<close>

type_synonym u8 = "8 word"
type_synonym u32 = "32 word"
type_synonym u64 = "64 word"
type_synonym u128 = "128 word"
type_synonym u256 = "256 word"
type_synonym bytes = "u8 list"

named_theorems word_ops \<open>definitions of the saturating and checked operations\<close>
named_theorems unat_ops \<open>the operations read as natural numbers\<close>

definition max_of :: "'a::len word" where
  [word_ops]: "max_of = - 1"

definition saturating_add :: "'a::len word \<Rightarrow> 'a word \<Rightarrow> 'a word" where
  [word_ops]: "saturating_add a b = (if unat a + unat b < 2 ^ LENGTH('a) then a + b else max_of)"

definition saturating_sub :: "'a::len word \<Rightarrow> 'a word \<Rightarrow> 'a word" where
  [word_ops]: "saturating_sub a b = (if b \<le> a then a - b else 0)"

definition saturating_mul :: "'a::len word \<Rightarrow> 'a word \<Rightarrow> 'a word" where
  [word_ops]: "saturating_mul a b = (if unat a * unat b < 2 ^ LENGTH('a) then a * b else max_of)"

definition checked_sub :: "'a::len word \<Rightarrow> 'a word \<Rightarrow> 'a word option" where
  [word_ops]: "checked_sub a b = (if b \<le> a then Some (a - b) else None)"

text \<open>\<open>saturating_to\<close>: conversion to a narrower type that sticks at its maximum.\<close>

definition saturating_to :: "'a::len word \<Rightarrow> 'b::len word" where
  [word_ops]: "saturating_to a = (if unat a < 2 ^ LENGTH('b) then ucast a else max_of)"

lemma unat_max_of [unat_ops]: "unat (max_of :: 'a::len word) = 2 ^ LENGTH('a) - 1"
  by (simp add: max_of_def unsigned_minus_1_eq_mask mask_eq_exp_minus_1)

lemma unat_less [simp, intro]: "unat (w :: 'a::len word) < 2 ^ LENGTH('a)"
  by (rule unsigned_less)

lemma unat_saturating_add [unat_ops]:
  "unat (saturating_add a b) = min (unat a + unat b) (2 ^ LENGTH('a) - 1)"
  for a b :: "'a::len word"
  by (auto simp: saturating_add_def unat_max_of unat_word_ariths min_def)

lemma unat_saturating_mul [unat_ops]:
  "unat (saturating_mul a b) = min (unat a * unat b) (2 ^ LENGTH('a) - 1)"
  for a b :: "'a::len word"
proof (cases "unat a * unat b < 2 ^ LENGTH('a)")
  case True
  then show ?thesis by (simp add: saturating_mul_def unat_word_ariths)
next
  case False
  then have "2 ^ LENGTH('a) - 1 \<le> unat a * unat b" by linarith
  with False show ?thesis by (simp add: saturating_mul_def unat_max_of)
qed

lemma unat_saturating_sub [unat_ops]: "unat (saturating_sub a b) = unat a - unat b"
  by (auto simp: saturating_sub_def unat_sub word_le_nat_alt)

lemma unat_saturating_to [unat_ops]:
  "unat (saturating_to a :: 'b::len word) = min (unat a) (2 ^ LENGTH('b) - 1)"
  by (auto simp: saturating_to_def unat_max_of min_def unsigned_ucast_eq take_bit_nat_eq_self)

lemma unat_ucast_up [unat_ops]:
  assumes "LENGTH('a) \<le> LENGTH('b)"
  shows "unat (ucast (w :: 'a::len word) :: 'b::len word) = unat w"
proof -
  have "unat w < 2 ^ LENGTH('b)"
    by (rule less_le_trans [OF unat_less]) (simp add: assms)
  then show ?thesis by (simp add: unsigned_ucast_eq take_bit_nat_eq_self)
qed

lemma unat_max: "unat (max a b) = max (unat a) (unat b)"
  by (simp add: max_def word_le_nat_alt)

lemma unat_min: "unat (min a b) = min (unat a) (unat b)"
  by (simp add: min_def word_le_nat_alt)

lemma saturating_sub_le: "saturating_sub a b \<le> a"
  by (simp add: word_le_nat_alt unat_saturating_sub)

section \<open>Results\<close>

definition rbind :: "'e + 'a \<Rightarrow> ('a \<Rightarrow> 'e + 'b) \<Rightarrow> 'e + 'b" where
  "rbind m f = (case m of Inl e \<Rightarrow> Inl e | Inr x \<Rightarrow> f x)"

definition map_err :: "('e \<Rightarrow> 'f) \<Rightarrow> 'e + 'a \<Rightarrow> 'f + 'a" where
  "map_err g m = (case m of Inl e \<Rightarrow> Inl (g e) | Inr x \<Rightarrow> Inr x)"

definition ok_or :: "'a option \<Rightarrow> 'e \<Rightarrow> 'e + 'a" where
  "ok_or x e = (case x of None \<Rightarrow> Inl e | Some y \<Rightarrow> Inr y)"

definition ok :: "'e + 'a \<Rightarrow> 'a option" where
  "ok m = (case m of Inl _ \<Rightarrow> None | Inr x \<Rightarrow> Some x)"

lemma rbind_simps [simp]: "rbind (Inl e) f = Inl e" "rbind (Inr x) f = f x"
  by (simp_all add: rbind_def)

lemma map_err_simps [simp]: "map_err g (Inl e) = Inl (g e)" "map_err g (Inr x) = Inr x"
  by (simp_all add: map_err_def)

lemma ok_or_simps [simp]: "ok_or None e = Inl e" "ok_or (Some x) e = Inr x"
  by (simp_all add: ok_or_def)

lemma ok_simps [simp]: "ok (Inl e) = None" "ok (Inr x) = Some x"
  by (simp_all add: ok_def)

lemma rbind_Inr_iff: "rbind m f = Inr y \<longleftrightarrow> (\<exists>x. m = Inr x \<and> f x = Inr y)"
  by (cases m) simp_all

lemma rbind_Inl_iff:
  "rbind m f = Inl e \<longleftrightarrow> m = Inl e \<or> (\<exists>x. m = Inr x \<and> f x = Inl e)"
  by (cases m) auto

lemma ok_or_Inr_iff [simp]: "ok_or x e = Inr y \<longleftrightarrow> x = Some y"
  by (cases x) simp_all

lemma map_err_Inr_iff [simp]: "map_err g m = Inr y \<longleftrightarrow> m = Inr y"
  by (cases m) simp_all

lemma map_err_Inl_iff: "map_err g m = Inl e \<longleftrightarrow> (\<exists>d. m = Inl d \<and> e = g d)"
  by (cases m) auto

section \<open>Lists\<close>

text \<open>\<open>collect::<Result<Vec<_>, _>>\<close> and \<open>collect::<Option<Vec<_>>>\<close>: the first failure wins.\<close>

fun collect_result :: "('e + 'a) list \<Rightarrow> 'e + 'a list" where
  "collect_result [] = Inr []"
| "collect_result (m # ms) = rbind m (\<lambda>x. rbind (collect_result ms) (\<lambda>xs. Inr (x # xs)))"

fun collect_option :: "'a option list \<Rightarrow> 'a list option" where
  "collect_option [] = Some []"
| "collect_option (m # ms) =
     (case m of None \<Rightarrow> None | Some x \<Rightarrow> map_option ((#) x) (collect_option ms))"

lemma collect_option_map_Some [simp]: "collect_option (map (\<lambda>x. Some (f x)) xs) = Some (map f xs)"
  by (induction xs) simp_all

lemma collect_option_Some_iff: "collect_option ms = Some xs \<longleftrightarrow> ms = map Some xs"
proof (induction ms arbitrary: xs)
  case Nil
  then show ?case by auto
next
  case (Cons m ms)
  then show ?case by (cases xs) (auto split: option.splits)
qed

lemma collect_result_map_Inr [simp]: "collect_result (map (\<lambda>x. Inr (f x)) xs) = Inr (map f xs)"
  by (induction xs) simp_all

text \<open>\<open>filter_map\<close> and \<open>enumerate\<close> of Rust's iterators.\<close>

abbreviation filter_map :: "('a \<Rightarrow> 'b option) \<Rightarrow> 'a list \<Rightarrow> 'b list" where
  "filter_map f xs \<equiv> List.map_filter f xs"

lemma map_filter_append [simp]: "List.map_filter f (xs @ ys) = List.map_filter f xs @ List.map_filter f ys"
  by (simp add: List.map_filter_def)

lemma set_map_filter: "set (List.map_filter f xs) = {y. \<exists>x \<in> set xs. f x = Some y}"
  by (force simp: List.map_filter_def)

lemma filter_map_all_Some:
  "map (f \<circ> g) xs = map Some ys \<Longrightarrow> filter_map f (map g xs) = ys"
  by (induction xs arbitrary: ys) (auto simp: map_filter_simps)

end
