(* ===== verification/Json_Rpc.thy ===== *)
theory Json_Rpc
  imports Moved_Prelude
begin

text \<open>
  The envelope of the JSON-RPC interface: \<^verbatim>\<open>api/src/jsonrpc.rs\<close>, \<^verbatim>\<open>json_utils.rs\<close> and
  \<^verbatim>\<open>method_name.rs\<close>. JSON values and the lookups in them follow \<open>serde_json\<close>; decoding a value into a
  type of the interface is third-party code, and an argument \<open>'a decoder\<close> here.
\<close>

section \<open>JSON values\<close>

datatype json =
  JNull
| JBool bool
| JNumber int
| JString string
| JArray "json list"
| JObject "(string \<times> json) list"

fun as_object :: "json \<Rightarrow> (string \<times> json) list option" where
  "as_object (JObject kvs) = Some kvs"
| "as_object x = None"

fun as_array :: "json \<Rightarrow> json list option" where
  "as_array (JArray xs) = Some xs"
| "as_array x = None"

fun as_str :: "json \<Rightarrow> string option" where
  "as_str (JString s) = Some s"
| "as_str x = None"

section \<open>Errors and responses\<close>

record json_rpc_error =
  je_code :: int
  je_data :: json
  je_message :: string

definition without_data :: "int \<Rightarrow> string \<Rightarrow> json_rpc_error" where
  "without_data code message = \<lparr>je_code = code, je_data = JNull, je_message = message\<rparr>"

definition parse_error :: "json \<Rightarrow> string \<Rightarrow> json_rpc_error" where
  "parse_error request message = \<lparr>je_code = - 32602, je_data = request, je_message = message\<rparr>"

text \<open>\<open>block_number\<close> is the printed form of the height that was asked for.\<close>

definition block_not_found :: "string \<Rightarrow> json_rpc_error" where
  "block_not_found block_number = without_data (- 32001) (''Block not found: '' @ block_number)"

record json_rpc_response =
  jr_id :: json
  jr_jsonrpc :: json
  jr_result :: "json option"
  jr_error :: "json_rpc_error option"

section \<open>Parameters\<close>

definition get_field :: "json \<Rightarrow> string \<Rightarrow> json" where
  "get_field x name =
     (case Option.bind (as_object x) (\<lambda>kvs. map_of kvs name) of None \<Rightarrow> JNull | Some v \<Rightarrow> v)"

definition get_params_list :: "json \<Rightarrow> json list" where
  "get_params_list x =
     (case Option.bind (Option.bind (as_object x) (\<lambda>kvs. map_of kvs ''params'')) as_array of
        None \<Rightarrow> [] | Some a \<Rightarrow> a)"

type_synonym 'a decoder = "json \<Rightarrow> string + 'a"

definition deserialize_json :: "'a decoder \<Rightarrow> json \<Rightarrow> json_rpc_error + 'a" where
  "deserialize_json dec x =
     map_err (\<lambda>e. \<lparr>je_code = - 32602, je_data = x, je_message = ''Failed to parse type '' @ e\<rparr>) (dec x)"

definition transaction_error :: "string \<Rightarrow> json_rpc_error" where
  "transaction_error e = without_data 3 (''Execution reverted: '' @ e)"

abbreviation not_enough :: "json \<Rightarrow> json_rpc_error" where
  "not_enough request \<equiv> parse_error request ''Not enough params''"

abbreviation too_many :: "json \<Rightarrow> json_rpc_error" where
  "too_many request \<equiv> parse_error request ''Too many params''"

definition parse_params_0 :: "json \<Rightarrow> json_rpc_error + unit" where
  "parse_params_0 request =
     (case get_params_list request of [] \<Rightarrow> Inr () | _ \<Rightarrow> Inl (too_many request))"

definition parse_params_1 :: "'a decoder \<Rightarrow> json \<Rightarrow> json_rpc_error + 'a" where
  "parse_params_1 dec request =
     (case get_params_list request of
        [] \<Rightarrow> Inl (not_enough request)
      | [x] \<Rightarrow> deserialize_json dec x
      | _ \<Rightarrow> Inl (too_many request))"

definition parse_params_2 :: "'a decoder \<Rightarrow> 'b decoder \<Rightarrow> json \<Rightarrow> json_rpc_error + 'a \<times> 'b" where
  "parse_params_2 dec1 dec2 request =
     (case get_params_list request of
        [] \<Rightarrow> Inl (not_enough request)
      | [_] \<Rightarrow> Inl (not_enough request)
      | [a, b] \<Rightarrow> rbind (deserialize_json dec1 a) (\<lambda>x. rbind (deserialize_json dec2 b) (\<lambda>y. Inr (x, y)))
      | _ \<Rightarrow> Inl (too_many request))"

definition parse_params_3 ::
  "'a decoder \<Rightarrow> 'b decoder \<Rightarrow> 'c decoder \<Rightarrow> json \<Rightarrow> json_rpc_error + 'a \<times> 'b \<times> 'c" where
  "parse_params_3 dec1 dec2 dec3 request =
     (case get_params_list request of
        [] \<Rightarrow> Inl (not_enough request)
      | [_] \<Rightarrow> Inl (not_enough request)
      | [_, _] \<Rightarrow> Inl (not_enough request)
      | [a, b, c] \<Rightarrow>
          rbind (deserialize_json dec1 a) (\<lambda>x. rbind (deserialize_json dec2 b) (\<lambda>y.
          rbind (deserialize_json dec3 c) (\<lambda>z. Inr (x, y, z))))
      | _ \<Rightarrow> Inl (too_many request))"

section \<open>Methods\<close>

datatype method_name =
  ForkChoiceUpdatedV3
| GetPayloadV3
| NewPayloadV3
| SendRawTransaction
| ChainId
| GetBalance
| GetBlockByHash
| GetBlockByNumber
| GetTransactionByHash
| GetNonce
| BlockNumber
| FeeHistory
| EstimateGas
| CallMethod
| TransactionReceipt
| GetProof
| GasPrice

fun is_engine_api :: "method_name \<Rightarrow> bool" where
  "is_engine_api m \<longleftrightarrow> m \<in> {ForkChoiceUpdatedV3, GetPayloadV3, NewPayloadV3}"

definition is_non_engine_api :: "method_name \<Rightarrow> bool" where
  "is_non_engine_api m \<longleftrightarrow> \<not> is_engine_api m"

definition method_table :: "(string \<times> method_name) list" where
  "method_table =
     [(''engine_forkchoiceUpdatedV3'', ForkChoiceUpdatedV3), (''engine_getPayloadV3'', GetPayloadV3),
      (''engine_newPayloadV3'', NewPayloadV3), (''eth_chainId'', ChainId),
      (''eth_getBalance'', GetBalance), (''eth_getTransactionCount'', GetNonce),
      (''eth_getTransactionByHash'', GetTransactionByHash), (''eth_getBlockByHash'', GetBlockByHash),
      (''eth_getBlockByNumber'', GetBlockByNumber), (''eth_feeHistory'', FeeHistory),
      (''eth_blockNumber'', BlockNumber), (''eth_sendRawTransaction'', SendRawTransaction),
      (''eth_estimateGas'', EstimateGas), (''eth_call'', CallMethod),
      (''eth_getTransactionReceipt'', TransactionReceipt), (''eth_getProof'', GetProof),
      (''eth_gasPrice'', GasPrice)]"

definition method_from_str :: "string \<Rightarrow> json_rpc_error + method_name" where
  "method_from_str s =
     ok_or (map_of method_table s) (without_data (- 32601) (''Unsupported method: '' @ s))"

section \<open>Hexadecimal numbers\<close>

text \<open>\<open>{:x}\<close>: the digits without leading zeros.\<close>

fun hex_digits :: "nat \<Rightarrow> string" where
  "hex_digits n =
     (if n < 16 then [''0123456789abcdef'' ! n] else hex_digits (n div 16) @ [''0123456789abcdef'' ! (n mod 16)])"

declare hex_digits.simps [simp del]

definition hex_string :: "'a::len word \<Rightarrow> string" where
  "hex_string w = ''0x'' @ hex_digits (unat w)"

text \<open>Reading them back: \<open>from_str_radix\<close> with radix 16, where a digit may be of either case.\<close>

definition hex_value :: "char \<Rightarrow> nat option" where
  "hex_value c =
     (let n = of_char c :: nat
      in if 48 \<le> n \<and> n \<le> 57 then Some (n - 48)
         else if 97 \<le> n \<and> n \<le> 102 then Some (n - 87)
         else if 65 \<le> n \<and> n \<le> 70 then Some (n - 55)
         else None)"

fun from_hex_digits :: "string \<Rightarrow> nat \<Rightarrow> nat option" where
  "from_hex_digits [] acc = Some acc"
| "from_hex_digits (c # cs) acc = Option.bind (hex_value c) (\<lambda>d. from_hex_digits cs (16 * acc + d))"

definition from_str_radix_16 :: "string \<Rightarrow> u64 option" where
  "from_str_radix_16 s =
     (let digits = (case s of c # cs \<Rightarrow> if c = CHR ''+'' then cs else s | [] \<Rightarrow> [])
      in if digits = [] then None
         else Option.bind (from_hex_digits digits 0) (\<lambda>n.
           if n < 2 ^ 64 then Some (of_nat n) else None))"

lemma hex_value_digit: "d < 16 \<Longrightarrow> hex_value (''0123456789abcdef'' ! d) = Some d"
proof -
  have "\<forall>d \<in> set [0..<16]. hex_value (''0123456789abcdef'' ! d) = Some d" by code_simp
  then show "d < 16 \<Longrightarrow> ?thesis" by simp
qed

lemma from_hex_digits_append:
  "from_hex_digits (xs @ ys) acc = Option.bind (from_hex_digits xs acc) (from_hex_digits ys)"
  by (induction xs arbitrary: acc) (auto split: bind_splits)

lemma from_hex_digits_hex: "from_hex_digits (hex_digits n) 0 = Some n"
proof (induction n rule: hex_digits.induct)
  case (1 n)
  show ?case
  proof (cases "n < 16")
    case True
    then show ?thesis by (subst hex_digits.simps) (simp add: hex_value_digit)
  next
    case False
    then show ?thesis using 1 [OF False]
      by (subst hex_digits.simps) (simp add: from_hex_digits_append hex_value_digit)
  qed
qed

end
