(* ===== verification/Evmap.thy ===== *)
theory Evmap
  imports Moved_Prelude
begin

text \<open>
  The in-memory stores of the node are built on an eventually consistent multi-value map
  (\<open>evmap\<close>), a third-party library. What the sources rely on is its documented behaviour: a key has
  a bag of values, \<open>insert\<close> adds a value to the bag, readers see the writes up to the last
  \<open>refresh\<close>, \<open>len\<close> counts keys, and \<open>get_one\<close> returns one value of the bag with no guarantee which.
  That unspecified choice is the argument \<open>pick\<close> of every definition that reads, and the only thing
  assumed of it is \<open>picks_member\<close>.
\<close>

type_synonym ('k, 'v) bags = "('k \<times> 'v list) list"

record ('k, 'v) evmap =
  em_write :: "('k, 'v) bags"
  em_read :: "('k, 'v) bags"

definition em_new :: "('k, 'v) evmap" where
  "em_new = \<lparr>em_write = [], em_read = []\<rparr>"

fun bag_insert :: "'k \<Rightarrow> 'v \<Rightarrow> ('k, 'v) bags \<Rightarrow> ('k, 'v) bags" where
  "bag_insert k v [] = [(k, [v])]"
| "bag_insert k v ((k', vs) # m) =
     (if k = k' then (k', vs @ [v]) # m else (k', vs) # bag_insert k v m)"

definition em_insert :: "'k \<Rightarrow> 'v \<Rightarrow> ('k, 'v) evmap \<Rightarrow> ('k, 'v) evmap" where
  "em_insert k v m = m\<lparr>em_write := bag_insert k v (em_write m)\<rparr>"

definition em_refresh :: "('k, 'v) evmap \<Rightarrow> ('k, 'v) evmap" where
  "em_refresh m = m\<lparr>em_read := em_write m\<rparr>"

definition em_extend :: "('k \<times> 'v) list \<Rightarrow> ('k, 'v) evmap \<Rightarrow> ('k, 'v) evmap" where
  "em_extend kvs m = fold (\<lambda>(k, v). em_insert k v) kvs m"

definition bag :: "('k, 'v) bags \<Rightarrow> 'k \<Rightarrow> 'v list" where
  "bag m k = (case map_of m k of None \<Rightarrow> [] | Some vs \<Rightarrow> vs)"

definition get_one :: "('v list \<Rightarrow> 'v) \<Rightarrow> ('k, 'v) evmap \<Rightarrow> 'k \<Rightarrow> 'v option" where
  "get_one pick m k = (let vs = bag (em_read m) k in if vs = [] then None else Some (pick vs))"

definition contains_key :: "('k, 'v) evmap \<Rightarrow> 'k \<Rightarrow> bool" where
  "contains_key m k \<longleftrightarrow> map_of (em_read m) k \<noteq> None"

definition em_len :: "('k, 'v) evmap \<Rightarrow> nat" where
  "em_len m = length (em_read m)"

definition picks_member :: "('v list \<Rightarrow> 'v) \<Rightarrow> bool" where
  "picks_member pick \<longleftrightarrow> (\<forall>vs. vs \<noteq> [] \<longrightarrow> pick vs \<in> set vs)"

text \<open>A map in use: no key twice, no empty bag, and nothing waiting for a refresh.\<close>

definition bags_ok :: "('k, 'v) bags \<Rightarrow> bool" where
  "bags_ok m \<longleftrightarrow> distinct (map fst m) \<and> (\<forall>(k, vs) \<in> set m. vs \<noteq> [])"

definition em_synced :: "('k, 'v) evmap \<Rightarrow> bool" where
  "em_synced m \<longleftrightarrow> em_read m = em_write m \<and> bags_ok (em_write m)"

section \<open>Lemmas\<close>

lemma picks_member_hd: "picks_member hd"
  by (simp add: picks_member_def)

lemma picks_member_singleton [simp]: "picks_member pick \<Longrightarrow> pick [v] = v"
  by (fastforce simp: picks_member_def)

lemma bag_Nil [simp]: "bag [] k = []"
  by (simp add: bag_def)

lemma bag_bag_insert [simp]: "bag (bag_insert k v m) k' = (if k = k' then bag m k @ [v] else bag m k')"
  by (induction k v m rule: bag_insert.induct) (auto simp: bag_def)

lemma keys_bag_insert:
  "map fst (bag_insert k v m) = (if k \<in> fst ` set m then map fst m else map fst m @ [k])"
  by (induction k v m rule: bag_insert.induct) auto

lemma bags_ok_Nil [simp]: "bags_ok []"
  by (simp add: bags_ok_def)

lemma bags_ok_bag_insert: "bags_ok m \<Longrightarrow> bags_ok (bag_insert k v m)"
proof -
  assume ok: "bags_ok m"
  then have "distinct (map fst (bag_insert k v m))"
    by (auto simp: keys_bag_insert bags_ok_def)
  moreover have "\<forall>(k, vs) \<in> set (bag_insert k v m). vs \<noteq> []"
    using ok unfolding bags_ok_def
    by (induction k v m rule: bag_insert.induct) auto
  ultimately show ?thesis by (simp add: bags_ok_def)
qed

lemma bag_nonempty_iff: "bags_ok m \<Longrightarrow> bag m k \<noteq> [] \<longleftrightarrow> k \<in> fst ` set m"
proof (cases "map_of m k")
  case None
  then show ?thesis by (simp add: bag_def) (simp add: map_of_eq_None_iff)
next
  case (Some vs)
  moreover assume "bags_ok m"
  ultimately show ?thesis by (force simp: bags_ok_def bag_def dest: map_of_SomeD)
qed

lemma length_bag_insert:
  "length (bag_insert k v m) = (if k \<in> fst ` set m then length m else Suc (length m))"
  by (induction k v m rule: bag_insert.induct) auto

lemma contains_key_iff: "contains_key m k \<longleftrightarrow> k \<in> fst ` set (em_read m)"
  by (simp add: contains_key_def map_of_eq_None_iff)

lemma em_synced_new [simp]: "em_synced em_new"
  by (simp add: em_synced_def em_new_def)

lemma em_write_fold_insert:
  "em_write (fold (\<lambda>(k, v). em_insert k v) kvs m)
     = fold (\<lambda>(k, v). bag_insert k v) kvs (em_write m)"
  by (induction kvs arbitrary: m) (auto simp: em_insert_def)

lemma bags_ok_fold:
  "bags_ok m \<Longrightarrow> bags_ok (fold (\<lambda>(k, v). bag_insert k v) kvs m)"
  by (induction kvs arbitrary: m) (auto simp: bags_ok_bag_insert)

lemma em_synced_extend: "em_synced m \<Longrightarrow> em_synced (em_refresh (em_extend kvs m))"
  by (simp add: em_synced_def em_refresh_def em_extend_def em_write_fold_insert bags_ok_fold)

lemma bag_fold:
  "bag (fold (\<lambda>(k, v). bag_insert k v) kvs m) k
     = bag m k @ map snd (filter (\<lambda>(k', v). k' = k) kvs)"
  by (induction kvs arbitrary: m) auto

lemma bag_extend:
  "em_synced m \<Longrightarrow> bag (em_read (em_refresh (em_extend kvs m))) k
     = bag (em_read m) k @ map snd (filter (\<lambda>(k', v). k' = k) kvs)"
  by (simp add: em_synced_def em_refresh_def em_extend_def em_write_fold_insert bag_fold)

lemma get_one_Some_member:
  "picks_member pick \<Longrightarrow> get_one pick m k = Some v \<Longrightarrow> v \<in> set (bag (em_read m) k)"
  by (auto simp: get_one_def picks_member_def Let_def split: if_splits)

lemma get_one_None_iff: "get_one pick m k = None \<longleftrightarrow> bag (em_read m) k = []"
  by (simp add: get_one_def Let_def)

lemma get_one_new [simp]: "get_one pick em_new k = None" "bag (em_read em_new) k = []"
  by (simp_all add: get_one_None_iff em_new_def)

lemma contains_key_iff_get_one:
  "em_synced m \<Longrightarrow> contains_key m k \<longleftrightarrow> get_one pick m k \<noteq> None"
  by (simp add: contains_key_iff get_one_None_iff em_synced_def bag_nonempty_iff [symmetric])

lemma get_one_extend_bag:
  "em_synced m \<Longrightarrow> bag (em_read (em_refresh (em_extend (map (\<lambda>r. (f r, r)) rs) m))) k
     = bag (em_read m) k @ filter (\<lambda>r. f r = k) rs"
  by (simp add: bag_extend filter_map comp_def)

section \<open>Keyed memories\<close>

text \<open>
  The transaction and receipt memories share one contract: records go in through \<open>extend\<close> under the
  key each of them carries, and come out through a lookup by key. The laws are stated over the
  contents \<open>stored m k\<close>, the records kept under a key.
\<close>

locale keyed_memory =
  fixes key :: "'r \<Rightarrow> 'k"
    and extend :: "'r list \<Rightarrow> 'm \<Rightarrow> 'm"
    and lookup :: "('r list \<Rightarrow> 'r) \<Rightarrow> 'm \<Rightarrow> 'k \<Rightarrow> 'r option"
    and stored :: "'m \<Rightarrow> 'k \<Rightarrow> 'r list"
    and ok :: "'m \<Rightarrow> bool"
  assumes ok_extend: "ok m \<Longrightarrow> ok (extend rs m)"
    and stored_extend: "ok m \<Longrightarrow> stored (extend rs m) k = stored m k @ filter (\<lambda>r. key r = k) rs"
    and lookup_None: "lookup pick m k = None \<longleftrightarrow> stored m k = []"
    and lookup_member: "picks_member pick \<Longrightarrow> lookup pick m k = Some r \<Longrightarrow> r \<in> set (stored m k)"
begin

definition keyed :: "'m \<Rightarrow> bool" where
  "keyed m \<longleftrightarrow> ok m \<and> (\<forall>k. \<forall>r \<in> set (stored m k). key r = k)"

lemma keyed_extend: "keyed m \<Longrightarrow> keyed (extend rs m)"
  by (auto simp: keyed_def ok_extend stored_extend)

lemma lookup_key: "picks_member pick \<Longrightarrow> keyed m \<Longrightarrow> lookup pick m k = Some r \<Longrightarrow> key r = k"
  using lookup_member by (auto simp: keyed_def)

lemma lookup_extend_fresh:
  assumes "picks_member pick" "ok m" "r \<in> set rs" "stored m (key r) = []"
    and "\<And>r'. r' \<in> set rs \<Longrightarrow> key r' = key r \<Longrightarrow> r' = r"
  shows "lookup pick (extend rs m) (key r) = Some r"
proof -
  have st: "stored (extend rs m) (key r) = filter (\<lambda>r'. key r' = key r) rs"
    using assms(2,4) by (simp add: stored_extend)
  then have "lookup pick (extend rs m) (key r) \<noteq> None"
    using assms(3) by (auto simp: lookup_None filter_empty_conv)
  then obtain r' where r': "lookup pick (extend rs m) (key r) = Some r'" by blast
  then have "r' \<in> set rs \<and> key r' = key r"
    using lookup_member [OF assms(1) r'] by (auto simp: st)
  with assms(5) r' show ?thesis by blast
qed

lemma lookup_extend_exists:
  assumes "ok m" "r \<in> set rs"
  shows "lookup pick (extend rs m) (key r) \<noteq> None"
  using assms by (auto simp: lookup_None stored_extend filter_empty_conv)

lemma lookup_extend_kept: "ok m \<Longrightarrow> lookup pick m k \<noteq> None \<Longrightarrow> lookup pick (extend rs m) k \<noteq> None"
  by (simp add: lookup_None stored_extend)

lemma lookup_extend_fresh_list:
  assumes "picks_member pick" "ok m" "distinct (map key rs)" "\<And>r. r \<in> set rs \<Longrightarrow> stored m (key r) = []"
  shows "map (lookup pick (extend rs m) \<circ> key) rs = map Some rs"
  using assms by (auto intro!: lookup_extend_fresh simp: distinct_map inj_on_def)

end

end
