(* ===== verification/Primitives.thy ===== *)
theory Primitives
  imports Moved_Prelude
begin

text \<open>
  The primitive conversions of \<^verbatim>\<open>shared/src/primitives.rs\<close>: Ethereum addresses (20 bytes) inside
  Move addresses (32 bytes), 256-bit integers seen as four 64-bit limbs and as little-endian
  bytes, and receipts whose logs are replaced by their RPC form. The byte-order functions of the
  standard library that the sources use are modelled here too.
\<close>

section \<open>Byte order\<close>

fun le_bytes :: "nat \<Rightarrow> 'a::len word \<Rightarrow> bytes" where
  "le_bytes 0 w = []"
| "le_bytes (Suc n) w = ucast w # le_bytes n (drop_bit 8 w)"

fun from_le_bytes :: "bytes \<Rightarrow> 'a::len word" where
  "from_le_bytes [] = 0"
| "from_le_bytes (b # bs) = ucast b + push_bit 8 (from_le_bytes bs)"

definition be_bytes :: "nat \<Rightarrow> 'a::len word \<Rightarrow> bytes" where
  "be_bytes n w = rev (le_bytes n w)"

definition from_be_bytes :: "bytes \<Rightarrow> 'a::len word" where
  "from_be_bytes bs = from_le_bytes (rev bs)"

lemma length_le_bytes [simp]: "length (le_bytes n w) = n"
  by (induction n arbitrary: w) simp_all

lemma length_be_bytes [simp]: "length (be_bytes n w) = n"
  by (simp add: be_bytes_def)

lemma from_le_bytes_cons_or:
  "(from_le_bytes (b # bs) :: 'a::len word) = or (ucast b) (push_bit 8 (from_le_bytes bs))"
proof -
  have "and (ucast b :: 'a word) (push_bit 8 (from_le_bytes bs)) = 0"
    by (rule bit_word_eqI) (auto simp: bit_simps dest: bit_imp_le_length)
  then show ?thesis by (simp add: disjunctive_add_eq_or)
qed

lemma from_le_bytes_le_bytes:
  "from_le_bytes (le_bytes n w) = take_bit (8 * n) (w :: 'a::len word)"
proof (induction n arbitrary: w)
  case 0
  then show ?case by simp
next
  case (Suc n)
  show ?case
    unfolding le_bytes.simps from_le_bytes_cons_or Suc.IH
    by (rule bit_word_eqI) (auto simp: bit_simps)
qed

lemma le_bytes_cong:
  assumes "\<And>i. i < 8 * n \<Longrightarrow> bit v i = bit v' i"
  shows "le_bytes n v = le_bytes n (v' :: 'a::len word)"
  using assms
proof (induction n arbitrary: v v')
  case 0
  then show ?case by simp
next
  case (Suc n)
  have "ucast v = (ucast v' :: 8 word)"
    by (intro bit_word_eqI) (simp add: bit_simps Suc.prems)
  moreover have "le_bytes n (drop_bit 8 v) = le_bytes n (drop_bit 8 v')"
    by (rule Suc.IH) (simp add: bit_simps Suc.prems)
  ultimately show ?case by simp
qed

lemma le_bytes_from_le_bytes:
  "8 * length bs \<le> LENGTH('a) \<Longrightarrow> le_bytes (length bs) (from_le_bytes bs :: 'a::len word) = bs"
proof (induction bs)
  case Nil
  then show ?case by simp
next
  case (Cons b bs)
  have "ucast (from_le_bytes (b # bs) :: 'a word) = b"
    unfolding from_le_bytes_cons_or using Cons.prems
    by (intro bit_word_eqI) (auto simp: bit_simps)
  moreover have "le_bytes (length bs) (drop_bit 8 (from_le_bytes (b # bs) :: 'a word))
      = le_bytes (length bs) (from_le_bytes bs :: 'a word)"
    unfolding from_le_bytes_cons_or using Cons.prems
    by (intro le_bytes_cong) (auto simp: bit_simps dest: bit_imp_le_length)
  ultimately show ?case using Cons by simp
qed

section \<open>Addresses\<close>

type_synonym address = bytes
type_synonym account_address = bytes
type_synonym b256 = bytes

definition to_eth_address :: "account_address \<Rightarrow> address" where
  "to_eth_address a = drop 12 a"

definition to_move_address :: "address \<Rightarrow> account_address" where
  "to_move_address a = replicate 12 0 @ a"

lemma length_to_move_address [simp]: "length (to_move_address a) = 12 + length a"
  by (simp add: to_move_address_def)

lemma length_to_eth_address [simp]: "length (to_eth_address a) = length a - 12"
  by (simp add: to_eth_address_def)

lemma to_eth_to_move [simp]: "to_eth_address (to_move_address a) = a"
  by (simp add: to_eth_address_def to_move_address_def)

lemma to_move_address_inj [simp]: "to_move_address a = to_move_address b \<longleftrightarrow> a = b"
  by (simp add: to_move_address_def)

lemma to_move_to_eth_iff:
  assumes "length a = 32"
  shows "to_move_address (to_eth_address a) = a \<longleftrightarrow> take 12 a = replicate 12 0"
proof -
  have "to_move_address (to_eth_address a) = replicate 12 0 @ drop 12 a"
    by (simp add: to_move_address_def to_eth_address_def)
  moreover have "a = take 12 a @ drop 12 a" by simp
  ultimately show ?thesis using assms
    by (metis append_eq_append_conv length_replicate length_take min.absorb4 numeral_less_iff
        semiring_norm(76) semiring_norm(81) semiring_norm(78))
qed

section \<open>Integers\<close>

definition into_limbs :: "u256 \<Rightarrow> u64 list" where
  "into_limbs w = [ucast w, ucast (drop_bit 64 w), ucast (drop_bit 128 w), ucast (drop_bit 192 w)]"

definition to_u64 :: "u64 \<Rightarrow> u64" where
  "to_u64 w = w"

definition to_saturated_u64 :: "u256 \<Rightarrow> u64" where
  "to_saturated_u64 w =
     (case into_limbs w of
        [value, l1, l2, l3] \<Rightarrow> if l1 = 0 \<and> l2 = 0 \<and> l3 = 0 then value else max_of
      | _ \<Rightarrow> max_of)"

text \<open>\<open>to_u256\<close> and \<open>to_move_u256\<close> go through little-endian bytes in both directions.\<close>

definition to_u256 :: "u256 \<Rightarrow> u256" where
  "to_u256 move_value = from_le_bytes (le_bytes 32 move_value)"

definition to_move_u256 :: "u256 \<Rightarrow> u256" where
  "to_move_u256 value = from_le_bytes (le_bytes 32 value)"

definition b256_to_move_u256 :: "b256 \<Rightarrow> u256" where
  "b256_to_move_u256 b = from_le_bytes b"

definition u128_to_move_u256 :: "u128 \<Rightarrow> u256" where
  "u128_to_move_u256 v = ucast v"

lemma le_bytes_32_inverse [simp]: "from_le_bytes (le_bytes 32 v) = (v :: u256)"
  by (simp add: from_le_bytes_le_bytes) (rule bit_word_eqI, simp add: bit_simps)

lemma le_bytes_8_inverse [simp]: "from_le_bytes (le_bytes 8 v) = (v :: u64)"
  by (simp add: from_le_bytes_le_bytes) (rule bit_word_eqI, simp add: bit_simps)

lemma to_u256_id [simp]: "to_u256 v = v"
  by (simp add: to_u256_def)

lemma to_move_u256_id [simp]: "to_move_u256 v = v"
  by (simp add: to_move_u256_def)

lemma high_limbs_zero_iff:
  "ucast (drop_bit 64 w) = (0 :: u64) \<and> ucast (drop_bit 128 w) = (0 :: u64)
     \<and> ucast (drop_bit 192 w) = (0 :: u64) \<longleftrightarrow> unat (w :: u256) < 2 ^ 64"
  (is "?l \<longleftrightarrow> _")
proof -
  have "?l \<longleftrightarrow> drop_bit 64 w = 0"
  proof
    assume l: ?l
    have "\<not> bit w n" if n: "64 \<le> n" "n < 256" for n
    proof -
      consider "n < 128" | "128 \<le> n" "n < 192" | "192 \<le> n" by linarith
      then show ?thesis
      proof cases
        case 1
        with l n show ?thesis
          by (auto dest!: arg_cong [where f = "\<lambda>v. bit v (n - 64)"] simp: bit_simps)
      next
        case 2
        with l n show ?thesis
          by (auto dest!: arg_cong [where f = "\<lambda>v. bit v (n - 128)"] simp: bit_simps)
      next
        case 3
        with l n show ?thesis
          by (auto dest!: arg_cong [where f = "\<lambda>v. bit v (n - 192)"] simp: bit_simps)
      qed
    qed
    then have "\<not> bit w n" if "64 \<le> n" for n
      using that bit_imp_le_length [of w n] by auto
    then show "drop_bit 64 w = 0"
      by (intro bit_word_eqI) (simp add: bit_simps)
  next
    assume "drop_bit 64 w = 0"
    then have "\<not> bit w n" if "64 \<le> n" for n
      using that by (auto dest!: arg_cong [where f = "\<lambda>v. bit v (n - 64)"] simp: bit_simps)
    then show ?l by (auto intro!: bit_word_eqI simp: bit_simps)
  qed
  also have "\<dots> \<longleftrightarrow> unat (drop_bit 64 w) = 0" by (simp add: unat_eq_0)
  also have "\<dots> \<longleftrightarrow> unat w < 2 ^ 64"
    unfolding unsigned_drop_bit_eq
    using unat_less [of w] by (simp only: drop_bit_eq_div div_eq_0_iff take_bit_nat_eq_self) simp
  finally show ?thesis .
qed

lemma to_saturated_u64_eq: "to_saturated_u64 w = saturating_to w"
  using high_limbs_zero_iff [of w]
  by (auto simp: to_saturated_u64_def into_limbs_def saturating_to_def)

section \<open>Panics, logs and receipts\<close>

text \<open>A panic of the Rust code, with the message or the macro that raises it.\<close>

datatype panic = Panic string

type_synonym bloom = "2048 word"

record log =
  log_address :: address
  log_topics :: "b256 list"
  log_data :: bytes

record 'l receipt =
  status :: bool
  cumulative_gas_used :: u64
  logs :: "'l list"

record 'l op_deposit_receipt =
  inner :: "'l receipt"
  deposit_nonce :: "u64 option"
  deposit_receipt_version :: "u64 option"

datatype 'l op_receipt_envelope =
  ReceiptLegacy "'l receipt" bloom
| ReceiptEip2930 "'l receipt" bloom
| ReceiptEip1559 "'l receipt" bloom
| ReceiptEip7702 "'l receipt" bloom
| ReceiptDeposit "'l op_deposit_receipt" bloom

definition replace_logs :: "'k list \<Rightarrow> 'l receipt \<Rightarrow> 'k receipt" where
  "replace_logs ls r =
     \<lparr>status = status r, cumulative_gas_used = cumulative_gas_used r, logs = ls\<rparr>"

fun with_rpc_logs :: "'l op_receipt_envelope \<Rightarrow> 'k list \<Rightarrow> panic + 'k op_receipt_envelope" where
  "with_rpc_logs (ReceiptLegacy r b) ls = Inr (ReceiptLegacy (replace_logs ls r) b)"
| "with_rpc_logs (ReceiptEip2930 r b) ls = Inr (ReceiptEip2930 (replace_logs ls r) b)"
| "with_rpc_logs (ReceiptEip1559 r b) ls = Inr (ReceiptEip1559 (replace_logs ls r) b)"
| "with_rpc_logs (ReceiptDeposit d b) ls =
     Inr (ReceiptDeposit \<lparr>inner = replace_logs ls (inner d), deposit_nonce = deposit_nonce d,
            deposit_receipt_version = deposit_receipt_version d\<rparr> b)"
| "with_rpc_logs (ReceiptEip7702 r b) ls = Inl (Panic ''unreachable'')"

text \<open>The inner receipt of an envelope, whatever its type (\<open>OpReceiptEnvelope::as_receipt\<close>).\<close>

fun receipt_of :: "'l op_receipt_envelope \<Rightarrow> 'l receipt" where
  "receipt_of (ReceiptLegacy r b) = r"
| "receipt_of (ReceiptEip2930 r b) = r"
| "receipt_of (ReceiptEip1559 r b) = r"
| "receipt_of (ReceiptEip7702 r b) = r"
| "receipt_of (ReceiptDeposit d b) = inner d"

fun bloom_of :: "'l op_receipt_envelope \<Rightarrow> bloom" where
  "bloom_of (ReceiptLegacy r b) = b"
| "bloom_of (ReceiptEip2930 r b) = b"
| "bloom_of (ReceiptEip1559 r b) = b"
| "bloom_of (ReceiptEip7702 r b) = b"
| "bloom_of (ReceiptDeposit d b) = b"

lemma receipt_of_with_rpc_logs:
  "with_rpc_logs e ls = Inr e' \<Longrightarrow>
     receipt_of e' = replace_logs ls (receipt_of e) \<and> bloom_of e' = bloom_of e"
  by (cases e) auto

section \<open>Properties of the conversions\<close>

text \<open>An Ethereum address survives the trip through a Move address and back, and a 32-byte Move
  address survives the trip through an Ethereum address exactly when its first 12 bytes are zero,
  as the round-trip tests of \<^verbatim>\<open>shared/src/primitives.rs\<close> expect.\<close>

lemma address_round_trip:
  "to_eth_address (to_move_address e) = e \<and>
   (length a = 32 \<longrightarrow> (to_move_address (to_eth_address a) = a \<longleftrightarrow> take 12 a = replicate 12 0))"
  by (simp add: to_move_to_eth_iff)

text \<open>The limb-matching conversion \<open>to_saturated_u64\<close> is saturation at the largest 64-bit
  value: it returns the number itself when it fits and \<open>u64::MAX\<close> otherwise.\<close>

lemma to_saturated_u64_saturates:
  "unat (to_saturated_u64 w) = min (unat w) (2 ^ 64 - 1)"
  by (simp add: to_saturated_u64_eq unat_saturating_to)

end
