(* ===== verification/Block_Memory.thy ===== *)
theory Block_Memory
  imports Evmap Primitives
begin

text \<open>
  Blocks and the in-memory block store: \<^verbatim>\<open>blockchain/src/block/write.rs\<close> and
  \<^verbatim>\<open>blockchain/src/block/in_memory.rs\<close>. The store keeps every block under its hash, its number and its
  payload id. \<open>BlockMemory::add\<close> writes the three indices and then makes them visible to readers one
  after the other; the steps are kept apart because readers run concurrently.
\<close>

section \<open>Blocks\<close>

record header =
  hd_parent_hash :: b256
  hd_ommers_hash :: b256
  hd_beneficiary :: address
  hd_state_root :: b256
  hd_transactions_root :: b256
  hd_receipts_root :: b256
  hd_logs_bloom :: bloom
  hd_difficulty :: u256
  hd_number :: u64
  hd_gas_limit :: u64
  hd_gas_used :: u64
  hd_timestamp :: u64
  hd_extra_data :: bytes
  hd_mix_hash :: b256
  hd_nonce :: u64
  hd_base_fee_per_gas :: "u64 option"
  hd_withdrawals_root :: "b256 option"
  hd_blob_gas_used :: "u64 option"
  hd_excess_blob_gas :: "u64 option"
  hd_parent_beacon_block_root :: "b256 option"
  hd_requests_hash :: "b256 option"

type_synonym payload_id = u64

record block =
  bl_header :: header
  bl_transactions :: "b256 list"

record extended_block =
  eb_hash :: b256
  eb_value :: u256
  eb_payload_id :: payload_id
  eb_block :: block

definition extended_block_new :: "b256 \<Rightarrow> u256 \<Rightarrow> payload_id \<Rightarrow> block \<Rightarrow> extended_block" where
  "extended_block_new h v i b =
     \<lparr>eb_hash = h, eb_value = v, eb_payload_id = i, eb_block = b\<rparr>"

definition with_value :: "u256 \<Rightarrow> extended_block \<Rightarrow> extended_block" where
  "with_value v b = b\<lparr>eb_value := v\<rparr>"

definition with_payload_id :: "payload_id \<Rightarrow> extended_block \<Rightarrow> extended_block" where
  "with_payload_id i b = b\<lparr>eb_payload_id := i\<rparr>"

definition transaction_hashes :: "extended_block \<Rightarrow> b256 list" where
  "transaction_hashes b = bl_transactions (eb_block b)"

definition block_new :: "header \<Rightarrow> b256 list \<Rightarrow> block" where
  "block_new h txs = \<lparr>bl_header = h, bl_transactions = txs\<rparr>"

definition with_hash :: "b256 \<Rightarrow> block \<Rightarrow> extended_block" where
  "with_hash h b = extended_block_new h 0 0 b"

abbreviation number_of :: "extended_block \<Rightarrow> u64" where
  "number_of b \<equiv> hd_number (bl_header (eb_block b))"

section \<open>The store\<close>

record block_memory =
  bm_hashes :: "(b256, extended_block) evmap"
  bm_heights :: "(u64, extended_block) evmap"
  bm_payload_ids :: "(payload_id, extended_block) evmap"

definition block_memory_new :: block_memory where
  "block_memory_new = \<lparr>bm_hashes = em_new, bm_heights = em_new, bm_payload_ids = em_new\<rparr>"

text \<open>The three insertions, and the three refreshes in the order of the code.\<close>

definition bm_insert :: "extended_block \<Rightarrow> block_memory \<Rightarrow> block_memory" where
  "bm_insert b m =
     m\<lparr>bm_hashes := em_insert (eb_hash b) b (bm_hashes m),
       bm_heights := em_insert (number_of b) b (bm_heights m),
       bm_payload_ids := em_insert (eb_payload_id b) b (bm_payload_ids m)\<rparr>"

definition bm_refresh_hashes :: "block_memory \<Rightarrow> block_memory" where
  "bm_refresh_hashes m = m\<lparr>bm_hashes := em_refresh (bm_hashes m)\<rparr>"

definition bm_refresh_heights :: "block_memory \<Rightarrow> block_memory" where
  "bm_refresh_heights m = m\<lparr>bm_heights := em_refresh (bm_heights m)\<rparr>"

definition bm_refresh_payload_ids :: "block_memory \<Rightarrow> block_memory" where
  "bm_refresh_payload_ids m = m\<lparr>bm_payload_ids := em_refresh (bm_payload_ids m)\<rparr>"

definition add_steps :: "extended_block \<Rightarrow> (block_memory \<Rightarrow> block_memory) list" where
  "add_steps b = [bm_insert b, bm_refresh_hashes, bm_refresh_heights, bm_refresh_payload_ids]"

definition block_memory_add :: "extended_block \<Rightarrow> block_memory \<Rightarrow> block_memory" where
  "block_memory_add b m = fold (\<lambda>step. step) (add_steps b) m"

text \<open>Reads: \<open>pick\<close> is the choice of \<open>get_one\<close>.\<close>

type_synonym block_pick = "extended_block list \<Rightarrow> extended_block"

definition by_hash :: "block_pick \<Rightarrow> block_memory \<Rightarrow> b256 \<Rightarrow> extended_block option" where
  "by_hash pick m h = get_one pick (bm_hashes m) h"

definition by_payload_id :: "block_pick \<Rightarrow> block_memory \<Rightarrow> payload_id \<Rightarrow> extended_block option" where
  "by_payload_id pick m i = get_one pick (bm_payload_ids m) i"

definition map_by_height ::
  "block_pick \<Rightarrow> block_memory \<Rightarrow> u64 \<Rightarrow> (extended_block \<Rightarrow> 'u) \<Rightarrow> 'u option" where
  "map_by_height pick m n f = map_option f (get_one pick (bm_heights m) n)"

definition by_height :: "block_pick \<Rightarrow> block_memory \<Rightarrow> u64 \<Rightarrow> extended_block option" where
  "by_height pick m n = map_by_height pick m n id"

definition height :: "block_memory \<Rightarrow> u64 option" where
  "height m = checked_sub (of_nat (em_len (bm_heights m))) 1"

definition last_block :: "block_pick \<Rightarrow> block_memory \<Rightarrow> extended_block option" where
  "last_block pick m = Option.bind (height m) (by_height pick m)"

text \<open>\<open>InMemoryBlockRepository\<close> forwards to the store; its error type has no value.\<close>

definition repository_add :: "extended_block \<Rightarrow> block_memory \<Rightarrow> block_memory" where
  "repository_add b m = block_memory_add b m"

definition repository_by_hash :: "block_pick \<Rightarrow> block_memory \<Rightarrow> b256 \<Rightarrow> extended_block option" where
  "repository_by_hash pick m h = by_hash pick m h"

definition repository_latest :: "block_pick \<Rightarrow> block_memory \<Rightarrow> extended_block option" where
  "repository_latest pick m = last_block pick m"

section \<open>Invariants\<close>

definition bm_synced :: "block_memory \<Rightarrow> bool" where
  "bm_synced m \<longleftrightarrow>
     em_synced (bm_hashes m) \<and> em_synced (bm_heights m) \<and> em_synced (bm_payload_ids m)"

text \<open>What readers see: a block found under its number or its payload id is found under its hash.\<close>

definition readers_consistent :: "block_memory \<Rightarrow> bool" where
  "readers_consistent m \<longleftrightarrow>
     (\<forall>n b. b \<in> set (bag (em_read (bm_heights m)) n) \<longrightarrow>
        b \<in> set (bag (em_read (bm_hashes m)) (eb_hash b)) \<and> number_of b = n) \<and>
     (\<forall>i b. b \<in> set (bag (em_read (bm_payload_ids m)) i) \<longrightarrow>
        b \<in> set (bag (em_read (bm_hashes m)) (eb_hash b)) \<and> eb_payload_id b = i)"

text \<open>The blocks form a chain: the numbers present are \<open>0, \<dots>, len - 1\<close>.\<close>

definition chain_ok :: "block_memory \<Rightarrow> bool" where
  "chain_ok m \<longleftrightarrow> bm_synced m \<and> readers_consistent m \<and>
     fst ` set (em_read (bm_heights m)) = of_nat ` {..<em_len (bm_heights m)} \<and>
     em_len (bm_heights m) < 2 ^ 64"

lemmas bm_defs = bm_insert_def bm_refresh_hashes_def bm_refresh_heights_def
  bm_refresh_payload_ids_def

lemma block_memory_add_eq:
  "block_memory_add b m =
     \<lparr>bm_hashes = em_refresh (em_insert (eb_hash b) b (bm_hashes m)),
      bm_heights = em_refresh (em_insert (number_of b) b (bm_heights m)),
      bm_payload_ids = em_refresh (em_insert (eb_payload_id b) b (bm_payload_ids m))\<rparr>"
  by (simp add: block_memory_add_def add_steps_def bm_defs)

lemma em_synced_insert: "em_synced m \<Longrightarrow> em_synced (em_refresh (em_insert k v m))"
  by (simp add: em_synced_def em_refresh_def em_insert_def bags_ok_bag_insert)

lemma bm_synced_add: "bm_synced m \<Longrightarrow> bm_synced (block_memory_add b m)"
  by (simp add: bm_synced_def block_memory_add_eq em_synced_insert)

lemma bag_insert_read:
  "em_synced m \<Longrightarrow> bag (em_read (em_refresh (em_insert k v m))) k'
     = (if k = k' then bag (em_read m) k @ [v] else bag (em_read m) k')"
  by (simp add: em_synced_def em_refresh_def em_insert_def)

lemma bags_after_add:
  assumes "bm_synced m"
  shows "bag (em_read (bm_hashes (block_memory_add b m))) h
           = (if eb_hash b = h then bag (em_read (bm_hashes m)) h @ [b]
              else bag (em_read (bm_hashes m)) h)"
    and "bag (em_read (bm_heights (block_memory_add b m))) n
           = (if number_of b = n then bag (em_read (bm_heights m)) n @ [b]
              else bag (em_read (bm_heights m)) n)"
    and "bag (em_read (bm_payload_ids (block_memory_add b m))) i
           = (if eb_payload_id b = i then bag (em_read (bm_payload_ids m)) i @ [b]
              else bag (em_read (bm_payload_ids m)) i)"
  using assms by (auto simp: block_memory_add_eq bm_synced_def bag_insert_read)

lemma readers_consistent_add:
  "bm_synced m \<Longrightarrow> readers_consistent m \<Longrightarrow> readers_consistent (block_memory_add b m)"
  by (auto simp: readers_consistent_def bags_after_add split: if_splits)

section \<open>The chain of blocks\<close>

lemma get_one_by_height: "by_height pick m n = get_one pick (bm_heights m) n"
  by (simp add: by_height_def map_by_height_def option.map_id)

lemma length_insert_read:
  assumes "em_synced m"
  shows "em_len (em_refresh (em_insert k v m))
      = (if k \<in> fst ` set (em_read m) then em_len m else Suc (em_len m))"
    and "fst ` set (em_read (em_refresh (em_insert k v m))) = insert k (fst ` set (em_read m))"
  using assms
  by (auto simp: em_synced_def em_len_def em_refresh_def em_insert_def length_bag_insert
      keys_bag_insert simp flip: set_map)

lemma chain_ok_new: "chain_ok block_memory_new"
  by (simp add: chain_ok_def block_memory_new_def bm_synced_def readers_consistent_def em_new_def
      em_len_def em_synced_def)

lemma chain_ok_synced: "chain_ok m \<Longrightarrow> bm_synced m"
  by (simp add: chain_ok_def)

lemma height_Some: "chain_ok m \<Longrightarrow> height m = Some n \<longleftrightarrow> em_len (bm_heights m) = Suc (unat n)"
proof -
  assume "chain_ok m"
  then have len: "em_len (bm_heights m) < 2 ^ 64" by (simp add: chain_ok_def)
  then have u: "unat (of_nat (em_len (bm_heights m)) :: u64) = em_len (bm_heights m)"
    by (simp add: unat_of_nat)
  show ?thesis
  proof (cases "em_len (bm_heights m)")
    case 0
    then show ?thesis by (simp add: height_def checked_sub_def)
  next
    case (Suc k)
    then have "(1 :: u64) \<le> of_nat (em_len (bm_heights m))" using u by (simp add: word_le_nat_alt)
    then have "height m = Some (of_nat k)"
      using Suc by (simp add: height_def checked_sub_def)
    moreover have "unat (of_nat k :: u64) = k" using Suc len by (simp add: unat_of_nat)
    ultimately show ?thesis using Suc by (auto simp: word_unat_eq_iff)
  qed
qed

lemma next_number_fresh:
  assumes "chain_ok m" "unat (number_of b) = em_len (bm_heights m)"
  shows "number_of b \<notin> fst ` set (em_read (bm_heights m))"
proof
  assume "number_of b \<in> fst ` set (em_read (bm_heights m))"
  then obtain k where k: "k < em_len (bm_heights m)" "number_of b = of_nat k"
    using assms(1) by (auto simp: chain_ok_def)
  then have "unat (number_of b) = k"
    using assms(1) by (simp add: chain_ok_def unat_of_nat)
  with k assms(2) show False by simp
qed

lemma chain_ok_add:
  assumes "chain_ok m" "unat (number_of b) = em_len (bm_heights m)"
    and "Suc (em_len (bm_heights m)) < 2 ^ 64"
  shows "chain_ok (block_memory_add b m)"
    and "em_len (bm_heights (block_memory_add b m)) = Suc (em_len (bm_heights m))"
proof -
  let ?h = "bm_heights m"
  have sy: "bm_synced m" "em_synced ?h" using assms(1) by (simp_all add: chain_ok_def bm_synced_def)
  have fresh: "number_of b \<notin> fst ` set (em_read ?h)" by (rule next_number_fresh [OF assms(1,2)])
  show len: "em_len (bm_heights (block_memory_add b m)) = Suc (em_len ?h)"
    using fresh by (simp add: block_memory_add_eq length_insert_read [OF sy(2)])
  have keys: "fst ` set (em_read (bm_heights (block_memory_add b m)))
      = insert (number_of b) (of_nat ` {..<em_len ?h})"
    using assms(1) by (simp add: block_memory_add_eq length_insert_read [OF sy(2)] chain_ok_def)
  have "number_of b = of_nat (em_len ?h)" by (simp flip: assms(2))
  then have "fst ` set (em_read (bm_heights (block_memory_add b m)))
      = of_nat ` {..<Suc (em_len ?h)}"
    unfolding keys lessThan_Suc by simp
  then show "chain_ok (block_memory_add b m)"
    using assms(1,3) sy len
    by (simp add: chain_ok_def bm_synced_add readers_consistent_add)
qed

lemma by_height_add:
  assumes "picks_member pick" "chain_ok m" "unat (number_of b) = em_len (bm_heights m)"
  shows "by_height pick (block_memory_add b m) (number_of b) = Some b"
    and "n \<noteq> number_of b \<Longrightarrow> by_height pick (block_memory_add b m) n = by_height pick m n"
proof -
  have sy: "bm_synced m" using assms(2) by (rule chain_ok_synced)
  then have "bags_ok (em_read (bm_heights m))"
    by (simp add: bm_synced_def em_synced_def)
  then have "bag (em_read (bm_heights m)) (number_of b) = []"
    using next_number_fresh [OF assms(2,3)]
      bag_nonempty_iff [of "em_read (bm_heights m)" "number_of b"] by simp
  then show "by_height pick (block_memory_add b m) (number_of b) = Some b"
    using assms(1) by (simp add: get_one_by_height get_one_def bags_after_add [OF sy] Let_def)
  show "by_height pick (block_memory_add b m) n = by_height pick m n" if "n \<noteq> number_of b"
    using that by (simp add: get_one_by_height get_one_def bags_after_add [OF sy])
qed

text \<open>Adding again the only block at its height changes no height and nothing that is read by height.\<close>

lemma add_again:
  assumes "picks_member pick" "chain_ok m" "set (bag (em_read (bm_heights m)) (number_of b)) = {b}"
  shows "chain_ok (block_memory_add b m)"
    and "em_len (bm_heights (block_memory_add b m)) = em_len (bm_heights m)"
    and "by_height pick (block_memory_add b m) n = by_height pick m n"
proof -
  let ?h = "bm_heights m" and ?bag = "bag (em_read (bm_heights m)) (number_of b)"
  have sy: "bm_synced m" "em_synced ?h" "bags_ok (em_read ?h)"
    using assms(2) by (simp_all add: chain_ok_def bm_synced_def em_synced_def)
  have "?bag \<noteq> []" using assms(3) by (metis empty_set insert_not_empty)
  then have key: "number_of b \<in> fst ` set (em_read ?h)" by (simp add: bag_nonempty_iff [OF sy(3)])
  then have same: "fst ` set (em_read (bm_heights (block_memory_add b m))) = fst ` set (em_read ?h)"
    by (simp add: block_memory_add_eq length_insert_read [OF sy(2)] insert_absorb)
  show len: "em_len (bm_heights (block_memory_add b m)) = em_len ?h"
    using key by (simp add: block_memory_add_eq length_insert_read [OF sy(2)])
  show "chain_ok (block_memory_add b m)"
    using assms(2) by (simp add: chain_ok_def same len bm_synced_add readers_consistent_add)
  have "pick vs = b" if "vs \<noteq> []" "set vs = {b}" for vs
    using assms(1) that unfolding picks_member_def by blast
  then have "pick (?bag @ [b]) = b" "pick ?bag = b" using assms(3) \<open>?bag \<noteq> []\<close> by simp_all
  then show "by_height pick (block_memory_add b m) n = by_height pick m n"
    using \<open>?bag \<noteq> []\<close> by (auto simp: get_one_by_height get_one_def bags_after_add [OF sy(1)] Let_def)
qed

lemma last_block_add:
  assumes "picks_member pick" "chain_ok m" "unat (number_of b) = em_len (bm_heights m)"
    and "Suc (em_len (bm_heights m)) < 2 ^ 64"
  shows "height (block_memory_add b m) = Some (number_of b)"
    and "last_block pick (block_memory_add b m) = Some b"
proof -
  show h: "height (block_memory_add b m) = Some (number_of b)"
    using chain_ok_add [OF assms(2-4)] assms(3) by (simp add: height_Some)
  show "last_block pick (block_memory_add b m) = Some b"
    using by_height_add(1) [OF assms(1-3)] by (simp add: last_block_def h)
qed

lemma last_block_number:
  assumes "picks_member pick" "chain_ok m" "last_block pick m = Some b"
  shows "height m = Some (number_of b)" "em_len (bm_heights m) = Suc (unat (number_of b))"
proof -
  from assms(3) obtain n where n: "height m = Some n" "get_one pick (bm_heights m) n = Some b"
    by (auto simp: last_block_def get_one_by_height bind_eq_Some_conv)
  then have "number_of b = n"
    using assms(2) get_one_Some_member [OF assms(1) n(2)]
    by (auto simp: chain_ok_def readers_consistent_def)
  with n show "height m = Some (number_of b)" by simp
  with assms(2) show "em_len (bm_heights m) = Suc (unat (number_of b))"
    by (simp add: height_Some)
qed

lemma last_block_exists:
  assumes "chain_ok m" "em_len (bm_heights m) \<noteq> 0"
  shows "\<exists>b. last_block pick m = Some b"
proof -
  obtain k where k: "em_len (bm_heights m) = Suc k" using assms(2) not0_implies_Suc by blast
  have "k < 2 ^ 64" using assms(1) k by (simp add: chain_ok_def)
  then have h: "height m = Some (of_nat k)" using assms(1) k by (simp add: height_Some unat_of_nat)
  have "of_nat k \<in> fst ` set (em_read (bm_heights m))"
    using assms(1) k by (simp add: chain_ok_def)
  moreover have "bags_ok (em_read (bm_heights m))"
    using assms(1) by (simp add: chain_ok_def bm_synced_def em_synced_def)
  ultimately have "bag (em_read (bm_heights m)) (of_nat k) \<noteq> []"
    by (simp add: bag_nonempty_iff)
  then show ?thesis by (simp add: last_block_def h get_one_by_height get_one_def Let_def)
qed

section \<open>Readers during the writes\<close>

text \<open>The readers' view is consistent after every atomic step of the writer, so after every prefix of
  its steps.\<close>

lemma readers_consistent_insert: "readers_consistent m \<Longrightarrow> readers_consistent (bm_insert b m)"
  by (simp add: readers_consistent_def bm_insert_def em_insert_def)

lemma readers_consistent_refresh_hashes:
  assumes "bm_synced m" "readers_consistent m"
  shows "readers_consistent (bm_refresh_hashes (bm_insert b m))"
  using assms by (auto simp: readers_consistent_def bm_defs bm_synced_def bag_insert_read)
      (auto simp: em_insert_def)

lemma readers_consistent_refresh_heights:
  assumes "bm_synced m" "readers_consistent m"
  shows "readers_consistent (bm_refresh_heights (bm_refresh_hashes (bm_insert b m)))"
  using assms
  by (auto simp: readers_consistent_def bm_defs bm_synced_def bag_insert_read split: if_splits)
    (auto simp: em_insert_def)

lemma readers_consistent_prefix:
  assumes "bm_synced m" "readers_consistent m"
  shows "readers_consistent (fold (\<lambda>step. step) (take k (add_steps b)) m)"
proof -
  consider "k = 0" | "k = 1" | "k = 2" | "k = 3" | "k \<ge> 4" by linarith
  then show ?thesis
  proof cases
    case 5
    then show ?thesis
      using readers_consistent_add [OF assms]
      by (simp add: block_memory_add_def add_steps_def)
  qed (simp_all add: add_steps_def assms readers_consistent_insert numeral_2_eq_2 numeral_3_eq_3
      readers_consistent_refresh_hashes readers_consistent_refresh_heights)
qed

lemma fold_concat_add_steps:
  "fold (\<lambda>step. step) (concat (map add_steps bs)) m = fold block_memory_add bs m"
  by (induction bs arbitrary: m) (simp_all add: block_memory_add_def)

lemma readers_consistent_run:
  assumes "bm_synced m" "readers_consistent m"
  shows "readers_consistent (fold (\<lambda>step. step) (take k (concat (map add_steps bs))) m)"
  using assms
proof (induction bs arbitrary: m k)
  case (Cons b bs)
  have len: "length (add_steps b) = 4" by (simp add: add_steps_def)
  have "fold (\<lambda>step. step) (take (k - 4) (concat (map add_steps bs))) (block_memory_add b m)
      = fold (\<lambda>step. step) (take k (concat (map add_steps (b # bs)))) m" if "4 \<le> k"
    using that by (simp add: len block_memory_add_def)
  moreover have "readers_consistent
      (fold (\<lambda>step. step) (take (k - 4) (concat (map add_steps bs))) (block_memory_add b m))"
    by (intro Cons.IH bm_synced_add readers_consistent_add Cons.prems)
  ultimately show ?case
    using readers_consistent_prefix [OF Cons.prems, of k b] by (cases "4 \<le> k") (auto simp: len)
qed simp

lemma readers_consistent_new: "readers_consistent block_memory_new" "bm_synced block_memory_new"
  using chain_ok_new by (simp_all add: chain_ok_def)

lemma by_height_in_by_hash:
  assumes "picks_member pick" "readers_consistent m" "by_height pick m n = Some b"
  shows "number_of b = n" "by_hash pick m (eb_hash b) \<noteq> None"
proof -
  have "b \<in> set (bag (em_read (bm_heights m)) n)"
    using get_one_Some_member [OF assms(1)] assms(3) by (simp add: get_one_by_height)
  then have "b \<in> set (bag (em_read (bm_hashes m)) (eb_hash b))" and n: "number_of b = n"
    using assms(2) unfolding readers_consistent_def by blast+
  then have "bag (em_read (bm_hashes m)) (eb_hash b) \<noteq> []" by (metis list.set_intros(1) empty_iff empty_set)
  then show "by_hash pick m (eb_hash b) \<noteq> None" by (simp add: by_hash_def get_one_None_iff)
  show "number_of b = n" by (rule n)
qed

text \<open>Whatever blocks the writer adds, and at whatever point between two of its atomic steps a
  concurrent reader looks, a block the reader finds under a height carries that number, and the
  reader finds a block under its hash: a height is never published before the hash it leads to.\<close>

lemma concurrent_readers_follow_heights:
  assumes "picks_member pick"
    and "m = fold (\<lambda>step. step) (take k (concat (map add_steps bs))) block_memory_new"
    and "by_height pick m n = Some b"
  shows "number_of b = n \<and> by_hash pick m (eb_hash b) \<noteq> None"
proof -
  have "readers_consistent m"
    unfolding assms(2) by (intro readers_consistent_run readers_consistent_new)
  then show ?thesis using by_height_in_by_hash [OF assms(1) _ assms(3)] by blast
qed

definition example_header :: "u64 \<Rightarrow> header" where
  "example_header n = \<lparr>hd_parent_hash = [], hd_ommers_hash = [], hd_beneficiary = [],
     hd_state_root = [], hd_transactions_root = [], hd_receipts_root = [], hd_logs_bloom = 0,
     hd_difficulty = 0, hd_number = n, hd_gas_limit = 30000000, hd_gas_used = 0, hd_timestamp = 0,
     hd_extra_data = [], hd_mix_hash = [], hd_nonce = 0, hd_base_fee_per_gas = Some 1000,
     hd_withdrawals_root = None, hd_blob_gas_used = None, hd_excess_blob_gas = None,
     hd_parent_beacon_block_root = None, hd_requests_hash = None\<rparr>"

definition example_block :: "u64 \<Rightarrow> b256 \<Rightarrow> extended_block" where
  "example_block n h = with_payload_id n (with_hash h (block_new (example_header n) []))"

lemmas example_block_defs = example_block_def example_header_def with_payload_id_def with_hash_def
  extended_block_new_def block_new_def

section \<open>The canonical chain\<close>

lemma number_unat: "k < 2 ^ 64 \<Longrightarrow> unat (of_nat k :: u64) = k"
  by (simp add: unat_of_nat)

lemma chain_fold:
  assumes "picks_member pick" "length bs < 2 ^ 64"
    and "\<And>k. k < length bs \<Longrightarrow> number_of (bs ! k) = of_nat k"
  shows "chain_ok (fold block_memory_add bs block_memory_new) \<and>
    em_len (bm_heights (fold block_memory_add bs block_memory_new)) = length bs \<and>
    (\<forall>k < length bs. by_height pick (fold block_memory_add bs block_memory_new) (of_nat k)
       = Some (bs ! k))"
  using assms(2,3)
proof (induction bs rule: rev_induct)
  case Nil
  show ?case by (simp add: chain_ok_new) (simp add: block_memory_new_def em_new_def em_len_def)
next
  case (snoc b bs)
  let ?m = "fold block_memory_add bs block_memory_new"
  have nth: "number_of (bs ! k) = of_nat k" if "k < length bs" for k
    using snoc.prems(2) [of k] that by (simp add: nth_append)
  have IH: "chain_ok ?m" "em_len (bm_heights ?m) = length bs"
    "\<And>k. k < length bs \<Longrightarrow> by_height pick ?m (of_nat k) = Some (bs ! k)"
    using snoc.IH snoc.prems(1) nth by simp_all
  have nb: "number_of b = of_nat (length bs)" using snoc.prems(2) [of "length bs"] by simp
  then have num: "unat (number_of b) = em_len (bm_heights ?m)"
    using snoc.prems(1) by (simp add: IH(2) number_unat)
  have small: "Suc (em_len (bm_heights ?m)) < 2 ^ 64" using snoc.prems(1) by (simp add: IH(2))
  note ok = chain_ok_add [OF IH(1) num small]
  have "by_height pick (block_memory_add b ?m) (of_nat k) = Some ((bs @ [b]) ! k)"
    if "k < Suc (length bs)" for k
  proof (cases "k = length bs")
    case True
    then show ?thesis using by_height_add(1) [OF assms(1) IH(1) num] nb by simp
  next
    case False
    then have k: "k < length bs" using that by simp
    then have "(of_nat k :: u64) \<noteq> number_of b"
      using snoc.prems(1) nb by (metis less_trans nat_neq_iff number_unat length_append_singleton
          lessI)
    then show ?thesis
      using k IH(3) [OF k] by (simp add: by_height_add(2) [OF assms(1) IH(1) num] nth_append)
  qed
  then show ?case using ok by (simp add: IH(2))
qed

text \<open>After the blocks \<open>0, \<dots>, n\<close> of a chain have been added in order, every height leads to
  the block added at it, the height of the store is \<open>n\<close>, the latest block is the last one added,
  and no block is found above it.\<close>

lemma chain_lookup:
  assumes "picks_member pick" "length bs < 2 ^ 64" "bs \<noteq> []"
    and "\<And>k. k < length bs \<Longrightarrow> number_of (bs ! k) = of_nat k"
    and "m = fold repository_add bs block_memory_new"
  shows "(\<forall>k < length bs. by_height pick m (of_nat k) = Some (bs ! k)) \<and>
    height m = Some (of_nat (length bs - 1)) \<and>
    repository_latest pick m = Some (last bs) \<and>
    (\<forall>n. length bs \<le> unat n \<longrightarrow> by_height pick m n = None)"
proof -
  have m: "m = fold block_memory_add bs block_memory_new"
    unfolding assms(5) by (rule fold_cong) (simp_all add: repository_add_def fun_eq_iff)
  note c = chain_fold [OF assms(1,2,4), folded m]
  have len: "length bs = Suc (length bs - 1)" using assms(3) by simp
  have h: "height m = Some (of_nat (length bs - 1))"
  proof (cases bs)
    case (Cons b bs')
    then have "Suc (unat (of_nat (length bs - 1) :: u64)) = length bs"
      using assms(2) by (simp add: unat_of_nat)
    then show ?thesis using c height_Some [of m "of_nat (length bs - 1)"] by metis
  qed (use assms(3) in simp)
  have "by_height pick m n = None" if "length bs \<le> unat n" for n
  proof -
    have "n \<notin> of_nat ` {..<em_len (bm_heights m)}" using that c assms(2) by (auto simp: number_unat)
    then have "n \<notin> fst ` set (em_read (bm_heights m))" using c by (simp add: chain_ok_def)
    then show ?thesis
      using c bag_nonempty_iff [of "em_read (bm_heights m)" n]
      by (simp add: get_one_by_height get_one_None_iff chain_ok_def bm_synced_def em_synced_def)
  qed
  moreover have "repository_latest pick m = Some (last bs)"
    using c len assms(3) by (simp add: repository_latest_def last_block_def h last_conv_nth)
  ultimately show ?thesis using c h by blast
qed

end
