(* ===== verification/Move_Types.thy ===== *)
theory Move_Types
  imports Primitives
begin

text \<open>
  The public data types of the Move core library that the sources pattern-match on: type tags,
  values and type layouts. Only the parts the sources read are kept: a struct value is its
  optional variant and its fields (what \<open>optional_variant_and_fields\<close> returns), a struct layout
  is the list of its field layouts.
\<close>

datatype type_tag =
  TagBool | TagU8 | TagU16 | TagU32 | TagU64 | TagU128 | TagU256 | TagAddress | TagSigner
| TagVector type_tag
| TagStruct struct_tag
and struct_tag =
  StructTag (st_address: account_address) (st_module: string) (st_name: string)
    (st_type_args: "type_tag list")

record module_id =
  mid_address :: account_address
  mid_name :: string

datatype move_value =
  VU8 u8 | VU16 "16 word" | VU32 u32 | VU64 u64 | VU128 u128 | VU256 u256 | VBool bool
| VAddress account_address
| VSigner account_address
| VVector "move_value list"
| VStruct "nat option" "move_value list"

datatype move_type_layout =
  LBool | LU8 | LU16 | LU32 | LU64 | LU128 | LU256 | LAddress | LSigner
| LVector move_type_layout
| LStruct "move_type_layout list"
| LNative string move_type_layout

definition ACCOUNT_ADDRESS_ONE :: account_address where
  "ACCOUNT_ADDRESS_ONE = replicate 31 0 @ [1]"

definition struct_module_id :: "struct_tag \<Rightarrow> module_id" where
  "struct_module_id t = \<lparr>mid_address = st_address t, mid_name = st_module t\<rparr>"

end
