(* ===== verification/Errors.thy ===== *)
theory Errors
  imports Move_Types
begin

text \<open>
  The structured errors of \<^verbatim>\<open>shared/src/error.rs\<close>. Errors of third-party code that the sources
  only wrap (\<open>VMError\<close>, \<open>PartialVMError\<close>, \<open>SignatureError\<close>, \<open>bcs::Error\<close>) keep what the sources
  read of them: the major status of a VM error, and a message for the others.
\<close>

type_synonym status_code = nat

record vm_error =
  major_status :: status_code
  vm_message :: string

type_synonym partial_vm_error = vm_error

datatype user_error =
  Vm vm_error
| PartialVm partial_vm_error
| InvalidSignature string
| DepositFailure bytes
| L2ContractCallFailure
| EvmContractCreationFailure

datatype invalid_transaction_cause =
  InvalidDestination
| InvalidSigner
| InvalidPayload string
| MismatchedArgumentCount
| FailedArgumentDeserialization
| UnsupportedNestedReference
| UnsupportedType
| UnknownType nat
| IncorrectNonce (expected: u64) (given: u64)
| ExhaustedAccount
| IncorrectChainId
| DisallowedEntryFunctionType type_tag
| InsufficientIntrinsicGas
| InvalidString
| InvalidOption
| InvalidObject
| FailedToPayL1Fee
| FailedToPayL2Fee

datatype nonce_checking =
  AnyAccountCanBeCreated
| GetNonceAlwaysSucceeds
| GetNonceReturnsAValue
| GetNoneReturnDeserializes
| GetNonceReturnsU64
| IncrementNonceAlwaysSucceeds

datatype eth_token =
  MintAlwaysSucceeds
| GetBalanceAlwaysSucceeds
| GetBalanceReturnsAValue
| GetBalanceReturnDeserializes
| GetBalanceReturnsU256
| RefundAlwaysSucceeds

datatype entry_function_value =
  OnlyAllowedStructs
| StringStructHasField
| StringStructFieldIsVector
| StringElementsAreU8
| OptionHasInnerType
| OptionStructHasField
| OptionStructFieldIsVector
| ObjectStructHasTypeParameter
| ObjectStructHasField
| ObjectStructFieldIsAddress
| ObjectCoreTypeExists
| ObjectInnerTypeExists

datatype script_transaction = ArgsMustSerialize

datatype invariant_violation =
  NonceChecking nonce_checking
| EthToken eth_token
| EntryFunctionValue entry_function_value
| ScriptTransaction script_transaction

datatype error =
  User user_error
| InvalidTransaction invalid_transaction_cause
| InvariantViolation invariant_violation

definition nonce_invariant_violation :: "nonce_checking \<Rightarrow> error" where
  "nonce_invariant_violation i = InvariantViolation (NonceChecking i)"

definition eth_token_invariant_violation :: "eth_token \<Rightarrow> error" where
  "eth_token_invariant_violation i = InvariantViolation (EthToken i)"

definition entry_fn_invariant_violation :: "entry_function_value \<Rightarrow> error" where
  "entry_fn_invariant_violation i = InvariantViolation (EntryFunctionValue i)"

definition script_tx_invariant_violation :: "script_transaction \<Rightarrow> error" where
  "script_tx_invariant_violation i = InvariantViolation (ScriptTransaction i)"

text \<open>The \<open>From\<close> conversions that \<open>?\<close> applies to errors of other types.\<close>

definition error_from_vm :: "vm_error \<Rightarrow> error" where
  "error_from_vm e = User (Vm e)"

definition error_from_partial_vm :: "partial_vm_error \<Rightarrow> error" where
  "error_from_partial_vm e = User (PartialVm e)"

definition error_from_signature :: "string \<Rightarrow> error" where
  "error_from_signature e = User (InvalidSignature e)"

definition error_from_bcs :: "string \<Rightarrow> error" where
  "error_from_bcs e = InvalidTransaction (InvalidPayload e)"

lemmas error_conversions =
  nonce_invariant_violation_def eth_token_invariant_violation_def
  entry_fn_invariant_violation_def script_tx_invariant_violation_def
  error_from_vm_def error_from_partial_vm_def error_from_signature_def error_from_bcs_def

end
