(* ===== verification/Transaction.thy ===== *)
theory Transaction
  imports Errors
begin

text \<open>
  Transactions as the node receives and executes them (\<^verbatim>\<open>execution/src/transaction.rs\<close>): the envelope
  types of the Ethereum and OP libraries with the fields the sources read, their normalisation,
  the interpretation of the transaction data, and the receipt envelopes.

  Signature recovery, BCS decoding and encoding, and the nonce of a deposit are third-party code:
  they are the arguments \<open>recover\<close>, \<open>from_bytes\<close>, \<open>to_bytes\<close> and \<open>dep_nonce\<close>.
\<close>

section \<open>Envelopes\<close>

datatype tx_kind = Create | Call address

fun kind_to :: "tx_kind \<Rightarrow> address option" where
  "kind_to Create = None"
| "kind_to (Call a) = Some a"

type_synonym access_list = "(address \<times> b256 list) list"
type_synonym signature = bytes

record tx_legacy =
  tl_chain_id :: "u64 option"
  tl_nonce :: u64
  tl_gas_price :: u128
  tl_gas_limit :: u64
  tl_to :: tx_kind
  tl_value :: u256
  tl_input :: bytes

record tx_eip2930 =
  t2_chain_id :: u64
  t2_nonce :: u64
  t2_gas_price :: u128
  t2_gas_limit :: u64
  t2_to :: tx_kind
  t2_value :: u256
  t2_access_list :: access_list
  t2_input :: bytes

record tx_eip1559 =
  t1_chain_id :: u64
  t1_nonce :: u64
  t1_gas_limit :: u64
  t1_max_fee_per_gas :: u128
  t1_max_priority_fee_per_gas :: u128
  t1_to :: tx_kind
  t1_value :: u256
  t1_access_list :: access_list
  t1_input :: bytes

record tx_deposit =
  td_source_hash :: b256
  td_from :: address
  td_to :: tx_kind
  td_mint :: "u128 option"
  td_value :: u256
  td_gas_limit :: u64
  td_is_system_transaction :: bool
  td_input :: bytes

text \<open>The payload of the transaction types the node rejects is not read; it is kept as its bytes.\<close>

datatype op_tx_envelope =
  Legacy tx_legacy signature
| Eip2930 tx_eip2930 signature
| Eip1559 tx_eip1559 signature
| Eip7702 bytes signature
| Deposit tx_deposit

datatype tx_envelope =
  EthLegacy tx_legacy signature
| EthEip2930 tx_eip2930 signature
| EthEip1559 tx_eip1559 signature
| EthEip4844 bytes signature
| EthEip7702 bytes signature

fun as_deposit :: "op_tx_envelope \<Rightarrow> tx_deposit option" where
  "as_deposit (Deposit d) = Some d"
| "as_deposit _ = None"

section \<open>Normalisation\<close>

record normalized_eth_transaction =
  nt_signer :: address
  nt_to :: tx_kind
  nt_nonce :: u64
  nt_value :: u256
  nt_data :: bytes
  nt_chain_id :: "u64 option"
  nt_gas_limit :: u256
  nt_max_priority_fee_per_gas :: u256
  nt_max_fee_per_gas :: u256
  nt_access_list :: access_list

datatype normalized_extended_tx_envelope =
  Canonical normalized_eth_transaction
| DepositedTx tx_deposit

definition gas_limit :: "normalized_eth_transaction \<Rightarrow> u64" where
  "gas_limit tx =
     (case into_limbs (nt_gas_limit tx) of
        [x, l1, l2, l3] \<Rightarrow> if l1 = 0 \<and> l2 = 0 \<and> l3 = 0 then x else max_of
      | _ \<Rightarrow> max_of)"

lemma gas_limit_eq: "gas_limit tx = saturating_to (nt_gas_limit tx)"
  using to_saturated_u64_eq [of "nt_gas_limit tx"]
  by (simp add: gas_limit_def to_saturated_u64_def)

definition from_eip1559 :: "address \<Rightarrow> tx_eip1559 \<Rightarrow> normalized_eth_transaction" where
  "from_eip1559 a tx =
     \<lparr>nt_signer = a, nt_to = t1_to tx, nt_nonce = t1_nonce tx, nt_value = t1_value tx,
      nt_data = t1_input tx, nt_chain_id = Some (t1_chain_id tx),
      nt_gas_limit = ucast (t1_gas_limit tx),
      nt_max_priority_fee_per_gas = ucast (t1_max_priority_fee_per_gas tx),
      nt_max_fee_per_gas = ucast (t1_max_fee_per_gas tx),
      nt_access_list = t1_access_list tx\<rparr>"

definition from_eip2930 :: "address \<Rightarrow> tx_eip2930 \<Rightarrow> normalized_eth_transaction" where
  "from_eip2930 a tx =
     \<lparr>nt_signer = a, nt_to = t2_to tx, nt_nonce = t2_nonce tx, nt_value = t2_value tx,
      nt_data = t2_input tx, nt_chain_id = Some (t2_chain_id tx),
      nt_gas_limit = ucast (t2_gas_limit tx),
      nt_max_priority_fee_per_gas = ucast (t2_gas_price tx),
      nt_max_fee_per_gas = ucast (t2_gas_price tx),
      nt_access_list = t2_access_list tx\<rparr>"

definition from_legacy :: "address \<Rightarrow> tx_legacy \<Rightarrow> normalized_eth_transaction" where
  "from_legacy a tx =
     \<lparr>nt_signer = a, nt_to = tl_to tx, nt_nonce = tl_nonce tx, nt_value = tl_value tx,
      nt_data = tl_input tx, nt_chain_id = tl_chain_id tx,
      nt_gas_limit = ucast (tl_gas_limit tx),
      nt_max_priority_fee_per_gas = ucast (tl_gas_price tx),
      nt_max_fee_per_gas = ucast (tl_gas_price tx),
      nt_access_list = []\<rparr>"

text \<open>\<open>recover\<close> stands for the signer recovery of a signed transaction.\<close>

type_synonym recover_signer = "op_tx_envelope \<Rightarrow> string + address"

definition recovered :: "recover_signer \<Rightarrow> op_tx_envelope \<Rightarrow> error + address" where
  "recovered recover e = map_err error_from_signature (recover e)"

fun try_from_op_envelope ::
  "recover_signer \<Rightarrow> op_tx_envelope \<Rightarrow> error + normalized_extended_tx_envelope" where
  "try_from_op_envelope recover (Eip1559 tx s) =
     rbind (recovered recover (Eip1559 tx s)) (\<lambda>a. Inr (Canonical (from_eip1559 a tx)))"
| "try_from_op_envelope recover (Eip2930 tx s) =
     rbind (recovered recover (Eip2930 tx s)) (\<lambda>a. Inr (Canonical (from_eip2930 a tx)))"
| "try_from_op_envelope recover (Legacy tx s) =
     rbind (recovered recover (Legacy tx s)) (\<lambda>a. Inr (Canonical (from_legacy a tx)))"
| "try_from_op_envelope recover (Deposit tx) = Inr (DepositedTx tx)"
| "try_from_op_envelope recover (Eip7702 b s) = Inl (InvalidTransaction UnsupportedType)"

fun try_from_tx_envelope ::
  "recover_signer \<Rightarrow> tx_envelope \<Rightarrow> error + normalized_eth_transaction" where
  "try_from_tx_envelope recover (EthEip1559 tx s) =
     rbind (recovered recover (Eip1559 tx s)) (\<lambda>a. Inr (from_eip1559 a tx))"
| "try_from_tx_envelope recover (EthEip2930 tx s) =
     rbind (recovered recover (Eip2930 tx s)) (\<lambda>a. Inr (from_eip2930 a tx))"
| "try_from_tx_envelope recover (EthLegacy tx s) =
     rbind (recovered recover (Legacy tx s)) (\<lambda>a. Inr (from_legacy a tx))"
| "try_from_tx_envelope recover (EthEip4844 b s) = Inl (InvalidTransaction UnsupportedType)"
| "try_from_tx_envelope recover (EthEip7702 b s) = Inl (InvalidTransaction UnsupportedType)"

fun into_canonical :: "normalized_extended_tx_envelope \<Rightarrow> normalized_eth_transaction option" where
  "into_canonical (Canonical tx) = Some tx"
| "into_canonical (DepositedTx d) = None"

record transaction_request =
  tr_from :: "address option"
  tr_to :: "tx_kind option"
  tr_nonce :: "u64 option"
  tr_value :: "u256 option"
  tr_chain_id :: "u64 option"
  tr_gas :: "u64 option"
  tr_max_priority_fee_per_gas :: "u128 option"
  tr_max_fee_per_gas :: "u128 option"
  tr_input :: "bytes option"
  tr_access_list :: "access_list option"

abbreviation unwrap_or :: "'a option \<Rightarrow> 'a \<Rightarrow> 'a" where
  "unwrap_or x d \<equiv> (case x of None \<Rightarrow> d | Some y \<Rightarrow> y)"

definition from_transaction_request :: "transaction_request \<Rightarrow> normalized_eth_transaction" where
  "from_transaction_request r =
     \<lparr>nt_signer = unwrap_or (tr_from r) (replicate 20 0),
      nt_to = unwrap_or (tr_to r) Create,
      nt_nonce = unwrap_or (tr_nonce r) 0,
      nt_value = unwrap_or (tr_value r) 0,
      nt_data = unwrap_or (tr_input r) [],
      nt_chain_id = tr_chain_id r,
      nt_gas_limit = ucast (unwrap_or (tr_gas r) max_of),
      nt_max_priority_fee_per_gas = ucast (unwrap_or (tr_max_priority_fee_per_gas r) 0),
      nt_max_fee_per_gas = ucast (unwrap_or (tr_max_fee_per_gas r) 0),
      nt_access_list = unwrap_or (tr_access_list r) []\<rparr>"

section \<open>Transaction data\<close>

record entry_function =
  ef_module :: module_id
  ef_function :: string
  ef_ty_args :: "type_tag list"
  ef_args :: "bytes list"

text \<open>Script arguments are kept as the Move values they convert to.\<close>

record script =
  sc_code :: bytes
  sc_ty_args :: "type_tag list"
  sc_args :: "move_value list"

datatype script_or_deployment =
  Script script
| Module bytes
| EvmContractCode bytes

datatype transaction_data =
  EoaBaseTokenTransfer address
| ScriptOrDeployment script_or_deployment
| EntryFunction entry_function
| L2Contract address
| EvmContract address bytes

datatype serializable_transaction_data =
  SerEoaBaseTokenTransfer address
| SerScriptOrDeployment script_or_deployment
| SerEntryFunction entry_function
| SerL2Contract address
| SerEvmContract bytes

fun to_serializable :: "transaction_data \<Rightarrow> serializable_transaction_data" where
  "to_serializable (EoaBaseTokenTransfer a) = SerEoaBaseTokenTransfer a"
| "to_serializable (ScriptOrDeployment x) = SerScriptOrDeployment x"
| "to_serializable (EntryFunction x) = SerEntryFunction x"
| "to_serializable (L2Contract a) = SerL2Contract a"
| "to_serializable (EvmContract a d) = SerEvmContract d"

text \<open>The order of byte arrays is lexicographic.\<close>

fun bytes_le :: "bytes \<Rightarrow> bytes \<Rightarrow> bool" where
  "bytes_le [] ys = True"
| "bytes_le (x # xs) [] = False"
| "bytes_le (x # xs) (y # ys) = (x < y \<or> x = y \<and> bytes_le xs ys)"

definition L2_LOWEST_ADDRESS :: address where
  "L2_LOWEST_ADDRESS = 0x42 # replicate 19 0"

definition L2_HIGHEST_ADDRESS :: address where
  "L2_HIGHEST_ADDRESS = (0x42 # replicate 18 0) @ [0xff]"

text \<open>\<open>from_bytes\<close> is BCS decoding of the serialised transaction data, \<open>from_bytes_script\<close> that of a
  script or a deployment.\<close>

definition parse_from ::
  "(bytes \<Rightarrow> string + serializable_transaction_data) \<Rightarrow> (bytes \<Rightarrow> string + script_or_deployment)
     \<Rightarrow> normalized_eth_transaction \<Rightarrow> error + transaction_data" where
  "parse_from from_bytes from_bytes_script tx =
     (case nt_to tx of
        Call dest \<Rightarrow>
          if bytes_le L2_LOWEST_ADDRESS dest \<and> bytes_le dest L2_HIGHEST_ADDRESS
          then Inr (L2Contract dest)
          else if nt_data tx = [] then Inr (EoaBaseTokenTransfer dest)
          else rbind (map_err error_from_bcs (from_bytes (nt_data tx))) (\<lambda>tx_data.
            case tx_data of
              SerEntryFunction entry_fn \<Rightarrow>
                if mid_address (ef_module entry_fn) \<noteq> to_move_address dest
                then Inl (InvalidTransaction InvalidDestination)
                else Inr (EntryFunction entry_fn)
            | SerEvmContract data \<Rightarrow> Inr (EvmContract dest data)
            | _ \<Rightarrow> Inl (InvalidTransaction
                (InvalidPayload ''Expected entry function or EVM contract'')))
      | Create \<Rightarrow>
          map_err error_from_bcs
            (rbind (from_bytes_script (nt_data tx)) (\<lambda>x. Inr (ScriptOrDeployment x))))"

definition transaction_data_to_bytes ::
  "(serializable_transaction_data \<Rightarrow> string + bytes) \<Rightarrow> transaction_data \<Rightarrow> string + bytes" where
  "transaction_data_to_bytes to_bytes d = to_bytes (to_serializable d)"

fun maybe_entry_fn :: "transaction_data \<Rightarrow> entry_function option" where
  "maybe_entry_fn (EntryFunction f) = Some f"
| "maybe_entry_fn _ = None"

text \<open>\<open>script_bytes\<close> is the BCS encoding of a script, \<open>keccak256\<close> the hash function.\<close>

fun script_hash :: "(bytes \<Rightarrow> b256) \<Rightarrow> (script \<Rightarrow> bytes) \<Rightarrow> transaction_data \<Rightarrow> b256 option" where
  "script_hash keccak256 script_bytes (ScriptOrDeployment (Script s)) =
     Some (keccak256 (script_bytes s))"
| "script_hash keccak256 script_bytes _ = None"

section \<open>Receipt envelopes\<close>

definition DEPOSIT_RECEIPT_VERSION :: u64 where
  "DEPOSIT_RECEIPT_VERSION = 1"

fun wrap_receipt ::
  "(tx_deposit \<Rightarrow> u64) \<Rightarrow> op_tx_envelope \<Rightarrow> log receipt \<Rightarrow> bloom \<Rightarrow> panic + log op_receipt_envelope"
where
  "wrap_receipt dep_nonce (Legacy tx s) r b = Inr (ReceiptLegacy r b)"
| "wrap_receipt dep_nonce (Eip1559 tx s) r b = Inr (ReceiptEip1559 r b)"
| "wrap_receipt dep_nonce (Eip2930 tx s) r b = Inr (ReceiptEip2930 r b)"
| "wrap_receipt dep_nonce (Deposit d) r b =
     Inr (ReceiptDeposit \<lparr>inner = r, deposit_nonce = Some (dep_nonce d),
            deposit_receipt_version = Some DEPOSIT_RECEIPT_VERSION\<rparr> b)"
| "wrap_receipt dep_nonce (Eip7702 x s) r b =
     Inl (Panic ''Wrapping of other tx types not supported'')"

section \<open>Properties\<close>

lemma bytes_le_refl [simp]: "bytes_le xs xs"
  by (induction xs) simp_all

lemma bytes_le_last_byte_range:
  "length a = Suc (length p) \<Longrightarrow>
     bytes_le (p @ [0]) a \<and> bytes_le a (p @ [0xff]) \<longleftrightarrow> take (length p) a = p"
proof (induction p arbitrary: a)
  case Nil
  then obtain b where a: "a = [b]" by (cases a) auto
  have "b \<le> - 1" by (rule word_n1_ge)
  moreover have "- 1 = (255 :: u8)" by simp
  ultimately have "b \<le> 255" by metis
  then have "b < 255 \<or> b = 255" by (auto simp: order_le_less)
  moreover have "0 < b \<or> 0 = b" by (auto simp: word_gt_0)
  ultimately show ?case by (simp add: a)
next
  case (Cons x p)
  then obtain y a' where a: "a = y # a'" and len: "length a' = Suc (length p)" by (cases a) auto
  have "bytes_le ((x # p) @ [0]) a \<and> bytes_le a ((x # p) @ [0xff])
      \<longleftrightarrow> x = y \<and> bytes_le (p @ [0]) a' \<and> bytes_le a' (p @ [0xff])"
    by (auto simp: a)
  with Cons.IH [OF len] show ?case by (auto simp: a)
qed

text \<open>The addresses that are dispatched to the L2 contracts are the 256 addresses with the
  prefix of the two constants.\<close>

lemma l2_range_iff:
  assumes "length a = 20"
  shows "bytes_le L2_LOWEST_ADDRESS a \<and> bytes_le a L2_HIGHEST_ADDRESS
    \<longleftrightarrow> take 19 a = 0x42 # replicate 18 0"
proof -
  have low: "L2_LOWEST_ADDRESS = (0x42 # replicate 18 0) @ [0]"
    by (simp add: L2_LOWEST_ADDRESS_def numeral_eq_Suc)
  show ?thesis
    using bytes_le_last_byte_range [of a "0x42 # replicate 18 0"] assms
    by (simp add: low L2_HIGHEST_ADDRESS_def)
qed

text \<open>A call is dispatched to an L2 contract exactly when the first 19 bytes of the 20-byte
  destination are \<open>0x42\<close> followed by zeros, whatever the transaction data is; a call elsewhere with
  no data is a base-token transfer to the destination.\<close>

lemma parse_from_call_dispatch:
  assumes "nt_to tx = Call dest" "length dest = 20"
  shows "(parse_from from_bytes from_bytes_script tx = Inr (L2Contract dest)
             \<longleftrightarrow> take 19 dest = 0x42 # replicate 18 0)
       \<and> (take 19 dest \<noteq> 0x42 # replicate 18 0 \<and> nt_data tx = [] \<longrightarrow>
           parse_from from_bytes from_bytes_script tx = Inr (EoaBaseTokenTransfer dest))"
  using assms l2_range_iff [OF assms(2)]
  by (auto simp: parse_from_def rbind_Inr_iff
      split: serializable_transaction_data.splits if_splits)

definition example_tx :: "tx_kind \<Rightarrow> bytes \<Rightarrow> normalized_eth_transaction" where
  "example_tx dest d =
     \<lparr>nt_signer = replicate 20 7, nt_to = dest, nt_nonce = 0, nt_value = 5, nt_data = d,
      nt_chain_id = Some 404, nt_gas_limit = 21000, nt_max_priority_fee_per_gas = 2,
      nt_max_fee_per_gas = 9, nt_access_list = []\<rparr>"

text \<open>The data of an entry-function call or of an EVM contract call that was serialised by
  \<open>to_bytes\<close> is parsed back to the same transaction data, provided BCS decoding inverts BCS
  encoding on it, the encoding is not empty, and the destination is no L2 contract; an entry
  function must live in the module account that the transaction is sent to.\<close>

lemma parse_from_to_bytes:
  assumes "transaction_data_to_bytes to_bytes d = Inr bs" "bs \<noteq> []"
    and "from_bytes bs = Inr (to_serializable d)"
    and "nt_to tx = Call dest" "length dest = 20" "take 19 dest \<noteq> 0x42 # replicate 18 0"
    and "nt_data tx = bs"
    and "(\<exists>f. d = EntryFunction f \<and> mid_address (ef_module f) = to_move_address dest)
          \<or> (\<exists>x. d = EvmContract dest x)"
  shows "parse_from from_bytes from_bytes_script tx = Inr d"
  using assms l2_range_iff [OF assms(5)] by (auto simp: parse_from_def)

text \<open>An entry function is never run for a transaction sent to an account other than the one
  that holds its module: parsing such a transaction fails with \<open>InvalidDestination\<close>.\<close>

lemma parse_from_entry_destination:
  assumes "parse_from from_bytes from_bytes_script tx = Inr (EntryFunction f)"
  shows "\<exists>dest. nt_to tx = Call dest \<and> mid_address (ef_module f) = to_move_address dest"
proof (cases "nt_to tx")
  case Create
  with assms show ?thesis by (auto simp: parse_from_def rbind_Inr_iff)
next
  case (Call dest)
  with assms obtain d where "from_bytes (nt_data tx) = Inr d"
    by (auto simp: parse_from_def rbind_Inr_iff split: if_splits)
  with assms Call show ?thesis
    by (cases d) (auto simp: parse_from_def split: if_splits)
qed

end
