(* ===== verification/Transaction_Memory.thy ===== *)
theory Transaction_Memory
  imports Evmap Transaction
begin

text \<open>
  Transactions as a block stores them, and the in-memory transaction store:
  \<^verbatim>\<open>blockchain/src/transaction/write.rs\<close>, \<^verbatim>\<open>read.rs\<close> and \<^verbatim>\<open>in_memory.rs\<close>. The hash of a transaction
  (\<open>trie_hash\<close>), signer recovery, ABI decoding of the arguments of \<open>relayMessage\<close> and the checked
  shift of the big-integer library are third-party code and arguments here.
\<close>

section \<open>Extended transactions\<close>

record extended_transaction =
  et_inner :: op_tx_envelope
  et_block_number :: u64
  et_block_hash :: b256
  et_transaction_index :: u64
  et_effective_gas_price :: u128

definition extended_transaction_new ::
  "u128 \<Rightarrow> op_tx_envelope \<Rightarrow> u64 \<Rightarrow> b256 \<Rightarrow> u64 \<Rightarrow> extended_transaction" where
  "extended_transaction_new price e n h i =
     \<lparr>et_inner = e, et_block_number = n, et_block_hash = h, et_transaction_index = i,
      et_effective_gas_price = price\<rparr>"

definition tx_from :: "recover_signer \<Rightarrow> extended_transaction \<Rightarrow> string + address" where
  "tx_from recover t =
     (case et_inner t of Deposit tx \<Rightarrow> Inr (td_from tx) | e \<Rightarrow> recover e)"

definition tx_hash :: "(op_tx_envelope \<Rightarrow> b256) \<Rightarrow> extended_transaction \<Rightarrow> b256" where
  "tx_hash trie_hash t = trie_hash (et_inner t)"

subsection \<open>The nonce of a cross-domain message\<close>

record versioned_nonce =
  vn_version :: u64
  vn_nonce :: u64

record relay_message_args =
  rm_nonce :: u256
  rm_sender :: address
  rm_target :: address
  rm_value :: u256
  rm_min_gas_limit :: u256
  rm_message :: bytes

definition RELAY_MESSAGE_SELECTOR :: bytes where
  "RELAY_MESSAGE_SELECTOR = [0xd7, 0x64, 0xad, 0x0b]"

definition NONCE_MASK :: u256 where
  "NONCE_MASK = from_be_bytes (replicate 2 0 @ replicate 30 0xff)"

definition inner_get_deposit_nonce ::
  "(bytes \<Rightarrow> relay_message_args option) \<Rightarrow> (u256 \<Rightarrow> nat \<Rightarrow> u256 option)
     \<Rightarrow> tx_deposit \<Rightarrow> versioned_nonce option" where
  "inner_get_deposit_nonce abi_decode checked_shr tx =
     (if take 4 (td_input tx) \<noteq> RELAY_MESSAGE_SELECTOR then None
      else Option.bind (abi_decode (drop 4 (td_input tx))) (\<lambda>args.
        Option.bind (checked_shr (rm_nonce args) 240) (\<lambda>v.
          Some \<lparr>vn_version = saturating_to v,
                vn_nonce = saturating_to (and (rm_nonce args) NONCE_MASK)\<rparr>)))"

definition tx_deposit_nonce ::
  "(bytes \<Rightarrow> relay_message_args option) \<Rightarrow> (u256 \<Rightarrow> nat \<Rightarrow> u256 option)
     \<Rightarrow> extended_transaction \<Rightarrow> versioned_nonce option" where
  "tx_deposit_nonce abi_decode checked_shr t =
     (case et_inner t of
        Deposit tx \<Rightarrow> inner_get_deposit_nonce abi_decode checked_shr tx
      | _ \<Rightarrow> None)"

section \<open>Responses\<close>

record transaction_response =
  tp_inner :: op_tx_envelope
  tp_from :: address
  tp_block_hash :: "b256 option"
  tp_block_number :: "u64 option"
  tp_transaction_index :: "u64 option"
  tp_effective_gas_price :: "u128 option"
  tp_deposit_nonce :: "u64 option"
  tp_deposit_receipt_version :: "u64 option"

text \<open>The third-party operations the responses need.\<close>

record tx_ops =
  op_trie_hash :: "op_tx_envelope \<Rightarrow> b256"
  op_recover :: recover_signer
  op_abi_decode :: "bytes \<Rightarrow> relay_message_args option"
  op_checked_shr :: "u256 \<Rightarrow> nat \<Rightarrow> u256 option"

definition transaction_response_from ::
  "tx_ops \<Rightarrow> extended_transaction \<Rightarrow> panic + transaction_response" where
  "transaction_response_from ops t =
     (let nonce = tx_deposit_nonce (op_abi_decode ops) (op_checked_shr ops) t
      in case tx_from (op_recover ops) t of
           Inl e \<Rightarrow> Inl (Panic ''Block transactions should contain valid signature'')
         | Inr from \<Rightarrow> Inr
             \<lparr>tp_inner = et_inner t, tp_from = from,
              tp_block_hash = Some (et_block_hash t),
              tp_block_number = Some (et_block_number t),
              tp_transaction_index = Some (et_transaction_index t),
              tp_effective_gas_price = Some (et_effective_gas_price t),
              tp_deposit_nonce = map_option vn_nonce nonce,
              tp_deposit_receipt_version = map_option vn_version nonce\<rparr>)"

section \<open>The store\<close>

type_synonym transaction_memory = "(b256, extended_transaction) evmap"
type_synonym tx_pick = "extended_transaction list \<Rightarrow> extended_transaction"

definition transaction_memory_extend ::
  "(op_tx_envelope \<Rightarrow> b256) \<Rightarrow> extended_transaction list \<Rightarrow> transaction_memory \<Rightarrow> transaction_memory" where
  "transaction_memory_extend trie_hash txs m =
     em_refresh (em_extend (map (\<lambda>t. (tx_hash trie_hash t, t)) txs) m)"

definition transaction_by_hash ::
  "tx_pick \<Rightarrow> transaction_memory \<Rightarrow> b256 \<Rightarrow> extended_transaction option" where
  "transaction_by_hash pick m h = get_one pick m h"

definition transactions_by_hashes ::
  "tx_pick \<Rightarrow> transaction_memory \<Rightarrow> b256 list \<Rightarrow> extended_transaction list" where
  "transactions_by_hashes pick m hs = filter_map (transaction_by_hash pick m) hs"

definition transaction_query_by_hash ::
  "tx_ops \<Rightarrow> tx_pick \<Rightarrow> transaction_memory \<Rightarrow> b256 \<Rightarrow> panic + transaction_response option" where
  "transaction_query_by_hash ops pick m h =
     (case transaction_by_hash pick m h of
        None \<Rightarrow> Inr None
      | Some t \<Rightarrow> (case transaction_response_from ops t of Inl p \<Rightarrow> Inl p | Inr r \<Rightarrow> Inr (Some r)))"

interpretation txm: keyed_memory "tx_hash trie_hash" "transaction_memory_extend trie_hash"
  transaction_by_hash "\<lambda>m. bag (em_read m)" em_synced for trie_hash
  by unfold_locales
    (simp_all add: transaction_memory_extend_def transaction_by_hash_def em_synced_extend
      get_one_extend_bag get_one_None_iff get_one_Some_member)

lemma unat_and_mask240: "unat (and (w :: u256) NONCE_MASK) = unat w mod 2 ^ 240"
proof -
  have "NONCE_MASK = mask 240"
    by code_simp
  then have "and w NONCE_MASK = take_bit 240 w" by (simp add: take_bit_eq_mask)
  then show ?thesis by (simp add: take_bit_eq_mod unat_mod)
qed

section \<open>Properties\<close>

text \<open>The encoded nonce of a relayed message is split exactly: whenever the arguments decode to
  the encoded nonce \<open>w\<close> and a nonce is produced at all, the version is the upper 16 bits of \<open>w\<close> and
  the nonce the lower 240 bits, capped at the largest 64-bit value. \<open>shr_ok\<close> is the documented
  value of the checked shift when it returns one.\<close>

lemma deposit_nonce_split:
  assumes shr_ok: "\<And>w n v. checked_shr w n = Some v \<Longrightarrow> v = drop_bit n w"
    and "abi_decode (drop 4 (td_input tx)) = Some args"
    and "inner_get_deposit_nonce abi_decode checked_shr tx = Some vn"
  shows "take 4 (td_input tx) = RELAY_MESSAGE_SELECTOR \<and>
    unat (vn_version vn) = unat (rm_nonce args) div 2 ^ 240 \<and>
    unat (vn_nonce vn) = min (unat (rm_nonce args) mod 2 ^ 240) (2 ^ 64 - 1)"
proof -
  from assms(2,3) obtain v where v: "checked_shr (rm_nonce args) 240 = Some v"
    and sel: "take 4 (td_input tx) = RELAY_MESSAGE_SELECTOR"
    and vn: "vn = \<lparr>vn_version = saturating_to v,
      vn_nonce = saturating_to (and (rm_nonce args) NONCE_MASK)\<rparr>"
    by (auto simp: inner_get_deposit_nonce_def bind_eq_Some_conv split: if_splits)
  have "unat v = unat (rm_nonce args) div 2 ^ 240"
    using shr_ok [OF v] by (simp add: unat_div drop_bit_eq_div)
  moreover have "unat (rm_nonce args) < 2 ^ 256" using unsigned_less [of "rm_nonce args"] by simp
  then have "unat (rm_nonce args) div 2 ^ 240 < 2 ^ 64" by (simp add: less_mult_imp_div_less)
  ultimately show ?thesis using sel by (simp add: vn unat_saturating_to unat_and_mask240)
qed

definition example_deposit :: tx_deposit where
  "example_deposit = \<lparr>td_source_hash = [], td_from = replicate 20 1, td_to = Create, td_mint = None,
     td_value = 0, td_gas_limit = 0, td_is_system_transaction = False,
     td_input = RELAY_MESSAGE_SELECTOR @ [1]\<rparr>"

definition example_args :: relay_message_args where
  "example_args = \<lparr>rm_nonce = push_bit 240 1 + 2, rm_sender = [], rm_target = [], rm_value = 0,
     rm_min_gas_limit = 0, rm_message = []\<rparr>"

text \<open>A batch of transactions with distinct hashes that were not stored before is returned by
  \<open>by_hashes\<close> in the order of the hashes asked for, whatever was stored before and whatever the map
  returns for keys with several values; the lookups of all other hashes are as before.\<close>

lemma transactions_extend_by_hashes:
  assumes "picks_member pick" "em_synced m"
    and "distinct (map (tx_hash trie_hash) txs)"
    and "\<And>t. t \<in> set txs \<Longrightarrow> transaction_by_hash pick m (tx_hash trie_hash t) = None"
    and "m' = transaction_memory_extend trie_hash txs m"
  shows "transactions_by_hashes pick m' (map (tx_hash trie_hash) txs) = txs \<and>
    (\<forall>h. h \<notin> tx_hash trie_hash ` set txs \<longrightarrow>
       transaction_by_hash pick m' h = transaction_by_hash pick m h)"
proof -
  have empty: "bag (em_read m) (tx_hash trie_hash t) = []" if "t \<in> set txs" for t
    using assms(4) [OF that] txm.lookup_None by blast
  have "transactions_by_hashes pick m' (map (tx_hash trie_hash) txs) = txs"
    using txm.lookup_extend_fresh_list [OF assms(1-3) empty]
    by (simp only: transactions_by_hashes_def assms(5) filter_map_all_Some)
  moreover have "filter (\<lambda>t. tx_hash trie_hash t = h) txs = []"
    if "h \<notin> tx_hash trie_hash ` set txs" for h
    using that by (auto simp: filter_empty_conv)
  then have "transaction_by_hash pick m' h = transaction_by_hash pick m h"
    if "h \<notin> tx_hash trie_hash ` set txs" for h
    using that txm.stored_extend [OF assms(2)]
    by (simp add: transaction_by_hash_def get_one_def assms(5))
  ultimately show ?thesis by blast
qed

definition example_et :: extended_transaction where
  "example_et = extended_transaction_new 5 (Deposit example_deposit) 1 [9] 0"

end
