(* ===== verification/Base_Fee.thy ===== *)
theory Base_Fee
  imports Primitives
begin

text \<open>
  The base fee of a block, computed from its parent (\<^verbatim>\<open>blockchain/src/block/gas.rs\<close>). Integer
  division panics on a zero divisor, so the computation returns \<open>panic + u256\<close>.
\<close>

record eip1559_gas_fee =
  elasticity_multiplier :: u64
  base_fee_max_change_denominator :: u256

definition eip1559_new :: "u64 \<Rightarrow> u256 \<Rightarrow> panic + eip1559_gas_fee" where
  "eip1559_new elasticity denominator =
     (if elasticity \<le> 0 then Inl (Panic ''elasticity_multiplier > 0'')
      else if denominator \<le> 0 then Inl (Panic ''base_fee_max_change_denominator > 0'')
      else Inr \<lparr>elasticity_multiplier = elasticity,
                base_fee_max_change_denominator = denominator\<rparr>)"

definition div_or_panic :: "'a::len word \<Rightarrow> 'a word \<Rightarrow> panic + 'a word" where
  "div_or_panic a b = (if b = 0 then Inl (Panic ''division by zero'') else Inr (a div b))"

definition base_fee_per_gas :: "eip1559_gas_fee \<Rightarrow> u64 \<Rightarrow> u64 \<Rightarrow> u256 \<Rightarrow> panic + u256" where
  "base_fee_per_gas g parent_gas_limit parent_gas_used parent_base_fee_per_gas =
     rbind (div_or_panic parent_gas_limit (elasticity_multiplier g)) (\<lambda>gas_target.
       if gas_target < parent_gas_used then
         rbind (div_or_panic
                  (saturating_mul parent_base_fee_per_gas (ucast (parent_gas_used - gas_target)))
                  (ucast gas_target)) (\<lambda>scaled.
         rbind (div_or_panic scaled (base_fee_max_change_denominator g)) (\<lambda>delta.
         Inr (saturating_add parent_base_fee_per_gas (max delta 1))))
       else if parent_gas_used < gas_target then
         rbind (div_or_panic
                  (saturating_mul parent_base_fee_per_gas (ucast (gas_target - parent_gas_used)))
                  (ucast gas_target)) (\<lambda>scaled.
         rbind (div_or_panic scaled (base_fee_max_change_denominator g)) (\<lambda>delta.
         Inr (saturating_sub parent_base_fee_per_gas delta)))
       else Inr parent_base_fee_per_gas)"

section \<open>The fee as arithmetic on natural numbers\<close>

lemma div_or_panic_nz [simp]: "b \<noteq> 0 \<Longrightarrow> div_or_panic a b = Inr (a div b)"
  by (simp add: div_or_panic_def)

lemma eip1559_new_Inr_iff:
  "eip1559_new e d = Inr g \<longleftrightarrow>
     e \<noteq> 0 \<and> d \<noteq> 0 \<and> g = \<lparr>elasticity_multiplier = e, base_fee_max_change_denominator = d\<rparr>"
  by (auto simp: eip1559_new_def)

lemma unat_ucast_u64_u256 [simp]: "unat (ucast (w :: u64) :: u256) = unat w"
  by (simp add: unat_ucast_up)

lemma ucast_u64_u256_eq_0_iff [simp]: "(ucast (w :: u64) :: u256) = 0 \<longleftrightarrow> w = 0"
  using unat_ucast_u64_u256 [of w] by (metis unat_0 unat_eq_0)

text \<open>The three branches on natural numbers; \<open>t\<close> is the gas target. The saturation of the product
  and of the sum at \<open>2 ^ 256 - 1\<close> stays visible.\<close>

definition fee_cap :: nat where
  "fee_cap = 2 ^ 256 - 1"

definition base_fee_nat :: "nat \<Rightarrow> nat \<Rightarrow> nat \<Rightarrow> nat \<Rightarrow> nat" where
  "base_fee_nat t d used fee =
     (if t < used then min (fee + max (min (fee * (used - t)) fee_cap div t div d) 1) fee_cap
      else if used < t then fee - min (fee * (t - used)) fee_cap div t div d
      else fee)"

lemma base_fee_per_gas_nat:
  assumes "elasticity_multiplier g \<noteq> 0" "base_fee_max_change_denominator g \<noteq> 0"
    and "elasticity_multiplier g \<le> limit \<or> used = 0"
  shows "\<exists>fee'. base_fee_per_gas g limit used fee = Inr fee' \<and>
    unat fee' = base_fee_nat (unat limit div unat (elasticity_multiplier g))
                  (unat (base_fee_max_change_denominator g)) (unat used) (unat fee)"
proof -
  define t where "t = limit div elasticity_multiplier g"
  have ut: "unat t = unat limit div unat (elasticity_multiplier g)"
    by (simp add: t_def unat_div)
  have pos: "t \<noteq> 0 \<or> used = 0"
  proof -
    have "t \<noteq> 0" if "elasticity_multiplier g \<le> limit"
      using that assms(1) ut
      by (metis div_greater_zero_iff not_gr_zero unat_0 unat_gt_0 word_le_nat_alt)
    with assms(3) show ?thesis by blast
  qed
  consider "t < used" | "used < t" | "used = t" by (meson linorder_cases)
  then show ?thesis
  proof cases
    case 1
    then have "t \<noteq> 0" "unat (used - t) = unat used - unat t"
      using pos by (auto simp: unat_sub)
    with 1 assms show ?thesis
      by (simp add: base_fee_per_gas_def base_fee_nat_def fee_cap_def t_def [symmetric]
          ut [symmetric] unat_saturating_add unat_saturating_mul unat_div unat_max
          word_less_nat_alt)
  next
    case 2
    then have "t \<noteq> 0" "unat (t - used) = unat t - unat used"
      by (auto simp: unat_sub)
    with 2 assms show ?thesis
      by (simp add: base_fee_per_gas_def base_fee_nat_def fee_cap_def t_def [symmetric]
          ut [symmetric] unat_saturating_sub unat_saturating_mul unat_div
          word_less_nat_alt not_less)
  next
    case 3
    with assms show ?thesis
      by (simp add: base_fee_per_gas_def base_fee_nat_def t_def [symmetric] ut [symmetric])
  qed
qed

lemma base_fee_panics:
  assumes "eip1559_new e d = Inr g"
  shows "(\<exists>p. base_fee_per_gas g limit used fee = Inl p) \<longleftrightarrow> limit < e \<and> used \<noteq> 0"
proof (cases "e \<le> limit \<or> used = 0")
  case True
  with base_fee_per_gas_nat [of g limit used fee] assms show ?thesis
    by (auto simp: eip1559_new_Inr_iff)
next
  case False
  then have "limit div e = 0"
    by (metis div_less linorder_not_le unat_0 unat_div unat_eq_0 word_less_nat_alt)
  moreover have "0 < used" using False by (simp add: word_gt_0)
  ultimately show ?thesis using assms False
    by (auto simp: eip1559_new_Inr_iff base_fee_per_gas_def div_or_panic_def)
qed

lemma scaled_delta_le:
  fixes fee x t d c :: nat
  assumes "x \<le> t"
  shows "min (fee * x) c div t div d \<le> fee div d"
proof (cases "t = 0")
  case False
  have "min (fee * x) c div t \<le> fee * x div t" by (simp add: div_le_mono)
  also have "\<dots> \<le> fee * t div t" using assms by (intro div_le_mono mult_le_mono2)
  also have "\<dots> = fee" using False by simp
  finally show ?thesis by (rule div_le_mono)
qed simp

lemma base_fee_nat_rise:
  assumes "used \<le> t + t"
  shows "base_fee_nat t d used fee \<le> fee + max (fee div d) 1"
proof -
  have "min (fee * (used - t)) fee_cap div t div d \<le> fee div d"
    using assms by (intro scaled_delta_le) simp
  then have "max (min (fee * (used - t)) fee_cap div t div d) 1 \<le> max (fee div d) 1"
    by (rule max.mono) simp
  then show ?thesis by (auto simp: base_fee_nat_def min_le_iff_disj intro: le_trans [OF diff_le_self])
qed

lemma base_fee_nat_bounds:
  assumes "fee \<le> fee_cap"
  shows "fee - fee div d \<le> base_fee_nat t d used fee
    \<and> (t < used \<and> fee < fee_cap \<longrightarrow> fee < base_fee_nat t d used fee)
    \<and> (used < t \<longrightarrow> base_fee_nat t d used fee \<le> fee)"
  using assms scaled_delta_le [of "t - used" t fee fee_cap d]
  by (auto simp: base_fee_nat_def)

section \<open>Properties\<close>

text \<open>C18. For a configuration made by \<open>Eip1559GasFee::new\<close>, the base fee of the next block is the
  EIP-1559 formula: with gas target \<open>t = limit / elasticity\<close>, the fee rises by
  \<open>max(1, fee * (used - t) / t / denominator)\<close> above the target, falls by
  \<open>fee * (t - used) / t / denominator\<close> below it and stays otherwise, the product and the sum
  saturating at \<open>2 ^ 256 - 1\<close>; it is computed without a panic as soon as the parent's gas limit
  reaches the elasticity multiplier.\<close>

theorem base_fee_formula:
  assumes "eip1559_new e d = Inr g" "e \<le> limit"
  shows "\<exists>fee'. base_fee_per_gas g limit used fee = Inr fee' \<and>
    unat fee' = base_fee_nat (unat limit div unat e) (unat d) (unat used) (unat fee)"
  using base_fee_per_gas_nat [of g limit used fee] assms by (auto simp: eip1559_new_Inr_iff)

theorem base_fee_formula_witness:
  "\<exists>fee'. base_fee_per_gas \<lparr>elasticity_multiplier = 6, base_fee_max_change_denominator = 250\<rparr>
            30000000 10000000 1000000000 = Inr fee' \<and> unat fee' = 1004000000"
proof -
  have "eip1559_new 6 250
      = Inr \<lparr>elasticity_multiplier = 6, base_fee_max_change_denominator = 250\<rparr>"
    by (simp add: eip1559_new_def)
  from base_fee_formula [OF this, of 30000000 10000000 1000000000] show ?thesis
    by (simp add: base_fee_nat_def fee_cap_def)
qed

text \<open>C20. A configuration made by \<open>Eip1559GasFee::new\<close> makes the computation panic exactly when the
  gas target is zero (the parent's gas limit is below the elasticity multiplier) and the parent
  block used gas: the documented requirement that both parameters are positive is not enough.\<close>

theorem base_fee_panics_iff:
  assumes "eip1559_new e d = Inr g"
  shows "(\<exists>p. base_fee_per_gas g limit used fee = Inl p) \<longleftrightarrow> limit < e \<and> used \<noteq> 0"
  by (rule base_fee_panics [OF assms])

theorem base_fee_panics_iff_witness:
  "\<exists>p. base_fee_per_gas \<lparr>elasticity_multiplier = 6, base_fee_max_change_denominator = 250\<rparr>
         0 21000 1000000000 = Inl p"
proof -
  have "eip1559_new 6 250
      = Inr \<lparr>elasticity_multiplier = 6, base_fee_max_change_denominator = 250\<rparr>"
    by (simp add: eip1559_new_def)
  from base_fee_panics_iff [OF this, of 0 21000 1000000000] show ?thesis by simp
qed

text \<open>C19. The base fee moves the way the documentation says and never by more than the change
  denominator allows: it rises when the parent used more gas than the target (unless it sits at
  the maximum already), does not rise when the parent used less, never falls by more than
  \<open>fee / denominator\<close>, and for a parent that used at most twice the target never rises by more than
  \<open>max(1, fee / denominator)\<close>.\<close>

theorem base_fee_change_bounds:
  assumes "eip1559_new e d = Inr g" "base_fee_per_gas g limit used fee = Inr fee'"
  shows "unat fee - unat fee div unat d \<le> unat fee'
    \<and> (unat used \<le> 2 * (unat limit div unat e) \<longrightarrow>
           unat fee' \<le> unat fee + max (unat fee div unat d) 1)
    \<and> (limit div e < used \<and> fee \<noteq> max_of \<longrightarrow> fee < fee')
    \<and> (used < limit div e \<longrightarrow> fee' \<le> fee)"
proof -
  have "e \<le> limit \<or> used = 0"
    using base_fee_panics [OF assms(1), of limit used fee] assms(2) by auto
  then have fee': "unat fee' = base_fee_nat (unat limit div unat e) (unat d) (unat used) (unat fee)"
    using base_fee_per_gas_nat [of g limit used fee] assms by (auto simp: eip1559_new_Inr_iff)
  have cap: "unat fee \<le> fee_cap"
    using unat_less [of fee] by (simp add: fee_cap_def)
  have "unat fee < fee_cap" if "fee \<noteq> max_of"
    using cap that unat_max_of [where 'a = 256]
    by (simp add: word_unat_eq_iff fee_cap_def)
  with base_fee_nat_bounds [OF cap, of "unat d" "unat limit div unat e" "unat used"]
    base_fee_nat_rise [of "unat used" "unat limit div unat e" "unat d" "unat fee"] show ?thesis
    by (simp add: fee' word_less_nat_alt word_le_nat_alt unat_div mult_2)
qed

theorem base_fee_change_bounds_witness:
  "\<exists>fee'. base_fee_per_gas \<lparr>elasticity_multiplier = 6, base_fee_max_change_denominator = 250\<rparr>
            30000000 10000000 1000000000 = Inr fee' \<and> 1000000000 < fee'"
proof -
  let ?g = "\<lparr>elasticity_multiplier = 6, base_fee_max_change_denominator = 250\<rparr>"
  have new: "eip1559_new 6 250 = Inr ?g" by (simp add: eip1559_new_def)
  have fee: "base_fee_per_gas ?g 30000000 10000000 1000000000 = Inr 1004000000"
    by (simp add: base_fee_per_gas_def div_or_panic_def word_ops max_def word_le_nat_alt)
  from base_fee_change_bounds [OF new fee] fee show ?thesis
    by (simp add: max_of_def)
qed

end
