(* ===== verification/Gas.thy ===== *)
theory Gas
  imports Transaction Base_Fee
begin

text \<open>
  Transaction fees (\<^verbatim>\<open>execution/src/gas.rs\<close>): the tip and the effective gas price of a transaction,
  the cost of publishing it to layer 1 (Ecotone formula, parameters read from the first deposit of
  the block) and the cost of its execution on layer 2.
\<close>

section \<open>Tip and effective price\<close>

definition tip_per_gas :: "normalized_eth_transaction \<Rightarrow> u256 \<Rightarrow> u256" where
  "tip_per_gas tx base_fee =
     (let extra_fee = unwrap_or (checked_sub (nt_max_fee_per_gas tx) base_fee) 0
      in min (nt_max_priority_fee_per_gas tx) extra_fee)"

definition effective_gas_price :: "normalized_eth_transaction \<Rightarrow> u256 \<Rightarrow> u256" where
  "effective_gas_price tx base_fee = tip_per_gas tx base_fee + base_fee"

fun env_tip_per_gas :: "normalized_extended_tx_envelope \<Rightarrow> u256 \<Rightarrow> u256" where
  "env_tip_per_gas (DepositedTx _) base_fee = 0"
| "env_tip_per_gas (Canonical tx) base_fee = tip_per_gas tx base_fee"

fun env_gas_limit :: "normalized_extended_tx_envelope \<Rightarrow> u64" where
  "env_gas_limit (DepositedTx _) = 0"
| "env_gas_limit (Canonical tx) = gas_limit tx"

fun env_effective_gas_price :: "normalized_extended_tx_envelope \<Rightarrow> u256 \<Rightarrow> u256" where
  "env_effective_gas_price (DepositedTx _) base_fee = 0"
| "env_effective_gas_price (Canonical tx) base_fee = effective_gas_price tx base_fee"

section \<open>Layer 1\<close>

record l1_gas_fee_input =
  zero_bytes :: u256
  non_zero_bytes :: u256

definition l1_input_of_bytes :: "bytes \<Rightarrow> l1_gas_fee_input" where
  "l1_input_of_bytes tx_data =
     (let zeros = of_nat (length (filter (\<lambda>v. v = 0) tx_data))
      in \<lparr>zero_bytes = zeros, non_zero_bytes = of_nat (length tx_data) - zeros\<rparr>)"

record ecotone_gas_fee =
  eg_base_fee :: u256
  eg_base_fee_scalar :: u256
  eg_blob_base_fee :: u256
  eg_blob_base_fee_scalar :: u256

definition ecotone_new :: "u256 \<Rightarrow> u32 \<Rightarrow> u256 \<Rightarrow> u32 \<Rightarrow> ecotone_gas_fee" where
  "ecotone_new base_fee base_fee_scalar blob_base_fee blob_base_fee_scalar =
     \<lparr>eg_base_fee = base_fee, eg_base_fee_scalar = ucast base_fee_scalar,
      eg_blob_base_fee = blob_base_fee, eg_blob_base_fee_scalar = ucast blob_base_fee_scalar\<rparr>"

definition ZERO_BYTE_MULTIPLIER :: u256 where
  "ZERO_BYTE_MULTIPLIER = 4"

definition GAS_PRICE_MULTIPLIER :: u256 where
  "GAS_PRICE_MULTIPLIER = 16"

definition l1_fee :: "ecotone_gas_fee \<Rightarrow> l1_gas_fee_input \<Rightarrow> u256" where
  "l1_fee g input =
     (let tx_compressed_size =
            (zero_bytes input * ZERO_BYTE_MULTIPLIER + non_zero_bytes input * GAS_PRICE_MULTIPLIER)
              div GAS_PRICE_MULTIPLIER;
          weighted_gas_price =
            GAS_PRICE_MULTIPLIER * eg_base_fee_scalar g * eg_base_fee g
              + eg_blob_base_fee_scalar g * eg_blob_base_fee g
      in tx_compressed_size * weighted_gas_price)"

record l1_block_info =
  l1_gas_price :: "u128 option"
  l1_gas_used :: "u128 option"
  l1_info_fee :: "u128 option"
  l1_base_fee_scalar :: "u128 option"
  l1_blob_base_fee :: "u128 option"
  l1_blob_base_fee_scalar :: "u128 option"
  operator_fee_scalar :: "u128 option"
  operator_fee_constant :: "u128 option"

definition l1_block_info_of :: "ecotone_gas_fee \<Rightarrow> l1_gas_fee_input \<Rightarrow> l1_block_info option" where
  "l1_block_info_of g input =
     Some \<lparr>l1_gas_price = Some (saturating_to (eg_base_fee g)),
           l1_gas_used = None,
           l1_info_fee = Some (saturating_to (l1_fee g input)),
           l1_base_fee_scalar = Some (saturating_to (eg_base_fee_scalar g)),
           l1_blob_base_fee = Some (saturating_to (eg_blob_base_fee g)),
           l1_blob_base_fee_scalar = Some (saturating_to (eg_blob_base_fee_scalar g)),
           operator_fee_scalar = None,
           operator_fee_constant = None\<rparr>"

text \<open>A slice \<open>data[i..j]\<close> panics when it leaves the array.\<close>

definition slice :: "bytes \<Rightarrow> nat \<Rightarrow> nat \<Rightarrow> panic + bytes" where
  "slice data i j =
     (if i \<le> j \<and> j \<le> length data then Inr (take (j - i) (drop i data))
      else Inl (Panic ''range end index out of range''))"

definition for_deposit :: "bytes \<Rightarrow> panic + ecotone_gas_fee" where
  "for_deposit data =
     rbind (slice data 36 68) (\<lambda>base_fee.
     rbind (slice data 68 100) (\<lambda>blob_base_fee.
     rbind (slice data 4 8) (\<lambda>base_fee_scalar.
     rbind (slice data 8 12) (\<lambda>blob_base_fee_scalar.
       Inr (ecotone_new (from_be_bytes base_fee) (from_be_bytes base_fee_scalar)
              (from_be_bytes blob_base_fee) (from_be_bytes blob_base_fee_scalar))))))"

section \<open>Layer 2\<close>

record l2_gas_fee_input =
  l2_gas_limit :: u64
  l2_effective_gas_price :: u256

definition l2_input_new :: "u64 \<Rightarrow> u256 \<Rightarrow> l2_gas_fee_input" where
  "l2_input_new limit price = \<lparr>l2_gas_limit = limit, l2_effective_gas_price = price\<rparr>"

record moved_gas_fee =
  gas_fee_multiplier :: u256

definition l2_fee :: "moved_gas_fee \<Rightarrow> l2_gas_fee_input \<Rightarrow> u256" where
  "l2_fee f input =
     saturating_mul (saturating_mul (l2_effective_gas_price input) (ucast (l2_gas_limit input)))
       (gas_fee_multiplier f)"

definition DEFAULT_L2_GAS_MULTIPLIER :: u256 where
  "DEFAULT_L2_GAS_MULTIPLIER = 1"

definition with_gas_fee_multiplier :: "u256 \<Rightarrow> moved_gas_fee" where
  "with_gas_fee_multiplier m = \<lparr>gas_fee_multiplier = m\<rparr>"

definition with_default_gas_fee_multiplier :: moved_gas_fee where
  "with_default_gas_fee_multiplier = with_gas_fee_multiplier DEFAULT_L2_GAS_MULTIPLIER"

text \<open>The three gas quantities are read from the gas meter; their sum saturates and is scaled back
  by the factor of the gas schedule.\<close>

definition total_gas_used :: "u64 \<Rightarrow> u64 \<Rightarrow> u64 \<Rightarrow> u64 \<Rightarrow> panic + u64" where
  "total_gas_used execution_gas io_gas storage_fee scaling_factor =
     div_or_panic (saturating_add (saturating_add execution_gas io_gas) storage_fee) scaling_factor"

section \<open>Lemmas\<close>

lemma unat_l2_fee:
  "unat (l2_fee f input) =
     min (min (unat (l2_effective_gas_price input) * unat (l2_gas_limit input)) (2 ^ 256 - 1)
            * unat (gas_fee_multiplier f)) (2 ^ 256 - 1)"
  by (simp add: l2_fee_def unat_saturating_mul)

lemma l2_fee_mono:
  assumes "used \<le> limit"
  shows "l2_fee f (l2_input_new used p) \<le> l2_fee f (l2_input_new limit p)"
  unfolding word_le_nat_alt unat_l2_fee
  using assms by (intro min.mono mult_le_mono) (simp_all add: l2_input_new_def word_le_nat_alt)

lemma for_deposit_Inr_iff: "(\<exists>g. for_deposit data = Inr g) \<longleftrightarrow> 100 \<le> length data"
  by (auto simp: for_deposit_def slice_def)

lemma tip_per_gas_le:
  "base_fee \<le> nt_max_fee_per_gas tx \<Longrightarrow> tip_per_gas tx base_fee \<le> nt_max_fee_per_gas tx - base_fee"
  by (simp add: tip_per_gas_def checked_sub_def)

lemma unat_mult_exact: "unat x * unat y < 2 ^ LENGTH('a) \<Longrightarrow> unat (x * y) = unat x * unat y"
  for x y :: "'a::len word"
  by (simp add: unat_word_ariths)

lemma unat_add_exact: "unat x + unat y < 2 ^ LENGTH('a) \<Longrightarrow> unat (x + y) = unat x + unat y"
  for x y :: "'a::len word"
  by (simp add: unat_word_ariths)

text \<open>The layer-1 fee in unbounded arithmetic: the compressed size and the weighted price.\<close>

definition l1_size_nat :: "bytes \<Rightarrow> nat" where
  "l1_size_nat data =
     (4 * length (filter (\<lambda>v. v = 0) data) + 16 * length (filter (\<lambda>v. v \<noteq> 0) data)) div 16"

definition l1_price_nat :: "ecotone_gas_fee \<Rightarrow> nat" where
  "l1_price_nat g = 16 * unat (eg_base_fee_scalar g) * unat (eg_base_fee g)
     + unat (eg_blob_base_fee_scalar g) * unat (eg_blob_base_fee g)"

lemma l1_size_exact:
  assumes "z + n < 2 ^ 64"
  shows "unat ((of_nat z * 4 + of_nat n * 16 :: u256) div 16) = (4 * z + 16 * n) div 16"
proof -
  have "of_nat z * 4 + of_nat n * 16 = (of_nat (4 * z + 16 * n) :: u256)"
    by simp
  moreover have "unat (of_nat (4 * z + 16 * n) :: u256) = 4 * z + 16 * n"
    using assms by (simp only: unat_of_nat) simp
  ultimately show ?thesis by (simp only: unat_div) simp
qed

lemma l1_price_exact:
  assumes "l1_price_nat g < 2 ^ 256"
  shows "unat (16 * eg_base_fee_scalar g * eg_base_fee g
      + eg_blob_base_fee_scalar g * eg_blob_base_fee g) = l1_price_nat g"
proof -
  have a: "unat (16 * eg_base_fee_scalar g * eg_base_fee g)
      = 16 * unat (eg_base_fee_scalar g) * unat (eg_base_fee g)"
  proof (cases "eg_base_fee g = 0")
    case False
    have "16 * unat (eg_base_fee_scalar g) * 1
        \<le> 16 * unat (eg_base_fee_scalar g) * unat (eg_base_fee g)"
      using False by (intro mult_le_mono2) (simp add: Suc_le_eq unat_gt_0)
    then have "16 * unat (eg_base_fee_scalar g) < 2 ^ 256"
      using assms unfolding l1_price_nat_def by linarith
    then have "unat (16 * eg_base_fee_scalar g) = 16 * unat (eg_base_fee_scalar g)"
      by (simp add: unat_mult_exact)
    moreover have "16 * unat (eg_base_fee_scalar g) * unat (eg_base_fee g) \<le> l1_price_nat g"
      by (simp add: l1_price_nat_def)
    then have "16 * unat (eg_base_fee_scalar g) * unat (eg_base_fee g) < 2 ^ LENGTH(256)"
      using assms by (rule le_less_trans [OF _ less_le_trans]) simp
    ultimately show ?thesis by (metis unat_mult_exact)
  qed simp
  have "unat (eg_blob_base_fee_scalar g * eg_blob_base_fee g)
      = unat (eg_blob_base_fee_scalar g) * unat (eg_blob_base_fee g)"
    using assms by (simp add: unat_mult_exact l1_price_nat_def)
  with a show ?thesis using assms by (simp add: unat_add_exact l1_price_nat_def)
qed

lemma le_bytes_4_inverse [simp]: "from_le_bytes (le_bytes 4 v) = (v :: u32)"
  by (simp add: from_le_bytes_le_bytes) (rule bit_word_eqI, simp add: bit_simps)

section \<open>Properties\<close>

text \<open>When the base fee is at most the transaction's maximum fee, the effective price is
  \<open>min(max_fee, base_fee + max_priority_fee)\<close>: the addition does not wrap, the price is at least the
  base fee and never exceeds what the sender agreed to pay.\<close>

lemma effective_gas_price_bounds:
  assumes "base_fee \<le> nt_max_fee_per_gas tx"
  shows "unat (effective_gas_price tx base_fee)
      = min (unat (nt_max_fee_per_gas tx))
            (unat base_fee + unat (nt_max_priority_fee_per_gas tx))
    \<and> base_fee \<le> effective_gas_price tx base_fee
    \<and> effective_gas_price tx base_fee \<le> nt_max_fee_per_gas tx"
proof -
  have tip: "unat (tip_per_gas tx base_fee)
      = min (unat (nt_max_priority_fee_per_gas tx)) (unat (nt_max_fee_per_gas tx) - unat base_fee)"
    using assms by (simp add: tip_per_gas_def checked_sub_def unat_min unat_sub)
  have le: "unat base_fee \<le> unat (nt_max_fee_per_gas tx)"
    using assms by (simp add: word_le_nat_alt)
  then have "unat (tip_per_gas tx base_fee) + unat base_fee < 2 ^ 256"
    using unat_less [of "nt_max_fee_per_gas tx"] by (simp add: tip)
  then have "unat (effective_gas_price tx base_fee) = unat (tip_per_gas tx base_fee) + unat base_fee"
    by (simp add: effective_gas_price_def unat_word_ariths)
  with le show ?thesis unfolding word_le_nat_alt tip by linarith
qed

text \<open>When the base fee is above the transaction's maximum fee per gas, the tip is zero and the
  transaction is priced at the base fee: it is charged more per gas than its signed maximum.
  Nothing in fee computation or verification rejects such a transaction.\<close>

lemma effective_gas_price_above_max:
  assumes "nt_max_fee_per_gas tx < base_fee"
  shows "effective_gas_price tx base_fee = base_fee \<and> tip_per_gas tx base_fee = 0
    \<and> nt_max_fee_per_gas tx < effective_gas_price tx base_fee"
  using assms
  by (simp add: effective_gas_price_def tip_per_gas_def checked_sub_def linorder_not_le [symmetric])

text \<open>C21. The zero and non-zero byte counts of a transaction add up to its length, and the layer-1
  fee of that input is \<open>((4 * zeros + 16 * non_zeros) / 16) * (16 * base_fee_scalar * base_fee +
  blob_base_fee_scalar * blob_base_fee)\<close> in unbounded arithmetic as long as that product stays
  below \<open>2 ^ 256\<close>, so no intermediate 256-bit operation wraps.\<close>

theorem l1_fee_exact:
  assumes "length data < 2 ^ 64" "l1_size_nat data * l1_price_nat g < 2 ^ 256"
    and "l1_price_nat g < 2 ^ 256"
  shows "length (filter (\<lambda>v. v = 0) data) + length (filter (\<lambda>v. v \<noteq> 0) data) = length data
    \<and> unat (l1_fee g (l1_input_of_bytes data)) = l1_size_nat data * l1_price_nat g"
proof -
  let ?z = "length (filter (\<lambda>v. v = 0) data)" and ?n = "length (filter (\<lambda>v. v \<noteq> 0) data)"
  have sum: "?z + ?n = length data" by (rule sum_length_filter_compl)
  have size: "unat ((of_nat ?z * 4 + of_nat ?n * 16 :: u256) div 16) = l1_size_nat data"
    using l1_size_exact [of ?z ?n] sum assms(1) by (simp add: l1_size_nat_def)
  have "of_nat (length data) - (of_nat ?z :: u256) = of_nat ?n"
    by (simp flip: sum)
  then have "l1_fee g (l1_input_of_bytes data)
      = (of_nat ?z * 4 + of_nat ?n * 16) div 16
        * (16 * eg_base_fee_scalar g * eg_base_fee g
           + eg_blob_base_fee_scalar g * eg_blob_base_fee g)"
    by (simp add: l1_fee_def l1_input_of_bytes_def Let_def ZERO_BYTE_MULTIPLIER_def
        GAS_PRICE_MULTIPLIER_def)
  then show ?thesis
    using size l1_price_exact [OF assms(3)] assms(2) sum by (simp add: unat_mult_exact)
qed

theorem l1_fee_exact_witness:
  "unat (l1_fee (ecotone_new 10 2 3 1) (l1_input_of_bytes [0, 0, 0, 0, 1, 2])) = 969"
  using l1_fee_exact [of "[0, 0, 0, 0, 1, 2]" "ecotone_new 10 2 3 1"]
  by (simp add: l1_size_nat_def l1_price_nat_def ecotone_new_def)

text \<open>The layer-1 fee parameters are read from the input of the block's first deposit at the
  offsets of the Ecotone L1-attributes calldata; an input of fewer than 100 bytes makes the node
  panic and every longer one is accepted.\<close>

lemma for_deposit_layout:
  "length sel = 4 \<Longrightarrow> length mid = 24 \<Longrightarrow>
     for_deposit (sel @ be_bytes 4 s @ be_bytes 4 bs @ mid @ be_bytes 32 fee @ be_bytes 32 bfee @ rest)
       = Inr (ecotone_new fee s bfee bs)
   \<and> (length data < 100 \<longleftrightarrow> (\<exists>p. for_deposit data = Inl p))"
  using for_deposit_Inr_iff [of data]
  by (cases "for_deposit data")
    (auto simp: for_deposit_def slice_def from_be_bytes_def be_bytes_def le_bytes_4_inverse)

text \<open>The layer-2 fee grows with the gas: what a transaction is charged up front for its gas
  limit covers what it used, and the charge minus the refund \<open>l2_cost.saturating_sub(used_l2_cost)\<close>
  is exactly the cost of the gas used.\<close>

lemma l2_charge_minus_refund:
  assumes "used \<le> limit"
  shows "l2_fee f (l2_input_new used p) \<le> l2_fee f (l2_input_new limit p)
    \<and> unat (l2_fee f (l2_input_new limit p))
        - unat (saturating_sub (l2_fee f (l2_input_new limit p)) (l2_fee f (l2_input_new used p)))
      = unat (l2_fee f (l2_input_new used p))"
  using l2_fee_mono [OF assms, of f p] by (simp add: unat_saturating_sub word_le_nat_alt)

end
