(* ===== verification/Receipt_Memory.thy ===== *)
theory Receipt_Memory
  imports Transaction_Memory Gas
begin

text \<open>
  Receipts as the node stores and serves them: \<^verbatim>\<open>blockchain/src/receipt/write.rs\<close>, \<^verbatim>\<open>read.rs\<close> and
  \<^verbatim>\<open>in_memory.rs\<close>. A stored receipt knows how many logs precede it in its block (\<open>logs_offset\<close>);
  the response numbers its logs from there.
\<close>

record extended_receipt =
  er_transaction_hash :: b256
  er_transaction_index :: u64
  er_to :: "address option"
  er_from :: address
  er_receipt :: "log op_receipt_envelope"
  er_l1_block_info :: "l1_block_info option"
  er_gas_used :: u64
  er_l2_gas_price :: u256
  er_contract_address :: "address option"
  er_logs_offset :: u64
  er_block_hash :: b256
  er_block_number :: u64
  er_block_timestamp :: u64

definition with_block_hash :: "b256 \<Rightarrow> extended_receipt \<Rightarrow> extended_receipt" where
  "with_block_hash h r = r\<lparr>er_block_hash := h\<rparr>"

section \<open>The response to a receipt query\<close>

record rpc_log =
  rl_inner :: log
  rl_block_hash :: "b256 option"
  rl_block_number :: "u64 option"
  rl_block_timestamp :: "u64 option"
  rl_transaction_hash :: "b256 option"
  rl_transaction_index :: "u64 option"
  rl_log_index :: "u64 option"
  rl_removed :: bool

record transaction_receipt =
  rr_inner :: "rpc_log op_receipt_envelope"
  rr_transaction_hash :: b256
  rr_transaction_index :: "u64 option"
  rr_block_hash :: "b256 option"
  rr_block_number :: "u64 option"
  rr_gas_used :: u64
  rr_effective_gas_price :: u128
  rr_blob_gas_used :: "u64 option"
  rr_blob_gas_price :: "u128 option"
  rr_from :: address
  rr_to :: "address option"
  rr_contract_address :: "address option"
  rr_l1_block_info :: l1_block_info

definition default_l1_block_info :: l1_block_info where
  "default_l1_block_info = \<lparr>l1_gas_price = None, l1_gas_used = None, l1_info_fee = None,
     l1_base_fee_scalar = None, l1_blob_base_fee = None, l1_blob_base_fee_scalar = None,
     operator_fee_scalar = None, operator_fee_constant = None\<rparr>"

definition rpc_log_of :: "extended_receipt \<Rightarrow> nat \<times> log \<Rightarrow> rpc_log" where
  "rpc_log_of rx = (\<lambda>(internal_index, l).
     \<lparr>rl_inner = l, rl_block_hash = Some (er_block_hash rx),
      rl_block_number = Some (er_block_number rx),
      rl_block_timestamp = Some (er_block_timestamp rx),
      rl_transaction_hash = Some (er_transaction_hash rx),
      rl_transaction_index = Some (er_transaction_index rx),
      rl_log_index = Some (er_logs_offset rx + of_nat internal_index),
      rl_removed = False\<rparr>)"

definition transaction_receipt_from :: "extended_receipt \<Rightarrow> panic + transaction_receipt" where
  "transaction_receipt_from rx =
     (let ls = map (rpc_log_of rx) (enumerate 0 (logs (receipt_of (er_receipt rx))))
      in case with_rpc_logs (er_receipt rx) ls of
           Inl p \<Rightarrow> Inl p
         | Inr receipt \<Rightarrow> Inr
             \<lparr>rr_inner = receipt, rr_transaction_hash = er_transaction_hash rx,
              rr_transaction_index = Some (er_transaction_index rx),
              rr_block_hash = Some (er_block_hash rx), rr_block_number = Some (er_block_number rx),
              rr_gas_used = er_gas_used rx,
              rr_effective_gas_price = saturating_to (er_l2_gas_price rx),
              rr_blob_gas_used = None, rr_blob_gas_price = None,
              rr_from = er_from rx, rr_to = er_to rx,
              rr_contract_address = er_contract_address rx,
              rr_l1_block_info = unwrap_or (er_l1_block_info rx) default_l1_block_info\<rparr>)"

section \<open>The store\<close>

type_synonym receipt_memory = "(b256, extended_receipt) evmap"
type_synonym receipt_pick = "extended_receipt list \<Rightarrow> extended_receipt"

definition receipt_memory_extend :: "extended_receipt list \<Rightarrow> receipt_memory \<Rightarrow> receipt_memory" where
  "receipt_memory_extend rs m = em_refresh (em_extend (map (\<lambda>r. (er_transaction_hash r, r)) rs) m)"

definition receipt_contains :: "receipt_memory \<Rightarrow> b256 \<Rightarrow> bool" where
  "receipt_contains m h = contains_key m h"

definition receipt_by_transaction_hash ::
  "receipt_pick \<Rightarrow> receipt_memory \<Rightarrow> b256 \<Rightarrow> extended_receipt option" where
  "receipt_by_transaction_hash pick m h = get_one pick m h"

definition receipt_query_by_transaction_hash ::
  "receipt_pick \<Rightarrow> receipt_memory \<Rightarrow> b256 \<Rightarrow> panic + transaction_receipt option" where
  "receipt_query_by_transaction_hash pick m h =
     (case receipt_by_transaction_hash pick m h of
        None \<Rightarrow> Inr None
      | Some r \<Rightarrow> (case transaction_receipt_from r of Inl p \<Rightarrow> Inl p | Inr x \<Rightarrow> Inr (Some x)))"

interpretation rxm: keyed_memory er_transaction_hash receipt_memory_extend
  receipt_by_transaction_hash "\<lambda>m. bag (em_read m)" em_synced
  by unfold_locales
    (simp_all add: receipt_memory_extend_def receipt_by_transaction_hash_def em_synced_extend
      get_one_extend_bag get_one_None_iff get_one_Some_member)

lemma receipt_contains_iff:
  "em_synced m \<Longrightarrow> receipt_contains m h \<longleftrightarrow> receipt_by_transaction_hash pick m h \<noteq> None"
  unfolding receipt_contains_def receipt_by_transaction_hash_def
  by (rule contains_key_iff_get_one)

section \<open>Log indices of a block\<close>

text \<open>A list of receipts whose offsets count the logs before them, starting at \<open>n\<close>.\<close>

fun offsets_from :: "nat \<Rightarrow> extended_receipt list \<Rightarrow> bool" where
  "offsets_from n [] = True"
| "offsets_from n (r # rs) \<longleftrightarrow>
     er_logs_offset r = of_nat n \<and> offsets_from (n + length (logs (receipt_of (er_receipt r)))) rs"

definition response_logs :: "extended_receipt \<Rightarrow> rpc_log list" where
  "response_logs r =
     (case transaction_receipt_from r of Inl p \<Rightarrow> [] | Inr x \<Rightarrow> logs (receipt_of (rr_inner x)))"

lemma transaction_receipt_from_Inr:
  assumes "transaction_receipt_from r = Inr x"
  shows "logs (receipt_of (rr_inner x))
    = map (rpc_log_of r) (enumerate 0 (logs (receipt_of (er_receipt r))))"
  using assms
  by (auto simp: transaction_receipt_from_def Let_def replace_logs_def split: sum.splits
      dest: receipt_of_with_rpc_logs)

lemma transaction_receipt_from_total:
  "(\<exists>x. transaction_receipt_from r = Inr x) \<longleftrightarrow> (\<nexists>q b. er_receipt r = ReceiptEip7702 q b)"
  by (cases "er_receipt r") (simp_all add: transaction_receipt_from_def)

lemma log_indices_receipt:
  assumes "transaction_receipt_from r = Inr x" "er_logs_offset r = of_nat n"
  shows "map rl_log_index (response_logs r)
    = map (\<lambda>i. Some (of_nat i)) [n..<n + length (logs (receipt_of (er_receipt r)))]"
  using assms
  by (auto simp: response_logs_def transaction_receipt_from_Inr rpc_log_of_def intro!: nth_equalityI
      simp: nth_enumerate_eq)

lemma log_indices_block:
  assumes "offsets_from n rs" "\<And>r. r \<in> set rs \<Longrightarrow> \<exists>x. transaction_receipt_from r = Inr x"
  shows "map rl_log_index (concat (map response_logs rs))
    = map (\<lambda>i. Some (of_nat i)) [n..<n + (\<Sum>r\<leftarrow>rs. length (logs (receipt_of (er_receipt r))))]"
  using assms
proof (induction rs arbitrary: n)
  case (Cons r rs)
  obtain x where "transaction_receipt_from r = Inr x" using Cons.prems(2) by auto
  then have "map rl_log_index (response_logs r)
      = map (\<lambda>i. Some (of_nat i)) [n..<n + length (logs (receipt_of (er_receipt r)))]"
    using Cons.prems(1) by (intro log_indices_receipt) auto
  moreover have "map rl_log_index (concat (map response_logs rs))
      = map (\<lambda>i. Some (of_nat i)) [n + length (logs (receipt_of (er_receipt r)))..<
          n + length (logs (receipt_of (er_receipt r)))
            + (\<Sum>r\<leftarrow>rs. length (logs (receipt_of (er_receipt r))))]"
    using Cons.prems by (intro Cons.IH) auto
  ultimately show ?case
    using upt_add_eq_append [of n "n + length (logs (receipt_of (er_receipt r)))"]
    by (simp add: add.assoc)
qed simp

text \<open>When the offsets of the receipts of a block count the logs before them, the log indices in
  the responses are the consecutive positions of the logs in the block: no index is skipped and
  none occurs twice, across all transactions of the block.\<close>

lemma log_indices_consecutive:
  assumes "offsets_from 0 rs"
    and "\<And>r. r \<in> set rs \<Longrightarrow> \<exists>x. transaction_receipt_from r = Inr x"
  shows "map rl_log_index (concat (map response_logs rs))
    = map (\<lambda>i. Some (of_nat i)) [0..<\<Sum>r\<leftarrow>rs. length (logs (receipt_of (er_receipt r)))]"
  using log_indices_block [OF assms] by simp

text \<open>The receipt store and its presence test agree: after receipts have been added, a
  transaction hash is contained exactly when a query for it finds a receipt, that is when a receipt
  with this hash was added now or was there before, and a query only returns receipts of the hash
  asked for.\<close>

lemma receipt_extend_contains:
  assumes "picks_member pick" "rxm.keyed m"
    and "m' = receipt_memory_extend rs m"
  shows "rxm.keyed m' \<and>
    (receipt_contains m' h \<longleftrightarrow> h \<in> er_transaction_hash ` set rs \<or> receipt_contains m h) \<and>
    (receipt_contains m' h \<longleftrightarrow> receipt_by_transaction_hash pick m' h \<noteq> None) \<and>
    (\<forall>r. receipt_by_transaction_hash pick m' h = Some r \<longrightarrow> er_transaction_hash r = h)"
proof -
  have k: "rxm.keyed m'" using rxm.keyed_extend [OF assms(2)] by (simp add: assms(3))
  have ok: "em_synced m" "em_synced m'" using assms(2) k by (simp_all add: rxm.keyed_def)
  have "receipt_by_transaction_hash pick m' h \<noteq> None \<longleftrightarrow>
      h \<in> er_transaction_hash ` set rs \<or> receipt_by_transaction_hash pick m h \<noteq> None"
    by (auto simp: rxm.lookup_None assms(3) rxm.stored_extend [OF ok(1)] filter_empty_conv)
  then show ?thesis
    using k rxm.lookup_key [OF assms(1) k]
    by (simp add: receipt_contains_iff [OF ok(1), of _ pick] receipt_contains_iff [OF ok(2), of _ pick])
qed

end
