(* ===== verification/Block_Queries.thy ===== *)
theory Block_Queries
  imports Block_Memory Receipt_Memory
begin

text \<open>
  The memory shared by blocks and transactions and the queries over it:
  \<^verbatim>\<open>blockchain/src/in_memory.rs\<close>, \<^verbatim>\<open>block/read.rs\<close>, \<^verbatim>\<open>payload/id.rs\<close>, \<^verbatim>\<open>payload/read.rs\<close> and
  \<^verbatim>\<open>payload/in_memory.rs\<close>. SHA-256, RLP encoding of withdrawals and EIP-2718 encoding of transactions
  are third-party code and arguments here.
\<close>

section \<open>Shared memory\<close>

record shared_memory =
  sm_blocks :: block_memory
  sm_transactions :: transaction_memory

definition shared_memory_new :: shared_memory where
  "shared_memory_new = \<lparr>sm_blocks = block_memory_new, sm_transactions = em_new\<rparr>"

record picks =
  pk_block :: block_pick
  pk_tx :: tx_pick

section \<open>Block queries\<close>

datatype block_transactions =
  Hashes "b256 list"
| Full "transaction_response list"

record block_response =
  br_transactions :: block_transactions
  br_hash :: b256
  br_header :: header
  br_total_difficulty :: "u256 option"
  br_size :: "u256 option"
  br_uncles :: "b256 list"
  br_withdrawals :: "unit list option"

definition block_response_new :: "block_transactions \<Rightarrow> extended_block \<Rightarrow> block_response" where
  "block_response_new txs b =
     \<lparr>br_transactions = txs, br_hash = eb_hash b, br_header = bl_header (eb_block b),
      br_total_difficulty = None, br_size = None, br_uncles = [], br_withdrawals = Some []\<rparr>"

definition from_block_with_transaction_hashes :: "extended_block \<Rightarrow> block_response" where
  "from_block_with_transaction_hashes b =
     block_response_new (Hashes (bl_transactions (eb_block b))) b"

definition from_block_with_transactions ::
  "tx_ops \<Rightarrow> extended_block \<Rightarrow> extended_transaction list \<Rightarrow> panic + block_response" where
  "from_block_with_transactions ops b txs =
     rbind (collect_result (map (transaction_response_from ops) txs)) (\<lambda>rs.
       Inr (block_response_new (Full rs) b))"

definition respond ::
  "tx_ops \<Rightarrow> picks \<Rightarrow> shared_memory \<Rightarrow> bool \<Rightarrow> extended_block \<Rightarrow> panic + block_response" where
  "respond ops pk mem include_transactions b =
     (if include_transactions
      then from_block_with_transactions ops b
             (transactions_by_hashes (pk_tx pk) (sm_transactions mem) (transaction_hashes b))
      else Inr (from_block_with_transaction_hashes b))"

definition query_by_hash ::
  "tx_ops \<Rightarrow> picks \<Rightarrow> shared_memory \<Rightarrow> b256 \<Rightarrow> bool \<Rightarrow> panic + block_response option" where
  "query_by_hash ops pk mem h include_transactions =
     (case by_hash (pk_block pk) (sm_blocks mem) h of
        None \<Rightarrow> Inr None
      | Some b \<Rightarrow> rbind (respond ops pk mem include_transactions b) (\<lambda>r. Inr (Some r)))"

definition query_by_height ::
  "tx_ops \<Rightarrow> picks \<Rightarrow> shared_memory \<Rightarrow> u64 \<Rightarrow> bool \<Rightarrow> panic + block_response option" where
  "query_by_height ops pk mem n include_transactions =
     (case by_height (pk_block pk) (sm_blocks mem) n of
        None \<Rightarrow> Inr None
      | Some b \<Rightarrow> rbind (respond ops pk mem include_transactions b) (\<lambda>r. Inr (Some r)))"

definition query_latest :: "shared_memory \<Rightarrow> u64 option" where
  "query_latest mem = height (sm_blocks mem)"

section \<open>Payload identifiers\<close>

record withdrawal =
  wd_index :: u64
  wd_validator_index :: u64
  wd_address :: address
  wd_amount :: u64

record new_payload_id_input =
  pi_parent :: b256
  pi_timestamp :: u64
  pi_random :: b256
  pi_fee_recipient :: address
  pi_withdrawals :: "withdrawal list"
  pi_beacon_root :: "b256 option"
  pi_version :: u8

definition new_v3 :: "b256 \<Rightarrow> u64 \<Rightarrow> b256 \<Rightarrow> address \<Rightarrow> new_payload_id_input" where
  "new_v3 parent timestamp random fee_recipient =
     \<lparr>pi_parent = parent, pi_timestamp = timestamp, pi_random = random,
      pi_fee_recipient = fee_recipient, pi_withdrawals = [], pi_beacon_root = None,
      pi_version = 3\<rparr>"

definition with_withdrawals :: "withdrawal list \<Rightarrow> new_payload_id_input \<Rightarrow> new_payload_id_input" where
  "with_withdrawals ws i = i\<lparr>pi_withdrawals := ws\<rparr>"

definition with_beacon_root :: "b256 \<Rightarrow> new_payload_id_input \<Rightarrow> new_payload_id_input" where
  "with_beacon_root r i = i\<lparr>pi_beacon_root := Some r\<rparr>"

definition payload_id_preimage :: "(withdrawal list \<Rightarrow> bytes) \<Rightarrow> new_payload_id_input \<Rightarrow> bytes" where
  "payload_id_preimage rlp i =
     pi_parent i @ be_bytes 8 (pi_timestamp i) @ pi_random i @ pi_fee_recipient i
       @ rlp (pi_withdrawals i) @ unwrap_or (pi_beacon_root i) []"

definition new_payload_id ::
  "(bytes \<Rightarrow> bytes) \<Rightarrow> (withdrawal list \<Rightarrow> bytes) \<Rightarrow> new_payload_id_input \<Rightarrow> payload_id" where
  "new_payload_id sha256 rlp i =
     (let h = (sha256 (payload_id_preimage rlp i))[0 := pi_version i]
      in from_be_bytes (take 8 h))"

section \<open>Payloads\<close>

record execution_payload =
  ep_parent_hash :: b256
  ep_fee_recipient :: address
  ep_state_root :: b256
  ep_receipts_root :: b256
  ep_logs_bloom :: bloom
  ep_prev_randao :: b256
  ep_block_number :: u64
  ep_gas_limit :: u64
  ep_gas_used :: u64
  ep_timestamp :: u64
  ep_extra_data :: bytes
  ep_base_fee_per_gas :: u256
  ep_block_hash :: b256
  ep_transactions :: "bytes list"
  ep_withdrawals :: "withdrawal list"
  ep_blob_gas_used :: u64
  ep_excess_blob_gas :: u64

record blobs_bundle =
  bb_commitments :: "bytes list"
  bb_proofs :: "bytes list"
  bb_blobs :: "bytes list"

record payload_response =
  pr_execution_payload :: execution_payload
  pr_block_value :: u256
  pr_blobs_bundle :: blobs_bundle
  pr_should_override_builder :: bool
  pr_parent_beacon_block_root :: b256

definition execution_payload_from ::
  "(op_tx_envelope \<Rightarrow> bytes) \<Rightarrow> extended_block \<Rightarrow> op_tx_envelope list \<Rightarrow> execution_payload" where
  "execution_payload_from encode_2718 b txs =
     (let h = bl_header (eb_block b)
      in \<lparr>ep_parent_hash = hd_parent_hash h, ep_fee_recipient = hd_beneficiary h,
          ep_state_root = hd_state_root h, ep_receipts_root = hd_receipts_root h,
          ep_logs_bloom = hd_logs_bloom h, ep_prev_randao = hd_mix_hash h,
          ep_block_number = hd_number h, ep_gas_limit = hd_gas_limit h,
          ep_gas_used = hd_gas_used h, ep_timestamp = hd_timestamp h,
          ep_extra_data = hd_extra_data h,
          ep_base_fee_per_gas = ucast (unwrap_or (hd_base_fee_per_gas h) 0),
          ep_block_hash = eb_hash b, ep_transactions = map encode_2718 txs,
          ep_withdrawals = [],
          ep_blob_gas_used = unwrap_or (hd_blob_gas_used h) 0,
          ep_excess_blob_gas = unwrap_or (hd_excess_blob_gas h) 0\<rparr>)"

definition payload_response_from ::
  "(op_tx_envelope \<Rightarrow> bytes) \<Rightarrow> extended_block \<Rightarrow> op_tx_envelope list \<Rightarrow> payload_response" where
  "payload_response_from encode_2718 b txs =
     \<lparr>pr_execution_payload = execution_payload_from encode_2718 b txs,
      pr_block_value = eb_value b,
      pr_blobs_bundle = \<lparr>bb_commitments = [], bb_proofs = [], bb_blobs = []\<rparr>,
      pr_should_override_builder = False,
      pr_parent_beacon_block_root =
        unwrap_or (hd_parent_beacon_block_root (bl_header (eb_block b))) (replicate 32 0)\<rparr>"

definition block_into_payload ::
  "(op_tx_envelope \<Rightarrow> bytes) \<Rightarrow> picks \<Rightarrow> shared_memory \<Rightarrow> extended_block \<Rightarrow> payload_response" where
  "block_into_payload encode_2718 pk mem b =
     payload_response_from encode_2718 b
       (map et_inner
          (transactions_by_hashes (pk_tx pk) (sm_transactions mem) (transaction_hashes b)))"

definition payload_by_hash ::
  "(op_tx_envelope \<Rightarrow> bytes) \<Rightarrow> picks \<Rightarrow> shared_memory \<Rightarrow> b256 \<Rightarrow> payload_response option" where
  "payload_by_hash encode_2718 pk mem h =
     map_option (block_into_payload encode_2718 pk mem) (by_hash (pk_block pk) (sm_blocks mem) h)"

definition payload_by_id ::
  "(op_tx_envelope \<Rightarrow> bytes) \<Rightarrow> picks \<Rightarrow> shared_memory \<Rightarrow> payload_id \<Rightarrow> payload_response option" where
  "payload_by_id encode_2718 pk mem i =
     map_option (block_into_payload encode_2718 pk mem)
       (by_payload_id (pk_block pk) (sm_blocks mem) i)"

section \<open>Properties\<close>

text \<open>The first byte of a payload identifier is its version: two inputs that differ in the
  version never get the same identifier, whatever the hash function returns (it returns 32
  bytes).\<close>

lemma payload_id_version:
  assumes "\<And>x. length (sha256 x) = 32"
  shows "hd (be_bytes 8 (new_payload_id sha256 rlp i)) = pi_version i \<and>
    (pi_version i \<noteq> pi_version j \<longrightarrow> new_payload_id sha256 rlp i \<noteq> new_payload_id sha256 rlp j)"
proof -
  have "hd (be_bytes 8 (new_payload_id sha256 rlp i)) = pi_version i" for i
  proof -
    let ?h = "sha256 (payload_id_preimage rlp i)"
    obtain b bs where h: "?h = b # bs" "length bs = 31"
      using assms [of "payload_id_preimage rlp i"] by (cases ?h) auto
    have "be_bytes 8 (new_payload_id sha256 rlp i) = pi_version i # take 7 bs"
      using h le_bytes_from_le_bytes [of "rev (pi_version i # take 7 bs)", where ?'a = 64]
      by (simp add: new_payload_id_def from_be_bytes_def be_bytes_def)
    then show ?thesis by simp
  qed
  then show ?thesis by metis
qed

lemma by_id_add_fresh:
  assumes "picks_member pick" "bm_synced m" "by_payload_id pick m (eb_payload_id b) = None"
  shows "by_payload_id pick (block_memory_add b m) (eb_payload_id b) = Some b"
  using assms
  by (simp add: by_payload_id_def get_one_def Let_def bags_after_add split: if_splits)

lemma by_hash_add_fresh:
  assumes "picks_member pick" "bm_synced m" "by_hash pick m (eb_hash b) = None"
  shows "by_hash pick (block_memory_add b m) (eb_hash b) = Some b"
  using assms by (simp add: by_hash_def get_one_def Let_def bags_after_add split: if_splits)

lemma transactions_of_added_block:
  assumes "picks_member pick" "em_synced m"
    and "distinct (map (tx_hash trie_hash) txs)"
    and "\<And>t. t \<in> set txs \<Longrightarrow> transaction_by_hash pick m (tx_hash trie_hash t) = None"
    and "transaction_hashes b = map (tx_hash trie_hash) txs"
  shows "transactions_by_hashes pick (transaction_memory_extend trie_hash txs m) (transaction_hashes b)
    = txs"
proof -
  have "map (transaction_by_hash pick (transaction_memory_extend trie_hash txs m) \<circ> tx_hash trie_hash) txs
      = map Some txs"
    using assms(1-4) by (intro txm.lookup_extend_fresh_list) (auto simp flip: txm.lookup_None [of pick])
  then show ?thesis by (simp only: transactions_by_hashes_def assms(5) filter_map_all_Some)
qed

text \<open>A built block is served completely: once a block with a new hash and payload identifier
  and its new, distinct transactions are stored, the payload asked for by identifier or by hash is
  that block with the encodings of exactly its transactions in their order, and a block query with
  full transactions lists the responses of exactly these transactions.\<close>

lemma stored_block_is_served:
  assumes "picks_member (pk_block pk)" "picks_member (pk_tx pk)"
    and "bm_synced (sm_blocks mem)" "em_synced (sm_transactions mem)"
    and "by_payload_id (pk_block pk) (sm_blocks mem) (eb_payload_id b) = None"
    and "by_hash (pk_block pk) (sm_blocks mem) (eb_hash b) = None"
    and "distinct (map (tx_hash (op_trie_hash ops)) txs)"
    and "\<And>t. t \<in> set txs \<Longrightarrow>
      transaction_by_hash (pk_tx pk) (sm_transactions mem) (tx_hash (op_trie_hash ops) t) = None"
    and "transaction_hashes b = map (tx_hash (op_trie_hash ops)) txs"
    and "mem' = \<lparr>sm_blocks = repository_add b (sm_blocks mem),
      sm_transactions = transaction_memory_extend (op_trie_hash ops) txs (sm_transactions mem)\<rparr>"
  shows "payload_by_id enc pk mem' (eb_payload_id b)
        = Some (payload_response_from enc b (map et_inner txs)) \<and>
    payload_by_hash enc pk mem' (eb_hash b)
        = Some (payload_response_from enc b (map et_inner txs)) \<and>
    query_by_hash ops pk mem' (eb_hash b) True
        = rbind (collect_result (map (transaction_response_from ops) txs)) (\<lambda>rs.
            Inr (Some (block_response_new (Full rs) b)))"
proof -
  note txs = transactions_of_added_block [OF assms(2,4,7,8,9)]
  note ids = by_id_add_fresh [OF assms(1,3,5)] by_hash_add_fresh [OF assms(1,3,6)]
  show ?thesis
    by (cases "collect_result (map (transaction_response_from ops) txs)")
      (simp_all add: assms(10) payload_by_id_def payload_by_hash_def query_by_hash_def respond_def
        repository_add_def block_into_payload_def from_block_with_transactions_def txs ids)
qed

definition example_tx_ops :: tx_ops where
  "example_tx_ops = \<lparr>op_trie_hash = (\<lambda>_. [3]), op_recover = (\<lambda>_. Inr (replicate 20 5)),
     op_abi_decode = (\<lambda>_. None), op_checked_shr = (\<lambda>_ _. None)\<rparr>"

definition example_full_block :: extended_block where
  "example_full_block =
     with_payload_id 7 (with_hash [7] (block_new (example_header 0) [[3]]))"

end
