(* ===== verification/Vm_Session.thy ===== *)
theory Vm_Session
  imports Transaction
begin

text \<open>
  The setting in which transactions execute. The Move VM, its session, the gas meter and the value
  codec are third-party code; the sources reach them through the calls listed in \<open>vm_ops\<close>. A value
  of type \<open>'s\<close> is the joint state of session, traversal context, gas meter and transfer logger of
  one transaction; every call maps a state to a result and the state after it.

  Computations that the sources write with \<open>?\<close> and panics are functions of type \<open>('s, 'a) exec\<close>.
  The recorder of base token movements (\<^verbatim>\<open>evm-ext/src/events.rs\<close>) is modelled here too, because the
  session contains it.
\<close>

section \<open>Computations\<close>

datatype fault =
  Err error
| Panicking string

type_synonym ('s, 'a) exec = "'s \<Rightarrow> (fault + 'a) \<times> 's"

definition ereturn :: "'a \<Rightarrow> ('s, 'a) exec" where
  "ereturn a s = (Inr a, s)"

definition efail :: "error \<Rightarrow> ('s, 'a) exec" where
  "efail e s = (Inl (Err e), s)"

definition epanic :: "string \<Rightarrow> ('s, 'a) exec" where
  "epanic m s = (Inl (Panicking m), s)"

definition ebind :: "('s, 'a) exec \<Rightarrow> ('a \<Rightarrow> ('s, 'b) exec) \<Rightarrow> ('s, 'b) exec" where
  "ebind m f s = (case m s of (Inl e, s') \<Rightarrow> (Inl e, s') | (Inr a, s') \<Rightarrow> f a s')"

definition ethen :: "('s, 'a) exec \<Rightarrow> ('s, 'b) exec \<Rightarrow> ('s, 'b) exec" where
  "ethen m k = ebind m (\<lambda>_. k)"

text \<open>\<open>map_err\<close> changes errors; a panic is not an error value and passes through.\<close>

definition emap_err :: "(error \<Rightarrow> error) \<Rightarrow> ('s, 'a) exec \<Rightarrow> ('s, 'a) exec" where
  "emap_err h m s = (case m s of (Inl (Err e), s') \<Rightarrow> (Inl (Err (h e)), s') | r \<Rightarrow> r)"

text \<open>The result of a call as a value, so that the caller can inspect it; panics still unwind.\<close>

definition ecatch :: "('s, 'a) exec \<Rightarrow> ('s, error + 'a) exec" where
  "ecatch m s =
     (case m s of
        (Inl (Err e), s') \<Rightarrow> (Inr (Inl e), s')
      | (Inl (Panicking p), s') \<Rightarrow> (Inl (Panicking p), s')
      | (Inr a, s') \<Rightarrow> (Inr (Inr a), s'))"

definition elift :: "error + 'a \<Rightarrow> ('s, 'a) exec" where
  "elift r = (case r of Inl e \<Rightarrow> efail e | Inr a \<Rightarrow> ereturn a)"

definition eok_or :: "'a option \<Rightarrow> error \<Rightarrow> ('s, 'a) exec" where
  "eok_or x e = (case x of None \<Rightarrow> efail e | Some a \<Rightarrow> ereturn a)"

definition eunwrap :: "'a option \<Rightarrow> string \<Rightarrow> ('s, 'a) exec" where
  "eunwrap x m = (case x of None \<Rightarrow> epanic m | Some a \<Rightarrow> ereturn a)"

text \<open>A call of the VM: its error becomes an error of the program by \<open>h\<close>, as \<open>?\<close> and \<open>map_err\<close> do.\<close>

definition ecall ::
  "(vm_error \<Rightarrow> error) \<Rightarrow> ('s \<Rightarrow> (vm_error + 'a) \<times> 's) \<Rightarrow> ('s, 'a) exec" where
  "ecall h f s = (case f s of (Inl e, s') \<Rightarrow> (Inl (Err (h e)), s') | (Inr a, s') \<Rightarrow> (Inr a, s'))"

fun efor :: "('a \<Rightarrow> ('s, unit) exec) \<Rightarrow> 'a list \<Rightarrow> ('s, unit) exec" where
  "efor f [] = ereturn ()"
| "efor f (x # xs) = ethen (f x) (efor f xs)"

definition eget :: "('s \<Rightarrow> 'a) \<Rightarrow> ('s, 'a) exec" where
  "eget f s = (Inr (f s), s)"

definition emodify :: "('s \<Rightarrow> 's) \<Rightarrow> ('s, unit) exec" where
  "emodify f s = (Inr (), f s)"

lemmas exec_defs = ereturn_def efail_def epanic_def ebind_def ethen_def emap_err_def ecatch_def
  elift_def eok_or_def eunwrap_def ecall_def eget_def emodify_def

lemma ereturn_run [simp]: "ereturn a s = (Inr a, s)"
  by (simp add: ereturn_def)

lemma efail_run [simp]: "efail e s = (Inl (Err e), s)"
  by (simp add: efail_def)

lemma epanic_run [simp]: "epanic m s = (Inl (Panicking m), s)"
  by (simp add: epanic_def)

lemma ebind_Inr: "m s = (Inr a, s') \<Longrightarrow> ebind m f s = f a s'"
  by (simp add: ebind_def)

lemma ebind_Inl: "m s = (Inl e, s') \<Longrightarrow> ebind m f s = (Inl e, s')"
  by (simp add: ebind_def)

lemma ebind_success:
  "ebind m f s = (Inr b, s2) \<longleftrightarrow> (\<exists>a s1. m s = (Inr a, s1) \<and> f a s1 = (Inr b, s2))"
  by (simp add: ebind_def split: prod.split sum.split)

lemma ethen_success:
  "ethen m k s = (Inr b, s2) \<longleftrightarrow> (\<exists>a s1. m s = (Inr a, s1) \<and> k s1 = (Inr b, s2))"
  by (simp add: ethen_def ebind_success)

lemma emap_err_success [simp]: "emap_err h m s = (Inr a, s') \<longleftrightarrow> m s = (Inr a, s')"
  by (auto simp: emap_err_def split: prod.split sum.split fault.split)

lemma ecall_success [simp]: "ecall h f s = (Inr a, s') \<longleftrightarrow> f s = (Inr a, s')"
  by (auto simp: ecall_def split: prod.split sum.split)

lemma eok_or_success [simp]: "eok_or x e s = (Inr a, s') \<longleftrightarrow> x = Some a \<and> s' = s"
  by (auto simp: eok_or_def split: option.split)

lemma eunwrap_success [simp]: "eunwrap x m s = (Inr a, s') \<longleftrightarrow> x = Some a \<and> s' = s"
  by (auto simp: eunwrap_def split: option.split)

lemma elift_success [simp]: "elift r s = (Inr a, s') \<longleftrightarrow> r = Inr a \<and> s' = s"
  by (auto simp: elift_def split: sum.split)

lemma run_exists: "fst p = r \<Longrightarrow> \<exists>s'. p = (r, s')"
  by (cases p) auto

lemmas exec_success = ebind_success ethen_success

section \<open>Recorder of base token movements\<close>

record eth_transfer =
  tf_from :: account_address
  tf_to :: account_address
  tf_amount :: u256

record eth_transfers_logger =
  lg_transfers :: "eth_transfer list"
  lg_origins :: "(account_address \<times> u256) list"

definition eth_transfers_logger_default :: eth_transfers_logger where
  "eth_transfers_logger_default = \<lparr>lg_transfers = [], lg_origins = []\<rparr>"

definition push_transfer :: "eth_transfer \<Rightarrow> eth_transfers_logger \<Rightarrow> eth_transfers_logger" where
  "push_transfer t l = l\<lparr>lg_transfers := lg_transfers l @ [t]\<rparr>"

definition take_transfers :: "eth_transfers_logger \<Rightarrow> eth_transfer list \<times> eth_transfers_logger" where
  "take_transfers l = (lg_transfers l, l\<lparr>lg_transfers := []\<rparr>)"

definition add_tx_origin ::
  "account_address \<Rightarrow> u256 \<Rightarrow> eth_transfers_logger \<Rightarrow> eth_transfers_logger" where
  "add_tx_origin a v l = l\<lparr>lg_origins := lg_origins l @ [(a, v)]\<rparr>"

definition take_origins ::
  "eth_transfers_logger \<Rightarrow> (account_address \<times> u256) list \<times> eth_transfers_logger" where
  "take_origins l = (lg_origins l, l\<lparr>lg_origins := []\<rparr>)"

section \<open>The virtual machine\<close>

text \<open>Runtime types: the sources only look at references.\<close>

datatype rt_type =
  TyReference rt_type
| TyMutableReference rt_type
| TyOther nat

datatype meter = Unmetered | Metered

record loaded_function =
  lf_id :: nat
  lf_param_tys :: "rt_type list"

type_synonym return_values = "(bytes \<times> move_type_layout) list"

text \<open>
  Calls of the session, each with the meter it charges:
  \<^item> \<open>load_resource\<close> stands for \<open>load_resource\<close> followed by \<open>exists\<close>;
  \<^item> \<open>deserialize\<close> for \<open>deserialize\<close> followed by \<open>as_move_value\<close>, \<open>serialize\<close> for
    \<open>ValueSerDeContext::serialize\<close> of a value that has the given layout;
  \<^item> \<open>bcs_to_bytes\<close> is BCS encoding of an address, a signer or an integer.
\<close>

record 's vm_ops =
  load_function ::
    "module_id \<Rightarrow> string \<Rightarrow> type_tag list \<Rightarrow> 's \<Rightarrow> (vm_error + loaded_function) \<times> 's"
  load_script :: "bytes \<Rightarrow> type_tag list \<Rightarrow> 's \<Rightarrow> (vm_error + loaded_function) \<times> 's"
  get_type_tag :: "rt_type \<Rightarrow> 's \<Rightarrow> (vm_error + type_tag) \<times> 's"
  get_type_layout :: "rt_type \<Rightarrow> 's \<Rightarrow> (vm_error + move_type_layout) \<times> 's"
  load_type :: "type_tag \<Rightarrow> 's \<Rightarrow> (vm_error + rt_type) \<times> 's"
  load_resource :: "account_address \<Rightarrow> rt_type \<Rightarrow> 's \<Rightarrow> (vm_error + bool) \<times> 's"
  vm_execute_entry_function ::
    "loaded_function \<Rightarrow> bytes list \<Rightarrow> meter \<Rightarrow> 's \<Rightarrow> (vm_error + unit) \<times> 's"
  vm_execute_script ::
    "bytes \<Rightarrow> type_tag list \<Rightarrow> bytes list \<Rightarrow> meter \<Rightarrow> 's \<Rightarrow> (vm_error + unit) \<times> 's"
  execute_function_bypass_visibility ::
    "module_id \<Rightarrow> string \<Rightarrow> type_tag list \<Rightarrow> bytes list \<Rightarrow> meter \<Rightarrow> 's
       \<Rightarrow> (vm_error + return_values) \<times> 's"
  bcs_to_bytes :: "move_value \<Rightarrow> bytes option"
  simple_serialize :: "move_value \<Rightarrow> bytes option"
  serialize :: "move_value \<Rightarrow> move_type_layout \<Rightarrow> bytes option"
  deserialize :: "bytes \<Rightarrow> move_type_layout \<Rightarrow> move_value option"
  charge_intrinsic_gas :: "u64 \<Rightarrow> 's \<Rightarrow> (vm_error + unit) \<times> 's"
  charge_io_gas :: "u64 \<Rightarrow> 's \<Rightarrow> (vm_error + unit) \<times> 's"
  transfer_log :: "'s \<Rightarrow> eth_transfers_logger"
  set_transfer_log :: "eth_transfers_logger \<Rightarrow> 's \<Rightarrow> 's"

definition FRAMEWORK_ADDRESS :: account_address where
  "FRAMEWORK_ADDRESS = ACCOUNT_ADDRESS_ONE"

definition EVM_NATIVE_ADDRESS :: account_address where
  "EVM_NATIVE_ADDRESS = ACCOUNT_ADDRESS_ONE"

definition EVM_NATIVE_MODULE :: string where
  "EVM_NATIVE_MODULE = ''evm''"

definition OUT_OF_GAS :: status_code where
  "OUT_OF_GAS = 4002"

lemma take_transfers_push:
  "take_transfers (push_transfer t l) = (lg_transfers l @ [t], l\<lparr>lg_transfers := []\<rparr>)"
  by (simp add: take_transfers_def push_transfer_def)

end
