(* ===== verification/Eth_Token.thy ===== *)
theory Eth_Token
  imports Vm_Session
begin

text \<open>
  The base token: \<^verbatim>\<open>execution/src/eth_token.rs\<close>. Balances are kept by a Move module; the functions here
  call it through the VM. \<open>token_laws\<close> states what the module's \<open>transfer\<close> and \<open>mint\<close> do to balances
  when they succeed.
\<close>

section \<open>Operations\<close>

definition TOKEN_ADMIN :: account_address where
  "TOKEN_ADMIN = FRAMEWORK_ADDRESS"

definition token_module_id :: module_id where
  "token_module_id = \<lparr>mid_address = FRAMEWORK_ADDRESS, mid_name = ''eth_token''\<rparr>"

record transfer_args =
  ta_from :: account_address
  ta_to :: account_address
  ta_amount :: u256

definition mint_eth ::
  "'s vm_ops \<Rightarrow> account_address \<Rightarrow> u256 \<Rightarrow> meter \<Rightarrow> ('s, unit) exec" where
  "mint_eth vm to amount meter =
     (if amount = 0 then ereturn ()
      else
        ebind (eunwrap (bcs_to_bytes vm (VSigner TOKEN_ADMIN)) ''signer can serialize'') (\<lambda>admin_arg.
        ebind (eunwrap (bcs_to_bytes vm (VAddress to)) ''address can serialize'') (\<lambda>to_arg.
        ebind (eunwrap (bcs_to_bytes vm (VU256 (to_move_u256 amount))) ''amount can serialize'') (\<lambda>amount_arg.
        ebind (ecall error_from_vm (load_function vm token_module_id ''mint'' [])) (\<lambda>function.
        ecall (\<lambda>_. eth_token_invariant_violation MintAlwaysSucceeds)
          (vm_execute_entry_function vm function [admin_arg, to_arg, amount_arg] meter))))))"

definition transfer_eth ::
  "'s vm_ops \<Rightarrow> transfer_args \<Rightarrow> meter \<Rightarrow> ('s, unit) exec" where
  "transfer_eth vm args meter =
     (if ta_amount args = 0 then ereturn ()
      else
        ebind (eunwrap (bcs_to_bytes vm (VSigner TOKEN_ADMIN)) ''signer can serialize'') (\<lambda>admin_arg.
        ebind (eunwrap (bcs_to_bytes vm (VAddress (ta_from args))) ''from address can serialize'') (\<lambda>from_arg.
        ebind (eunwrap (bcs_to_bytes vm (VAddress (ta_to args))) ''to address can serialize'') (\<lambda>to_arg.
        ebind (eunwrap (bcs_to_bytes vm (VU256 (to_move_u256 (ta_amount args)))) ''amount can serialize'')
          (\<lambda>amount_arg.
        ebind (ecall error_from_vm (load_function vm token_module_id ''transfer'' [])) (\<lambda>function.
        ecall error_from_vm
          (vm_execute_entry_function vm function [admin_arg, from_arg, to_arg, amount_arg] meter)))))))"

text \<open>The trait \<open>BaseTokenAccounts\<close> and its implementation with a treasury account.\<close>

record 's base_token_accounts =
  charge_gas_cost :: "account_address \<Rightarrow> u256 \<Rightarrow> meter \<Rightarrow> ('s, unit) exec"
  refund_gas_cost :: "account_address \<Rightarrow> u256 \<Rightarrow> ('s, unit) exec"
  base_transfer :: "transfer_args \<Rightarrow> meter \<Rightarrow> ('s, unit) exec"

definition moved_base_token_accounts ::
  "'s vm_ops \<Rightarrow> account_address \<Rightarrow> 's base_token_accounts" where
  "moved_base_token_accounts vm eth_treasury =
     \<lparr>charge_gas_cost = (\<lambda>from amount meter.
        transfer_eth vm \<lparr>ta_from = from, ta_to = eth_treasury, ta_amount = amount\<rparr> meter),
      refund_gas_cost = (\<lambda>to amount.
        transfer_eth vm \<lparr>ta_from = eth_treasury, ta_to = to, ta_amount = amount\<rparr> Unmetered),
      base_transfer = transfer_eth vm\<rparr>"

definition log_take_origins :: "'s vm_ops \<Rightarrow> ('s, (account_address \<times> u256) list) exec" where
  "log_take_origins vm s =
     (let (xs, l) = take_origins (transfer_log vm s) in (Inr xs, set_transfer_log vm l s))"

definition log_take_transfers :: "'s vm_ops \<Rightarrow> ('s, eth_transfer list) exec" where
  "log_take_transfers vm s =
     (let (xs, l) = take_transfers (transfer_log vm s) in (Inr xs, set_transfer_log vm l s))"

definition replicate_transfers :: "'s vm_ops \<Rightarrow> meter \<Rightarrow> ('s, unit) exec" where
  "replicate_transfers vm meter =
     ebind (log_take_origins vm) (\<lambda>origins.
     ethen (efor (\<lambda>(origin, v).
        if v \<noteq> 0
        then transfer_eth vm \<lparr>ta_from = EVM_NATIVE_ADDRESS, ta_to = origin, ta_amount = v\<rparr> meter
        else ereturn ()) origins)
     (ebind (log_take_transfers vm) (\<lambda>transfers.
        efor (\<lambda>t. transfer_eth vm
          \<lparr>ta_from = tf_from t, ta_to = tf_to t, ta_amount = tf_amount t\<rparr> meter) transfers)))"

definition first_return_value ::
  "'s vm_ops \<Rightarrow> error \<Rightarrow> error \<Rightarrow> return_values \<Rightarrow> ('s, move_value) exec" where
  "first_return_value vm no_value no_deserialize rs =
     (case rs of
        [] \<Rightarrow> efail no_value
      | (raw_output, layout) # _ \<Rightarrow> eok_or (deserialize vm raw_output layout) no_deserialize)"

definition get_eth_balance :: "'s vm_ops \<Rightarrow> account_address \<Rightarrow> meter \<Rightarrow> ('s, u256) exec" where
  "get_eth_balance vm account meter =
     ebind (eunwrap (bcs_to_bytes vm (VAddress account)) ''address can serialize'') (\<lambda>addr_arg.
     ebind (ecall (\<lambda>_. eth_token_invariant_violation GetBalanceAlwaysSucceeds)
       (execute_function_bypass_visibility vm token_module_id ''get_balance'' [] [addr_arg] meter))
       (\<lambda>return_values.
     ebind (first_return_value vm (eth_token_invariant_violation GetBalanceReturnsAValue)
       (eth_token_invariant_violation GetBalanceReturnDeserializes) return_values) (\<lambda>v.
     case v of
       VU256 balance \<Rightarrow> ereturn (to_u256 balance)
     | _ \<Rightarrow> efail (eth_token_invariant_violation GetBalanceReturnsU256))))"

text \<open>\<open>quick_get_eth_balance\<close> runs in a fresh session \<open>s\<close> over the given state and unwraps.\<close>

definition quick_get_eth_balance :: "'s vm_ops \<Rightarrow> 's \<Rightarrow> account_address \<Rightarrow> panic + u256" where
  "quick_get_eth_balance vm s account =
     (case fst (get_eth_balance vm account Unmetered s) of
        Inr b \<Rightarrow> Inr b
      | Inl (Err e) \<Rightarrow> Inl (Panic ''called Result::unwrap() on an Err value'')
      | Inl (Panicking m) \<Rightarrow> Inl (Panic m))"

section \<open>Balances\<close>

type_synonym balances = "account_address \<Rightarrow> nat"

definition move :: "account_address \<Rightarrow> account_address \<Rightarrow> nat \<Rightarrow> balances \<Rightarrow> balances" where
  "move from to amount b =
     (let b' = b(from := b from - amount) in b'(to := b' to + amount))"

definition covered :: "account_address \<Rightarrow> nat \<Rightarrow> balances \<Rightarrow> bool" where
  "covered from amount b \<longleftrightarrow> amount \<le> b from"

text \<open>A list of transfers replayed on balances; \<open>None\<close> when one of them is not covered.\<close>

fun replay :: "(account_address \<times> account_address \<times> nat) list \<Rightarrow> balances \<Rightarrow> balances option" where
  "replay [] b = Some b"
| "replay ((f, t, n) # ms) b = (if covered f n b then replay ms (move f t n b) else None)"

text \<open>Loading the module's functions does not change balances, nonces or the transfer log; a
  successful call moves or creates exactly the given amount.\<close>

record 's vm_view =
  vw_balance :: "'s \<Rightarrow> balances"
  vw_nonce :: "'s \<Rightarrow> account_address \<Rightarrow> u64"

definition same_view :: "'s vm_ops \<Rightarrow> 's vm_view \<Rightarrow> 's \<Rightarrow> 's \<Rightarrow> bool" where
  "same_view vm w s s' \<longleftrightarrow>
     vw_balance w s' = vw_balance w s \<and> vw_nonce w s' = vw_nonce w s \<and>
     transfer_log vm s' = transfer_log vm s"

definition token_laws :: "'s vm_ops \<Rightarrow> 's vm_view \<Rightarrow> bool" where
  "token_laws vm w \<longleftrightarrow>
     (\<forall>n s f s'. load_function vm token_module_id n [] s = (Inr f, s') \<longrightarrow> same_view vm w s s') \<and>
     (\<forall>s0 f s1 s from to v ar fr tr vr meter s'.
        load_function vm token_module_id ''transfer'' [] s0 = (Inr f, s1) \<longrightarrow>
        bcs_to_bytes vm (VSigner TOKEN_ADMIN) = Some ar \<longrightarrow>
        bcs_to_bytes vm (VAddress from) = Some fr \<longrightarrow> bcs_to_bytes vm (VAddress to) = Some tr \<longrightarrow>
        bcs_to_bytes vm (VU256 v) = Some vr \<longrightarrow>
        vm_execute_entry_function vm f [ar, fr, tr, vr] meter s = (Inr (), s') \<longrightarrow>
        covered from (unat v) (vw_balance w s) \<and>
        vw_balance w s' = move from to (unat v) (vw_balance w s) \<and>
        vw_nonce w s' = vw_nonce w s \<and> transfer_log vm s' = transfer_log vm s) \<and>
     (\<forall>l s. transfer_log vm (set_transfer_log vm l s) = l \<and>
        vw_balance w (set_transfer_log vm l s) = vw_balance w s \<and>
        vw_nonce w (set_transfer_log vm l s) = vw_nonce w s)"

section \<open>Effect of the operations\<close>

lemma move_0 [simp]: "move f t 0 b = b"
  by (auto simp: move_def Let_def)

lemma covered_0 [simp]: "covered f 0 b"
  by (simp add: covered_def)

lemma transfer_eth_ok:
  assumes "token_laws vm w" "transfer_eth vm args meter s = (Inr (), s')"
  shows "covered (ta_from args) (unat (ta_amount args)) (vw_balance w s) \<and>
    vw_balance w s' = move (ta_from args) (ta_to args) (unat (ta_amount args)) (vw_balance w s) \<and>
    vw_nonce w s' = vw_nonce w s \<and> transfer_log vm s' = transfer_log vm s"
proof (cases "ta_amount args = 0")
  case True
  then show ?thesis using assms(2) by (auto simp: transfer_eth_def)
next
  case False
  with assms(2) obtain ar fr tr vr f s1 where *:
    "bcs_to_bytes vm (VSigner TOKEN_ADMIN) = Some ar" "bcs_to_bytes vm (VAddress (ta_from args)) = Some fr"
    "bcs_to_bytes vm (VAddress (ta_to args)) = Some tr" "bcs_to_bytes vm (VU256 (ta_amount args)) = Some vr"
    and load: "load_function vm token_module_id ''transfer'' [] s = (Inr f, s1)"
    and run: "vm_execute_entry_function vm f [ar, fr, tr, vr] meter s1 = (Inr (), s')"
    by (auto simp: transfer_eth_def exec_success to_move_u256_def)
  have "same_view vm w s s1" using assms(1) load unfolding token_laws_def by blast
  moreover have "covered (ta_from args) (unat (ta_amount args)) (vw_balance w s1) \<and>
      vw_balance w s' = move (ta_from args) (ta_to args) (unat (ta_amount args)) (vw_balance w s1) \<and>
      vw_nonce w s' = vw_nonce w s1 \<and> transfer_log vm s' = transfer_log vm s1"
    using assms(1) load * run unfolding token_laws_def by blast
  ultimately show ?thesis by (simp add: same_view_def)
qed

lemma efor_transfers_ok:
  assumes "token_laws vm w"
    and "efor (\<lambda>x. transfer_eth vm (g x) meter) xs s = (Inr (), s')"
  shows "replay (map (\<lambda>x. (ta_from (g x), ta_to (g x), unat (ta_amount (g x)))) xs) (vw_balance w s)
      = Some (vw_balance w s') \<and>
    vw_nonce w s' = vw_nonce w s \<and> transfer_log vm s' = transfer_log vm s"
  using assms(2)
proof (induction xs arbitrary: s)
  case (Cons x xs)
  then obtain s1 where one: "transfer_eth vm (g x) meter s = (Inr (), s1)"
    and rest: "efor (\<lambda>x. transfer_eth vm (g x) meter) xs s1 = (Inr (), s')"
    by (auto simp: ethen_success)
  show ?case using transfer_eth_ok [OF assms(1) one] Cons.IH [OF rest] by simp
qed simp

definition replicated :: "eth_transfers_logger \<Rightarrow> (account_address \<times> account_address \<times> nat) list" where
  "replicated l =
     map (\<lambda>(origin, v). (EVM_NATIVE_ADDRESS, origin, unat v)) (lg_origins l)
       @ map (\<lambda>t. (tf_from t, tf_to t, unat (tf_amount t))) (lg_transfers l)"

lemma replay_append: "replay (xs @ ys) b = Option.bind (replay xs b) (replay ys)"
  by (induction xs arbitrary: b) auto

lemma transfer_zero_skipped:
  "(\<lambda>(origin, v). if v \<noteq> 0
      then transfer_eth vm \<lparr>ta_from = EVM_NATIVE_ADDRESS, ta_to = origin, ta_amount = v\<rparr> meter
      else ereturn ())
   = (\<lambda>x. transfer_eth vm \<lparr>ta_from = EVM_NATIVE_ADDRESS, ta_to = fst x, ta_amount = snd x\<rparr> meter)"
  by (auto simp: fun_eq_iff transfer_eth_def)

lemma replicate_transfers_ok:
  assumes laws: "token_laws vm w" and run: "replicate_transfers vm meter s = (Inr (), s')"
  shows "replay (replicated (transfer_log vm s)) (vw_balance w s) = Some (vw_balance w s') \<and>
    transfer_log vm s' = eth_transfers_logger_default \<and> vw_nonce w s' = vw_nonce w s"
proof -
  let ?l = "transfer_log vm s"
  let ?s1 = "set_transfer_log vm (?l\<lparr>lg_origins := []\<rparr>) s"
  have set_log: "transfer_log vm (set_transfer_log vm l s) = l"
    "vw_balance w (set_transfer_log vm l s) = vw_balance w s"
    "vw_nonce w (set_transfer_log vm l s) = vw_nonce w s" for l s
    using laws by (simp_all add: token_laws_def)
  from run obtain s2 where
    o: "efor (\<lambda>x. transfer_eth vm \<lparr>ta_from = EVM_NATIVE_ADDRESS, ta_to = fst x, ta_amount = snd x\<rparr> meter)
      (lg_origins ?l) ?s1 = (Inr (), s2)"
    and t: "efor (\<lambda>t. transfer_eth vm \<lparr>ta_from = tf_from t, ta_to = tf_to t, ta_amount = tf_amount t\<rparr> meter)
      (lg_transfers (transfer_log vm s2))
      (set_transfer_log vm ((transfer_log vm s2)\<lparr>lg_transfers := []\<rparr>) s2) = (Inr (), s')"
    by (auto simp: replicate_transfers_def exec_success log_take_origins_def log_take_transfers_def
        take_origins_def take_transfers_def transfer_zero_skipped)
  show ?thesis
    using efor_transfers_ok [OF laws o] efor_transfers_ok [OF laws t]
    by (simp add: set_log replicated_def replay_append eth_transfers_logger_default_def
        case_prod_unfold)
qed

lemma sum_move:
  assumes "finite A" "f \<in> A" "t \<in> A" "covered f n b"
  shows "sum (move f t n b) A = sum b A"
proof -
  have "sum (b(f := b f - n)) A = sum b A - n"
    using assms(1,2,4) by (simp add: covered_def sum.remove [OF assms(1,2)])
  moreover have "n \<le> sum b A"
    using assms by (meson covered_def le_trans member_le_sum zero_le)
  moreover have add: "sum (c(t := c t + n)) A = sum c A + n" for c :: balances
    using assms(1,3) by (simp add: sum.remove [OF assms(1,3)])
  have "sum (move f t n b) A = sum (b(f := b f - n)) A + n"
    unfolding move_def Let_def by (rule add)
  ultimately show ?thesis by simp
qed

lemma sum_replay:
  "replay ms b = Some b' \<Longrightarrow> finite A \<Longrightarrow> \<forall>(f, t, n) \<in> set ms. f \<in> A \<and> t \<in> A \<Longrightarrow> sum b' A = sum b A"
  by (induction ms b rule: replay.induct) (auto simp: sum_move split: if_splits)

end
