(* ===== verification/Example_Vm.thy ===== *)
theory Example_Vm
  imports Eth_Token
begin

text \<open>
  A concrete virtual machine that satisfies the laws the theorems assume of the third-party one: a
  ledger of balances and nonces behind the calls of \<open>vm_ops\<close>. It is used to evaluate the model on
  concrete inputs.
\<close>

record ledger =
  ld_balances :: balances
  ld_nonces :: "account_address \<Rightarrow> u64"
  ld_log :: eth_transfers_logger

definition vm_failure :: vm_error where
  "vm_failure = \<lparr>major_status = 1, vm_message = ''failure''\<rparr>"

fun example_bcs :: "move_value \<Rightarrow> bytes option" where
  "example_bcs (VSigner a) = Some a"
| "example_bcs (VAddress a) = Some a"
| "example_bcs (VU256 v) = Some (le_bytes 32 v)"
| "example_bcs v = None"

definition example_load ::
  "module_id \<Rightarrow> string \<Rightarrow> type_tag list \<Rightarrow> ledger \<Rightarrow> (vm_error + loaded_function) \<times> ledger" where
  "example_load m f ts s =
     (if m = token_module_id \<and> f = ''transfer'' then (Inr \<lparr>lf_id = 1, lf_param_tys = []\<rparr>, s)
      else (Inl vm_failure, s))"

definition example_entry ::
  "loaded_function \<Rightarrow> bytes list \<Rightarrow> meter \<Rightarrow> ledger \<Rightarrow> (vm_error + unit) \<times> ledger" where
  "example_entry f args meter s =
     (case args of
        [ar, fr, tr, vr] \<Rightarrow>
          (let n = unat (from_le_bytes vr :: u256)
           in if lf_id f = 1 \<and> covered fr n (ld_balances s)
              then (Inr (), s\<lparr>ld_balances := move fr tr n (ld_balances s)\<rparr>)
              else (Inl vm_failure, s))
      | _ \<Rightarrow> (Inl vm_failure, s))"

definition example_call ::
  "module_id \<Rightarrow> string \<Rightarrow> type_tag list \<Rightarrow> bytes list \<Rightarrow> meter \<Rightarrow> ledger
     \<Rightarrow> (vm_error + return_values) \<times> ledger" where
  "example_call m f ts args meter s =
     (case args of
        [a] \<Rightarrow>
          if f = ''create_account_if_does_not_exist'' then (Inr [], s)
          else if f = ''get_sequence_number'' then (Inr [(le_bytes 8 (ld_nonces s a), LU64)], s)
          else if f = ''increment_sequence_number''
          then (Inr [], s\<lparr>ld_nonces := (ld_nonces s)(a := ld_nonces s a + 1)\<rparr>)
          else (Inl vm_failure, s)
      | _ \<Rightarrow> (Inl vm_failure, s))"

fun example_deserialize :: "bytes \<Rightarrow> move_type_layout \<Rightarrow> move_value option" where
  "example_deserialize b LU64 = Some (VU64 (from_le_bytes b))"
| "example_deserialize b l = None"

definition example_vm :: "ledger vm_ops" where
  "example_vm =
     \<lparr>load_function = example_load,
      load_script = (\<lambda>_ _ s. (Inl vm_failure, s)),
      get_type_tag = (\<lambda>_ s. (Inl vm_failure, s)),
      get_type_layout = (\<lambda>_ s. (Inl vm_failure, s)),
      load_type = (\<lambda>_ s. (Inl vm_failure, s)),
      load_resource = (\<lambda>_ _ s. (Inl vm_failure, s)),
      vm_execute_entry_function = example_entry,
      vm_execute_script = (\<lambda>_ _ _ _ s. (Inl vm_failure, s)),
      execute_function_bypass_visibility = example_call,
      bcs_to_bytes = example_bcs,
      simple_serialize = example_bcs,
      serialize = (\<lambda>v _. example_bcs v),
      deserialize = example_deserialize,
      charge_intrinsic_gas = (\<lambda>_ s. (Inr (), s)),
      charge_io_gas = (\<lambda>_ s. (Inr (), s)),
      transfer_log = ld_log,
      set_transfer_log = (\<lambda>l s. s\<lparr>ld_log := l\<rparr>)\<rparr>"

definition example_view :: "ledger vm_view" where
  "example_view = \<lparr>vw_balance = ld_balances, vw_nonce = ld_nonces\<rparr>"

definition example_ledger :: ledger where
  "example_ledger =
     \<lparr>ld_balances = (\<lambda>_. 1000), ld_nonces = (\<lambda>_. 7), ld_log = eth_transfers_logger_default\<rparr>"

lemmas example_vm_defs = example_vm_def example_view_def example_load_def example_entry_def
  example_call_def

lemma token_laws_example: "token_laws example_vm example_view"
  by (auto simp: token_laws_def example_vm_defs same_view_def Let_def split: if_splits)

section \<open>Properties of the base token\<close>

text \<open>C29. When the transfers recorded by the EVM are replicated into Move, the balances end as if
  every recorded transfer had been made in the recorded order, each covered by its source at its
  turn, after the value of each EVM call went back from the EVM account to its origin; the record
  is emptied, nonces stay, and the sum of the balances of the accounts involved does not change.\<close>

theorem replicate_transfers_effect:
  assumes "token_laws vm w" "replicate_transfers vm meter s = (Inr (), s')"
    and "finite A" "\<forall>(f, t, n) \<in> set (replicated (transfer_log vm s)). f \<in> A \<and> t \<in> A"
  shows "replay (replicated (transfer_log vm s)) (vw_balance w s) = Some (vw_balance w s') \<and>
    transfer_log vm s' = eth_transfers_logger_default \<and>
    vw_nonce w s' = vw_nonce w s \<and>
    sum (vw_balance w s') A = sum (vw_balance w s) A"
  using replicate_transfers_ok [OF assms(1,2)] sum_replay [OF _ assms(3,4)] by blast

definition logged_ledger :: ledger where
  "logged_ledger = example_ledger\<lparr>ld_log :=
     push_transfer \<lparr>tf_from = [5], tf_to = [6], tf_amount = 30\<rparr>
       (add_tx_origin [5] 100 eth_transfers_logger_default)\<rparr>"

lemma transfer_eth_example:
  "transfer_eth example_vm args meter s =
     (if ta_amount args = 0 then (Inr (), s)
      else if covered (ta_from args) (unat (ta_amount args)) (ld_balances s)
      then (Inr (), s\<lparr>ld_balances :=
        move (ta_from args) (ta_to args) (unat (ta_amount args)) (ld_balances s)\<rparr>)
      else (Inl (Err (error_from_vm vm_failure)), s))"
  by (simp add: transfer_eth_def exec_defs example_vm_defs)

lemma log_take_example:
  "log_take_origins example_vm s = (Inr (lg_origins (ld_log s)), s\<lparr>ld_log := (ld_log s)\<lparr>lg_origins := []\<rparr>\<rparr>)"
  "log_take_transfers example_vm s =
     (Inr (lg_transfers (ld_log s)), s\<lparr>ld_log := (ld_log s)\<lparr>lg_transfers := []\<rparr>\<rparr>)"
  by (simp_all add: log_take_origins_def log_take_transfers_def take_origins_def take_transfers_def
      example_vm_def)

lemma logged_ledger_log:
  "ld_log logged_ledger = \<lparr>lg_transfers = [\<lparr>tf_from = [5], tf_to = [6], tf_amount = 30\<rparr>],
     lg_origins = [([5], 100)]\<rparr>"
  "ld_balances logged_ledger = (\<lambda>_. 1000)"
  by (simp_all add: logged_ledger_def push_transfer_def add_tx_origin_def example_ledger_def
      eth_transfers_logger_default_def)

lemma replicate_logged_ledger:
  "\<exists>s'. replicate_transfers example_vm Metered logged_ledger = (Inr (), s')"
proof -
  have "fst (replicate_transfers example_vm Metered logged_ledger) = Inr ()"
    by (simp add: replicate_transfers_def ebind_def ethen_def log_take_example logged_ledger_log
        transfer_eth_example covered_def move_def)
  then show ?thesis by (rule run_exists)
qed

theorem replicate_transfers_effect_witness:
  "\<exists>s'. replicate_transfers example_vm Metered logged_ledger = (Inr (), s') \<and>
     sum (vw_balance example_view s') {EVM_NATIVE_ADDRESS, [5], [6]}
       = sum (vw_balance example_view logged_ledger) {EVM_NATIVE_ADDRESS, [5], [6]}"
proof -
  obtain s' where run: "replicate_transfers example_vm Metered logged_ledger = (Inr (), s')"
    using replicate_logged_ledger by blast
  have "\<forall>(f, t, n) \<in> set (replicated (transfer_log example_vm logged_ledger)).
      f \<in> {EVM_NATIVE_ADDRESS, [5], [6]} \<and> t \<in> {EVM_NATIVE_ADDRESS, [5], [6]}"
    by (simp add: replicated_def example_vm_def logged_ledger_def push_transfer_def add_tx_origin_def
        eth_transfers_logger_default_def)
  from replicate_transfers_effect [OF token_laws_example run _ this] run show ?thesis
    by (intro exI [of _ s']) simp
qed

end
