(* ===== verification/Nonces.thy ===== *)
theory Nonces
  imports Example_Vm
begin

text \<open>
  Nonces of accounts: \<^verbatim>\<open>execution/src/nonces.rs\<close>. The sequence number of an account is kept by a Move
  module; \<open>nonce_laws\<close> states what its three functions do when they succeed.
\<close>

definition account_module_id :: module_id where
  "account_module_id = \<lparr>mid_address = FRAMEWORK_ADDRESS, mid_name = ''account''\<rparr>"

definition get_account_nonce :: "'s vm_ops \<Rightarrow> bytes \<Rightarrow> meter \<Rightarrow> ('s, u64) exec" where
  "get_account_nonce vm addr_arg meter =
     ebind (ecall (\<lambda>_. nonce_invariant_violation GetNonceAlwaysSucceeds)
       (execute_function_bypass_visibility vm account_module_id ''get_sequence_number'' []
          [addr_arg] meter)) (\<lambda>return_values.
     ebind (first_return_value vm (nonce_invariant_violation GetNonceReturnsAValue)
       (nonce_invariant_violation GetNoneReturnDeserializes) return_values) (\<lambda>v.
     case v of
       VU64 nonce \<Rightarrow> ereturn nonce
     | _ \<Rightarrow> efail (nonce_invariant_violation GetNonceReturnsU64)))"

definition nonce_call_error :: "nonce_checking \<Rightarrow> vm_error \<Rightarrow> error" where
  "nonce_call_error i e =
     (if major_status e = OUT_OF_GAS then InvalidTransaction InsufficientIntrinsicGas
      else nonce_invariant_violation i)"

definition check_nonce :: "'s vm_ops \<Rightarrow> u64 \<Rightarrow> account_address \<Rightarrow> meter \<Rightarrow> ('s, unit) exec" where
  "check_nonce vm tx_nonce signer meter =
     ebind (eunwrap (bcs_to_bytes vm (VAddress signer)) ''address can serialize'') (\<lambda>addr_arg.
     ebind (ecall (nonce_call_error AnyAccountCanBeCreated)
       (execute_function_bypass_visibility vm account_module_id ''create_account_if_does_not_exist'' []
          [addr_arg] meter)) (\<lambda>_.
     ebind (get_account_nonce vm addr_arg meter) (\<lambda>account_nonce.
     if tx_nonce \<noteq> account_nonce
     then efail (InvalidTransaction (IncorrectNonce account_nonce tx_nonce))
     else if account_nonce = max_of then efail (InvalidTransaction ExhaustedAccount)
     else ebind (ecall (nonce_call_error IncrementNonceAlwaysSucceeds)
       (execute_function_bypass_visibility vm account_module_id ''increment_sequence_number'' []
          [addr_arg] meter)) (\<lambda>_. ereturn ()))))"

text \<open>\<open>quick_get_nonce\<close> runs in a fresh session over the given state; errors count as nonce 0.\<close>

definition quick_get_nonce :: "'s vm_ops \<Rightarrow> 's \<Rightarrow> account_address \<Rightarrow> panic + u64" where
  "quick_get_nonce vm s a =
     (case bcs_to_bytes vm (VAddress a) of
        None \<Rightarrow> Inl (Panic ''address can serialize'')
      | Some addr_arg \<Rightarrow>
          (case fst (get_account_nonce vm addr_arg Unmetered s) of
             Inr n \<Rightarrow> Inr n
           | Inl (Err e) \<Rightarrow> Inr 0
           | Inl (Panicking m) \<Rightarrow> Inl (Panic m)))"

definition nonce_laws :: "'s vm_ops \<Rightarrow> 's vm_view \<Rightarrow> bool" where
  "nonce_laws vm w \<longleftrightarrow>
     (\<forall>a b meter s r s'. bcs_to_bytes vm (VAddress a) = Some b \<longrightarrow>
        execute_function_bypass_visibility vm account_module_id ''create_account_if_does_not_exist'' []
          [b] meter s = (Inr r, s') \<longrightarrow> same_view vm w s s') \<and>
     (\<forall>a b meter s r s'. bcs_to_bytes vm (VAddress a) = Some b \<longrightarrow>
        execute_function_bypass_visibility vm account_module_id ''get_sequence_number'' []
          [b] meter s = (Inr r, s') \<longrightarrow> same_view vm w s s' \<and>
        (\<exists>x l rs. r = (x, l) # rs \<and> deserialize vm x l = Some (VU64 (vw_nonce w s a)))) \<and>
     (\<forall>a b meter s r s'. bcs_to_bytes vm (VAddress a) = Some b \<longrightarrow>
        execute_function_bypass_visibility vm account_module_id ''increment_sequence_number'' []
          [b] meter s = (Inr r, s') \<longrightarrow>
        vw_nonce w s' = (vw_nonce w s)(a := vw_nonce w s a + 1) \<and>
        vw_balance w s' = vw_balance w s \<and> transfer_log vm s' = transfer_log vm s)"

lemma get_account_nonce_ok:
  assumes "nonce_laws vm w" "bcs_to_bytes vm (VAddress a) = Some b"
    and "get_account_nonce vm b meter s = (Inr n, s')"
  shows "n = vw_nonce w s a \<and> same_view vm w s s'"
proof -
  from assms(3) obtain rs s1 where
    call: "execute_function_bypass_visibility vm account_module_id ''get_sequence_number'' []
      [b] meter s = (Inr rs, s1)"
    and rest: "ebind (first_return_value vm (nonce_invariant_violation GetNonceReturnsAValue)
      (nonce_invariant_violation GetNoneReturnDeserializes) rs) (\<lambda>v. case v of VU64 nonce \<Rightarrow> ereturn nonce
        | _ \<Rightarrow> efail (nonce_invariant_violation GetNonceReturnsU64)) s1 = (Inr n, s')"
    by (auto simp: get_account_nonce_def ebind_success)
  from assms(1,2) call have "same_view vm w s s1" and
    "\<exists>x l rs'. rs = (x, l) # rs' \<and> deserialize vm x l = Some (VU64 (vw_nonce w s a))"
    unfolding nonce_laws_def by blast+
  with rest show ?thesis by (auto simp: first_return_value_def exec_defs)
qed

lemma check_nonce_ok:
  assumes laws: "nonce_laws vm w" and run: "check_nonce vm n a meter s = (Inr (), s')"
  shows "n = vw_nonce w s a \<and> n \<noteq> max_of \<and>
    vw_nonce w s' = (vw_nonce w s)(a := n + 1) \<and>
    vw_balance w s' = vw_balance w s \<and> transfer_log vm s' = transfer_log vm s"
proof -
  from run obtain b r1 s1 s2 r2 where
    b: "bcs_to_bytes vm (VAddress a) = Some b"
    and c: "execute_function_bypass_visibility vm account_module_id ''create_account_if_does_not_exist'' []
      [b] meter s = (Inr r1, s1)"
    and g: "get_account_nonce vm b meter s1 = (Inr n, s2)" and n: "n \<noteq> max_of"
    and i: "execute_function_bypass_visibility vm account_module_id ''increment_sequence_number'' []
      [b] meter s2 = (Inr r2, s')"
    by (auto simp: check_nonce_def ebind_success split: if_splits)
  have "same_view vm w s s1" using laws b c unfolding nonce_laws_def by blast
  moreover have "n = vw_nonce w s1 a \<and> same_view vm w s1 s2"
    by (rule get_account_nonce_ok [OF laws b g])
  moreover have "vw_nonce w s' = (vw_nonce w s2)(a := vw_nonce w s2 a + 1) \<and>
      vw_balance w s' = vw_balance w s2 \<and> transfer_log vm s' = transfer_log vm s2"
    using laws b i unfolding nonce_laws_def by blast
  ultimately show ?thesis using n by (auto simp: same_view_def)
qed

lemma nonce_laws_example: "nonce_laws example_vm example_view"
  by (auto simp: nonce_laws_def example_vm_defs same_view_def Let_def le_bytes_8_inverse)

text \<open>C30. A successful nonce check means that the nonce of the transaction is the nonce of the
  account and not the last one; the account's nonce is incremented and no other account, no balance
  and no recorded transfer is touched. The same nonce is refused immediately afterwards, so a transaction
  cannot be replayed at once.\<close>

theorem check_nonce_no_replay:
  assumes "nonce_laws vm w" "check_nonce vm n a meter s = (Inr (), s')"
  shows "n = vw_nonce w s a \<and> n \<noteq> max_of \<and>
    vw_nonce w s' = (vw_nonce w s)(a := n + 1) \<and> vw_balance w s' = vw_balance w s \<and>
    fst (check_nonce vm n a meter' s') \<noteq> Inr ()"
proof -
  note ok = check_nonce_ok [OF assms]
  have "n \<noteq> n + 1" by simp
  then have "fst (check_nonce vm n a meter' s') \<noteq> Inr ()"
    using check_nonce_ok [OF assms(1), of n a meter' s' "snd (check_nonce vm n a meter' s')"] ok
    by (metis fun_upd_same prod.collapse)
  with ok show ?thesis by blast
qed

theorem check_nonce_no_replay_witness:
  "\<exists>s'. check_nonce example_vm 7 [5] Unmetered example_ledger = (Inr (), s') \<and>
     fst (check_nonce example_vm 7 [5] Unmetered s') \<noteq> Inr ()"
proof -
  have "\<exists>s'. check_nonce example_vm 7 [5] Unmetered example_ledger = (Inr (), s')"
    by (simp add: check_nonce_def get_account_nonce_def first_return_value_def exec_defs
        example_vm_defs example_ledger_def max_of_def)
  then show ?thesis using check_nonce_no_replay [OF nonce_laws_example] by blast
qed

end
