(* ===== verification/Tag_Validation.thy ===== *)
theory Tag_Validation
  imports Vm_Session
begin

text \<open>
  Validation of the arguments of entry functions: \<^verbatim>\<open>execution/src/tag_validation.rs\<close> and
  \<^verbatim>\<open>execution/src/layout.rs\<close>. Arguments come as raw bytes from the sender; the checks keep a sender
  from forging a signer, a string, an option, an object or a value of a type that Move code guards.
\<close>

section \<open>Allowed types\<close>

record move_struct_info =
  si_address :: account_address
  si_module :: string
  si_name :: string

definition from_tag :: "struct_tag \<Rightarrow> move_struct_info" where
  "from_tag t = \<lparr>si_address = st_address t, si_module = st_module t, si_name = st_name t\<rparr>"

definition ALLOWED_STRUCTS :: "move_struct_info list" where
  "ALLOWED_STRUCTS =
     [\<lparr>si_address = ACCOUNT_ADDRESS_ONE, si_module = ''string'', si_name = ''String''\<rparr>,
      \<lparr>si_address = ACCOUNT_ADDRESS_ONE, si_module = ''object'', si_name = ''Object''\<rparr>,
      \<lparr>si_address = ACCOUNT_ADDRESS_ONE, si_module = ''option'', si_name = ''Option''\<rparr>,
      \<lparr>si_address = ACCOUNT_ADDRESS_ONE, si_module = ''fixed_point32'', si_name = ''FixedPoint32''\<rparr>,
      \<lparr>si_address = ACCOUNT_ADDRESS_ONE, si_module = ''fixed_point64'', si_name = ''FixedPoint64''\<rparr>]"

abbreviation allowed_name :: "nat \<Rightarrow> string" where
  "allowed_name i \<equiv> si_name (ALLOWED_STRUCTS ! i)"

text \<open>The loop over \<open>current_tag\<close>; the error names the tag the loop started with.\<close>

function validate_tag_loop :: "type_tag \<Rightarrow> type_tag \<Rightarrow> fault + unit" where
  "validate_tag_loop tag (TagVector t) = validate_tag_loop tag t"
| "validate_tag_loop tag (TagStruct st) =
     (if from_tag st \<notin> set ALLOWED_STRUCTS
      then Inl (Err (InvalidTransaction (DisallowedEntryFunctionType tag)))
      else case st_type_args st of
             [] \<Rightarrow> Inr ()
           | [t] \<Rightarrow> if si_name (from_tag st) = allowed_name 2 then validate_tag_loop tag t else Inr ()
           | _ \<Rightarrow> Inl (Panicking ''No allowed type has more than 1 type parameter''))"
| "validate_tag_loop tag TagAddress = Inr ()"
| "validate_tag_loop tag TagBool = Inr ()"
| "validate_tag_loop tag TagSigner = Inr ()"
| "validate_tag_loop tag TagU128 = Inr ()"
| "validate_tag_loop tag TagU16 = Inr ()"
| "validate_tag_loop tag TagU256 = Inr ()"
| "validate_tag_loop tag TagU32 = Inr ()"
| "validate_tag_loop tag TagU64 = Inr ()"
| "validate_tag_loop tag TagU8 = Inr ()"
  by pat_completeness auto
termination
proof (relation "measure (\<lambda>(tag, t). size t)", goal_cases)
  case (3 tag st t ts)
  then show ?case by (cases st) auto
qed auto

definition validate_entry_type_tag :: "type_tag \<Rightarrow> fault + unit" where
  "validate_entry_type_tag tag = validate_tag_loop tag tag"

section \<open>UTF-8\<close>

text \<open>\<open>String::from_utf8\<close> of the standard library accepts the well-formed byte sequences of Unicode.\<close>

abbreviation cont :: "nat \<Rightarrow> bool" where
  "cont b \<equiv> 0x80 \<le> b \<and> b \<le> 0xBF"

fun utf8_ok :: "nat list \<Rightarrow> bool" where
  "utf8_ok [] = True"
| "utf8_ok (a # bs) =
     (if a < 0x80 then utf8_ok bs
      else case bs of
        [] \<Rightarrow> False
      | b # cs \<Rightarrow>
          if 0xC2 \<le> a \<and> a \<le> 0xDF then cont b \<and> utf8_ok cs
          else case cs of
            [] \<Rightarrow> False
          | c # ds \<Rightarrow>
              if 0xE0 \<le> a \<and> a \<le> 0xEF
              then cont b \<and> cont c \<and> (a = 0xE0 \<longrightarrow> 0xA0 \<le> b) \<and> (a = 0xED \<longrightarrow> b \<le> 0x9F) \<and> utf8_ok ds
              else case ds of
                [] \<Rightarrow> False
              | d # es \<Rightarrow>
                  0xF0 \<le> a \<and> a \<le> 0xF4 \<and> cont b \<and> cont c \<and> cont d
                    \<and> (a = 0xF0 \<longrightarrow> 0x90 \<le> b) \<and> (a = 0xF4 \<longrightarrow> b \<le> 0x8F) \<and> utf8_ok es)"

definition from_utf8_ok :: "bytes \<Rightarrow> bool" where
  "from_utf8_ok bs = utf8_ok (map unat bs)"

section \<open>Validation of values\<close>

fun bytes_of_values :: "move_value list \<Rightarrow> bytes option" where
  "bytes_of_values [] = Some []"
| "bytes_of_values (VU8 b # vs) = map_option (Cons b) (bytes_of_values vs)"
| "bytes_of_values (v # vs) = None"

definition validate_string :: "move_value list \<Rightarrow> error + unit" where
  "validate_string fs =
     (case fs of
        [] \<Rightarrow> Inl (entry_fn_invariant_violation StringStructHasField)
      | VVector array # _ \<Rightarrow>
          (case bytes_of_values array of
             None \<Rightarrow> Inl (entry_fn_invariant_violation StringElementsAreU8)
           | Some bs \<Rightarrow>
               if from_utf8_ok bs then Inr () else Inl (InvalidTransaction InvalidString))
      | _ \<Rightarrow> Inl (entry_fn_invariant_violation StringStructFieldIsVector))"

definition validate_option :: "move_value list \<Rightarrow> error + move_value option" where
  "validate_option fs =
     (case fs of
        [] \<Rightarrow> Inl (entry_fn_invariant_violation OptionStructHasField)
      | VVector array # _ \<Rightarrow>
          (case array of
             [] \<Rightarrow> Inr None
           | [v] \<Rightarrow> Inr (Some v)
           | _ \<Rightarrow> Inl (InvalidTransaction InvalidOption))
      | _ \<Rightarrow> Inl (entry_fn_invariant_violation OptionStructFieldIsVector))"

text \<open>\<open>resource_exists\<close>: an error of the VM counts as absence.\<close>

definition resource_exists :: "'s vm_ops \<Rightarrow> account_address \<Rightarrow> rt_type \<Rightarrow> ('s, bool) exec" where
  "resource_exists vm a ty s =
     (case load_resource vm a ty s of (Inl e, s') \<Rightarrow> (Inr False, s') | (Inr b, s') \<Rightarrow> (Inr b, s'))"

definition object_core_tag :: type_tag where
  "object_core_tag =
     TagStruct (StructTag (si_address (ALLOWED_STRUCTS ! 1)) (si_module (ALLOWED_STRUCTS ! 1))
       ''ObjectCore'' [])"

definition get_object_core_type :: "'s vm_ops \<Rightarrow> ('s, rt_type) exec" where
  "get_object_core_type vm =
     ecall (\<lambda>_. entry_fn_invariant_violation ObjectCoreTypeExists) (load_type vm object_core_tag)"

definition validate_object ::
  "'s vm_ops \<Rightarrow> move_value list \<Rightarrow> type_tag \<Rightarrow> ('s, unit) exec" where
  "validate_object vm fs inner_type =
     (case fs of
        [] \<Rightarrow> efail (entry_fn_invariant_violation ObjectStructHasField)
      | VAddress addr # _ \<Rightarrow>
          ebind (get_object_core_type vm) (\<lambda>object_core.
          ebind (resource_exists vm addr object_core) (\<lambda>ex.
          if \<not> ex then efail (InvalidTransaction InvalidObject)
          else
            ebind (ecall (\<lambda>_. entry_fn_invariant_violation ObjectInnerTypeExists)
              (load_type vm inner_type)) (\<lambda>ty.
            ebind (resource_exists vm addr ty) (\<lambda>ex'.
            if \<not> ex' then efail (InvalidTransaction InvalidObject) else ereturn ()))))
      | _ \<Rightarrow> efail (entry_fn_invariant_violation ObjectStructFieldIsAddress))"

text \<open>One round of the loop of \<open>validate_entry_value\<close>: the values it pushes on the stack.\<close>

definition validate_one ::
  "'s vm_ops \<Rightarrow> account_address \<Rightarrow> type_tag \<Rightarrow> move_value \<Rightarrow> ('s, (type_tag \<times> move_value) list) exec"
where
  "validate_one vm expected_signer tag v =
     (case (tag, v) of
        (TagSigner, VSigner given_signer) \<Rightarrow>
          if given_signer \<noteq> expected_signer then efail (InvalidTransaction InvalidSigner)
          else ereturn []
      | (TagVector inner_tag, VVector array) \<Rightarrow> ereturn (map (Pair inner_tag) array)
      | (TagStruct struct_tag, VStruct variant fs) \<Rightarrow>
          (let name = si_name (from_tag struct_tag)
           in if name = allowed_name 0 then
                ethen (elift (validate_string fs)) (ereturn [])
              else if name = allowed_name 1 then
                (case st_type_args struct_tag of
                   [] \<Rightarrow> efail (entry_fn_invariant_violation ObjectStructHasTypeParameter)
                 | inner_type # _ \<Rightarrow>
                     ethen (validate_object vm fs inner_type) (ereturn []))
              else if name = allowed_name 2 then
                ebind (elift (validate_option fs)) (\<lambda>x.
                  case x of
                    None \<Rightarrow> ereturn []
                  | Some inner_value \<Rightarrow>
                      (case st_type_args struct_tag of
                         [] \<Rightarrow> efail (entry_fn_invariant_violation OptionHasInnerType)
                       | inner_tag # _ \<Rightarrow> ereturn [(inner_tag, inner_value)]))
              else if name = allowed_name 3 \<or> name = allowed_name 4 then ereturn []
              else efail (entry_fn_invariant_violation OnlyAllowedStructs))
      | _ \<Rightarrow> ereturn [])"

abbreviation stack_size :: "(type_tag \<times> move_value) list \<Rightarrow> nat" where
  "stack_size st \<equiv> \<Sum>(t, v)\<leftarrow>st. Suc (size v)"

lemma size_list_values: "size_list size vs = (\<Sum>v\<leftarrow>vs. Suc (size v))"
  by (induction vs) auto

lemma validate_option_size:
  "validate_option fs = Inr (Some v) \<Longrightarrow> size v < size_list size fs"
  by (auto simp: validate_option_def split: list.splits move_value.splits)

lemma validate_one_size:
  "validate_one vm a tag v s = (Inr pushed, s') \<Longrightarrow> stack_size pushed < Suc (size v)"
  by (auto simp: validate_one_def Let_def exec_success comp_def size_list_values
      split: type_tag.splits move_value.splits list.splits option.splits if_splits
      dest!: validate_option_size)

function validate_stack ::
  "'s vm_ops \<Rightarrow> account_address \<Rightarrow> (type_tag \<times> move_value) list \<Rightarrow> ('s, unit) exec" where
  "validate_stack vm a [] s = (Inr (), s)"
| "validate_stack vm a ((tag, v) # stack) s =
     (case validate_one vm a tag v s of
        (Inl e, s') \<Rightarrow> (Inl e, s')
      | (Inr pushed, s') \<Rightarrow> validate_stack vm a (rev pushed @ stack) s')"
  by pat_completeness auto
termination
  by (relation "measure (\<lambda>(vm, a, st, s). stack_size st)")
    (auto dest!: validate_one_size [OF sym] simp: rev_map [symmetric])

definition validate_entry_value ::
  "'s vm_ops \<Rightarrow> type_tag \<Rightarrow> move_value \<Rightarrow> account_address \<Rightarrow> ('s, unit) exec" where
  "validate_entry_value vm tag v expected_signer = validate_stack vm expected_signer [(tag, v)]"

fun has_value_invariants :: "move_type_layout \<Rightarrow> bool" where
  "has_value_invariants LSigner = True"
| "has_value_invariants (LVector l) = has_value_invariants l"
| "has_value_invariants (LStruct ls) = True"
| "has_value_invariants (LNative n l) = has_value_invariants l"
| "has_value_invariants l = False"

section \<open>Allowed types, declaratively\<close>

inductive allowed :: "type_tag \<Rightarrow> bool" where
  allowed_primitive:
    "t \<in> {TagBool, TagU8, TagU16, TagU32, TagU64, TagU128, TagU256, TagAddress, TagSigner} \<Longrightarrow> allowed t"
| allowed_vector: "allowed t \<Longrightarrow> allowed (TagVector t)"
| allowed_plain:
    "from_tag st \<in> set ALLOWED_STRUCTS \<Longrightarrow> st_type_args st = [] \<Longrightarrow> allowed (TagStruct st)"
| allowed_phantom:
    "from_tag st \<in> set ALLOWED_STRUCTS \<Longrightarrow> from_tag st \<noteq> ALLOWED_STRUCTS ! 2 \<Longrightarrow> st_type_args st = [t]
       \<Longrightarrow> allowed (TagStruct st)"
| allowed_option:
    "from_tag st = ALLOWED_STRUCTS ! 2 \<Longrightarrow> st_type_args st = [t] \<Longrightarrow> allowed t
       \<Longrightarrow> allowed (TagStruct st)"

inductive_cases allowed_vectorE: "allowed (TagVector t)"
inductive_cases allowed_structE: "allowed (TagStruct st)"

lemma allowed_nth:
  "ALLOWED_STRUCTS ! 0 = \<lparr>si_address = ACCOUNT_ADDRESS_ONE, si_module = ''string'', si_name = ''String''\<rparr>"
  "ALLOWED_STRUCTS ! 1 = \<lparr>si_address = ACCOUNT_ADDRESS_ONE, si_module = ''object'', si_name = ''Object''\<rparr>"
  "ALLOWED_STRUCTS ! Suc 0 = \<lparr>si_address = ACCOUNT_ADDRESS_ONE, si_module = ''object'', si_name = ''Object''\<rparr>"
  "ALLOWED_STRUCTS ! 2 = \<lparr>si_address = ACCOUNT_ADDRESS_ONE, si_module = ''option'', si_name = ''Option''\<rparr>"
  "ALLOWED_STRUCTS ! 3 = \<lparr>si_address = ACCOUNT_ADDRESS_ONE, si_module = ''fixed_point32'',
     si_name = ''FixedPoint32''\<rparr>"
  "ALLOWED_STRUCTS ! 4 = \<lparr>si_address = ACCOUNT_ADDRESS_ONE, si_module = ''fixed_point64'',
     si_name = ''FixedPoint64''\<rparr>"
  by (simp_all add: ALLOWED_STRUCTS_def)

lemma allowed_is_option:
  "i \<in> set ALLOWED_STRUCTS \<Longrightarrow> si_name i = ''Option'' \<longleftrightarrow> i = ALLOWED_STRUCTS ! 2"
  by (auto simp: ALLOWED_STRUCTS_def)

lemma option_allowed: "ALLOWED_STRUCTS ! 2 \<in> set ALLOWED_STRUCTS"
  by (simp add: ALLOWED_STRUCTS_def)

lemma validate_tag_loop_iff: "validate_tag_loop tag t = Inr () \<longleftrightarrow> allowed t"
proof (induction tag t rule: validate_tag_loop.induct)
  case (1 tag t)
  then show ?case by (auto intro: allowed_vector elim: allowed_vectorE)
next
  case (2 tag st)
  show ?case
  proof (cases "from_tag st \<in> set ALLOWED_STRUCTS")
    case False
    then show ?thesis using option_allowed by (auto elim: allowed_structE)
  next
    case True
    note opt = allowed_is_option [OF True]
    consider "st_type_args st = []" | t where "st_type_args st = [t]"
      | t u us where "st_type_args st = t # u # us"
      by (metis list.exhaust)
    then show ?thesis
    proof cases
      case 2
      then show ?thesis
        using True opt "2.IH" [OF _ 2]
        by (auto simp: allowed_nth intro: allowed_phantom allowed_option elim: allowed_structE)
    qed (use True in \<open>auto intro: allowed_plain elim: allowed_structE\<close>)
  qed
qed (auto intro: allowed_primitive)

lemma validate_tag_loop_error:
  "validate_tag_loop tag t = Inl (Err e) \<Longrightarrow> e = InvalidTransaction (DisallowedEntryFunctionType tag)"
  by (induction tag t rule: validate_tag_loop.induct) (auto split: if_splits list.splits)

text \<open>C27. The loop of \<open>validate_entry_type_tag\<close> decides exactly the declarative set of allowed
  argument types: primitives, vectors and options of allowed types, and the listed structs of the
  framework; every rejection that is not the panic on malformed tags names the whole tag.\<close>

theorem validate_entry_type_tag_correct:
  "(validate_entry_type_tag tag = Inr () \<longleftrightarrow> allowed tag) \<and>
   (\<forall>e. validate_entry_type_tag tag = Inl (Err e) \<longrightarrow>
      e = InvalidTransaction (DisallowedEntryFunctionType tag))"
  by (auto simp: validate_entry_type_tag_def validate_tag_loop_iff dest: validate_tag_loop_error)

theorem validate_entry_type_tag_correct_witness:
  "validate_entry_type_tag (TagVector TagSigner) = Inr () \<and>
   \<not> allowed (TagStruct (StructTag ACCOUNT_ADDRESS_ONE ''coin'' ''Coin'' []))"
proof -
  have "validate_entry_type_tag (TagStruct (StructTag ACCOUNT_ADDRESS_ONE ''coin'' ''Coin'' [])) \<noteq> Inr ()"
    by (simp add: validate_entry_type_tag_def from_tag_def ALLOWED_STRUCTS_def)
  then show ?thesis
    using validate_entry_type_tag_correct
      [of "TagStruct (StructTag ACCOUNT_ADDRESS_ONE ''coin'' ''Coin'' [])"]
    by (simp add: validate_entry_type_tag_def)
qed

section \<open>Accepted values\<close>

text \<open>\<open>typed t v\<close>: the value \<open>v\<close> has the shape of the allowed type \<open>t\<close>, as deserialisation by the
  layout of the type guarantees. \<open>accepted ex a t v\<close>: in addition every signer inside is \<open>a\<close>, every
  string is UTF-8, every option holds at most one value and every object of an inner type is one that
  exists, \<open>ex\<close>.\<close>

inductive typed :: "type_tag \<Rightarrow> move_value \<Rightarrow> bool" where
  "typed TagBool (VBool b)"
| "typed TagU8 (VU8 x8)"
| "typed TagU16 (VU16 x16)"
| "typed TagU32 (VU32 x32)"
| "typed TagU64 (VU64 x64)"
| "typed TagU128 (VU128 x128)"
| "typed TagU256 (VU256 x256)"
| "typed TagAddress (VAddress a)"
| "typed TagSigner (VSigner a)"
| "(\<And>v. v \<in> set vs \<Longrightarrow> typed t v) \<Longrightarrow> typed (TagVector t) (VVector vs)"
| "from_tag st = ALLOWED_STRUCTS ! 0 \<Longrightarrow> bytes_of_values vs = Some bs
     \<Longrightarrow> typed (TagStruct st) (VStruct n [VVector vs])"
| "from_tag st = ALLOWED_STRUCTS ! 1 \<Longrightarrow> st_type_args st = [t]
     \<Longrightarrow> typed (TagStruct st) (VStruct n [VAddress a])"
| "from_tag st = ALLOWED_STRUCTS ! 2 \<Longrightarrow> st_type_args st = [t] \<Longrightarrow> (\<And>v. v \<in> set vs \<Longrightarrow> typed t v)
     \<Longrightarrow> typed (TagStruct st) (VStruct n [VVector vs])"
| "from_tag st = ALLOWED_STRUCTS ! 3 \<Longrightarrow> typed (TagStruct st) (VStruct n [VU64 x64])"
| "from_tag st = ALLOWED_STRUCTS ! 4 \<Longrightarrow> typed (TagStruct st) (VStruct n [VU128 x128])"

inductive accepted ::
  "(account_address \<Rightarrow> type_tag \<Rightarrow> bool) \<Rightarrow> account_address \<Rightarrow> type_tag \<Rightarrow> move_value \<Rightarrow> bool" for ex a where
  acc_prim: "typed t v \<Longrightarrow> t \<in> {TagBool, TagU8, TagU16, TagU32, TagU64, TagU128, TagU256, TagAddress}
     \<Longrightarrow> accepted ex a t v"
| acc_signer: "accepted ex a TagSigner (VSigner a)"
| acc_vector: "(\<And>v. v \<in> set vs \<Longrightarrow> accepted ex a t v) \<Longrightarrow> accepted ex a (TagVector t) (VVector vs)"
| acc_string: "from_tag st = ALLOWED_STRUCTS ! 0 \<Longrightarrow> bytes_of_values vs = Some bs \<Longrightarrow> from_utf8_ok bs
     \<Longrightarrow> accepted ex a (TagStruct st) (VStruct n [VVector vs])"
| acc_object: "from_tag st = ALLOWED_STRUCTS ! 1 \<Longrightarrow> st_type_args st = [t] \<Longrightarrow> ex x t
     \<Longrightarrow> accepted ex a (TagStruct st) (VStruct n [VAddress x])"
| acc_none: "from_tag st = ALLOWED_STRUCTS ! 2 \<Longrightarrow> accepted ex a (TagStruct st) (VStruct n [VVector []])"
| acc_some: "from_tag st = ALLOWED_STRUCTS ! 2 \<Longrightarrow> st_type_args st = [t] \<Longrightarrow> accepted ex a t v
     \<Longrightarrow> accepted ex a (TagStruct st) (VStruct n [VVector [v]])"
| acc_fp32: "from_tag st = ALLOWED_STRUCTS ! 3 \<Longrightarrow> accepted ex a (TagStruct st) (VStruct n [VU64 x64])"
| acc_fp64: "from_tag st = ALLOWED_STRUCTS ! 4 \<Longrightarrow> accepted ex a (TagStruct st) (VStruct n [VU128 x128])"

fun signers :: "move_value \<Rightarrow> account_address list" where
  "signers (VSigner a) = [a]"
| "signers (VVector vs) = concat (map signers vs)"
| "signers (VStruct n vs) = concat (map signers vs)"
| "signers v = []"

lemma signers_bytes: "bytes_of_values vs = Some bs \<Longrightarrow> concat (map signers vs) = []"
  by (induction vs arbitrary: bs rule: bytes_of_values.induct) auto

lemma accepted_signers: "accepted ex a t v \<Longrightarrow> set (signers v) \<subseteq> {a}"
proof (induction rule: accepted.induct)
  case (acc_prim t v)
  then show ?case by (cases rule: typed.cases) auto
next
  case (acc_string st vs bs n)
  then show ?case using signers_bytes by simp
qed auto

text \<open>Objects, over the sessions \<open>S\<close>: a check stays in them, and succeeds exactly on what exists.\<close>

definition objects_checked ::
  "'s vm_ops \<Rightarrow> 's set \<Rightarrow> (account_address \<Rightarrow> type_tag \<Rightarrow> bool) \<Rightarrow> bool" where
  "objects_checked vm S ex \<longleftrightarrow>
     (\<forall>s \<in> S. \<forall>x t. snd (validate_object vm [VAddress x] t s) \<in> S \<and>
        (fst (validate_object vm [VAddress x] t s) = Inr () \<longrightarrow> ex x t))"

lemma objects_checkedD:
  "objects_checked vm S ex \<Longrightarrow> s \<in> S \<Longrightarrow> validate_object vm [VAddress x] t s = (Inr (), s') \<Longrightarrow> s' \<in> S \<and> ex x t"
  unfolding objects_checked_def by (metis fst_conv snd_conv)

text \<open>One round keeps what was typed typed, and what it pushes is all that is left to accept.\<close>

lemma validate_one_typed:
  assumes "objects_checked vm S ex" "s \<in> S" "typed t v" "validate_one vm a t v s = (Inr pushed, s')"
  shows "s' \<in> S \<and> (\<forall>(t', v') \<in> set pushed. typed t' v') \<and>
    ((\<forall>(t', v') \<in> set pushed. accepted ex a t' v') \<longrightarrow> accepted ex a t v)"
  using assms(3)
proof (cases rule: typed.cases)
  case (10 vs t')
  then show ?thesis using assms(2,4) by (auto simp: validate_one_def intro: acc_vector)
next
  case (12 st t' n x)
  with assms(4) have "validate_object vm [VAddress x] t' s = (Inr (), s')" "pushed = []"
    by (auto simp: validate_one_def from_tag_def allowed_nth exec_success)
  with objects_checkedD [OF assms(1,2)] 12 show ?thesis by (auto intro: acc_object)
next
  case (13 st t' vs n)
  then show ?thesis
    using assms(2,4)
    by (auto simp: validate_one_def from_tag_def allowed_nth validate_option_def exec_success
        split: list.splits intro: acc_none acc_some)
qed (use assms(2,4) in \<open>auto simp: validate_one_def from_tag_def allowed_nth validate_string_def exec_success
    split: if_splits list.splits option.splits intro: accepted.intros typed.intros\<close>)

lemma validate_stack_sound:
  assumes "objects_checked vm S ex"
  shows "validate_stack vm a st s = (Inr (), s') \<Longrightarrow> s \<in> S \<Longrightarrow> \<forall>(t, v) \<in> set st. typed t v \<Longrightarrow>
     \<forall>(t, v) \<in> set st. accepted ex a t v"
  using assms
proof (induction vm a st s rule: validate_stack.induct)
  case (2 vm a tag v stack s)
  then obtain pushed s1 where one: "validate_one vm a tag v s = (Inr pushed, s1)"
    and rest: "validate_stack vm a (rev pushed @ stack) s1 = (Inr (), s')"
    by (auto split: prod.splits sum.splits)
  note step = validate_one_typed [OF "2.prems"(4,2) _ one]
  have "s1 \<in> S" "\<forall>(t, v) \<in> set (rev pushed @ stack). typed t v"
    using step "2.prems"(3) by auto
  with "2.IH" [OF one [symmetric] refl rest _ _ "2.prems"(4)]
  have "\<forall>(t, v) \<in> set (rev pushed @ stack). accepted ex a t v" by blast
  then show ?case using step "2.prems"(3) by auto
qed simp

section \<open>Stored objects\<close>

text \<open>What the VM documents of the types and resources that a session reads: \<open>types\<close> are those that can be
  loaded, and \<open>stored\<close> says which resources are at an address. Reading them may fill caches, and the
  sessions \<open>S\<close> differ only in these.\<close>

definition resource_laws ::
  "'s vm_ops \<Rightarrow> 's set \<Rightarrow> (type_tag \<Rightarrow> rt_type option) \<Rightarrow> (account_address \<Rightarrow> rt_type \<Rightarrow> bool) \<Rightarrow> bool" where
  "resource_laws vm S types stored \<longleftrightarrow>
     (\<forall>s \<in> S. \<forall>t. snd (load_type vm t s) \<in> S \<and>
        (case fst (load_type vm t s) of Inl e \<Rightarrow> types t = None | Inr ty \<Rightarrow> types t = Some ty)) \<and>
     (\<forall>s \<in> S. \<forall>x ty. snd (load_resource vm x ty s) \<in> S \<and>
        (case fst (load_resource vm x ty s) of Inl e \<Rightarrow> \<not> stored x ty | Inr b \<Rightarrow> b = stored x ty))"

text \<open>An object with an inner type: its core and a resource of the inner type are stored at its address.\<close>

definition object_at ::
  "(type_tag \<Rightarrow> rt_type option) \<Rightarrow> (account_address \<Rightarrow> rt_type \<Rightarrow> bool) \<Rightarrow> account_address \<Rightarrow> type_tag \<Rightarrow> bool" where
  "object_at types stored x inner_type =
     (case (types object_core_tag, types inner_type) of
        (Some core, Some ty) \<Rightarrow> stored x core \<and> stored x ty
      | _ \<Rightarrow> False)"

lemma load_type_law:
  assumes "resource_laws vm S types stored" "s \<in> S" "load_type vm t s = (r, s')"
  shows "s' \<in> S \<and> (case r of Inl e \<Rightarrow> types t = None | Inr ty \<Rightarrow> types t = Some ty)"
  using assms unfolding resource_laws_def by (metis fst_conv snd_conv)

lemma resource_exists_law:
  assumes "resource_laws vm S types stored" "s \<in> S"
  obtains s' where "resource_exists vm x ty s = (Inr (stored x ty), s')" "s' \<in> S"
proof -
  obtain r s' where r: "load_resource vm x ty s = (r, s')" by (cases "load_resource vm x ty s")
  then have "s' \<in> S" "case r of Inl e \<Rightarrow> \<not> stored x ty | Inr b \<Rightarrow> b = stored x ty"
    using assms unfolding resource_laws_def by (metis fst_conv snd_conv)+
  with r that [of s'] show thesis by (auto simp: resource_exists_def split: sum.splits)
qed

lemma validate_object_iff:
  assumes "resource_laws vm S types stored" "s \<in> S"
  obtains r s' where "validate_object vm [VAddress x] t s = (r, s')" "s' \<in> S"
    "r = Inr () \<longleftrightarrow> object_at types stored x t"
proof -
  obtain r1 s1 where l1: "load_type vm object_core_tag s = (r1, s1)" by fastforce
  note c1 = load_type_law [OF assms l1]
  show thesis
  proof (cases r1)
    case (Inl e)
    with l1 c1 that show thesis
      by (auto simp: validate_object_def get_object_core_type_def object_at_def exec_defs)
  next
    case core: (Inr core)
    obtain s2 where e1: "resource_exists vm x core s1 = (Inr (stored x core), s2)" "s2 \<in> S"
      using resource_exists_law [OF assms(1)] c1 by blast
    obtain r3 s3 where l3: "load_type vm t s2 = (r3, s3)" by fastforce
    note c3 = load_type_law [OF assms(1) e1(2) l3]
    note start = validate_object_def get_object_core_type_def object_at_def exec_defs l1 core e1(1) l3
    show thesis
    proof (cases "stored x core")
      case False
      with c1 core e1 that show thesis by (auto simp: start split: option.splits)
    next
      case True
      show thesis
      proof (cases r3)
        case (Inl e)
        with True c1 c3 core that show thesis by (auto simp: start)
      next
        case (Inr ty)
        obtain s4 where e2: "resource_exists vm x ty s3 = (Inr (stored x ty), s4)" "s4 \<in> S"
          using resource_exists_law [OF assms(1)] c3 by blast
        with True Inr c1 c3 core that show thesis by (cases "stored x ty") (auto simp: start)
      qed
    qed
  qed
qed

lemma resource_laws_checked:
  assumes "resource_laws vm S types stored"
  shows "objects_checked vm S (object_at types stored)"
  unfolding objects_checked_def
proof (intro ballI allI)
  fix s x t assume "s \<in> S"
  from validate_object_iff [OF assms this, of x t] obtain r s' where
    "validate_object vm [VAddress x] t s = (r, s')" "s' \<in> S" "r = Inr () \<longleftrightarrow> object_at types stored x t" .
  then show "snd (validate_object vm [VAddress x] t s) \<in> S \<and>
      (fst (validate_object vm [VAddress x] t s) = Inr () \<longrightarrow> object_at types stored x t)" by simp
qed

lemma validate_one_complete:
  assumes "resource_laws vm S types stored" "s \<in> S" "accepted (object_at types stored) a t v"
  shows "\<exists>pushed s'. validate_one vm a t v s = (Inr pushed, s') \<and> s' \<in> S \<and>
    (\<forall>(t', v') \<in> set pushed. accepted (object_at types stored) a t' v')"
  using assms(3)
proof (cases rule: accepted.cases)
  case acc_prim
  then show ?thesis using assms(2) by (auto simp: validate_one_def)
next
  case (acc_object st t' x n)
  from validate_object_iff [OF assms(1,2), of x t'] acc_object(5) obtain s' where
    "validate_object vm [VAddress x] t' s = (Inr (), s')" "s' \<in> S" by blast
  then show ?thesis
    using acc_object by (auto simp: validate_one_def from_tag_def allowed_nth exec_defs)
qed (use assms(2) in \<open>auto simp: validate_one_def from_tag_def allowed_nth validate_string_def validate_option_def
    exec_defs\<close>)

lemma validate_stack_complete:
  assumes "resource_laws vm S types stored"
  shows "s \<in> S \<Longrightarrow> \<forall>(t, v) \<in> set st. accepted (object_at types stored) a t v \<Longrightarrow>
    \<exists>s'. validate_stack vm a st s = (Inr (), s')"
  using assms
proof (induction vm a st s rule: validate_stack.induct)
  case (2 vm a tag v stack s)
  have "accepted (object_at types stored) a tag v" using "2.prems"(2) by simp
  from validate_one_complete [OF "2.prems"(3,1) this] obtain pushed s1 where
    one: "validate_one vm a tag v s = (Inr pushed, s1)" and s1: "s1 \<in> S"
    and acc: "\<forall>(t', v') \<in> set pushed. accepted (object_at types stored) a t' v'" by blast
  have "\<forall>(t, v) \<in> set (rev pushed @ stack). accepted (object_at types stored) a t v"
    using acc "2.prems"(2) by auto
  from "2.IH" [OF one [symmetric] refl s1 this "2.prems"(3)] show ?case by (simp add: one)
qed simp

text \<open>C26. Validation of an argument accepts exactly the values that are safe: a value of the shape of its
  type passes if and only if every signer anywhere inside it is the sender of the transaction, every
  string is UTF-8, every option holds at most one value, and every object has its core and its inner
  type stored at its address, in the types and resources that the session reads. In particular no
  signer but the sender is inside a value that passes.\<close>

theorem validate_entry_value_correct:
  assumes "typed tag v" "resource_laws vm S types stored" "s \<in> S"
  shows "(fst (validate_entry_value vm tag v a s) = Inr () \<longleftrightarrow> accepted (object_at types stored) a tag v) \<and>
    (fst (validate_entry_value vm tag v a s) = Inr () \<longrightarrow> set (signers v) \<subseteq> {a})"
proof -
  have "accepted (object_at types stored) a tag v" if ok: "fst (validate_entry_value vm tag v a s) = Inr ()"
  proof -
    obtain s' where "validate_stack vm a [(tag, v)] s = (Inr (), s')"
      using ok unfolding validate_entry_value_def by (metis prod.collapse)
    from validate_stack_sound [OF resource_laws_checked [OF assms(2)] this assms(3)] assms(1)
    show ?thesis by simp
  qed
  moreover have "fst (validate_entry_value vm tag v a s) = Inr ()" if "accepted (object_at types stored) a tag v"
    using validate_stack_complete [OF assms(2,3), of "[(tag, v)]" a] that by (auto simp: validate_entry_value_def)
  ultimately show ?thesis using accepted_signers by blast
qed

text \<open>An object of the sender passes, one that is not there and the signer of another account do not.\<close>

abbreviation object_tag :: "type_tag \<Rightarrow> type_tag" where
  "object_tag t \<equiv> TagStruct (StructTag ACCOUNT_ADDRESS_ONE ''object'' ''Object'' [t])"

definition object_vm :: "'s vm_ops \<Rightarrow> 's vm_ops" where
  "object_vm vm = vm\<lparr>load_type := \<lambda>t s. (if t = object_core_tag then Inr (TyOther 0) else Inr (TyOther 1), s),
     load_resource := \<lambda>x ty s. (Inr (x = [6]), s)\<rparr>"

theorem validate_entry_value_correct_witness:
  "\<forall>vm :: unit vm_ops.
     fst (validate_entry_value (object_vm vm) (TagVector (object_tag TagU8)) (VVector [VStruct None [VAddress [6]]]) [1] ())
       = Inr () \<and>
     fst (validate_entry_value (object_vm vm) (object_tag TagU8) (VStruct None [VAddress [7]]) [1] ()) \<noteq> Inr () \<and>
     fst (validate_entry_value (object_vm vm) (TagVector TagSigner) (VVector [VSigner [1], VSigner [2]]) [1] ()) \<noteq> Inr ()"
proof
  fix vm :: "unit vm_ops"
  let ?types = "\<lambda>t. Some (if t = object_core_tag then TyOther 0 else TyOther 1)" and ?stored = "\<lambda>x ty. x = [6 :: 8 word]"
  have laws: "resource_laws (object_vm vm) UNIV ?types ?stored"
    by (auto simp: resource_laws_def object_vm_def)
  have object: "from_tag (StructTag ACCOUNT_ADDRESS_ONE ''object'' ''Object'' [TagU8]) = ALLOWED_STRUCTS ! 1"
    by (simp add: from_tag_def ALLOWED_STRUCTS_def)
  have typed: "typed (object_tag TagU8) (VStruct None [VAddress x])" for x
    by (rule typed.intros(12) [OF object]) simp
  have "accepted (object_at ?types ?stored) [1] (object_tag TagU8) (VStruct None [VAddress [6]])"
    by (rule acc_object [OF object]) (simp_all add: object_at_def)
  then have "accepted (object_at ?types ?stored) [1] (TagVector (object_tag TagU8)) (VVector [VStruct None [VAddress [6]]])"
    by (intro acc_vector) simp
  moreover have "typed (TagVector (object_tag TagU8)) (VVector [VStruct None [VAddress [6]]])"
    by (intro typed.intros(10)) (simp add: typed)
  ultimately have good: "fst (validate_entry_value (object_vm vm) (TagVector (object_tag TagU8))
      (VVector [VStruct None [VAddress [6]]]) [1] ()) = Inr ()"
    using validate_entry_value_correct [OF _ laws UNIV_I] by blast
  have "\<not> accepted (object_at ?types ?stored) [1] (object_tag TagU8) (VStruct None [VAddress [7]])"
    by (auto elim!: accepted.cases simp: object_at_def)
  then have missing: "fst (validate_entry_value (object_vm vm) (object_tag TagU8) (VStruct None [VAddress [7]]) [1] ()) \<noteq> Inr ()"
    using validate_entry_value_correct [OF typed laws UNIV_I] by blast
  have "typed (TagVector TagSigner) (VVector [VSigner [1], VSigner [2]])" by (auto intro!: typed.intros)
  from validate_entry_value_correct [OF this laws UNIV_I, of "[1]" "()"]
  have "fst (validate_entry_value (object_vm vm) (TagVector TagSigner) (VVector [VSigner [1], VSigner [2]]) [1] ()) \<noteq> Inr ()"
    by auto
  with good missing show "fst (validate_entry_value (object_vm vm) (TagVector (object_tag TagU8))
        (VVector [VStruct None [VAddress [6]]]) [1] ()) = Inr () \<and>
     fst (validate_entry_value (object_vm vm) (object_tag TagU8) (VStruct None [VAddress [7]]) [1] ()) \<noteq> Inr () \<and>
     fst (validate_entry_value (object_vm vm) (TagVector TagSigner) (VVector [VSigner [1], VSigner [2]]) [1] ()) \<noteq> Inr ()"
    by blast
qed

section \<open>Layouts without value invariants\<close>

text \<open>Values that conform to a layout; an argument whose layout has no value invariants is not
  deserialised by the checks.\<close>

inductive conforms :: "move_type_layout \<Rightarrow> move_value \<Rightarrow> bool" where
  "conforms LBool (VBool b)"
| "conforms LU8 (VU8 x8)"
| "conforms LU16 (VU16 x16)"
| "conforms LU32 (VU32 x32)"
| "conforms LU64 (VU64 x64)"
| "conforms LU128 (VU128 x128)"
| "conforms LU256 (VU256 x256)"
| "conforms LAddress (VAddress a)"
| "conforms LSigner (VSigner a)"
| "(\<And>v. v \<in> set vs \<Longrightarrow> conforms l v) \<Longrightarrow> conforms (LVector l) (VVector vs)"
| "list_all2 conforms ls vs \<Longrightarrow> conforms (LStruct ls) (VStruct n vs)"
| "conforms l v \<Longrightarrow> conforms (LNative nm l) v"

fun no_structs :: "move_value \<Rightarrow> bool" where
  "no_structs (VVector vs) = list_all no_structs vs"
| "no_structs (VStruct n vs) = False"
| "no_structs v = True"

text \<open>Skipping deserialisation is safe: a value whose layout has no value invariants contains no
  signer and no struct, so there is nothing the value checks could reject.\<close>

lemma no_invariants_nothing_to_check:
  assumes "conforms l v" "\<not> has_value_invariants l"
  shows "signers v = [] \<and> no_structs v"
  using assms
proof (induction rule: conforms.induct)
  case (10 vs l)
  then show ?case by (simp add: list_all_iff)
qed simp_all

section \<open>UTF-8 is the image of the encoder\<close>

definition scalar :: "nat \<Rightarrow> bool" where
  "scalar c \<longleftrightarrow> c < 0xD800 \<or> 0xE000 \<le> c \<and> c \<le> 0x10FFFF"

definition encode_utf8 :: "nat \<Rightarrow> nat list" where
  "encode_utf8 c =
     (if c < 0x80 then [c]
      else if c < 0x800 then [0xC0 + c div 64, 0x80 + c mod 64]
      else if c < 0x10000 then [0xE0 + c div 4096, 0x80 + c div 64 mod 64, 0x80 + c mod 64]
      else [0xF0 + c div 262144, 0x80 + c div 4096 mod 64, 0x80 + c div 64 mod 64, 0x80 + c mod 64])"

text \<open>Code points as digits to the base 64.\<close>

lemma base64_digit: "\<exists>x y. c = y + 64 * x \<and> y < (64 :: nat)"
  by (rule exI [of _ "c div 64"], rule exI [of _ "c mod 64"]) simp

lemma div_base64: "n div 4096 = n div 64 div (64 :: nat)" "n div 262144 = n div 64 div 64 div (64 :: nat)"
  by (simp_all flip: div_mult2_eq)

lemma digit_div_mod: "y < 64 \<Longrightarrow> (y + 64 * x) div 64 = (x :: nat)" "y < 64 \<Longrightarrow> (y + 64 * x) mod 64 = y"
  by simp_all

lemma encode_utf8_2:
  "y < 64 \<Longrightarrow> 2 \<le> x \<Longrightarrow> x < 32 \<Longrightarrow> encode_utf8 (y + 64 * x) = [0xC0 + x, 0x80 + y]"
  by (simp add: encode_utf8_def)

lemma encode_utf8_3:
  assumes "z < 64" "y < 64" "x < 16" "32 \<le> y + 64 * x"
  shows "encode_utf8 (z + 64 * (y + 64 * x)) = [0xE0 + x, 0x80 + y, 0x80 + z]"
proof -
  have "\<not> z + 64 * (y + 64 * x) < 0x800" "z + 64 * (y + 64 * x) < 0x10000" using assms by simp_all
  then show ?thesis
    using assms(1,2)
    by (simp add: encode_utf8_def div_base64 digit_div_mod del: distrib_left_numeral)
qed

lemma encode_utf8_4:
  assumes "z < 64" "y < 64" "x < 64" "16 \<le> x + 64 * w"
  shows "encode_utf8 (z + 64 * (y + 64 * (x + 64 * w))) = [0xF0 + w, 0x80 + x, 0x80 + y, 0x80 + z]"
proof -
  have "\<not> z + 64 * (y + 64 * (x + 64 * w)) < 0x10000" using assms by simp
  then show ?thesis
    using assms(1-3)
    by (simp add: encode_utf8_def div_base64 digit_div_mod del: distrib_left_numeral)
qed

lemma utf8_ok_encode:
  assumes "scalar c"
  shows "utf8_ok (encode_utf8 c @ bs) = utf8_ok bs"
proof (cases "c < 0x80")
  case True
  then show ?thesis by (simp add: encode_utf8_def)
next
  case c: False
  obtain x1 z where z: "c = z + 64 * x1" "z < 64" using base64_digit by blast
  obtain x2 y where y: "x1 = y + 64 * x2" "y < 64" using base64_digit by blast
  obtain w x where x: "x2 = x + 64 * w" "x < 64" using base64_digit by blast
  consider "x1 < 32" | "32 \<le> x1" "x2 < 16" | "16 \<le> x2" by linarith
  then show ?thesis
  proof cases
    case 1
    have "2 \<le> x1" using c z by linarith
    then show ?thesis using 1 z by (simp add: encode_utf8_2)
  next
    case 2
    have *: "x2 = 0 \<longrightarrow> 32 \<le> y" "x2 = 13 \<longrightarrow> y \<le> 31"
      using 2 assms y z by (auto simp: scalar_def)
    have "encode_utf8 c = [0xE0 + x2, 0x80 + y, 0x80 + z]"
      unfolding z y using encode_utf8_3 [of z y x2] 2 y z by blast
    then show ?thesis using 2 * y(2) z(2) by simp
  next
    case 3
    have *: "w \<le> 4" "w = 0 \<longrightarrow> 16 \<le> x" "w = 4 \<longrightarrow> x \<le> 15"
      using 3 assms x y z by (auto simp: scalar_def)
    have "encode_utf8 c = [0xF0 + w, 0x80 + x, 0x80 + y, 0x80 + z]"
      unfolding z y x using encode_utf8_4 [of z y x w] 3 x y z by blast
    then show ?thesis using * x(2) y(2) z(2) by simp
  qed
qed

lemma cont_digit: "cont b \<Longrightarrow> \<exists>y. b = 0x80 + y \<and> y < 64"
  by (rule exI [of _ "b - 0x80"]) linarith

lemma encode_decode2:
  assumes "0xC2 \<le> a" "a \<le> 0xDF" "cont b"
  shows "\<exists>c. scalar c \<and> encode_utf8 c = [a, b]"
proof -
  obtain y where y: "b = 0x80 + y" "y < 64" using cont_digit [OF assms(3)] by blast
  have "a = 0xC0 + (a - 0xC0)" "2 \<le> a - 0xC0" "a - 0xC0 < 32" using assms by simp_all
  then have "encode_utf8 (y + 64 * (a - 0xC0)) = [a, b]" using y by (simp add: encode_utf8_2)
  moreover have "y + 64 * (a - 0xC0) < 0xD800" using assms y by linarith
  then have "scalar (y + 64 * (a - 0xC0))" by (simp add: scalar_def)
  ultimately show ?thesis by blast
qed

lemma encode_decode3:
  assumes "0xE0 \<le> a" "a \<le> 0xEF" "cont b" "cont c" "a = 0xE0 \<longrightarrow> 0xA0 \<le> b" "a = 0xED \<longrightarrow> b \<le> 0x9F"
  shows "\<exists>n. scalar n \<and> encode_utf8 n = [a, b, c]"
proof -
  obtain x where x: "a = 0xE0 + x" using assms(1) le_Suc_ex by blast
  obtain y z where y: "b = 0x80 + y" "y < 64" and z: "c = 0x80 + z" "z < 64"
    using cont_digit [OF assms(3)] cont_digit [OF assms(4)] by blast
  have *: "x < 16" "32 \<le> y + 64 * x" "x = 13 \<longrightarrow> y < 32"
    using assms x y by auto
  then have "encode_utf8 (z + 64 * (y + 64 * x)) = [a, b, c]"
    using encode_utf8_3 [of z y x] x y z by blast
  moreover have "scalar (z + 64 * (y + 64 * x))"
  proof -
    consider "x < 13" | "x = 13" | "13 < x" by linarith
    then show ?thesis using * y(2) z(2) by cases (auto simp: scalar_def)
  qed
  ultimately show ?thesis by blast
qed

lemma encode_decode4:
  assumes "0xF0 \<le> a" "a \<le> 0xF4" "cont b" "cont c" "cont d"
    "a = 0xF0 \<longrightarrow> 0x90 \<le> b" "a = 0xF4 \<longrightarrow> b \<le> 0x8F"
  shows "\<exists>n. scalar n \<and> encode_utf8 n = [a, b, c, d]"
proof -
  obtain w where w: "a = 0xF0 + w" using assms(1) le_Suc_ex by blast
  obtain x y z where x: "b = 0x80 + x" "x < 64" and y: "c = 0x80 + y" "y < 64"
    and z: "d = 0x80 + z" "z < 64"
    using cont_digit [OF assms(3)] cont_digit [OF assms(4)] cont_digit [OF assms(5)] by blast
  have *: "w < 4 \<or> w = 4 \<and> x < 16" "16 \<le> x + 64 * w" using assms w x by auto
  have "encode_utf8 (z + 64 * (y + 64 * (x + 64 * w))) = [a, b, c, d]"
    using encode_utf8_4 [of z y x w] *(2) w x y z by blast
  moreover have "scalar (z + 64 * (y + 64 * (x + 64 * w)))"
    using * x(2) y(2) z(2) by (auto simp: scalar_def)
  ultimately show ?thesis by blast
qed

lemma utf8_okI: "scalar c \<Longrightarrow> encode_utf8 c @ rest = bs \<Longrightarrow> utf8_ok rest
    \<Longrightarrow> \<exists>c rest. scalar c \<and> bs = encode_utf8 c @ rest \<and> utf8_ok rest"
  by blast

lemma utf8_ok_cases:
  assumes "utf8_ok (a # bs)"
  shows "\<exists>c rest. scalar c \<and> a # bs = encode_utf8 c @ rest \<and> utf8_ok rest"
proof -
  consider "a < 0x80" "utf8_ok bs"
    | b cs where "bs = b # cs" "0xC2 \<le> a" "a \<le> 0xDF" "cont b" "utf8_ok cs"
    | b c ds where "bs = b # c # ds" "0xE0 \<le> a" "a \<le> 0xEF" "cont b" "cont c"
        "a = 0xE0 \<longrightarrow> 0xA0 \<le> b" "a = 0xED \<longrightarrow> b \<le> 0x9F" "utf8_ok ds"
    | b c d es where "bs = b # c # d # es" "0xF0 \<le> a" "a \<le> 0xF4" "cont b" "cont c" "cont d"
        "a = 0xF0 \<longrightarrow> 0x90 \<le> b" "a = 0xF4 \<longrightarrow> b \<le> 0x8F" "utf8_ok es"
  proof (cases "a < 0x80")
    case True
    then show ?thesis using assms that(1) by simp
  next
    case no1: False
    then obtain b cs where bs: "bs = b # cs" using assms by (cases bs) auto
    show ?thesis
    proof (cases "0xC2 \<le> a \<and> a \<le> 0xDF")
      case True
      then show ?thesis using assms no1 bs that(2) by simp
    next
      case no2: False
      then obtain c ds where cs: "cs = c # ds" using assms no1 bs by (cases cs) auto
      show ?thesis
      proof (cases "0xE0 \<le> a \<and> a \<le> 0xEF")
        case True
        then show ?thesis using assms no1 no2 bs cs that(3) [of b c ds] by simp
      next
        case no3: False
        then obtain d es where "ds = d # es" using assms no1 no2 bs cs by (cases ds) auto
        then show ?thesis using assms no1 no2 no3 bs cs that(4) [of b c d es] by simp
      qed
    qed
  qed
  then show ?thesis
  proof cases
    case 1
    then show ?thesis by (intro utf8_okI [of a bs]) (simp_all add: scalar_def encode_utf8_def)
  next
    case 2
    with encode_decode2 obtain c where "scalar c" "encode_utf8 c = [a, b]" by metis
    with 2 show ?thesis by (intro utf8_okI [of c cs]) simp_all
  next
    case 3
    with encode_decode3 obtain n where "scalar n" "encode_utf8 n = [a, b, c]" by metis
    with 3 show ?thesis by (intro utf8_okI [of n ds]) simp_all
  next
    case 4
    with encode_decode4 obtain n where "scalar n" "encode_utf8 n = [a, b, c, d]" by metis
    with 4 show ?thesis by (intro utf8_okI [of n es]) simp_all
  qed
qed

lemma utf8_ok_decodes: "utf8_ok bs \<Longrightarrow> \<exists>cs. (\<forall>c \<in> set cs. scalar c) \<and> bs = concat (map encode_utf8 cs)"
proof (induction "length bs" arbitrary: bs rule: less_induct)
  case less
  show ?case
  proof (cases bs)
    case Nil
    then show ?thesis by (intro exI [of _ "[]"]) simp
  next
    case (Cons a bs')
    with less.prems utf8_ok_cases obtain c rest where c: "scalar c" "bs = encode_utf8 c @ rest"
      "utf8_ok rest" by metis
    moreover have "length rest < length bs" using c(2) by (simp add: encode_utf8_def)
    ultimately obtain cs where "\<forall>c \<in> set cs. scalar c" "rest = concat (map encode_utf8 cs)"
      using less.hyps by metis
    with c show ?thesis by (intro exI [of _ "c # cs"]) simp
  qed
qed

lemma utf8_ok_iff: "utf8_ok bs \<longleftrightarrow> (\<exists>cs. (\<forall>c \<in> set cs. scalar c) \<and> bs = concat (map encode_utf8 cs))"
proof
  assume "\<exists>cs. (\<forall>c \<in> set cs. scalar c) \<and> bs = concat (map encode_utf8 cs)"
  then obtain cs where "\<forall>c \<in> set cs. scalar c" "bs = concat (map encode_utf8 cs)" by blast
  then show "utf8_ok bs"
    by (induction cs arbitrary: bs) (simp_all add: utf8_ok_encode)
qed (rule utf8_ok_decodes)

text \<open>C28. A string argument is accepted exactly when its bytes are the encoding of a sequence of
  Unicode scalar values: overlong forms, surrogates and values above \<open>0x10FFFF\<close> are rejected as
  invalid strings.\<close>

theorem validate_string_utf8:
  assumes "bytes_of_values vs = Some bs"
  shows "validate_string (VVector vs # rest) =
    (if \<exists>cs. (\<forall>c \<in> set cs. scalar c) \<and> map unat bs = concat (map encode_utf8 cs)
     then Inr () else Inl (InvalidTransaction InvalidString))"
  using assms by (simp add: validate_string_def from_utf8_ok_def utf8_ok_iff)

theorem validate_string_utf8_witness:
  "validate_string [VVector [VU8 0xC3, VU8 0xA9]] = Inr ()"
proof -
  have "map unat [0xC3, 0xA9 :: u8] = concat (map encode_utf8 [0xE9])"
    by (simp add: encode_utf8_def)
  moreover have "\<forall>c \<in> set [0xE9]. scalar c" by (simp add: scalar_def)
  ultimately have "\<exists>cs. (\<forall>c \<in> set cs. scalar c) \<and> map unat [0xC3, 0xA9 :: u8] = concat (map encode_utf8 cs)"
    by blast
  then show ?thesis
    using validate_string_utf8 [of "[VU8 0xC3, VU8 0xA9]" "[0xC3, 0xA9]" "[]"]
    by (simp only: bytes_of_values.simps option.map if_True)
qed

end
