(* ===== verification/Evm_Values.thy ===== *)
theory Evm_Values
  imports Tag_Validation
begin

text \<open>
  Values that cross the border between the EVM and Move: \<^verbatim>\<open>evm-ext/src/type_utils.rs\<close>, the log
  conversion of \<^verbatim>\<open>evm-ext/src/events.rs\<close> and the event-to-log conversion of \<^verbatim>\<open>execution/src/lib.rs\<close>.
  Keccak-256 and BCS decoding of events are third-party code and arguments here.
\<close>

section \<open>Struct tags of EVM accounts and code\<close>

definition hex_digit :: "nat \<Rightarrow> char" where
  "hex_digit n = ''0123456789abcdef'' ! n"

definition encode_hex :: "bytes \<Rightarrow> string" where
  "encode_hex bs = concat (map (\<lambda>b. [hex_digit (unat b div 16), hex_digit (unat b mod 16)]) bs)"

definition ACCOUNT_INFO_PREFIX :: string where
  "ACCOUNT_INFO_PREFIX = ''Account_''"

definition account_info_struct_tag :: "address \<Rightarrow> struct_tag" where
  "account_info_struct_tag a =
     StructTag EVM_NATIVE_ADDRESS EVM_NATIVE_MODULE (ACCOUNT_INFO_PREFIX @ encode_hex a) []"

definition code_hash_struct_tag :: "b256 \<Rightarrow> struct_tag" where
  "code_hash_struct_tag h =
     StructTag EVM_NATIVE_ADDRESS EVM_NATIVE_MODULE (''CodeHash_'' @ encode_hex h) []"

record evm_account_info =
  ai_balance :: u256
  ai_nonce :: u64
  ai_code_hash :: b256
  ai_code :: "bytes option"

definition get_account_code_hash :: "(bytes \<Rightarrow> b256) \<Rightarrow> evm_account_info \<Rightarrow> b256" where
  "get_account_code_hash keccak256 info =
     (case ai_code info of
        Some code \<Rightarrow> if code = [] then keccak256 [] else keccak256 code
      | None \<Rightarrow> if ai_code_hash info = replicate 32 0 then keccak256 [] else ai_code_hash info)"

section \<open>Results of the EVM as Move values\<close>

definition vector_u8 :: "bytes \<Rightarrow> move_value" where
  "vector_u8 bs = VVector (map VU8 bs)"

definition evm_log_to_move_value :: "log \<Rightarrow> move_value" where
  "evm_log_to_move_value l =
     VStruct None
       [VAddress (to_move_address (log_address l)),
        VVector (map (\<lambda>t. VU256 (b256_to_move_u256 t)) (log_topics l)),
        vector_u8 (log_data l)]"

record execution_result =
  xr_is_success :: bool
  xr_created_address :: "address option"
  xr_output :: "bytes option"
  xr_logs :: "log list"

definition evm_result_to_move_value :: "execution_result \<Rightarrow> move_value" where
  "evm_result_to_move_value r =
     (let output = (case xr_created_address r of
                      None \<Rightarrow> unwrap_or (xr_output r) []
                    | Some a \<Rightarrow> a)
      in VStruct None
           [VBool (xr_is_success r), vector_u8 output,
            VVector (map evm_log_to_move_value (xr_logs r))])"

record evm_native_outcome =
  no_is_success :: bool
  no_output :: bytes
  no_logs :: "log list"

text \<open>\<open>Log::new\<close> refuses more than four topics.\<close>

definition log_new :: "address \<Rightarrow> b256 list \<Rightarrow> bytes \<Rightarrow> log option" where
  "log_new a topics d =
     (if length topics \<le> 4 then Some \<lparr>log_address = a, log_topics = topics, log_data = d\<rparr> else None)"

abbreviation unwrapped :: "'a option \<Rightarrow> panic + 'a" where
  "unwrapped x \<equiv> ok_or x (Panic ''unwrap'')"

fun as_u8_vector :: "move_value \<Rightarrow> bytes option" where
  "as_u8_vector (VVector vs) = bytes_of_values vs"
| "as_u8_vector v = None"

fun topic_of :: "move_value \<Rightarrow> b256 option" where
  "topic_of (VU256 t) = Some (le_bytes 32 t)"
| "topic_of v = None"

fun extract_log :: "move_value \<Rightarrow> log option" where
  "extract_log (VStruct n (VAddress a # VVector ts # d # rest)) =
     Option.bind (collect_option (map topic_of ts)) (\<lambda>topics.
     Option.bind (as_u8_vector d) (\<lambda>data.
     log_new (to_eth_address a) topics data))"
| "extract_log v = None"

definition extract_evm_result ::
  "(bytes \<Rightarrow> move_type_layout \<Rightarrow> move_value option) \<Rightarrow> return_values \<Rightarrow> panic + evm_native_outcome" where
  "extract_evm_result deser outcome =
     (case outcome of
        [(b, layout)] \<Rightarrow>
          rbind (unwrapped (deser b layout)) (\<lambda>v.
          case v of
            VStruct n [VBool is_success, out, VVector ls] \<Rightarrow>
              rbind (unwrapped (as_u8_vector out)) (\<lambda>output.
              rbind (unwrapped (collect_option (map extract_log ls))) (\<lambda>ls'.
              Inr \<lparr>no_is_success = is_success, no_output = output, no_logs = ls'\<rparr>))
          | _ \<Rightarrow> Inl (Panic ''unwrap''))
      | _ \<Rightarrow> Inl (Panic ''EVM native has only one return value.''))"

section \<open>Events as logs\<close>

definition EVM_LOGS_EVENT_TAG :: struct_tag where
  "EVM_LOGS_EVENT_TAG = StructTag EVM_NATIVE_ADDRESS EVM_NATIVE_MODULE ''EvmLogsEvent'' []"

definition EVM_LOG_LAYOUT :: move_type_layout where
  "EVM_LOG_LAYOUT = LStruct [LAddress, LVector LU256, LVector LU8]"

definition EVM_LOGS_EVENT_LAYOUT :: move_type_layout where
  "EVM_LOGS_EVENT_LAYOUT = LStruct [LVector EVM_LOG_LAYOUT]"

fun as_u8 :: "move_value \<Rightarrow> u8 option" where
  "as_u8 (VU8 b) = Some b"
| "as_u8 v = None"

fun as_b256 :: "move_value \<Rightarrow> b256 option" where
  "as_b256 (VU256 t) = Some (le_bytes 32 t)"
| "as_b256 v = None"

fun evm_log_value_to_log :: "move_value \<Rightarrow> log option" where
  "evm_log_value_to_log (VStruct n [VAddress a, VVector ts, VVector ds]) =
     Option.bind (collect_option (map as_u8 ds)) (\<lambda>data.
     Option.bind (collect_option (map as_b256 ts)) (\<lambda>topics.
     log_new (to_eth_address a) topics data))"
| "evm_log_value_to_log v = None"

text \<open>The destination is extended as the loop runs, also when a later element fails.\<close>

fun push_evm_logs :: "move_value list \<Rightarrow> log list \<Rightarrow> unit option \<times> log list" where
  "push_evm_logs [] dest = (Some (), dest)"
| "push_evm_logs (v # vs) dest =
     (case evm_log_value_to_log v of
        None \<Rightarrow> (None, dest)
      | Some l \<Rightarrow> push_evm_logs vs (dest @ [l]))"

fun evm_logs_event_to_log :: "move_value \<Rightarrow> log list \<Rightarrow> unit option \<times> log list" where
  "evm_logs_event_to_log (VStruct n [VVector vs]) dest = push_evm_logs vs dest"
| "evm_logs_event_to_log v dest = (None, dest)"

record contract_event =
  ce_type_tag :: type_tag
  ce_event_data :: bytes

text \<open>\<open>canonical\<close> is the canonical string of a type tag, \<open>deser\<close> BCS decoding by a layout.\<close>

definition push_logs ::
  "(bytes \<Rightarrow> b256) \<Rightarrow> (type_tag \<Rightarrow> bytes) \<Rightarrow> (bytes \<Rightarrow> move_type_layout \<Rightarrow> move_value option)
     \<Rightarrow> contract_event \<Rightarrow> log list \<Rightarrow> panic + log list" where
  "push_logs keccak256 canonical deser event dest =
     (case ce_type_tag event of
        TagStruct struct_tag \<Rightarrow>
          if struct_tag = EVM_LOGS_EVENT_TAG then
            (case deser (ce_event_data event) EVM_LOGS_EVENT_LAYOUT of
               None \<Rightarrow> Inl (Panic ''EVM logs must deserialize correctly'')
             | Some v \<Rightarrow>
                 (case evm_logs_event_to_log v dest of
                    (None, _) \<Rightarrow> Inl (Panic ''EVM logs must deserialize correctly'')
                  | (Some _, dest') \<Rightarrow> Inr dest'))
          else
            Inr (dest @ [\<lparr>log_address = to_eth_address (st_address struct_tag),
                          log_topics = [keccak256 (canonical (ce_type_tag event))],
                          log_data = ce_event_data event\<rparr>])
      | _ \<Rightarrow> Inl (Panic ''This would break move event extension invariant''))"

fun event_logs ::
  "(bytes \<Rightarrow> b256) \<Rightarrow> (type_tag \<Rightarrow> bytes) \<Rightarrow> (bytes \<Rightarrow> move_type_layout \<Rightarrow> move_value option)
     \<Rightarrow> contract_event list \<Rightarrow> log list \<Rightarrow> panic + log list" where
  "event_logs keccak256 canonical deser [] result = Inr result"
| "event_logs keccak256 canonical deser (e # es) result =
     rbind (push_logs keccak256 canonical deser e result) (event_logs keccak256 canonical deser es)"

text \<open>\<open>accrue_log\<close> adds a log to a bloom filter; \<open>logs_bloom\<close> folds it over the logs.\<close>

definition logs_bloom :: "(log \<Rightarrow> bloom \<Rightarrow> bloom) \<Rightarrow> log list \<Rightarrow> bloom" where
  "logs_bloom accrue_log ls = fold accrue_log ls 0"

section \<open>Properties\<close>

definition wf_log :: "log \<Rightarrow> bool" where
  "wf_log l \<longleftrightarrow> length (log_topics l) \<le> 4 \<and> (\<forall>t \<in> set (log_topics l). length t = 32)"

lemma bytes_of_values_map [simp]: "bytes_of_values (map VU8 bs) = Some bs"
  by (induction bs) simp_all

lemma as_u8_vector_vector_u8 [simp]: "as_u8_vector (vector_u8 bs) = Some bs"
  by (simp add: vector_u8_def)

lemma le_bytes_topic: "length t = 32 \<Longrightarrow> le_bytes 32 (b256_to_move_u256 t) = t"
  using le_bytes_from_le_bytes [of t, where ?'a = 256] by (simp add: b256_to_move_u256_def)

lemma map_topics:
  "\<forall>t \<in> set ts. length t = 32 \<Longrightarrow> map (\<lambda>t. le_bytes 32 (b256_to_move_u256 t)) ts = ts"
  by (simp add: map_idI le_bytes_topic)

lemma collect_u8: "collect_option (map as_u8 (map VU8 bs)) = Some bs"
  by (induction bs) simp_all

lemma extract_log_round_trip: "wf_log l \<Longrightarrow> extract_log (evm_log_to_move_value l) = Some l"
  by (simp add: evm_log_to_move_value_def wf_log_def comp_def map_topics log_new_def)

lemma evm_log_value_round_trip:
  "wf_log l \<Longrightarrow> evm_log_value_to_log (evm_log_to_move_value l) = Some l"
  by (simp add: evm_log_to_move_value_def wf_log_def comp_def map_topics log_new_def vector_u8_def
      collect_u8 [simplified comp_def])

lemma collect_logs_round_trip:
  "\<forall>l \<in> set ls. wf_log l \<Longrightarrow> collect_option (map extract_log (map evm_log_to_move_value ls)) = Some ls"
  by (induction ls) (simp_all add: extract_log_round_trip)

lemma push_evm_logs_round_trip:
  "\<forall>l \<in> set ls. wf_log l \<Longrightarrow> push_evm_logs (map evm_log_to_move_value ls) dest = (Some (), dest @ ls)"
  by (induction ls arbitrary: dest) (simp_all add: evm_log_value_round_trip)

text \<open>The result of an EVM execution survives its trip through Move values: when the value the
  native returns is decoded again, success flag, output and logs are those of the execution, and
  the output of a contract creation is the address of the new contract.\<close>

lemma evm_result_round_trip:
  assumes "deser b layout = Some (evm_result_to_move_value r)" "\<forall>l \<in> set (xr_logs r). wf_log l"
  shows "extract_evm_result deser [(b, layout)] =
    Inr \<lparr>no_is_success = xr_is_success r,
         no_output = (case xr_created_address r of
                        None \<Rightarrow> unwrap_or (xr_output r) [] | Some a \<Rightarrow> a),
         no_logs = xr_logs r\<rparr>"
  using assms collect_logs_round_trip [OF assms(2)]
  by (simp add: extract_evm_result_def evm_result_to_move_value_def Let_def)

definition example_log :: log where
  "example_log = \<lparr>log_address = replicate 20 1, log_topics = [replicate 32 2], log_data = [3]\<rparr>"

definition example_result :: execution_result where
  "example_result = \<lparr>xr_is_success = True, xr_created_address = Some (replicate 20 9),
     xr_output = Some [1], xr_logs = [example_log]\<rparr>"

text \<open>Logs emitted by the EVM through the Move event of the EVM native reach the receipt
  unchanged, appended in order to the logs before them.\<close>

lemma evm_event_logs_round_trip:
  assumes "deser d EVM_LOGS_EVENT_LAYOUT = Some (VStruct None [VVector (map evm_log_to_move_value ls)])"
    and "\<forall>l \<in> set ls. wf_log l"
  shows "push_logs keccak256 canonical deser
    \<lparr>ce_type_tag = TagStruct EVM_LOGS_EVENT_TAG, ce_event_data = d\<rparr> dest = Inr (dest @ ls)"
  using assms by (simp add: push_logs_def push_evm_logs_round_trip)

end
