(* ===== verification/Execute.thy ===== *)
theory Execute
  imports Nonces Evm_Values
begin

text \<open>
  The kinds of work a transaction can ask for: \<^verbatim>\<open>execution/src/execute.rs\<close>. Staging and verification of
  a module bundle is third-party code: \<open>deserialize_module\<close> returns the identifier of a compiled
  module, \<open>stage\<close> the verified bundle (a map from module identifiers to bytes, kept as a list of
  pairs), \<open>module_exists\<close> whether a module is stored already.
\<close>

section \<open>Entry functions\<close>

fun is_reference :: "rt_type \<Rightarrow> bool" where
  "is_reference (TyReference t) = True"
| "is_reference (TyMutableReference t) = True"
| "is_reference (TyOther n) = False"

fun strip_reference :: "rt_type \<Rightarrow> error + rt_type" where
  "strip_reference (TyReference t) =
     (if is_reference t then Inl (InvalidTransaction UnsupportedNestedReference) else Inr t)"
| "strip_reference (TyMutableReference t) =
     (if is_reference t then Inl (InvalidTransaction UnsupportedNestedReference) else Inr t)"
| "strip_reference t = Inr t"

definition elift_fault :: "fault + 'a \<Rightarrow> ('s, 'a) exec" where
  "elift_fault r s = (r, s)"

definition validate_argument ::
  "'s vm_ops \<Rightarrow> account_address \<Rightarrow> rt_type \<times> bytes \<Rightarrow> ('s, unit) exec" where
  "validate_argument vm signer = (\<lambda>(ty, b).
     ebind (elift (strip_reference ty)) (\<lambda>ty.
     ebind (ecall error_from_vm (get_type_tag vm ty)) (\<lambda>tag.
     ethen (elift_fault (validate_entry_type_tag tag))
     (ebind (ecall error_from_vm (get_type_layout vm ty)) (\<lambda>layout.
     if has_value_invariants layout then
       ebind (eok_or (deserialize vm b layout) (InvalidTransaction FailedArgumentDeserialization)) (\<lambda>arg.
       validate_entry_value vm tag arg signer)
     else ereturn ())))))"

definition execute_entry_function ::
  "'s vm_ops \<Rightarrow> entry_function \<Rightarrow> account_address \<Rightarrow> meter \<Rightarrow> ('s, unit) exec" where
  "execute_entry_function vm entry_fn signer meter =
     (let load = ecall error_from_vm
            (load_function vm (ef_module entry_fn) (ef_function entry_fn) (ef_ty_args entry_fn))
      in ebind load (\<lambda>function.
         if length (lf_param_tys function) \<noteq> length (ef_args entry_fn)
         then efail (InvalidTransaction MismatchedArgumentCount)
         else ethen (efor (validate_argument vm signer) (zip (lf_param_tys function) (ef_args entry_fn)))
           (ebind load (\<lambda>function.
            ecall error_from_vm (vm_execute_entry_function vm function (ef_args entry_fn) meter)))))"

section \<open>Scripts\<close>

text \<open>The loop over the parameters: a signer parameter gets the sender, the others consume the given
  arguments in order; what is left of them is returned with the result.\<close>

fun script_args ::
  "'s vm_ops \<Rightarrow> bytes \<Rightarrow> rt_type list \<Rightarrow> move_value list
     \<Rightarrow> ('s, bytes list \<times> move_value list) exec" where
  "script_args vm serialized_signer [] gs = ereturn ([], gs)"
| "script_args vm serialized_signer (ty # tys) gs =
     ebind (elift (strip_reference ty)) (\<lambda>ty.
     ebind (ecall error_from_vm (get_type_tag vm ty)) (\<lambda>tag.
     if tag = TagSigner then
       ebind (script_args vm serialized_signer tys gs) (\<lambda>(rs, rest).
         ereturn (serialized_signer # rs, rest))
     else case gs of
       [] \<Rightarrow> efail (InvalidTransaction MismatchedArgumentCount)
     | arg # gs' \<Rightarrow>
         ebind (eok_or (simple_serialize vm arg) (script_tx_invariant_violation ArgsMustSerialize))
           (\<lambda>v. ebind (script_args vm serialized_signer tys gs') (\<lambda>(rs, rest).
              ereturn (v # rs, rest)))))"

definition execute_script ::
  "'s vm_ops \<Rightarrow> script \<Rightarrow> account_address \<Rightarrow> meter \<Rightarrow> ('s, unit) exec" where
  "execute_script vm scr signer meter =
     ebind (ecall error_from_vm (load_script vm (sc_code scr) (sc_ty_args scr))) (\<lambda>function.
     ebind (eok_or (simple_serialize vm (VSigner signer))
       (script_tx_invariant_violation ArgsMustSerialize)) (\<lambda>serialized_signer.
     ebind (script_args vm serialized_signer (lf_param_tys function) (sc_args scr)) (\<lambda>(args, rest).
     if rest \<noteq> [] then efail (InvalidTransaction MismatchedArgumentCount)
     else ecall error_from_vm
       (vm_execute_script vm (sc_code scr) (sc_ty_args scr) args meter))))"

section \<open>EVM contracts\<close>

definition evm_module_id :: module_id where
  "evm_module_id = \<lparr>mid_address = EVM_NATIVE_ADDRESS, mid_name = EVM_NATIVE_MODULE\<rparr>"

definition EVM_CALL_FN_NAME :: string where
  "EVM_CALL_FN_NAME = ''system_evm_call''"

definition EVM_CREATE_FN_NAME :: string where
  "EVM_CREATE_FN_NAME = ''system_evm_create''"

definition EVM_DEPOSIT_FN_NAME :: string where
  "EVM_DEPOSIT_FN_NAME = ''system_deposit_evm_call''"

definition CODE_LAYOUT :: move_type_layout where
  "CODE_LAYOUT = LVector LU8"

definition epanicking :: "panic + 'a \<Rightarrow> ('s, 'a) exec" where
  "epanicking r = (case r of Inl (Panic m) \<Rightarrow> epanic m | Inr a \<Rightarrow> ereturn a)"

definition deploy_evm_contract ::
  "'s vm_ops \<Rightarrow> bytes \<Rightarrow> u256 \<Rightarrow> account_address \<Rightarrow> meter \<Rightarrow> ('s, address) exec" where
  "deploy_evm_contract vm bytecode v signer meter =
     (let args = [unwrap_or (simple_serialize vm (VSigner signer)) [],
                  unwrap_or (simple_serialize vm (VU256 (to_move_u256 v))) [],
                  unwrap_or (simple_serialize vm (vector_u8 bytecode)) []]
      in ebind (ecall error_from_vm
           (execute_function_bypass_visibility vm evm_module_id EVM_CREATE_FN_NAME [] args meter))
           (\<lambda>outcome.
         ebind (epanicking (extract_evm_result (deserialize vm) outcome)) (\<lambda>evm_outcome.
         if \<not> no_is_success evm_outcome then efail (User EvmContractCreationFailure)
         else if length (no_output evm_outcome) \<noteq> 20 then epanic ''slice length''
         else ereturn (no_output evm_outcome))))"

text \<open>Arguments are serialised by their layout; a failure would be a panic.\<close>

definition serialize_args ::
  "'s vm_ops \<Rightarrow> (move_value \<times> move_type_layout) list \<Rightarrow> ('s, bytes list) exec" where
  "serialize_args vm args =
     eunwrap (collect_option (map (\<lambda>(v, l). serialize vm v l) args)) ''unwrap''"

definition execute_evm_contract ::
  "'s vm_ops \<Rightarrow> account_address \<Rightarrow> account_address \<Rightarrow> u256 \<Rightarrow> bytes \<Rightarrow> meter
     \<Rightarrow> ('s, evm_native_outcome) exec" where
  "execute_evm_contract vm signer contract v data meter =
     ebind (serialize_args vm
       [(VSigner signer, LSigner), (VAddress contract, LAddress), (VU256 (to_move_u256 v), LU256),
        (vector_u8 data, CODE_LAYOUT)]) (\<lambda>args.
     ebind (ecall error_from_vm
       (execute_function_bypass_visibility vm evm_module_id EVM_CALL_FN_NAME [] args meter))
       (\<lambda>outcome. epanicking (extract_evm_result (deserialize vm) outcome)))"

section \<open>Module deployment\<close>

datatype 'a change_op = New 'a | Modify 'a | Delete

record module_ops =
  deserialize_module :: "bytes \<Rightarrow> partial_vm_error + module_id"
  stage :: "account_address \<Rightarrow> bytes \<Rightarrow> vm_error + (module_id \<times> bytes) list"
  module_exists :: "module_id \<Rightarrow> vm_error + bool"

fun module_writes ::
  "(module_id \<Rightarrow> vm_error + bool) \<Rightarrow> (module_id \<times> bytes) list
     \<Rightarrow> error + (module_id \<times> bytes change_op) list" where
  "module_writes ex [] = Inr []"
| "module_writes ex ((m, b) # bundle) =
     rbind (map_err error_from_vm (ex m)) (\<lambda>e.
     rbind (module_writes ex bundle) (\<lambda>ws.
     Inr ((m, if e then Modify b else New b) # ws)))"

definition deploy_module ::
  "module_ops \<Rightarrow> bytes \<Rightarrow> account_address
     \<Rightarrow> error + module_id \<times> (module_id \<times> bytes change_op) list" where
  "deploy_module mods code a =
     rbind (map_err error_from_partial_vm (deserialize_module mods code)) (\<lambda>self_id.
     rbind (map_err error_from_vm (stage mods a code)) (\<lambda>bundle.
     rbind (module_writes (module_exists mods) bundle) (\<lambda>writes. Inr (self_id, writes))))"

section \<open>Safety of entry functions\<close>

lemma elift_fault_success [simp]: "elift_fault r s = (Inr a, s') \<longleftrightarrow> r = Inr a \<and> s' = s"
  by (auto simp: elift_fault_def)

lemma epanicking_success [simp]: "epanicking r s = (Inr a, s') \<longleftrightarrow> r = Inr a \<and> s' = s"
  by (auto simp: epanicking_def split: sum.split panic.split)

text \<open>What the VM promises of the tag and the layout of one type: a value decoded by the layout has
  the shape of the tag, if the tag is of an allowed type.\<close>

definition codec_laws :: "'s vm_ops \<Rightarrow> bool" where
  "codec_laws vm \<longleftrightarrow>
     (\<forall>ty s0 tag s1 s2 layout s3 b v.
        get_type_tag vm ty s0 = (Inr tag, s1) \<longrightarrow> get_type_layout vm ty s2 = (Inr layout, s3) \<longrightarrow>
        allowed tag \<longrightarrow> deserialize vm b layout = Some v \<longrightarrow> typed tag v)"

text \<open>An object that the checks found in some session.\<close>

definition checked_object :: "'s vm_ops \<Rightarrow> account_address \<Rightarrow> type_tag \<Rightarrow> bool" where
  "checked_object vm x t \<longleftrightarrow> (\<exists>s s'. validate_object vm [VAddress x] t s = (Inr (), s'))"

lemma objects_checked_UNIV: "objects_checked vm UNIV (checked_object vm)"
  unfolding objects_checked_def checked_object_def by (metis UNIV_I prod.collapse)

text \<open>An argument that has been checked for the sender \<open>a\<close>.\<close>

definition argument_safe :: "'s vm_ops \<Rightarrow> account_address \<Rightarrow> rt_type \<Rightarrow> bytes \<Rightarrow> bool" where
  "argument_safe vm a ty b \<longleftrightarrow>
     (\<exists>ty' tag layout s0 s1 s2 s3. strip_reference ty = Inr ty' \<and>
        get_type_tag vm ty' s0 = (Inr tag, s1) \<and> get_type_layout vm ty' s2 = (Inr layout, s3) \<and>
        allowed tag \<and>
        (has_value_invariants layout \<longrightarrow>
          (\<exists>v. deserialize vm b layout = Some v \<and> accepted (checked_object vm) a tag v \<and> set (signers v) \<subseteq> {a})))"

lemma validate_argument_safe:
  assumes "codec_laws vm" "validate_argument vm a (ty, b) s = (Inr (), s')"
  shows "argument_safe vm a ty b"
proof -
  from assms(2) obtain ty' tag s1 layout s2 where
    ty': "strip_reference ty = Inr ty'" and tag: "get_type_tag vm ty' s = (Inr tag, s1)"
    and ok: "validate_entry_type_tag tag = Inr ()"
    and layout: "get_type_layout vm ty' s1 = (Inr layout, s2)"
    and rest: "(if has_value_invariants layout then
       ebind (eok_or (deserialize vm b layout) (InvalidTransaction FailedArgumentDeserialization))
         (\<lambda>arg. validate_entry_value vm tag arg a) else ereturn ()) s2 = (Inr (), s')"
    by (auto simp: validate_argument_def exec_success)
  have al: "allowed tag" using ok by (simp add: validate_entry_type_tag_def validate_tag_loop_iff)
  have "\<exists>v. deserialize vm b layout = Some v \<and> accepted (checked_object vm) a tag v \<and> set (signers v) \<subseteq> {a}"
    if "has_value_invariants layout"
  proof -
    from rest that obtain v where v: "deserialize vm b layout = Some v"
      and val: "validate_stack vm a [(tag, v)] s2 = (Inr (), s')"
      by (auto simp: ebind_success validate_entry_value_def)
    have "typed tag v" using assms(1) tag layout al v unfolding codec_laws_def by blast
    then have "accepted (checked_object vm) a tag v"
      using validate_stack_sound [OF objects_checked_UNIV val] by simp
    then show ?thesis using v accepted_signers by blast
  qed
  then show ?thesis unfolding argument_safe_def using ty' tag layout al by blast
qed

lemma efor_success:
  "efor f xs s = (Inr (), s') \<Longrightarrow> x \<in> set xs \<Longrightarrow> \<exists>s1 s2. f x s1 = (Inr (), s2)"
  by (induction xs arbitrary: s) (auto simp: ethen_success)

text \<open>C25. An entry function runs only on safe arguments: if its execution succeeds, there is one
  argument per parameter, and every argument whose type can hold a signer, a string, an option or
  an object was decoded and accepted for the sender, its objects found by the check; in particular no argument smuggles in the
  signer of another account.\<close>

theorem entry_function_arguments_safe:
  assumes "codec_laws vm" "execute_entry_function vm f signer meter s = (Inr (), s')"
  shows "\<exists>fn s1. load_function vm (ef_module f) (ef_function f) (ef_ty_args f) s = (Inr fn, s1) \<and>
    list_all2 (argument_safe vm signer) (lf_param_tys fn) (ef_args f)"
proof -
  from assms(2) obtain fn s1 s2 where
    load: "load_function vm (ef_module f) (ef_function f) (ef_ty_args f) s = (Inr fn, s1)"
    and len: "length (lf_param_tys fn) = length (ef_args f)"
    and val: "efor (validate_argument vm signer) (zip (lf_param_tys fn) (ef_args f)) s1 = (Inr (), s2)"
    by (auto simp: execute_entry_function_def Let_def exec_success split: if_splits)
  have "argument_safe vm signer ty b" if "(ty, b) \<in> set (zip (lf_param_tys fn) (ef_args f))" for ty b
    using efor_success [OF val that] validate_argument_safe [OF assms(1)] by blast
  then have "list_all2 (argument_safe vm signer) (lf_param_tys fn) (ef_args f)"
    using len by (auto simp: list_all2_iff)
  with load show ?thesis by blast
qed

definition signer_vm :: "ledger vm_ops" where
  "signer_vm = example_vm\<lparr>
     load_function := (\<lambda>_ _ _ s. (Inr \<lparr>lf_id = 2, lf_param_tys = [TyReference (TyOther 0)]\<rparr>, s)),
     load_script := (\<lambda>_ _ s. (Inr \<lparr>lf_id = 3, lf_param_tys = [TyReference (TyOther 0), TyOther 1]\<rparr>, s)),
     get_type_tag := (\<lambda>ty s. (Inr (if ty = TyOther 0 then TagSigner else TagAddress), s)),
     get_type_layout := (\<lambda>ty s. (Inr (if ty = TyOther 0 then LSigner else LAddress), s)),
     deserialize := (\<lambda>b l. Some (if l = LSigner then VSigner b else VAddress b)),
     vm_execute_entry_function := (\<lambda>_ _ _ s. (Inr (), s)),
     vm_execute_script := (\<lambda>_ _ _ _ s. (Inr (), s))\<rparr>"

definition example_entry_fn :: "bytes \<Rightarrow> entry_function" where
  "example_entry_fn arg =
     \<lparr>ef_module = \<lparr>mid_address = [1], mid_name = ''m''\<rparr>, ef_function = ''f'', ef_ty_args = [],
      ef_args = [arg]\<rparr>"

lemma codec_laws_signer_vm: "codec_laws signer_vm"
  by (auto simp: codec_laws_def signer_vm_def intro: typed.intros)

theorem entry_function_arguments_safe_witness:
  "\<exists>s'. execute_entry_function signer_vm (example_entry_fn [5]) [5] Metered example_ledger = (Inr (), s') \<and>
     argument_safe signer_vm [5] (TyReference (TyOther 0)) [5]"
proof -
  have "fst (execute_entry_function signer_vm (example_entry_fn [5]) [5] Metered example_ledger) = Inr ()"
    by (simp add: execute_entry_function_def signer_vm_def example_entry_fn_def validate_argument_def
        validate_entry_type_tag_def validate_entry_value_def validate_one_def exec_defs elift_fault_def
        Let_def)
  then obtain s' where run:
    "execute_entry_function signer_vm (example_entry_fn [5]) [5] Metered example_ledger = (Inr (), s')"
    using run_exists by metis
  from entry_function_arguments_safe [OF codec_laws_signer_vm run] run show ?thesis
    by (auto simp: signer_vm_def example_entry_fn_def)
qed

section \<open>Arguments of scripts\<close>

definition is_signer_param :: "(rt_type \<Rightarrow> type_tag) \<Rightarrow> rt_type \<Rightarrow> bool" where
  "is_signer_param tg ty \<longleftrightarrow> (\<exists>ty'. strip_reference ty = Inr ty' \<and> tg ty' = TagSigner)"

lemma script_args_spec:
  assumes tags: "\<And>ty s. get_type_tag vm ty s = (Inr (tg ty), s)"
  shows "script_args vm sg tys gs s = (Inr (rs, rest), s') \<Longrightarrow>
    length rs = length tys \<and>
    (\<forall>(ty, r) \<in> set (zip tys rs). is_signer_param tg ty \<longrightarrow> r = sg) \<and>
    (\<exists>used. gs = used @ rest \<and>
       map (simple_serialize vm) used
         = map (Some \<circ> snd) (filter (\<lambda>(ty, r). \<not> is_signer_param tg ty) (zip tys rs)))"
proof (induction tys arbitrary: gs s rs)
  case (Cons ty tys)
  from Cons.prems tags obtain ty' where ty': "strip_reference ty = Inr ty'"
    by (auto simp: exec_success)
  then have sp: "is_signer_param tg ty \<longleftrightarrow> tg ty' = TagSigner" by (simp add: is_signer_param_def)
  show ?case
  proof (cases "tg ty' = TagSigner")
    case True
    with Cons.prems ty' tags obtain rs' where rs: "rs = sg # rs'"
      and rec: "script_args vm sg tys gs s = (Inr (rs', rest), s')"
      by (auto simp: exec_defs split: prod.splits sum.splits)
    show ?thesis using Cons.IH [OF rec] True by (simp add: rs sp)
  next
    case False
    with Cons.prems ty' tags obtain arg gs' v rs' where gs: "gs = arg # gs'"
      and v: "simple_serialize vm arg = Some v" and rs: "rs = v # rs'"
      and rec: "script_args vm sg tys gs' s = (Inr (rs', rest), s')"
      by (auto simp: exec_defs split: prod.splits sum.splits list.splits option.splits)
    from Cons.IH [OF rec] obtain used where "gs' = used @ rest"
      "map (simple_serialize vm) used
        = map (Some \<circ> snd) (filter (\<lambda>(ty, r). \<not> is_signer_param tg ty) (zip tys rs'))" by blast
    then have "gs = (arg # used) @ rest \<and> map (simple_serialize vm) (arg # used)
        = map (Some \<circ> snd) (filter (\<lambda>(ty, r). \<not> is_signer_param tg ty) (zip (ty # tys) rs))"
      using False v by (simp add: gs rs sp)
    then show ?thesis using Cons.IH [OF rec] False by (simp add: rs sp)
  qed
qed simp

text \<open>A script runs with exactly one argument per parameter: every signer parameter gets the
  sender, and the remaining parameters get the serialised script arguments in their order, all of
  them used up. The type tags of the parameters are taken as given by \<open>tg\<close>.\<close>

lemma script_arguments:
  assumes "\<And>ty s. get_type_tag vm ty s = (Inr (tg ty), s)"
    and "execute_script vm scr signer meter s = (Inr (), s')"
  shows "\<exists>fn s1 s2 sg args. load_script vm (sc_code scr) (sc_ty_args scr) s = (Inr fn, s1) \<and>
    simple_serialize vm (VSigner signer) = Some sg \<and>
    vm_execute_script vm (sc_code scr) (sc_ty_args scr) args meter s2 = (Inr (), s') \<and>
    length args = length (lf_param_tys fn) \<and>
    (\<forall>(ty, r) \<in> set (zip (lf_param_tys fn) args). is_signer_param tg ty \<longrightarrow> r = sg) \<and>
    map (simple_serialize vm) (sc_args scr)
      = map (Some \<circ> snd) (filter (\<lambda>(ty, r). \<not> is_signer_param tg ty) (zip (lf_param_tys fn) args))"
proof -
  from assms(2) obtain fn s1 sg args s2 where
    load: "load_script vm (sc_code scr) (sc_ty_args scr) s = (Inr fn, s1)"
    and sg: "simple_serialize vm (VSigner signer) = Some sg"
    and args: "script_args vm sg (lf_param_tys fn) (sc_args scr) s1 = (Inr (args, []), s2)"
    and run: "vm_execute_script vm (sc_code scr) (sc_ty_args scr) args meter s2 = (Inr (), s')"
    by (auto simp: execute_script_def exec_success split: if_splits)
  show ?thesis
    using load sg run script_args_spec [OF assms(1) args]
    by (intro exI [of _ fn] exI [of _ s1] exI [of _ s2] exI [of _ sg] exI [of _ args]) simp
qed

end
