(* ===== verification/Canonical.thy ===== *)
theory Canonical
  imports Execute Gas
begin

text \<open>
  Execution of one transaction: \<^verbatim>\<open>execution/src/session_id.rs\<close>, \<^verbatim>\<open>canonical.rs\<close>, \<^verbatim>\<open>deposited.rs\<close> and the
  dispatch of \<^verbatim>\<open>lib.rs\<close>. The record \<open>machine\<close> collects the third-party operations around a session:
  its creation over the state \<open>'st\<close> with a fresh gas meter and an empty transfer log, the gas meter,
  the end of a session (Move changes \<open>'c\<close>, events, EVM account changes and EVM storage changes \<open>'e\<close>),
  merging of change sets and the codecs. A session is dropped when execution fails, so its state is
  not part of the result.
\<close>

section \<open>Session identifiers\<close>

definition CHAIN_ID :: u64 where
  "CHAIN_ID = 404"

record genesis_config =
  gc_chain_id :: u64
  gc_initial_state_root :: b256
  gc_treasury :: account_address

record header_for_execution =
  hx_number :: u64
  hx_timestamp :: u64
  hx_prev_randao :: b256

record user_transaction_context =
  uc_sender :: account_address
  uc_secondary_signers :: "account_address list"
  uc_gas_payer :: account_address
  uc_max_gas_amount :: u64
  uc_gas_unit_price :: u64
  uc_chain_id :: u8
  uc_entry_function :: "entry_function option"
  uc_multisig :: "unit option"

record session_id =
  sid_txn_hash :: b256
  sid_script_hash :: "b256 option"
  sid_chain_id :: u8
  sid_user_txn_context :: "user_transaction_context option"
  sid_block_header :: header_for_execution

definition u64_gas_price :: "u256 \<Rightarrow> u64" where
  "u64_gas_price p =
     (case into_limbs p of
        [v, l1, l2, l3] \<Rightarrow> if l1 = 0 \<and> l2 = 0 \<and> l3 = 0 then v else max_of
      | _ \<Rightarrow> max_of)"

definition u8_chain_id :: "genesis_config \<Rightarrow> u8" where
  "u8_chain_id c = (if gc_chain_id c = CHAIN_ID then 1 else hd (le_bytes 8 (gc_chain_id c)))"

definition new_from_canonical ::
  "normalized_eth_transaction \<Rightarrow> entry_function option \<Rightarrow> b256 \<Rightarrow> genesis_config
     \<Rightarrow> header_for_execution \<Rightarrow> b256 option \<Rightarrow> session_id" where
  "new_from_canonical tx entry_fn tx_hash cfg block_header scr_hash =
     (let chain_id = u8_chain_id cfg; sender = to_move_address (nt_signer tx)
      in \<lparr>sid_txn_hash = tx_hash, sid_script_hash = scr_hash, sid_chain_id = chain_id,
          sid_user_txn_context = Some
            \<lparr>uc_sender = sender, uc_secondary_signers = [], uc_gas_payer = sender,
             uc_max_gas_amount = gas_limit tx,
             uc_gas_unit_price = u64_gas_price (nt_max_fee_per_gas tx),
             uc_chain_id = chain_id, uc_entry_function = entry_fn, uc_multisig = None\<rparr>,
          sid_block_header = block_header\<rparr>)"

definition new_from_deposited ::
  "tx_deposit \<Rightarrow> b256 \<Rightarrow> genesis_config \<Rightarrow> header_for_execution \<Rightarrow> session_id" where
  "new_from_deposited tx tx_hash cfg block_header =
     (let chain_id = u8_chain_id cfg; sender = to_move_address (td_from tx)
      in \<lparr>sid_txn_hash = tx_hash, sid_script_hash = None, sid_chain_id = chain_id,
          sid_user_txn_context = Some
            \<lparr>uc_sender = sender, uc_secondary_signers = [], uc_gas_payer = sender,
             uc_max_gas_amount = td_gas_limit tx, uc_gas_unit_price = 0,
             uc_chain_id = chain_id, uc_entry_function = None, uc_multisig = None\<rparr>,
          sid_block_header = block_header\<rparr>)"

section \<open>The machine\<close>

record ('st, 's, 'c, 'e) machine =
  m_vm :: "'s vm_ops"
  m_mods :: "'st \<Rightarrow> module_ops"
  m_create_vm :: "vm_error + unit"
  m_new_session :: "'st \<Rightarrow> session_id \<Rightarrow> u64 \<Rightarrow> 's"
  m_charge_publish_request :: "u64 \<Rightarrow> 's \<Rightarrow> (partial_vm_error + unit) \<times> 's"
  m_charge_dependency :: "account_address \<Rightarrow> u64 \<Rightarrow> 's \<Rightarrow> (partial_vm_error + unit) \<times> 's"
  m_execution_gas_used :: "'s \<Rightarrow> u64"
  m_io_gas_used :: "'s \<Rightarrow> u64"
  m_storage_fee_used :: "'s \<Rightarrow> u64"
  m_scaling_factor :: u64
  m_finish :: "'s \<Rightarrow> vm_error + 'c \<times> contract_event list \<times> 'c \<times> 'e"
  m_empty_changes :: 'c
  m_module_changes :: "(module_id \<times> bytes change_op) list \<Rightarrow> 'c"
  m_squash :: "'c \<Rightarrow> 'c \<Rightarrow> 'c option"
  m_keccak256 :: "bytes \<Rightarrow> b256"
  m_canonical_string :: "type_tag \<Rightarrow> bytes"
  m_deserialize_event :: "bytes \<Rightarrow> move_type_layout \<Rightarrow> move_value option"
  m_from_bytes :: "bytes \<Rightarrow> string + serializable_transaction_data"
  m_from_bytes_script :: "bytes \<Rightarrow> string + script_or_deployment"
  m_script_bytes :: "script \<Rightarrow> bytes"

record ('c, 'e) changes =
  ch_move_vm :: 'c
  ch_evm :: 'e

record ('c, 'e) transaction_execution_outcome =
  teo_vm_outcome :: "user_error + unit"
  teo_changes :: "('c, 'e) changes"
  teo_gas_used :: u64
  teo_l2_price :: u256
  teo_logs :: "log list"
  teo_deployment :: "(account_address \<times> module_id) option"

definition charge_new_module_processing ::
  "('st, 's, 'c, 'e) machine \<Rightarrow> account_address \<Rightarrow> u64 \<Rightarrow> ('s, unit) exec" where
  "charge_new_module_processing m a module_size =
     ethen (ecall error_from_partial_vm (m_charge_publish_request m module_size))
           (ecall error_from_partial_vm (m_charge_dependency m a module_size))"

definition gas_used_of :: "('st, 's, 'c, 'e) machine \<Rightarrow> ('s, u64) exec" where
  "gas_used_of m =
     ebind (eget (\<lambda>s. (m_execution_gas_used m s, m_io_gas_used m s, m_storage_fee_used m s)))
       (\<lambda>(x, i, f). epanicking (total_gas_used x i f (m_scaling_factor m)))"

section \<open>Verification\<close>

definition verify_transaction ::
  "'s vm_ops \<Rightarrow> 's base_token_accounts \<Rightarrow> genesis_config \<Rightarrow> normalized_eth_transaction
     \<Rightarrow> u256 \<Rightarrow> u256 \<Rightarrow> ('s, unit) exec" where
  "verify_transaction vm base_token cfg tx l1_cost l2_cost =
     (if \<exists>c. nt_chain_id tx = Some c \<and> c \<noteq> gc_chain_id cfg
      then efail (InvalidTransaction IncorrectChainId)
      else
        let sender = to_move_address (nt_signer tx);
            txn_size = of_nat (length (nt_data tx))
        in ethen (ecall (\<lambda>_. InvalidTransaction InsufficientIntrinsicGas) (charge_intrinsic_gas vm txn_size))
          (ethen (ecall (\<lambda>_. InvalidTransaction InsufficientIntrinsicGas) (charge_io_gas vm txn_size))
          (ethen (emap_err (\<lambda>_. InvalidTransaction FailedToPayL1Fee)
              (charge_gas_cost base_token sender l1_cost Unmetered))
          (ethen (emap_err (\<lambda>_. InvalidTransaction FailedToPayL2Fee)
              (charge_gas_cost base_token sender l2_cost Unmetered))
          (check_nonce vm (nt_nonce tx) sender Unmetered)))))"

section \<open>Canonical transactions\<close>

type_synonym deployed = "(account_address \<times> module_id) option"

text \<open>The work of the transaction: the deployment it made, if any, and the change set of a deployed
  module.\<close>

definition execute_transaction_data ::
  "('st, 's, 'c, 'e) machine \<Rightarrow> 'st \<Rightarrow> 's base_token_accounts \<Rightarrow> normalized_eth_transaction
     \<Rightarrow> transaction_data \<Rightarrow> ('s, deployed \<times> 'c) exec" where
  "execute_transaction_data m st base_token tx tx_data =
     (let vm = m_vm m; sender = to_move_address (nt_signer tx);
          nothing = (None, m_empty_changes m)
      in case tx_data of
           EntryFunction entry_fn \<Rightarrow>
             ethen (execute_entry_function vm entry_fn sender Metered) (ereturn nothing)
         | ScriptOrDeployment (Script scr) \<Rightarrow>
             ethen (execute_script vm scr sender Metered) (ereturn nothing)
         | ScriptOrDeployment (Module code) \<Rightarrow>
             ethen (charge_new_module_processing m sender (of_nat (length code)))
             (ebind (elift (deploy_module (m_mods m st) code sender)) (\<lambda>(i, writes).
              ebind (eunwrap (m_squash m (m_empty_changes m) (m_module_changes m writes))
                ''Move module deployment changes should be compatible'') (\<lambda>deploy_changes.
              ereturn (Some (sender, i), deploy_changes))))
         | ScriptOrDeployment (EvmContractCode bytecode) \<Rightarrow>
             ebind (deploy_evm_contract vm bytecode (nt_value tx) sender Metered) (\<lambda>a.
             ereturn (Some (to_move_address a, evm_module_id), m_empty_changes m))
         | EoaBaseTokenTransfer to \<Rightarrow>
             ethen (base_transfer base_token
               \<lparr>ta_from = sender, ta_to = to_move_address to, ta_amount = nt_value tx\<rparr> Metered)
             (ereturn nothing)
         | L2Contract contract \<Rightarrow>
             ethen (execute_evm_contract vm sender (to_move_address contract) (nt_value tx)
               (nt_data tx) Metered) (ereturn nothing)
         | EvmContract contract data \<Rightarrow>
             ethen (execute_evm_contract vm sender (to_move_address contract) (nt_value tx)
               data Metered) (ereturn nothing))"

definition finish_session ::
  "('st, 's, 'c, 'e) machine \<Rightarrow> ('s, 'c \<times> contract_event list \<times> 'c \<times> 'e) exec" where
  "finish_session m s = ecall error_from_vm (\<lambda>s. (m_finish m s, s)) s"

definition merge ::
  "('st, 's, 'c, 'e) machine \<Rightarrow> 'c \<Rightarrow> 'c \<Rightarrow> string \<Rightarrow> ('s, 'c) exec" where
  "merge m c d msg = eunwrap (m_squash m c d) msg"

definition session_logs ::
  "('st, 's, 'c, 'e) machine \<Rightarrow> contract_event list \<Rightarrow> ('s, log list) exec" where
  "session_logs m evs =
     epanicking (event_logs (m_keccak256 m) (m_canonical_string m) (m_deserialize_event m) evs [])"

text \<open>\<open>Result::map\<close> with the assignments to \<open>deployment\<close> and \<open>deploy_changes\<close>, kept by later errors.\<close>

definition kept_deployment :: "'c \<Rightarrow> error + deployed \<times> 'c \<Rightarrow> deployed \<times> 'c" where
  "kept_deployment none r = (case r of Inl e \<Rightarrow> (None, none) | Inr dc \<Rightarrow> dc)"

text \<open>A user error still generates a receipt and consumes gas; its deployment is dropped.\<close>

definition canonical_outcome ::
  "error + unit \<Rightarrow> deployed \<Rightarrow> ('c, 'e) changes \<Rightarrow> u64 \<Rightarrow> u256 \<Rightarrow> log list
     \<Rightarrow> ('s, ('c, 'e) transaction_execution_outcome) exec" where
  "canonical_outcome vm_outcome deployment chs gas_used price ls =
     (let out = (\<lambda>r d. \<lparr>teo_vm_outcome = r, teo_changes = chs, teo_gas_used = gas_used,
           teo_l2_price = price, teo_logs = ls, teo_deployment = d\<rparr>)
      in case vm_outcome of
           Inr _ \<Rightarrow> ereturn (out (Inr ()) deployment)
         | Inl (User e) \<Rightarrow> ereturn (out (Inl e) None)
         | Inl e \<Rightarrow> efail e)"

definition canonical_body ::
  "('st, 's, 'c, 'e) machine \<Rightarrow> 'st \<Rightarrow> genesis_config \<Rightarrow> 's base_token_accounts
     \<Rightarrow> normalized_eth_transaction \<Rightarrow> u256 \<Rightarrow> moved_gas_fee \<Rightarrow> l2_gas_fee_input \<Rightarrow> transaction_data
     \<Rightarrow> ('s, ('c, 'e) transaction_execution_outcome) exec" where
  "canonical_body m st cfg base_token tx l1_cost fee l2_input tx_data =
     (let vm = m_vm m; sender = to_move_address (nt_signer tx); l2_cost = l2_fee fee l2_input
      in ethen (verify_transaction vm base_token cfg tx l1_cost l2_cost)
         (ebind (ecatch (execute_transaction_data m st base_token tx tx_data)) (\<lambda>work.
          ebind (case work of
                   Inl e \<Rightarrow> ereturn (Inl e)
                 | Inr _ \<Rightarrow> ecatch (replicate_transfers vm Metered)) (\<lambda>vm_outcome.
          ebind (gas_used_of m) (\<lambda>gas_used.
          ethen (emap_err (\<lambda>_. InvariantViolation (EthToken RefundAlwaysSucceeds))
            (refund_gas_cost base_token sender
               (saturating_sub l2_cost
                  (l2_fee fee (l2_input_new gas_used (l2_effective_gas_price l2_input))))))
          (ebind (finish_session m) (\<lambda>(move_changes, evs, evm_accounts, evm_storage).
          ebind (session_logs m evs) (\<lambda>ls.
          ebind (merge m move_changes evm_accounts
            ''EVM changes must merge with other session changes'') (\<lambda>c1.
          ebind (merge m c1 (snd (kept_deployment (m_empty_changes m) work))
            ''Module deploy changes must merge with other session changes'') (\<lambda>c2.
          canonical_outcome vm_outcome (fst (kept_deployment (m_empty_changes m) work))
            \<lparr>ch_move_vm = c2, ch_evm = evm_storage\<rparr> gas_used (l2_effective_gas_price l2_input) ls))))))))))"

definition execute_canonical_transaction ::
  "('st, 's, 'c, 'e) machine \<Rightarrow> 'st \<Rightarrow> genesis_config \<Rightarrow> 's base_token_accounts \<Rightarrow> header_for_execution
     \<Rightarrow> normalized_eth_transaction \<Rightarrow> b256 \<Rightarrow> u256 \<Rightarrow> moved_gas_fee \<Rightarrow> l2_gas_fee_input
     \<Rightarrow> fault + ('c, 'e) transaction_execution_outcome" where
  "execute_canonical_transaction m st cfg base_token hdr tx tx_hash l1_cost fee l2_input =
     rbind (map_err Err (parse_from (m_from_bytes m) (m_from_bytes_script m) tx)) (\<lambda>tx_data.
     rbind (map_err (\<lambda>e. Err (error_from_vm e)) (m_create_vm m)) (\<lambda>_.
     let sid = new_from_canonical tx (maybe_entry_fn tx_data) tx_hash cfg hdr
                 (script_hash (m_keccak256 m) (m_script_bytes m) tx_data);
         s0 = m_new_session m st sid (l2_gas_limit l2_input)
     in fst (canonical_body m st cfg base_token tx l1_cost fee l2_input tx_data s0)))"

section \<open>Deposited transactions\<close>

definition deposited_work ::
  "('st, 's, 'c, 'e) machine \<Rightarrow> tx_deposit \<Rightarrow> bytes list \<Rightarrow> ('s, log list) exec" where
  "deposited_work m tx args =
     (let vm = m_vm m
      in ebind (ecall error_from_vm
           (execute_function_bypass_visibility vm evm_module_id EVM_DEPOSIT_FN_NAME [] args Metered))
           (\<lambda>values.
         ebind (epanicking (extract_evm_result (deserialize vm) values)) (\<lambda>evm_outcome.
         if \<not> no_is_success evm_outcome then efail (User (DepositFailure (no_output evm_outcome)))
         else
           ethen (if unwrap_or (td_mint tx) 0 \<noteq> 0
                  then mint_eth vm EVM_NATIVE_ADDRESS (ucast (unwrap_or (td_mint tx) 0)) Metered
                  else ereturn ())
           (ethen (replicate_transfers vm Metered) (ereturn (no_logs evm_outcome))))))"

definition deposited_body ::
  "('st, 's, 'c, 'e) machine \<Rightarrow> tx_deposit \<Rightarrow> ('s, ('c, 'e) transaction_execution_outcome) exec" where
  "deposited_body m tx =
     (case td_to tx of
        Create \<Rightarrow> epanic ''Contract creation through deposit tx not yet supported''
      | Call addr \<Rightarrow>
          ebind (serialize_args (m_vm m)
            [(VAddress (to_move_address (td_from tx)), LAddress),
             (VAddress (to_move_address addr), LAddress),
             (VU256 (to_move_u256 (td_value tx)), LU256),
             (vector_u8 (td_input tx), CODE_LAYOUT)]) (\<lambda>args.
          ebind (ecatch (deposited_work m tx args)) (\<lambda>outcome.
          ebind (case outcome of
                   Inr ls \<Rightarrow> ereturn (ls, Inr ())
                 | Inl (User e) \<Rightarrow> ereturn ([], Inl e)
                 | Inl e \<Rightarrow> efail e) (\<lambda>(evm_logs, vm_outcome).
          ebind (finish_session m) (\<lambda>(move_changes, evs, evm_accounts, evm_storage).
          ebind (session_logs m evs) (\<lambda>ls.
          ebind (gas_used_of m) (\<lambda>gas_used.
          ebind (merge m move_changes evm_accounts
            ''EVM changes must merge with other session changes'') (\<lambda>c1.
          ereturn
            \<lparr>teo_vm_outcome = vm_outcome,
             teo_changes = \<lparr>ch_move_vm = c1, ch_evm = evm_storage\<rparr>, teo_gas_used = gas_used,
             teo_l2_price = 0, teo_logs = ls @ evm_logs, teo_deployment = None\<rparr>))))))))"

definition execute_deposited_transaction ::
  "('st, 's, 'c, 'e) machine \<Rightarrow> 'st \<Rightarrow> genesis_config \<Rightarrow> header_for_execution \<Rightarrow> tx_deposit \<Rightarrow> b256
     \<Rightarrow> fault + ('c, 'e) transaction_execution_outcome" where
  "execute_deposited_transaction m st cfg hdr tx tx_hash =
     rbind (map_err (\<lambda>e. Err (error_from_vm e)) (m_create_vm m)) (\<lambda>_.
     let sid = new_from_deposited tx tx_hash cfg hdr
     in fst (deposited_body m tx (m_new_session m st sid (td_gas_limit tx))))"

section \<open>Dispatch\<close>

datatype transaction_execution_input =
  DepositInput tx_deposit
| CanonicalInput normalized_eth_transaction u256 moved_gas_fee l2_gas_fee_input

definition execute_transaction ::
  "('st, 's, 'c, 'e) machine \<Rightarrow> 'st \<Rightarrow> genesis_config \<Rightarrow> 's base_token_accounts \<Rightarrow> header_for_execution
     \<Rightarrow> b256 \<Rightarrow> transaction_execution_input \<Rightarrow> fault + ('c, 'e) transaction_execution_outcome" where
  "execute_transaction m st cfg base_token hdr tx_hash input =
     (case input of
        DepositInput tx \<Rightarrow> execute_deposited_transaction m st cfg hdr tx tx_hash
      | CanonicalInput tx l1_cost fee l2_input \<Rightarrow>
          execute_canonical_transaction m st cfg base_token hdr tx tx_hash l1_cost fee l2_input)"

section \<open>Errors that reach the block builder\<close>

text \<open>A computation that never fails with a user error.\<close>

definition no_user :: "('s, 'a) exec \<Rightarrow> bool" where
  "no_user m \<longleftrightarrow> (\<forall>s e. fst (m s) \<noteq> Inl (Err (User e)))"

lemma no_user_ereturn: "no_user (ereturn a)"
  by (simp add: no_user_def)

lemma no_user_efail: "(\<And>u. e \<noteq> User u) \<Longrightarrow> no_user (efail e)"
  by (simp add: no_user_def)

lemma no_user_epanic: "no_user (epanic p)"
  by (simp add: no_user_def)

lemma no_user_ebind: "no_user m \<Longrightarrow> (\<And>a. no_user (f a)) \<Longrightarrow> no_user (ebind m f)"
  by (simp add: no_user_def ebind_def split: prod.split sum.split) (metis fst_conv)

lemma no_user_ethen: "no_user m \<Longrightarrow> no_user k \<Longrightarrow> no_user (ethen m k)"
  by (simp add: ethen_def no_user_ebind)

lemma no_user_emap_err: "(\<And>e u. h e \<noteq> User u) \<Longrightarrow> no_user (emap_err h m)"
  by (auto simp: no_user_def emap_err_def split: prod.split sum.split fault.split)

lemma no_user_ecall: "(\<And>e u. h e \<noteq> User u) \<Longrightarrow> no_user (ecall h f)"
  by (auto simp: no_user_def ecall_def split: prod.split sum.split)

lemma no_user_ecatch: "no_user (ecatch m)"
  by (auto simp: no_user_def ecatch_def split: prod.split sum.split fault.split)

lemma no_user_eunwrap: "no_user (eunwrap x p)"
  by (auto simp: no_user_def eunwrap_def split: option.split)

lemma no_user_eok_or: "(\<And>u. e \<noteq> User u) \<Longrightarrow> no_user (eok_or x e)"
  by (auto simp: no_user_def eok_or_def split: option.split)

lemma no_user_epanicking: "no_user (epanicking r)"
  by (auto simp: no_user_def epanicking_def split: sum.split panic.split)

lemma no_user_eget: "no_user (eget f)"
  by (simp add: no_user_def eget_def)

lemmas no_user_intros = no_user_ereturn no_user_efail no_user_epanic no_user_ebind no_user_ethen
  no_user_emap_err no_user_ecall no_user_ecatch no_user_eunwrap no_user_eok_or no_user_epanicking
  no_user_eget

lemma no_user_get_account_nonce: "no_user (get_account_nonce vm b meter)"
proof -
  have "no_user (case v of VU64 nonce \<Rightarrow> ereturn nonce
    | _ \<Rightarrow> efail (nonce_invariant_violation GetNonceReturnsU64))" for v
    by (cases v) (auto intro!: no_user_intros simp: error_conversions)
  moreover have "no_user (first_return_value vm (nonce_invariant_violation GetNonceReturnsAValue)
    (nonce_invariant_violation GetNoneReturnDeserializes) rs)" for rs
    by (auto simp: first_return_value_def error_conversions intro!: no_user_intros split: list.split)
  moreover have "no_user (ecall (\<lambda>_. nonce_invariant_violation GetNonceAlwaysSucceeds) f)" for f
    by (rule no_user_ecall) (simp add: error_conversions)
  ultimately show ?thesis unfolding get_account_nonce_def by (intro no_user_ebind)
qed

lemma no_user_check_nonce: "no_user (check_nonce vm n a meter)"
  unfolding check_nonce_def
  by (auto intro!: no_user_intros no_user_get_account_nonce
      simp: nonce_call_error_def error_conversions split: if_splits)

lemma no_user_verify: "no_user (verify_transaction vm bt cfg tx l1 l2)"
  unfolding verify_transaction_def Let_def
  by (auto intro!: no_user_intros no_user_check_nonce)

lemma no_user_finish: "(\<And>s e. m_finish m s \<noteq> Inl e) \<Longrightarrow> no_user (finish_session m)"
  by (auto simp: no_user_def finish_session_def ecall_def split: sum.split)

lemma no_user_gas_used: "no_user (gas_used_of m)"
  unfolding gas_used_of_def by (auto intro!: no_user_intros)

lemma no_user_canonical_body:
  assumes "\<And>s e. m_finish m s \<noteq> Inl e"
  shows "no_user (canonical_body m st cfg bt tx l1 fee l2 d)"
proof -
  have catch: "no_user (case work of Inl e \<Rightarrow> ereturn (Inl e) | Inr _ \<Rightarrow> ecatch k)"
    for work :: "error + 'x" and k :: "('s, unit) exec"
    by (auto intro!: no_user_intros split: sum.split)
  have last: "no_user (canonical_outcome r d c g p ls)" for r d c g p ls
    by (auto simp: canonical_outcome_def Let_def intro!: no_user_intros split: sum.split error.split)
  show ?thesis
    unfolding canonical_body_def Let_def merge_def session_logs_def
    by (auto intro!: no_user_intros no_user_verify no_user_gas_used no_user_finish assms catch last)
qed

lemma no_user_deposited_body:
  assumes "\<And>s e. m_finish m s \<noteq> Inl e"
  shows "no_user (deposited_body m tx)"
proof -
  have "no_user (case r of Inr ls \<Rightarrow> ereturn (ls, Inr ()) | Inl (User e) \<Rightarrow> ereturn ([], Inl e)
    | Inl e \<Rightarrow> efail e)" for r :: "error + 'x list"
    by (auto intro!: no_user_intros split: sum.split error.split)
  then show ?thesis
    unfolding deposited_body_def merge_def session_logs_def serialize_args_def
    by (auto intro!: no_user_intros no_user_gas_used no_user_finish assms split: tx_kind.split)
qed

lemma parse_from_no_user: "parse_from fb fs tx \<noteq> Inl (User u)"
  by (auto simp: parse_from_def rbind_Inl_iff map_err_Inl_iff error_from_bcs_def
      split: tx_kind.split serializable_transaction_data.split)

text \<open>C24. User errors never escape the execution of a transaction, as the block builder relies on
  when it calls them unreachable: as long as the VM can be created and sessions can be finished, the
  result is an outcome (with the user error inside), an invalid transaction, an invariant violation
  or a panic.\<close>

theorem execute_transaction_no_user_error:
  assumes "m_create_vm m = Inr ()" "\<And>s e. m_finish m s \<noteq> Inl e"
  shows "execute_transaction m st cfg bt hdr h input \<noteq> Inl (Err (User u))"
proof (cases input)
  case (DepositInput tx)
  then show ?thesis
    using no_user_deposited_body [of m tx] assms
    by (auto simp: execute_transaction_def execute_deposited_transaction_def no_user_def)
next
  case (CanonicalInput tx l1 fee l2)
  show ?thesis
  proof (cases "parse_from (m_from_bytes m) (m_from_bytes_script m) tx")
    case (Inl e)
    then show ?thesis
      using parse_from_no_user [of "m_from_bytes m" "m_from_bytes_script m" tx u] CanonicalInput
      by (simp add: execute_transaction_def execute_canonical_transaction_def)
  next
    case (Inr d)
    then show ?thesis
      using no_user_canonical_body [of m st cfg bt tx l1 fee l2 d] assms CanonicalInput
      by (auto simp: execute_transaction_def execute_canonical_transaction_def no_user_def Let_def)
  qed
qed

section \<open>Effect of verification\<close>

definition gas_laws :: "'s vm_ops \<Rightarrow> 's vm_view \<Rightarrow> bool" where
  "gas_laws vm w \<longleftrightarrow>
     (\<forall>n s s'. charge_intrinsic_gas vm n s = (Inr (), s') \<longrightarrow> same_view vm w s s') \<and>
     (\<forall>n s s'. charge_io_gas vm n s = (Inr (), s') \<longrightarrow> same_view vm w s s')"

definition vm_laws :: "'s vm_ops \<Rightarrow> 's vm_view \<Rightarrow> bool" where
  "vm_laws vm w \<longleftrightarrow> token_laws vm w \<and> nonce_laws vm w \<and> gas_laws vm w"

lemma charge_ok:
  assumes "token_laws vm w"
    and "charge_gas_cost (moved_base_token_accounts vm t) a n meter s = (Inr (), s')"
  shows "covered a (unat n) (vw_balance w s) \<and> vw_balance w s' = move a t (unat n) (vw_balance w s) \<and>
    vw_nonce w s' = vw_nonce w s \<and> transfer_log vm s' = transfer_log vm s"
  using transfer_eth_ok [OF assms(1)] assms(2) by (fastforce simp: moved_base_token_accounts_def)

lemma refund_ok:
  assumes "token_laws vm w"
    and "refund_gas_cost (moved_base_token_accounts vm t) a n s = (Inr (), s')"
  shows "covered t (unat n) (vw_balance w s) \<and> vw_balance w s' = move t a (unat n) (vw_balance w s) \<and>
    vw_nonce w s' = vw_nonce w s \<and> transfer_log vm s' = transfer_log vm s"
  using transfer_eth_ok [OF assms(1)] assms(2) by (fastforce simp: moved_base_token_accounts_def)

lemma verify_ok:
  assumes laws: "vm_laws vm w"
    and run: "verify_transaction vm (moved_base_token_accounts vm t) cfg tx l1 l2 s = (Inr (), s')"
    and a: "a = to_move_address (nt_signer tx)" and b: "b = vw_balance w s"
  shows "(\<forall>c. nt_chain_id tx = Some c \<longrightarrow> c = gc_chain_id cfg) \<and>
    nt_nonce tx = vw_nonce w s a \<and> vw_nonce w s' = (vw_nonce w s)(a := nt_nonce tx + 1) \<and>
    covered a (unat l1) b \<and> covered a (unat l2) (move a t (unat l1) b) \<and>
    vw_balance w s' = move a t (unat l2) (move a t (unat l1) b) \<and>
    transfer_log vm s' = transfer_log vm s"
proof -
  let ?n = "of_nat (length (nt_data tx)) :: u64"
  from run obtain s1 s2 s3 s4 where
    c: "\<not> (\<exists>c. nt_chain_id tx = Some c \<and> c \<noteq> gc_chain_id cfg)"
    and g: "charge_intrinsic_gas vm ?n s = (Inr (), s1)" "charge_io_gas vm ?n s1 = (Inr (), s2)"
    and c1: "charge_gas_cost (moved_base_token_accounts vm t) a l1 Unmetered s2 = (Inr (), s3)"
    and c2: "charge_gas_cost (moved_base_token_accounts vm t) a l2 Unmetered s3 = (Inr (), s4)"
    and n: "check_nonce vm (nt_nonce tx) a Unmetered s4 = (Inr (), s')"
    unfolding verify_transaction_def Let_def a
    by (auto simp: ethen_success split: if_splits)
  have laws': "token_laws vm w" "nonce_laws vm w" "gas_laws vm w" using laws by (simp_all add: vm_laws_def)
  have "same_view vm w s s1 \<and> same_view vm w s1 s2" using laws'(3) g by (auto simp: gas_laws_def)
  then show ?thesis
    using c charge_ok [OF laws'(1) c1] charge_ok [OF laws'(1) c2] check_nonce_ok [OF laws'(2) n] b
    by (auto simp: same_view_def)
qed

text \<open>C23. A transaction that passes verification is for this chain, carries the current nonce of its
  sender, which is consumed, and its sender has paid exactly the L1 cost and the maximal L2 cost to
  the treasury: no other account, no recorded transfer and no other nonce is changed.\<close>

theorem verify_transaction_effect:
  assumes "vm_laws vm w"
    and "verify_transaction vm (moved_base_token_accounts vm t) cfg tx l1 l2 s = (Inr (), s')"
    and "a = to_move_address (nt_signer tx)" "a \<noteq> t"
  shows "(\<forall>c. nt_chain_id tx = Some c \<longrightarrow> c = gc_chain_id cfg) \<and>
    nt_nonce tx = vw_nonce w s a \<and> vw_nonce w s' = (vw_nonce w s)(a := nt_nonce tx + 1) \<and>
    unat l1 + unat l2 \<le> vw_balance w s a \<and>
    vw_balance w s' = (vw_balance w s)
      (a := vw_balance w s a - (unat l1 + unat l2), t := vw_balance w s t + (unat l1 + unat l2)) \<and>
    transfer_log vm s' = transfer_log vm s"
proof -
  have "unat l1 + unat l2 \<le> vw_balance w s a"
    using verify_ok [OF assms(1-3) refl] assms(4) by (auto simp: covered_def move_def)
  moreover have "move a t (unat l2) (move a t (unat l1) b)
      = b(a := b a - (unat l1 + unat l2), t := b t + (unat l1 + unat l2))" for b
    using assms(4) by (auto simp: move_def fun_eq_iff)
  ultimately show ?thesis using verify_ok [OF assms(1-3) refl] by simp
qed

definition example_config :: genesis_config where
  "example_config = \<lparr>gc_chain_id = 404, gc_initial_state_root = [], gc_treasury = replicate 32 9\<rparr>"

definition example_transfer :: normalized_eth_transaction where
  "example_transfer = \<lparr>nt_signer = replicate 20 5, nt_to = Call (replicate 20 6), nt_nonce = 7,
     nt_value = 30, nt_data = [], nt_chain_id = Some 404, nt_gas_limit = 100,
     nt_max_priority_fee_per_gas = 0, nt_max_fee_per_gas = 1, nt_access_list = []\<rparr>"

lemma vm_laws_example: "vm_laws example_vm example_view"
  using token_laws_example nonce_laws_example
  by (simp add: vm_laws_def gas_laws_def example_vm_def same_view_def)

lemma check_nonce_example:
  "check_nonce example_vm n a meter s =
     (if n \<noteq> ld_nonces s a then (Inl (Err (InvalidTransaction (IncorrectNonce (ld_nonces s a) n))), s)
      else if n = max_of then (Inl (Err (InvalidTransaction ExhaustedAccount)), s)
      else (Inr (), s\<lparr>ld_nonces := (ld_nonces s)(a := ld_nonces s a + 1)\<rparr>))"
  by (simp add: check_nonce_def get_account_nonce_def first_return_value_def exec_defs example_vm_defs)

lemma charge_example:
  "charge_intrinsic_gas example_vm n s = (Inr (), s)" "charge_io_gas example_vm n s = (Inr (), s)"
  by (simp_all add: example_vm_def)

lemma verify_example:
  "fst (verify_transaction example_vm (moved_base_token_accounts example_vm (replicate 32 9))
     example_config example_transfer 10 100 example_ledger) = Inr ()"
  by (simp add: verify_transaction_def moved_base_token_accounts_def transfer_eth_example
      check_nonce_example charge_example exec_defs example_config_def example_transfer_def
      covered_def move_def example_ledger_def max_of_def Let_def)

theorem verify_transaction_effect_witness:
  "\<exists>s'. verify_transaction example_vm (moved_base_token_accounts example_vm (replicate 32 9))
      example_config example_transfer 10 100 example_ledger = (Inr (), s') \<and>
    vw_balance example_view s' (to_move_address (replicate 20 5)) = 890"
proof -
  obtain s' where run: "verify_transaction example_vm (moved_base_token_accounts example_vm (replicate 32 9))
      example_config example_transfer 10 100 example_ledger = (Inr (), s')"
    using run_exists [OF verify_example] by blast
  have ne: "to_move_address (replicate 20 5) \<noteq> replicate 32 9" by code_simp
  have "nt_signer example_transfer = replicate 20 5" by (simp add: example_transfer_def)
  with verify_transaction_effect [OF vm_laws_example run refl] ne run show ?thesis
    by (intro exI [of _ s']) (simp add: example_view_def example_ledger_def)
qed

definition example_squash :: "ledger option \<Rightarrow> ledger option \<Rightarrow> ledger option option" where
  "example_squash c d = (if d = None then Some c else if c = None then Some d else None)"

definition example_machine_on ::
  "ledger vm_ops \<Rightarrow> ('v \<Rightarrow> ledger) \<Rightarrow> ('v, ledger, ledger option, unit) machine" where
  "example_machine_on vm ledger_of =
     \<lparr>m_vm = vm,
      m_mods = (\<lambda>_. \<lparr>deserialize_module = (\<lambda>_. Inl vm_failure), stage = (\<lambda>_ _. Inl vm_failure),
        module_exists = (\<lambda>_. Inr False)\<rparr>),
      m_create_vm = Inr (),
      m_new_session = (\<lambda>st _ _. (ledger_of st)\<lparr>ld_log := eth_transfers_logger_default\<rparr>),
      m_charge_publish_request = (\<lambda>_ s. (Inr (), s)),
      m_charge_dependency = (\<lambda>_ _ s. (Inr (), s)),
      m_execution_gas_used = (\<lambda>_. 21000), m_io_gas_used = (\<lambda>_. 0), m_storage_fee_used = (\<lambda>_. 0),
      m_scaling_factor = 600,
      m_finish = (\<lambda>s. Inr (Some s, [], None, ())),
      m_empty_changes = None, m_module_changes = (\<lambda>_. None), m_squash = example_squash,
      m_keccak256 = (\<lambda>_. replicate 32 1), m_canonical_string = (\<lambda>_. []),
      m_deserialize_event = (\<lambda>_ _. None), m_from_bytes = (\<lambda>_. Inl ''malformed''),
      m_from_bytes_script = (\<lambda>_. Inl ''malformed''), m_script_bytes = (\<lambda>_. [])\<rparr>"

definition example_machine :: "(ledger, ledger, ledger option, unit) machine" where
  "example_machine = example_machine_on example_vm (\<lambda>st. st)"

abbreviation example_token :: "ledger base_token_accounts" where
  "example_token \<equiv> moved_base_token_accounts example_vm (replicate 32 9)"

abbreviation example_input :: l2_gas_fee_input where
  "example_input \<equiv> l2_input_new 100 1"

theorem execute_transaction_no_user_error_witness:
  "execute_transaction example_machine example_ledger example_config example_token
     \<lparr>hx_number = 1, hx_timestamp = 1, hx_prev_randao = []\<rparr> []
     (CanonicalInput example_transfer 10 with_default_gas_fee_multiplier example_input)
     \<noteq> Inl (Err (User EvmContractCreationFailure))"
  by (rule execute_transaction_no_user_error) (simp_all add: example_machine_def example_machine_on_def)

section \<open>Effect of a transfer\<close>

lemma ecatch_ok: "ecatch m s = (Inr (Inr a), s') \<longleftrightarrow> m s = (Inr a, s')"
  by (auto simp: ecatch_def split: prod.split sum.split fault.split)

lemma gas_used_of_state: "gas_used_of m s = (Inr g, s') \<Longrightarrow> s' = s"
  by (auto simp: gas_used_of_def eget_def ebind_success)

lemma finish_session_state: "finish_session m s = (Inr r, s') \<Longrightarrow> s' = s"
  by (auto simp: finish_session_def ecall_def split: sum.splits)

lemma canonical_outcome_ok:
  assumes "canonical_outcome vo dep c g p ls s = (Inr out, s')"
  shows "s' = s \<and> teo_gas_used out = g \<and> teo_logs out = ls \<and> teo_l2_price out = p \<and>
    (teo_vm_outcome out = Inr () \<longrightarrow> vo = Inr () \<and> teo_deployment out = dep) \<and>
    (teo_vm_outcome out \<noteq> Inr () \<longrightarrow> teo_deployment out = None)"
  using assms by (auto simp: canonical_outcome_def Let_def split: sum.splits error.splits)

text \<open>The parts of a canonical transaction whose work succeeded.\<close>

lemma canonical_body_success:
  assumes "canonical_body m st cfg bt tx l1 fee l2 d s = (Inr out, s')" "teo_vm_outcome out = Inr ()"
  shows "\<exists>s1 w s2 s3. verify_transaction (m_vm m) bt cfg tx l1 (l2_fee fee l2) s = (Inr (), s1) \<and>
    execute_transaction_data m st bt tx d s1 = (Inr w, s2) \<and>
    replicate_transfers (m_vm m) Metered s2 = (Inr (), s3) \<and>
    refund_gas_cost bt (to_move_address (nt_signer tx))
      (saturating_sub (l2_fee fee l2)
        (l2_fee fee (l2_input_new (teo_gas_used out) (l2_effective_gas_price l2)))) s3 = (Inr (), s')"
proof -
  from assms(1) obtain s1 work s2 vo s3 g s4 s5 r s6 dep c ls where
    v: "verify_transaction (m_vm m) bt cfg tx l1 (l2_fee fee l2) s = (Inr (), s1)"
    and w: "ecatch (execute_transaction_data m st bt tx d) s1 = (Inr work, s2)"
    and vo: "(case work of Inl e \<Rightarrow> ereturn (Inl e) | Inr _ \<Rightarrow> ecatch (replicate_transfers (m_vm m) Metered)) s2
      = (Inr vo, s3)"
    and g: "gas_used_of m s3 = (Inr g, s4)"
    and rf: "refund_gas_cost bt (to_move_address (nt_signer tx)) (saturating_sub (l2_fee fee l2)
      (l2_fee fee (l2_input_new g (l2_effective_gas_price l2)))) s4 = (Inr (), s5)"
    and fin: "finish_session m s5 = (Inr r, s6)"
    and out: "canonical_outcome vo dep c g (l2_effective_gas_price l2) ls s6 = (Inr out, s')"
    unfolding canonical_body_def Let_def merge_def session_logs_def
    by (auto simp: exec_success)
  note o = canonical_outcome_ok [OF out]
  with assms(2) vo obtain w' where work: "work = Inr w'"
    and rep: "replicate_transfers (m_vm m) Metered s2 = (Inr (), s3)"
    by (cases work) (auto simp: ecatch_ok)
  have "s4 = s3" "s6 = s5" using gas_used_of_state [OF g] finish_session_state [OF fin] by simp_all
  then show ?thesis using v w rep rf o by (auto simp: work ecatch_ok)
qed

lemma replay_replicated_default [simp]: "replicated eth_transfers_logger_default = []"
  by (simp add: replicated_def eth_transfers_logger_default_def)

text \<open>C22. A successful base token transfer, between a sender, a recipient and a treasury that are three
  different accounts, does what its sender signed: the recipient receives the
  value, the treasury the L1 cost and the L2 fee of the gas actually used (the rest of the charge
  is refunded), the sender pays exactly the sum of the three, and its nonce advances by one. All
  other balances are unchanged.\<close>

theorem transfer_transaction_effect:
  assumes "vm_laws (m_vm m) w" "transfer_log (m_vm m) s = eth_transfers_logger_default"
    and "canonical_body m st cfg (moved_base_token_accounts (m_vm m) t) tx l1 fee l2
      (EoaBaseTokenTransfer to) s = (Inr out, s')"
    and "teo_vm_outcome out = Inr ()"
    and "a = to_move_address (nt_signer tx)" "r = to_move_address to"
    and "a \<noteq> t" "a \<noteq> r" "r \<noteq> t"
    and "used = min (unat (l2_fee fee l2))
      (unat (l2_fee fee (l2_input_new (teo_gas_used out) (l2_effective_gas_price l2))))"
  shows "unat (nt_value tx) + unat l1 + used \<le> vw_balance w s a \<and>
    vw_balance w s' = (vw_balance w s)
      (a := vw_balance w s a - (unat (nt_value tx) + unat l1 + used),
       r := vw_balance w s r + unat (nt_value tx),
       t := vw_balance w s t + unat l1 + used) \<and>
    vw_nonce w s' = (vw_nonce w s)(a := nt_nonce tx + 1)"
proof -
  let ?vm = "m_vm m" and ?b = "vw_balance w s" and ?l2 = "unat (l2_fee fee l2)"
  let ?u = "unat (l2_fee fee (l2_input_new (teo_gas_used out) (l2_effective_gas_price l2)))"
  from canonical_body_success [OF assms(3,4)] obtain s1 s2 s3 where
    v: "verify_transaction ?vm (moved_base_token_accounts ?vm t) cfg tx l1 (l2_fee fee l2) s = (Inr (), s1)"
    and x: "transfer_eth ?vm \<lparr>ta_from = a, ta_to = r, ta_amount = nt_value tx\<rparr> Metered s1 = (Inr (), s2)"
    and rep: "replicate_transfers ?vm Metered s2 = (Inr (), s3)"
    and rf: "refund_gas_cost (moved_base_token_accounts ?vm t) a (saturating_sub (l2_fee fee l2)
      (l2_fee fee (l2_input_new (teo_gas_used out) (l2_effective_gas_price l2)))) s3 = (Inr (), s')"
    by (auto simp: execute_transaction_data_def exec_success assms(5,6) moved_base_token_accounts_def)
  have tl: "token_laws ?vm w" using assms(1) by (simp add: vm_laws_def)
  note v' = verify_ok [OF assms(1) v assms(5) refl]
  note x' = transfer_eth_ok [OF tl x]
  have rep': "vw_balance w s3 = vw_balance w s2 \<and> vw_nonce w s3 = vw_nonce w s2"
    using replicate_transfers_ok [OF tl rep] v' x' assms(2) by simp
  note rf' = refund_ok [OF tl rf, unfolded unat_saturating_sub]
  have bal: "vw_balance w s' = move t a (?l2 - ?u) (move a r (unat (nt_value tx))
      (move a t ?l2 (move a t (unat l1) ?b)))"
    using v' x' rep' rf' by simp
  have cov: "unat l1 \<le> ?b a" "?l2 \<le> ?b a - unat l1" "unat (nt_value tx) \<le> ?b a - unat l1 - ?l2"
    using v' x' assms(7-9) by (auto simp: covered_def move_def)
  have "vw_nonce w s' = (vw_nonce w s)(a := nt_nonce tx + 1)" using v' x' rep' rf' by simp
  moreover have "?l2 - (?l2 - ?u) = used" by (simp add: assms(10) min_def)
  then have "vw_balance w s' = ?b(a := ?b a - (unat (nt_value tx) + unat l1 + used),
      r := ?b r + unat (nt_value tx), t := ?b t + unat l1 + used)"
    unfolding bal using cov assms(7-9) by (auto simp: move_def fun_eq_iff)
  ultimately show ?thesis using cov by (auto simp: assms(10))
qed

text \<open>Conversely, when every part succeeds, so does the transaction.\<close>

lemma canonical_body_run:
  assumes "verify_transaction (m_vm m) bt cfg tx l1 (l2_fee fee l2) s = (Inr (), s1)"
    and "execute_transaction_data m st bt tx d s1 = (Inr (dep, dc), s2)"
    and "replicate_transfers (m_vm m) Metered s2 = (Inr (), s3)"
    and "gas_used_of m s3 = (Inr g, s3)"
    and "refund_gas_cost bt (to_move_address (nt_signer tx)) (saturating_sub (l2_fee fee l2)
      (l2_fee fee (l2_input_new g (l2_effective_gas_price l2)))) s3 = (Inr (), s4)"
    and "m_finish m s4 = Inr (mc, [], ec, es)"
    and "m_squash m mc ec = Some c1" "m_squash m c1 dc = Some c2"
  shows "canonical_body m st cfg bt tx l1 fee l2 d s =
    (Inr \<lparr>teo_vm_outcome = Inr (), teo_changes = \<lparr>ch_move_vm = c2, ch_evm = es\<rparr>, teo_gas_used = g,
       teo_l2_price = l2_effective_gas_price l2, teo_logs = [], teo_deployment = dep\<rparr>, s4)"
  using assms
  by (simp add: canonical_body_def Let_def exec_defs finish_session_def session_logs_def merge_def
      kept_deployment_def canonical_outcome_def epanicking_def)

lemma example_machine_simps [simp]:
  "m_vm example_machine = example_vm"
  "m_create_vm example_machine = Inr ()"
  "m_new_session example_machine st sid g = st\<lparr>ld_log := eth_transfers_logger_default\<rparr>"
  "m_finish example_machine s = Inr (Some s, [], None, ())"
  "m_empty_changes example_machine = None"
  "m_squash example_machine = example_squash"
  by (simp_all add: example_machine_def example_machine_on_def)

lemma example_gas_used: "gas_used_of example_machine s = (Inr 35, s)"
  by (simp add: gas_used_of_def example_machine_def example_machine_on_def ebind_def eget_def epanicking_def
      total_gas_used_def div_or_panic_def saturating_add_def)

lemma replicate_nothing:
  "ld_log s = eth_transfers_logger_default \<Longrightarrow> replicate_transfers example_vm meter s = (Inr (), s)"
  by (simp add: replicate_transfers_def ebind_def ethen_def log_take_example
      eth_transfers_logger_default_def)

lemma example_accounts_distinct:
  "to_move_address (replicate 20 5) \<noteq> replicate 32 9" "to_move_address (replicate 20 6) \<noteq> replicate 32 9"
  "to_move_address (replicate 20 5) \<noteq> to_move_address (replicate 20 6)"
  by code_simp+

lemma canonical_example:
  "\<exists>out s'. canonical_body example_machine st example_config example_token example_transfer 10
     with_default_gas_fee_multiplier example_input (EoaBaseTokenTransfer (replicate 20 6))
     example_ledger = (Inr out, s') \<and> teo_vm_outcome out = Inr () \<and> teo_gas_used out = 35"
proof -
  let ?a = "to_move_address (replicate 20 5)" and ?t = "replicate 32 9 :: account_address"
  let ?r = "to_move_address (replicate 20 6)"
  let ?b1 = "move ?a ?t 100 (move ?a ?t 10 (\<lambda>_. 1000))"
  let ?s1 = "example_ledger\<lparr>ld_balances := ?b1, ld_nonces := (\<lambda>_. 7)(?a := 8)\<rparr>"
  let ?s2 = "?s1\<lparr>ld_balances := move ?a ?r 30 ?b1\<rparr>"
  let ?s4 = "?s2\<lparr>ld_balances := move ?t ?a 65 (move ?a ?r 30 ?b1)\<rparr>"
  have fee: "l2_fee with_default_gas_fee_multiplier (l2_input_new 100 1) = 100"
    "l2_fee with_default_gas_fee_multiplier (l2_input_new 35 1) = 35"
    by (simp_all add: l2_fee_def with_default_gas_fee_multiplier_def with_gas_fee_multiplier_def
        DEFAULT_L2_GAS_MULTIPLIER_def l2_input_new_def saturating_mul_def)
  have price: "l2_effective_gas_price (l2_input_new n 1) = 1" for n by (simp add: l2_input_new_def)
  have v: "verify_transaction example_vm example_token example_config example_transfer 10
      (l2_fee with_default_gas_fee_multiplier example_input) example_ledger = (Inr (), ?s1)"
    by (simp add: fee verify_transaction_def moved_base_token_accounts_def transfer_eth_example
        check_nonce_example charge_example exec_defs example_config_def example_transfer_def
        example_ledger_def max_of_def Let_def) (simp add: covered_def move_def)
  have x: "execute_transaction_data example_machine st example_token example_transfer
      (EoaBaseTokenTransfer (replicate 20 6)) ?s1 = (Inr (None, None), ?s2)"
    using example_accounts_distinct
    by (simp add: execute_transaction_data_def moved_base_token_accounts_def transfer_eth_example
        exec_defs example_transfer_def Let_def) (simp add: covered_def move_def)
  have r: "refund_gas_cost example_token (to_move_address (nt_signer example_transfer))
      (saturating_sub (l2_fee with_default_gas_fee_multiplier example_input)
        (l2_fee with_default_gas_fee_multiplier
          (l2_input_new 35 (l2_effective_gas_price example_input)))) ?s2 = (Inr (), ?s4)"
    using example_accounts_distinct
    by (simp add: fee price moved_base_token_accounts_def transfer_eth_example
        example_transfer_def saturating_sub_def) (simp add: covered_def move_def)
  show ?thesis
    using canonical_body_run [where m = example_machine, OF _ x _ example_gas_used r] v
    by (simp add: replicate_nothing example_ledger_def example_squash_def)
qed

theorem transfer_transaction_effect_witness:
  "\<exists>out s'. canonical_body example_machine example_ledger example_config example_token example_transfer
     10 with_default_gas_fee_multiplier example_input (EoaBaseTokenTransfer (replicate 20 6))
     example_ledger = (Inr out, s') \<and>
   vw_balance example_view s' (to_move_address (replicate 20 6)) = 1030"
proof -
  obtain out s' where run: "canonical_body example_machine example_ledger example_config example_token
      example_transfer 10 with_default_gas_fee_multiplier example_input
      (EoaBaseTokenTransfer (replicate 20 6)) example_ledger = (Inr out, s')"
    and ok: "teo_vm_outcome out = Inr ()"
    using canonical_example by blast
  have laws: "vm_laws (m_vm example_machine) example_view" using vm_laws_example by simp
  have "vw_balance example_view s' (to_move_address (replicate 20 6)) = 1030"
    using transfer_transaction_effect [OF laws _ run [folded example_machine_simps(1)] ok refl refl]
      example_accounts_distinct
    by (simp add: example_vm_def example_view_def example_ledger_def example_transfer_def)
  with run show ?thesis by blast
qed

end
