(* ===== verification/App.thy ===== *)
theory App
  imports Block_Queries Canonical Base_Fee "HOL-Library.AList" "HOL-Library.Sublist"
begin

text \<open>
  The application: \<^verbatim>\<open>app/src/input.rs\<close>, \<^verbatim>\<open>command.rs\<close>, \<^verbatim>\<open>actor.rs\<close> and \<^verbatim>\<open>block_hash.rs\<close>. It owns the mem
  pool, the state and the stores, and handles one command after the other: a payload starts the
  building of a block from the transactions of the payload and the mem pool, a transaction is put
  into the mem pool, and the genesis block is stored. The code is generic in its dependencies; here
  blocks, transactions and receipts are stored in memory, where the callbacks \<open>on_tx\<close>,
  \<open>on_tx_batch\<close> and \<open>on_payload\<close> do nothing, and the state, the EVM storage and the third-party
  encodings are the fields of \<open>dependencies\<close>. Integers wrap around as in a release build.
\<close>

section \<open>Commands\<close>

record payload =
  pa_timestamp :: u64
  pa_prev_randao :: b256
  pa_suggested_fee_recipient :: address
  pa_withdrawals :: "withdrawal list"
  pa_parent_beacon_block_root :: b256
  pa_transactions :: "bytes list"
  pa_gas_limit :: u64

datatype command =
  StartBlockBuild payload payload_id
| AddTransaction tx_envelope
| GenesisUpdate extended_block

record execution_outcome =
  eo_receipts_root :: b256
  eo_state_root :: b256
  eo_logs_bloom :: bloom
  eo_gas_used :: u64
  eo_total_tip :: u256

definition with_execution_outcome :: "execution_outcome \<Rightarrow> header \<Rightarrow> header" where
  "with_execution_outcome out h =
     h\<lparr>hd_state_root := eo_state_root out, hd_receipts_root := eo_receipts_root out,
       hd_logs_bloom := eo_logs_bloom out, hd_gas_used := to_u64 (eo_gas_used out)\<rparr>"

definition with_payload_attributes :: "payload \<Rightarrow> header \<Rightarrow> header" where
  "with_payload_attributes p h =
     h\<lparr>hd_beneficiary := pa_suggested_fee_recipient p, hd_gas_limit := to_u64 (pa_gas_limit p),
       hd_timestamp := to_u64 (pa_timestamp p),
       hd_parent_beacon_block_root := Some (pa_parent_beacon_block_root p),
       hd_mix_hash := pa_prev_randao p\<rparr>"

definition to_withdrawal :: "withdrawal \<Rightarrow> withdrawal" where
  "to_withdrawal w =
     \<lparr>wd_index = wd_index w, wd_validator_index = wd_validator_index w, wd_address = wd_address w,
      wd_amount = wd_amount w\<rparr>"

definition to_payload_id_input :: "payload \<Rightarrow> b256 \<Rightarrow> new_payload_id_input" where
  "to_payload_id_input p head =
     with_withdrawals (map to_withdrawal (pa_withdrawals p))
       (with_beacon_root (pa_parent_beacon_block_root p)
         (new_v3 head (pa_timestamp p) (pa_prev_randao p) (pa_suggested_fee_recipient p)))"

section \<open>The application and its dependencies\<close>

type_synonym pooled = "op_tx_envelope \<times> l1_gas_fee_input"
type_synonym hash_lookup = "u64 \<Rightarrow> b256 option"

text \<open>What a session reads: the state, the EVM storage and the hashes of earlier blocks.\<close>

type_synonym ('st, 'es) view = "'st \<times> 'es \<times> hash_lookup"

record ('st, 'es, 's, 'c, 'e) dependencies =
  d_machine :: "(('st, 'es) view, 's, 'c, 'e) machine"
  d_base_token :: "'s base_token_accounts"
  d_state_apply :: "'c \<Rightarrow> 'st \<Rightarrow> string + 'st"
  d_state_root :: "'st \<Rightarrow> b256"
  d_evm_apply :: "'e \<Rightarrow> 'es \<Rightarrow> string + 'es"
  d_tx_ops :: tx_ops
  d_picks :: picks
  d_encode_2718 :: "op_tx_envelope \<Rightarrow> bytes"
  d_decode_tx :: "bytes \<Rightarrow> (op_tx_envelope \<times> bytes) option"
  d_encode_tx :: "tx_envelope \<Rightarrow> bytes"
  d_eth_tx_hash :: "tx_envelope \<Rightarrow> b256"
  d_effective_gas_price :: "op_tx_envelope \<Rightarrow> u64 option \<Rightarrow> u128"
  d_deposit_nonce :: "tx_deposit \<Rightarrow> u64"
  d_accrue_log :: "log \<Rightarrow> bloom \<Rightarrow> bloom"
  d_accrue_bloom :: "bloom \<Rightarrow> bloom \<Rightarrow> bloom"
  d_header_default :: header
  d_block_hash :: "header \<Rightarrow> b256"
  d_transactions_root :: "op_tx_envelope list \<Rightarrow> b256"
  d_withdrawals_root :: "withdrawal list \<Rightarrow> b256"
  d_receipts_root :: "log op_receipt_envelope list \<Rightarrow> b256"
  d_drain :: "(b256 \<times> pooled) list \<Rightarrow> (b256 \<times> pooled) list"

record ('st, 'es) application =
  ap_genesis_config :: genesis_config
  ap_mem_pool :: "(b256 \<times> pooled) list"
  ap_gas_fee :: eip1559_gas_fee
  ap_receipt_memory :: receipt_memory
  ap_storage :: shared_memory
  ap_state :: 'st
  ap_evm_storage :: 'es

definition application_new ::
  "genesis_config \<Rightarrow> eip1559_gas_fee \<Rightarrow> 'st \<Rightarrow> 'es \<Rightarrow> ('st, 'es) application" where
  "application_new cfg fee st es =
     \<lparr>ap_genesis_config = cfg, ap_mem_pool = [], ap_gas_fee = fee, ap_receipt_memory = em_new,
      ap_storage = shared_memory_new, ap_state = st, ap_evm_storage = es\<rparr>"

definition hash_by_number ::
  "('st, 'es, 's, 'c, 'e) dependencies \<Rightarrow> shared_memory \<Rightarrow> hash_lookup" where
  "hash_by_number d mem number =
     (case ok (query_by_height (d_tx_ops d) (d_picks d) mem number False) of
        Some (Some b) \<Rightarrow> Some (br_hash b)
      | _ \<Rightarrow> None)"

section \<open>Execution of the transactions of a block\<close>

record ('st, 'es) building =
  bu_state :: 'st
  bu_evm :: 'es
  bu_total_tip :: u256
  bu_receipts :: "extended_receipt list"
  bu_gas :: u128
  bu_bloom :: bloom
  bu_index :: u64
  bu_log_offset :: u64

definition building_new :: "'st \<Rightarrow> 'es \<Rightarrow> ('st, 'es) building" where
  "building_new st es =
     \<lparr>bu_state = st, bu_evm = es, bu_total_tip = 0, bu_receipts = [], bu_gas = 0, bu_bloom = 0,
      bu_index = 0, bu_log_offset = 0\<rparr>"

text \<open>The input of the execution of a normalised transaction.\<close>

fun execution_input ::
  "ecotone_gas_fee option \<Rightarrow> u256 \<Rightarrow> l1_gas_fee_input \<Rightarrow> normalized_extended_tx_envelope
     \<Rightarrow> transaction_execution_input" where
  "execution_input l1 base_fee l1_input (Canonical tx) =
     CanonicalInput tx (case l1 of None \<Rightarrow> 0 | Some g \<Rightarrow> l1_fee g l1_input)
       with_default_gas_fee_multiplier
       (l2_input_new (env_gas_limit (Canonical tx)) (env_effective_gas_price (Canonical tx) base_fee))"
| "execution_input l1 base_fee l1_input (DepositedTx tx) = DepositInput tx"

fun to_and_from :: "normalized_extended_tx_envelope \<Rightarrow> address option \<times> address" where
  "to_and_from (Canonical tx) = (kind_to (nt_to tx), nt_signer tx)"
| "to_and_from (DepositedTx tx) = (kind_to (td_to tx), td_from tx)"

text \<open>\<open>match execute_transaction(input)\<close>: \<open>None\<close> is \<open>continue\<close>.\<close>

definition checked_outcome :: "fault + 'o \<Rightarrow> panic + 'o option" where
  "checked_outcome r =
     (case r of
        Inr out \<Rightarrow> Inr (Some out)
      | Inl (Err (User e)) \<Rightarrow> Inl (Panic ''User errors are handled in execution'')
      | Inl (Err (InvalidTransaction e)) \<Rightarrow> Inr None
      | Inl (Err (InvariantViolation e)) \<Rightarrow> Inl (Panic ''ERROR: execution error'')
      | Inl (Panicking p) \<Rightarrow> Inl (Panic p))"

definition record_outcome ::
  "('st, 'es, 's, 'c, 'e) dependencies \<Rightarrow> header_for_execution \<Rightarrow> u256 \<Rightarrow> l1_block_info option
     \<Rightarrow> b256 \<Rightarrow> op_tx_envelope \<Rightarrow> normalized_extended_tx_envelope
     \<Rightarrow> ('c, 'e) transaction_execution_outcome \<Rightarrow> ('st, 'es) building \<Rightarrow> panic + ('st, 'es) building"
where
  "record_outcome d hdr base_fee info h tx ntx out bu =
     rbind (map_err (\<lambda>_. Panic ''ERROR: state update failed for transaction'')
       (d_state_apply d (ch_move_vm (teo_changes out)) (bu_state bu))) (\<lambda>st.
     rbind (map_err (\<lambda>_. Panic ''ERROR: EVM storage update failed for transaction'')
       (d_evm_apply d (ch_evm (teo_changes out)) (bu_evm bu))) (\<lambda>es.
     let gas = saturating_add (bu_gas bu) (ucast (teo_gas_used out));
         bloom = logs_bloom (d_accrue_log d) (teo_logs out)
     in rbind (wrap_receipt (d_deposit_nonce d) tx
          \<lparr>status = (case teo_vm_outcome out of Inl _ \<Rightarrow> False | Inr _ \<Rightarrow> True),
           cumulative_gas_used = (if gas < ucast (max_of :: u64) then ucast gas else max_of),
           logs = teo_logs out\<rparr> bloom) (\<lambda>receipt.
        Inr \<lparr>bu_state = st, bu_evm = es,
             bu_total_tip = saturating_add (bu_total_tip bu)
               (saturating_mul (ucast (teo_gas_used out)) (env_tip_per_gas ntx base_fee)),
             bu_receipts = bu_receipts bu @
               [\<lparr>er_transaction_hash = h, er_transaction_index = bu_index bu,
                 er_to = fst (to_and_from ntx), er_from = snd (to_and_from ntx),
                 er_receipt = receipt, er_l1_block_info = info, er_gas_used = teo_gas_used out,
                 er_l2_gas_price = teo_l2_price out,
                 er_contract_address =
                   map_option (\<lambda>(a, _). to_eth_address a) (teo_deployment out),
                 er_logs_offset = bu_log_offset bu, er_block_hash = replicate 32 0,
                 er_block_number = hx_number hdr, er_block_timestamp = hx_timestamp hdr\<rparr>],
             bu_gas = gas, bu_bloom = d_accrue_bloom d (bu_bloom bu) bloom,
             bu_index = bu_index bu + 1,
             bu_log_offset = bu_log_offset bu + of_nat (length (teo_logs out))\<rparr>)))"

text \<open>The body of the loop.\<close>

definition execute_one ::
  "('st, 'es, 's, 'c, 'e) dependencies \<Rightarrow> genesis_config \<Rightarrow> hash_lookup
     \<Rightarrow> ecotone_gas_fee option \<Rightarrow> u256 \<Rightarrow> header_for_execution
     \<Rightarrow> b256 \<times> pooled \<Rightarrow> ('st, 'es) building \<Rightarrow> panic + ('st, 'es) building"
where
  "execute_one d cfg lookup l1 base_fee hdr t bu =
     (case t of (h, tx, l1_input) \<Rightarrow>
        (case try_from_op_envelope (op_recover (d_tx_ops d)) tx of
           Inl _ \<Rightarrow> Inr bu
         | Inr ntx \<Rightarrow>
             rbind (checked_outcome
               (execute_transaction (d_machine d) (bu_state bu, bu_evm bu, lookup) cfg
                  (d_base_token d) hdr h (execution_input l1 base_fee l1_input ntx))) (\<lambda>r.
             case r of
               None \<Rightarrow> Inr bu
             | Some out \<Rightarrow>
                 record_outcome d hdr base_fee (Option.bind l1 (\<lambda>g. l1_block_info_of g l1_input))
                   h tx ntx out bu)))"

fun execute_loop ::
  "('st, 'es, 's, 'c, 'e) dependencies \<Rightarrow> genesis_config \<Rightarrow> hash_lookup
     \<Rightarrow> ecotone_gas_fee option \<Rightarrow> u256 \<Rightarrow> header_for_execution
     \<Rightarrow> (b256 \<times> pooled) list \<Rightarrow> ('st, 'es) building \<Rightarrow> panic + ('st, 'es) building"
where
  "execute_loop d cfg lookup l1 base_fee hdr [] bu = Inr bu"
| "execute_loop d cfg lookup l1 base_fee hdr (t # ts) bu =
     rbind (execute_one d cfg lookup l1 base_fee hdr t bu)
       (execute_loop d cfg lookup l1 base_fee hdr ts)"

text \<open>The L1 fee of the block comes from its first transaction, when that is a deposit.\<close>

definition block_l1_fee :: "(b256 \<times> pooled) list \<Rightarrow> panic + ecotone_gas_fee option" where
  "block_l1_fee ts =
     (case ts of
        (h, tx, _) # _ \<Rightarrow>
          (case as_deposit tx of
             None \<Rightarrow> Inr None
           | Some t \<Rightarrow> rbind (for_deposit (td_input t)) (\<lambda>g. Inr (Some g)))
      | [] \<Rightarrow> Inr None)"

text \<open>\<open>U64::from\<close> panics on a value that does not fit.\<close>

definition u64_from :: "u128 \<Rightarrow> panic + u64" where
  "u64_from x = (if unat x < 2 ^ 64 then Inr (ucast x) else Inl (Panic ''Value is too large for Uint<64>''))"

definition execute_transactions ::
  "('st, 'es, 's, 'c, 'e) dependencies \<Rightarrow> ('st, 'es) application \<Rightarrow> (b256 \<times> pooled) list \<Rightarrow> u256
     \<Rightarrow> header_for_execution
     \<Rightarrow> panic + execution_outcome \<times> extended_receipt list \<times> ('st, 'es) application" where
  "execute_transactions d app ts base_fee hdr =
     rbind (block_l1_fee ts) (\<lambda>l1.
     rbind (execute_loop d (ap_genesis_config app) (hash_by_number d (ap_storage app)) l1 base_fee hdr ts
       (building_new (ap_state app) (ap_evm_storage app))) (\<lambda>bu.
     rbind (u64_from (bu_gas bu)) (\<lambda>gas.
     Inr (\<lparr>eo_receipts_root = d_receipts_root d (map er_receipt (bu_receipts bu)),
           eo_state_root = d_state_root d (bu_state bu), eo_logs_bloom = bu_bloom bu,
           eo_gas_used = gas, eo_total_tip = bu_total_tip bu\<rparr>,
          bu_receipts bu,
          app\<lparr>ap_state := bu_state bu, ap_evm_storage := bu_evm bu\<rparr>))))"

section \<open>Building a block\<close>

definition decode_payload_tx ::
  "('st, 'es, 's, 'c, 'e) dependencies \<Rightarrow> bytes \<Rightarrow> (b256 \<times> pooled) option" where
  "decode_payload_tx d tx_bytes =
     map_option (\<lambda>(tx, rest). (m_keccak256 (d_machine d) tx_bytes, tx, l1_input_of_bytes rest))
       (d_decode_tx d tx_bytes)"

text \<open>The transactions of the payload and then those of the mem pool, in the order of its drain,
  without those that have a receipt.\<close>

definition candidates ::
  "('st, 'es, 's, 'c, 'e) dependencies \<Rightarrow> ('st, 'es) application \<Rightarrow> payload \<Rightarrow> (b256 \<times> pooled) list" where
  "candidates d app p =
     filter (\<lambda>(h, _). \<not> receipt_contains (ap_receipt_memory app) h)
       (filter_map (decode_payload_tx d) (pa_transactions p) @ d_drain d (ap_mem_pool app))"

definition block_header ::
  "('st, 'es, 's, 'c, 'e) dependencies \<Rightarrow> payload \<Rightarrow> extended_block \<Rightarrow> header_for_execution \<Rightarrow> u256
     \<Rightarrow> op_tx_envelope list \<Rightarrow> execution_outcome \<Rightarrow> header" where
  "block_header d p parent hdr base_fee txs out =
     with_execution_outcome out (with_payload_attributes p
       ((d_header_default d)
         \<lparr>hd_parent_hash := eb_hash parent, hd_number := hx_number hdr,
          hd_transactions_root := d_transactions_root d txs,
          hd_withdrawals_root := Some (d_withdrawals_root d (pa_withdrawals p)),
          hd_base_fee_per_gas := Some (saturating_to base_fee), hd_blob_gas_used := Some 0,
          hd_excess_blob_gas := Some 0\<rparr>))"

definition stored_transactions ::
  "('st, 'es, 's, 'c, 'e) dependencies \<Rightarrow> extended_block \<Rightarrow> op_tx_envelope list
     \<Rightarrow> extended_transaction list" where
  "stored_transactions d b txs =
     map (\<lambda>(i, tx). extended_transaction_new
            (d_effective_gas_price d tx (hd_base_fee_per_gas (bl_header (eb_block b)))) tx
            (number_of b) (eb_hash b) (of_nat i))
       (enumerate 0 txs)"

text \<open>The writes that publish a block, one after the other as concurrent readers see them.\<close>

definition publish_receipts ::
  "b256 \<Rightarrow> extended_receipt list \<Rightarrow> ('st, 'es) application \<Rightarrow> ('st, 'es) application" where
  "publish_receipts h rs app =
     app\<lparr>ap_receipt_memory :=
       receipt_memory_extend (map (with_block_hash h) rs) (ap_receipt_memory app)\<rparr>"

definition publish_transactions ::
  "(op_tx_envelope \<Rightarrow> b256) \<Rightarrow> extended_transaction list \<Rightarrow> ('st, 'es) application
     \<Rightarrow> ('st, 'es) application" where
  "publish_transactions trie_hash txs app =
     app\<lparr>ap_storage := (ap_storage app)\<lparr>sm_transactions :=
       transaction_memory_extend trie_hash txs (sm_transactions (ap_storage app))\<rparr>\<rparr>"

definition on_blocks ::
  "(block_memory \<Rightarrow> block_memory) \<Rightarrow> ('st, 'es) application \<Rightarrow> ('st, 'es) application" where
  "on_blocks f app = app\<lparr>ap_storage := (ap_storage app)\<lparr>sm_blocks := f (sm_blocks (ap_storage app))\<rparr>\<rparr>"

definition publish_steps ::
  "('st, 'es, 's, 'c, 'e) dependencies \<Rightarrow> extended_receipt list \<Rightarrow> op_tx_envelope list
     \<Rightarrow> extended_block \<Rightarrow> (('st, 'es) application \<Rightarrow> ('st, 'es) application) list" where
  "publish_steps d rs txs b =
     [publish_receipts (eb_hash b) rs,
      publish_transactions (op_trie_hash (d_tx_ops d)) (stored_transactions d b txs)]
     @ map on_blocks (add_steps b)"

text \<open>The block built on the latest one, its receipts, and the application after the execution.\<close>

definition build_block ::
  "('st, 'es, 's, 'c, 'e) dependencies \<Rightarrow> ('st, 'es) application \<Rightarrow> payload \<Rightarrow> payload_id
     \<Rightarrow> (b256 \<times> pooled) list
     \<Rightarrow> panic + extended_block \<times> extended_receipt list \<times> ('st, 'es) application"
where
  "build_block d app p i ts =
     rbind (ok_or (repository_latest (pk_block (d_picks d)) (sm_blocks (ap_storage app)))
       (Panic ''Parent block should exist'')) (\<lambda>parent.
     let ph = bl_header (eb_block parent)
     in rbind (base_fee_per_gas (ap_gas_fee app) (hd_gas_limit ph) (hd_gas_used ph)
          (ucast (unwrap_or (hd_base_fee_per_gas ph) 0))) (\<lambda>base_fee.
        let hdr = \<lparr>hx_number = hd_number ph + 1, hx_timestamp = pa_timestamp p,
                   hx_prev_randao = pa_prev_randao p\<rparr>;
            txs = map (fst \<circ> snd) ts
        in rbind (execute_transactions d app ts base_fee hdr) (\<lambda>(out, rs, app').
           let h = block_header d p parent hdr base_fee txs out
           in Inr (with_payload_id i (with_value (eo_total_tip out)
                (with_hash (d_block_hash d h)
                  (block_new h (map (op_trie_hash (d_tx_ops d)) txs)))), rs, app'))))"

definition start_block_build ::
  "('st, 'es, 's, 'c, 'e) dependencies \<Rightarrow> ('st, 'es) application \<Rightarrow> payload \<Rightarrow> payload_id
     \<Rightarrow> panic + ('st, 'es) application" where
  "start_block_build d app p i =
     (if payload_by_id (d_encode_2718 d) (d_picks d) (ap_storage app) i \<noteq> None then Inr app
      else
        let ts = candidates d app p
        in rbind (build_block d (app\<lparr>ap_mem_pool := []\<rparr>) p i ts) (\<lambda>(b, rs, app').
           Inr (fold (\<lambda>step. step) (publish_steps d rs (map (fst \<circ> snd) ts) b) app')))"

section \<open>The other commands\<close>

fun try_from_eth_envelope :: "tx_envelope \<Rightarrow> op_tx_envelope option" where
  "try_from_eth_envelope (EthLegacy tx s) = Some (Legacy tx s)"
| "try_from_eth_envelope (EthEip2930 tx s) = Some (Eip2930 tx s)"
| "try_from_eth_envelope (EthEip1559 tx s) = Some (Eip1559 tx s)"
| "try_from_eth_envelope (EthEip7702 b s) = Some (Eip7702 b s)"
| "try_from_eth_envelope (EthEip4844 b s) = None"

definition pool_insert :: "b256 \<Rightarrow> pooled \<Rightarrow> (b256 \<times> pooled) list \<Rightarrow> (b256 \<times> pooled) list" where
  "pool_insert h t pool = AList.update h t pool"

definition add_transaction ::
  "('st, 'es, 's, 'c, 'e) dependencies \<Rightarrow> ('st, 'es) application \<Rightarrow> tx_envelope
     \<Rightarrow> panic + ('st, 'es) application" where
  "add_transaction d app tx =
     rbind (ok_or (try_from_eth_envelope tx) (Panic ''EIP-4844 not supported'')) (\<lambda>op_tx.
     Inr (app\<lparr>ap_mem_pool := pool_insert (d_eth_tx_hash d tx)
       (op_tx, l1_input_of_bytes (d_encode_tx d tx)) (ap_mem_pool app)\<rparr>))"

definition genesis_update ::
  "('st, 'es) application \<Rightarrow> extended_block \<Rightarrow> ('st, 'es) application" where
  "genesis_update app b = on_blocks (repository_add b) app"

fun handle_command ::
  "('st, 'es, 's, 'c, 'e) dependencies \<Rightarrow> ('st, 'es) application \<Rightarrow> command
     \<Rightarrow> panic + ('st, 'es) application" where
  "handle_command d app (StartBlockBuild p i) = start_block_build d app p i"
| "handle_command d app (AddTransaction tx) = add_transaction d app tx"
| "handle_command d app (GenesisUpdate b) = Inr (genesis_update app b)"

text \<open>The actor's loop over the commands it receives.\<close>

fun work ::
  "('st, 'es, 's, 'c, 'e) dependencies \<Rightarrow> ('st, 'es) application \<Rightarrow> command list
     \<Rightarrow> panic + ('st, 'es) application" where
  "work d app [] = Inr app"
| "work d app (msg # rx) = rbind (handle_command d app msg) (\<lambda>app'. work d app' rx)"


section \<open>Accounting of the receipts of a block\<close>

abbreviation receipt_logs :: "extended_receipt \<Rightarrow> log list" where
  "receipt_logs r \<equiv> logs (receipt_of (er_receipt r))"

text \<open>The receipts are numbered from \<open>i\<close>, their cumulative gas starts from \<open>g\<close> and their logs from
  \<open>l\<close>.\<close>

fun accounted :: "nat \<Rightarrow> nat \<Rightarrow> nat \<Rightarrow> extended_receipt list \<Rightarrow> bool" where
  "accounted i g l [] = True"
| "accounted i g l (r # rs) \<longleftrightarrow>
     er_transaction_index r = of_nat i \<and> er_logs_offset r = of_nat l \<and>
     unat (cumulative_gas_used (receipt_of (er_receipt r))) = min (g + unat (er_gas_used r)) (2 ^ 64 - 1) \<and>
     (\<exists>x. transaction_receipt_from r = Inr x) \<and>
     accounted (Suc i) (g + unat (er_gas_used r)) (l + length (receipt_logs r)) rs"

lemma accounted_append:
  "accounted i g l (rs @ rs') \<longleftrightarrow> accounted i g l rs \<and>
     accounted (i + length rs) (g + (\<Sum>r\<leftarrow>rs. unat (er_gas_used r)))
       (l + (\<Sum>r\<leftarrow>rs. length (receipt_logs r))) rs'"
  by (induction rs arbitrary: i g l) (simp_all add: add.assoc)

lemma accounted_offsets:
  "accounted i g l rs \<Longrightarrow> offsets_from l rs \<and> (\<forall>r \<in> set rs. \<exists>x. transaction_receipt_from r = Inr x)"
  by (induction rs arbitrary: i g l) auto

lemma wrap_receipt_Inr:
  "wrap_receipt dn tx r b = Inr e \<Longrightarrow> receipt_of e = r \<and> (\<nexists>q b. e = ReceiptEip7702 q b)"
  by (cases tx) auto

definition loop_ok :: "header_for_execution \<Rightarrow> b256 list \<Rightarrow> ('st, 'es) building \<Rightarrow> bool" where
  "loop_ok hdr hs bu \<longleftrightarrow>
     accounted 0 0 0 (bu_receipts bu) \<and>
     bu_index bu = of_nat (length (bu_receipts bu)) \<and>
     bu_log_offset bu = of_nat (\<Sum>r\<leftarrow>bu_receipts bu. length (receipt_logs r)) \<and>
     unat (bu_gas bu) = min (\<Sum>r\<leftarrow>bu_receipts bu. unat (er_gas_used r)) (2 ^ 128 - 1) \<and>
     (\<forall>r \<in> set (bu_receipts bu). er_block_number r = hx_number hdr) \<and>
     subseq (map er_transaction_hash (bu_receipts bu)) hs"

lemma loop_ok_new: "loop_ok hdr [] (building_new st es)"
  by (simp add: loop_ok_def building_new_def)

lemma unat_capped: "unat (if gas < ucast (max_of :: u64) then ucast gas else (max_of :: u64))
    = min (unat (gas :: u128)) (2 ^ 64 - 1)"
proof -
  have "gas < ucast (max_of :: u64) \<longleftrightarrow> unat gas < 2 ^ 64 - 1"
    by (simp add: word_less_nat_alt unat_ucast_up unat_max_of)
  then show ?thesis
    by (auto simp: unat_max_of unsigned_ucast_eq take_bit_nat_eq_self)
qed

lemma loop_ok_record:
  assumes "loop_ok hdr hs bu" "record_outcome d hdr fee info h tx ntx out bu = Inr bu'"
  shows "loop_ok hdr (hs @ [h]) bu'"
proof -
  let ?gas = "saturating_add (bu_gas bu) (ucast (teo_gas_used out))"
  let ?sum = "\<Sum>r\<leftarrow>bu_receipts bu. unat (er_gas_used r)"
  from assms(2) obtain r where new: "bu_receipts bu' = bu_receipts bu @ [r]"
    and gas: "bu_gas bu' = ?gas" "er_gas_used r = teo_gas_used out"
    and r: "er_transaction_hash r = h" "er_transaction_index r = bu_index bu"
      "er_logs_offset r = bu_log_offset bu" "er_block_number r = hx_number hdr"
    and rc: "cumulative_gas_used (receipt_of (er_receipt r))
        = (if ?gas < ucast (max_of :: u64) then ucast ?gas else max_of)"
      "\<nexists>q b. er_receipt r = ReceiptEip7702 q b"
    and off: "bu_index bu' = bu_index bu + 1"
      "bu_log_offset bu' = bu_log_offset bu + of_nat (length (receipt_logs r))"
    by (auto simp: record_outcome_def Let_def rbind_Inr_iff dest!: wrap_receipt_Inr)
  have g: "unat ?gas = min (?sum + unat (teo_gas_used out)) (2 ^ 128 - 1)"
    using assms(1) by (simp add: unat_saturating_add unat_ucast_up loop_ok_def)
  then have "unat (cumulative_gas_used (receipt_of (er_receipt r)))
      = min (?sum + unat (teo_gas_used out)) (2 ^ 64 - 1)"
    by (simp only: rc(1) unat_capped) simp
  then show ?thesis
    using assms(1) g rc(2)
    by (auto simp: loop_ok_def new accounted_append gas r off transaction_receipt_from_total
        intro!: list_emb_append_mono)
qed

lemma loop_ok_skip: "loop_ok hdr hs bu \<Longrightarrow> loop_ok hdr (hs @ [h]) bu"
  by (auto simp: loop_ok_def)

lemma loop_ok_one:
  assumes "loop_ok hdr hs bu" "execute_one d cfg lookup l1 fee hdr t bu = Inr bu'"
  shows "loop_ok hdr (hs @ [fst t]) bu'"
  using assms
  by (auto simp: execute_one_def rbind_Inr_iff loop_ok_skip split: prod.splits sum.splits option.splits
      intro: loop_ok_record)

lemma loop_ok_loop:
  assumes "loop_ok hdr hs bu" "execute_loop d cfg lookup l1 fee hdr ts bu = Inr bu'"
  shows "loop_ok hdr (hs @ map fst ts) bu'"
  using assms
proof (induction ts arbitrary: hs bu)
  case (Cons t ts)
  then obtain bu1 where "execute_one d cfg lookup l1 fee hdr t bu = Inr bu1"
    "execute_loop d cfg lookup l1 fee hdr ts bu1 = Inr bu'"
    by (auto simp: rbind_Inr_iff)
  with Cons.IH [OF loop_ok_one [OF Cons.prems(1)]] show ?case by fastforce
qed simp

lemma execute_transactions_Inr:
  assumes "execute_transactions d app ts fee hdr = Inr (out, rs, app')"
  obtains bu where "loop_ok hdr (map fst ts) bu" "rs = bu_receipts bu"
    "unat (bu_gas bu) < 2 ^ 64" "eo_gas_used out = ucast (bu_gas bu)"
    "app' = app\<lparr>ap_state := bu_state bu, ap_evm_storage := bu_evm bu\<rparr>"
    "eo_state_root out = d_state_root d (bu_state bu)"
    "eo_receipts_root out = d_receipts_root d (map er_receipt rs)"
proof -
  from assms obtain l1 bu where "execute_loop d (ap_genesis_config app) (hash_by_number d (ap_storage app)) l1 fee hdr ts
      (building_new (ap_state app) (ap_evm_storage app)) = Inr bu"
    and bu: "u64_from (bu_gas bu) = Inr (eo_gas_used out)" "rs = bu_receipts bu"
      "app' = app\<lparr>ap_state := bu_state bu, ap_evm_storage := bu_evm bu\<rparr>"
      "eo_state_root out = d_state_root d (bu_state bu)"
      "eo_receipts_root out = d_receipts_root d (map er_receipt rs)"
    by (auto simp: execute_transactions_def rbind_Inr_iff)
  from loop_ok_loop [OF loop_ok_new this(1)] have "loop_ok hdr (map fst ts) bu" by simp
  with bu show ?thesis by (intro that [of bu]) (auto simp: u64_from_def split: if_splits)
qed

lemma receipts_subseq:
  fixes app :: "('st, 'es) application"
  assumes "execute_transactions d app ts base_fee hdr = Inr (out, rs, app')"
  shows "subseq (map er_transaction_hash rs) (map fst ts)"
proof -
  obtain bu :: "('st, 'es) building" where "loop_ok hdr (map fst ts) bu" "rs = bu_receipts bu"
    using assms by (elim execute_transactions_Inr) blast
  then show ?thesis by (simp add: loop_ok_def)
qed

text \<open>C4. The receipts of a block account for it exactly: they belong to a subsequence of its
  transactions, in order; they are numbered consecutively; the gas used of the block is the sum of
  the gas used by its receipts, without saturation, and each receipt's cumulative gas is the sum up
  to it; and the log indices served for them are the consecutive positions of the logs in the
  block.\<close>

theorem receipts_account_for_block:
  fixes app :: "('st, 'es) application"
  assumes "execute_transactions d app ts base_fee hdr = Inr (out, rs, app')"
  shows "subseq (map er_transaction_hash rs) (map fst ts) \<and>
    unat (eo_gas_used out) = (\<Sum>r\<leftarrow>rs. unat (er_gas_used r)) \<and>
    (\<forall>k < length rs. er_transaction_index (rs ! k) = of_nat k \<and>
       unat (cumulative_gas_used (receipt_of (er_receipt (rs ! k))))
         = (\<Sum>r\<leftarrow>take (Suc k) rs. unat (er_gas_used r))) \<and>
    map rl_log_index (concat (map response_logs rs))
      = map (\<lambda>i. Some (of_nat i)) [0..<\<Sum>r\<leftarrow>rs. length (receipt_logs r)]"
proof -
  obtain bu :: "('st, 'es) building" where bu: "loop_ok hdr (map fst ts) bu" "rs = bu_receipts bu" "unat (bu_gas bu) < 2 ^ 64"
    "eo_gas_used out = ucast (bu_gas bu)"
    using assms by (elim execute_transactions_Inr) blast
  let ?sum = "\<Sum>r\<leftarrow>rs. unat (er_gas_used r)"
  have acc: "accounted 0 0 0 rs" and sum: "unat (bu_gas bu) = min ?sum (2 ^ 128 - 1)"
    using bu(1) by (simp_all add: loop_ok_def bu(2))
  have exact: "?sum < 2 ^ 64" "unat (bu_gas bu) = ?sum" using sum bu(3) by auto
  have "unat (eo_gas_used out) = ?sum"
    using bu(3) exact by (simp add: bu(4) unsigned_ucast_eq take_bit_nat_eq_self)
  moreover have "er_transaction_index (rs ! k) = of_nat k \<and>
      unat (cumulative_gas_used (receipt_of (er_receipt (rs ! k))))
        = (\<Sum>r\<leftarrow>take (Suc k) rs. unat (er_gas_used r))" if "k < length rs" for k
  proof -
    have split: "rs = take k rs @ rs ! k # drop (Suc k) rs" using that by (rule id_take_nth_drop)
    have "(\<Sum>r\<leftarrow>take (Suc k) rs. unat (er_gas_used r))
        = (\<Sum>r\<leftarrow>take k rs. unat (er_gas_used r)) + unat (er_gas_used (rs ! k))"
      using that by (simp add: take_Suc_conv_app_nth)
    moreover have "\<dots> \<le> ?sum" by (subst (3) split) simp
    ultimately show ?thesis
      using acc exact(1) that by (subst (asm) split) (auto simp: accounted_append)
  qed
  moreover have "map rl_log_index (concat (map response_logs rs))
      = map (\<lambda>i. Some (of_nat i)) [0..<\<Sum>r\<leftarrow>rs. length (receipt_logs r)]"
    using accounted_offsets [OF acc] by (intro log_indices_consecutive) auto
  ultimately show ?thesis using bu(1) by (simp add: loop_ok_def bu(2))
qed

text \<open>A node with the example ledger as its state, for evaluation on concrete inputs.\<close>

definition example_node_machine ::
  "((ledger, unit) view, ledger, ledger option, unit) machine" where
  "example_node_machine = example_machine_on (example_vm\<lparr>serialize := (\<lambda>_ _. Some [])\<rparr>) fst"

definition example_bridge :: tx_deposit where
  "example_bridge = example_deposit\<lparr>td_to := Call (replicate 20 6)\<rparr>"

definition example_dependencies :: "(ledger, unit, ledger, ledger option, unit) dependencies" where
  "example_dependencies =
     \<lparr>d_machine = example_node_machine, d_base_token = example_token,
      d_state_apply = (\<lambda>c st. Inr (unwrap_or c st)), d_state_root = (\<lambda>_. []),
      d_evm_apply = (\<lambda>_ es. Inr es), d_tx_ops = example_tx_ops,
      d_picks = \<lparr>pk_block = hd, pk_tx = hd\<rparr>, d_encode_2718 = (\<lambda>_. [1, 2]),
      d_decode_tx = (\<lambda>bs. Some (if bs = [9] then Deposit example_bridge else Eip7702 [] [], [])), d_encode_tx = (\<lambda>_. [1]), d_eth_tx_hash = (\<lambda>_. [8]),
      d_effective_gas_price = (\<lambda>_ _. 1), d_deposit_nonce = (\<lambda>_. 0),
      d_accrue_log = (\<lambda>_ b. b), d_accrue_bloom = (\<lambda>a b. or a b),
      d_header_default = example_header 0, d_block_hash = (\<lambda>h. 1 # hd_parent_hash h),
      d_transactions_root = (\<lambda>_. []), d_withdrawals_root = (\<lambda>_. []),
      d_receipts_root = (\<lambda>_. []), d_drain = (\<lambda>pool. pool)\<rparr>"

definition example_fee :: eip1559_gas_fee where
  "example_fee = \<lparr>elasticity_multiplier = 6, base_fee_max_change_denominator = 250\<rparr>"

abbreviation example_app :: "(ledger, unit) application" where
  "example_app \<equiv> application_new example_config example_fee example_ledger ()"

abbreviation example_header_for_execution :: header_for_execution where
  "example_header_for_execution \<equiv> \<lparr>hx_number = 1, hx_timestamp = 12, hx_prev_randao = []\<rparr>"

abbreviation example_batch :: "(b256 \<times> pooled) list" where
  "example_batch \<equiv>
     [([1], Eip7702 [] [], l1_input_of_bytes []), ([2], Deposit example_bridge, l1_input_of_bytes []),
      ([3], Deposit example_bridge, l1_input_of_bytes [])]"

lemma deposited_example:
  "execute_deposited_transaction example_node_machine v cfg hdr example_bridge h
     = Inr \<lparr>teo_vm_outcome = Inl (Vm vm_failure),
         teo_changes = \<lparr>ch_move_vm = Some ((fst v)\<lparr>ld_log := eth_transfers_logger_default\<rparr>), ch_evm = ()\<rparr>,
         teo_gas_used = 35, teo_l2_price = 0, teo_logs = [], teo_deployment = None\<rparr>"
  by (simp add: execute_deposited_transaction_def example_node_machine_def example_machine_on_def
      deposited_body_def example_bridge_def deposited_work_def serialize_args_def exec_defs Let_def
      example_vm_def example_call_def finish_session_def session_logs_def merge_def epanicking_def
      example_squash_def gas_used_of_def eget_def total_gas_used_def div_or_panic_def
      saturating_add_def error_conversions)

text \<open>The first transaction is skipped, the two deposits fail in the EVM and get receipts.\<close>

lemma example_batch_run:
  "\<exists>out rs app'. execute_transactions example_dependencies example_app example_batch 1000
     example_header_for_execution = Inr (out, rs, app') \<and> length rs = 2 \<and>
     map er_transaction_hash rs = [[2], [3]] \<and> (\<forall>r \<in> set rs. er_gas_used r = 35)"
  by (simp add: execute_transactions_def block_l1_fee_def execute_one_def example_dependencies_def
      execute_transaction_def deposited_example checked_outcome_def record_outcome_def Let_def
      logs_bloom_def u64_from_def building_new_def application_new_def saturating_add_def)

theorem receipts_account_for_block_witness:
  "\<exists>out rs app'. execute_transactions example_dependencies example_app example_batch 1000
     example_header_for_execution = Inr (out, rs, app') \<and> unat (eo_gas_used out) = 70 \<and>
     unat (cumulative_gas_used (receipt_of (er_receipt (rs ! 0)))) = 35"
proof -
  obtain out rs app' where run: "execute_transactions example_dependencies example_app example_batch 1000
      example_header_for_execution = Inr (out, rs, app')"
    and rs: "length rs = 2" "\<forall>r \<in> set rs. er_gas_used r = 35"
    using example_batch_run by blast
  obtain a b where ab: "rs = [a, b]" using rs(1) by (auto simp: length_Suc_conv numeral_2_eq_2)
  from receipts_account_for_block [OF run] rs have "unat (eo_gas_used out) = 70"
    "unat (cumulative_gas_used (receipt_of (er_receipt (rs ! 0)))) = 35"
    by (simp_all add: ab All_less_Suc)
  with run show ?thesis by (intro exI [of _ out] exI [of _ rs] exI [of _ app']) simp
qed

end
