(* ===== verification/Engine_Schema.thy ===== *)
theory Engine_Schema
  imports Json_Rpc App
begin

text \<open>
  The types of the engine API: \<^verbatim>\<open>api/src/schema/engine.rs\<close>, and their conversions to and from the types of
  the application. \<open>U64\<close> and \<open>u64\<close> are the same width, so that \<open>saturating_to\<close> and \<open>U64::from\<close> are
  \<open>saturating_to\<close> and the identity on \<open>u64\<close>; the derived encodings are third-party code.
\<close>

section \<open>Types\<close>

record withdrawal_v1 =
  w1_index :: u64
  w1_validator_index :: u64
  w1_address :: address
  w1_amount :: u64

record execution_payload_v3 =
  x3_parent_hash :: b256
  x3_fee_recipient :: address
  x3_state_root :: b256
  x3_receipts_root :: b256
  x3_logs_bloom :: bloom
  x3_prev_randao :: b256
  x3_block_number :: u64
  x3_gas_limit :: u64
  x3_gas_used :: u64
  x3_timestamp :: u64
  x3_extra_data :: bytes
  x3_base_fee_per_gas :: u256
  x3_block_hash :: b256
  x3_transactions :: "bytes list"
  x3_withdrawals :: "withdrawal_v1 list"
  x3_blob_gas_used :: u64
  x3_excess_blob_gas :: u64

record forkchoice_state_v1 =
  fs_head_block_hash :: b256
  fs_safe_block_hash :: b256
  fs_finalized_block_hash :: b256

record payload_attributes_v3 =
  at_timestamp :: u64
  at_prev_randao :: b256
  at_suggested_fee_recipient :: address
  at_withdrawals :: "withdrawal_v1 list"
  at_parent_beacon_block_root :: b256
  at_transactions :: "bytes list"
  at_gas_limit :: u64

datatype payload_status = Valid | Invalid | Syncing | Accepted | InvalidBlockHash

record payload_status_v1 =
  ps_status :: payload_status
  ps_latest_valid_hash :: "b256 option"
  ps_validation_error :: "string option"

record blobs_bundle_v1 =
  b1_commitments :: "bytes list"
  b1_proofs :: "bytes list"
  b1_blobs :: "bytes list"

record forkchoice_updated_response_v1 =
  fr_payload_status :: payload_status_v1
  fr_payload_id :: "payload_id option"

record get_payload_response_v3 =
  g3_execution_payload :: execution_payload_v3
  g3_block_value :: u256
  g3_blobs_bundle :: blobs_bundle_v1
  g3_should_override_builder :: bool
  g3_parent_beacon_block_root :: b256

section \<open>Payload identifiers as strings\<close>

text \<open>\<open>Display\<close> and \<open>Debug\<close>: without leading zeros. The JSON form pads to sixteen digits.\<close>

definition payload_id_fmt :: "payload_id \<Rightarrow> string" where
  "payload_id_fmt i = ''0x'' @ hex_digits (unat i)"

definition string_from_payload_id :: "payload_id \<Rightarrow> string" where
  "string_from_payload_id i =
     (let ds = hex_digits (unat i) in ''0x'' @ replicate (16 - length ds) CHR ''0'' @ ds)"

section \<open>Conversions\<close>

definition withdrawal_from_v1 :: "withdrawal_v1 \<Rightarrow> withdrawal" where
  "withdrawal_from_v1 v =
     \<lparr>wd_index = w1_index v, wd_validator_index = w1_validator_index v, wd_address = w1_address v,
      wd_amount = w1_amount v\<rparr>"

definition withdrawal_to_v1 :: "withdrawal \<Rightarrow> withdrawal_v1" where
  "withdrawal_to_v1 v =
     \<lparr>w1_index = wd_index v, w1_validator_index = wd_validator_index v, w1_address = wd_address v,
      w1_amount = wd_amount v\<rparr>"

definition payload_from_attributes :: "payload_attributes_v3 \<Rightarrow> payload" where
  "payload_from_attributes v =
     \<lparr>pa_timestamp = at_timestamp v, pa_prev_randao = at_prev_randao v,
      pa_suggested_fee_recipient = at_suggested_fee_recipient v,
      pa_withdrawals = map withdrawal_from_v1 (at_withdrawals v),
      pa_parent_beacon_block_root = at_parent_beacon_block_root v,
      pa_transactions = at_transactions v, pa_gas_limit = at_gas_limit v\<rparr>"

definition blobs_bundle_from_v1 :: "blobs_bundle_v1 \<Rightarrow> blobs_bundle" where
  "blobs_bundle_from_v1 v =
     \<lparr>bb_commitments = b1_commitments v, bb_proofs = b1_proofs v, bb_blobs = b1_blobs v\<rparr>"

definition blobs_bundle_to_v1 :: "blobs_bundle \<Rightarrow> blobs_bundle_v1" where
  "blobs_bundle_to_v1 v =
     \<lparr>b1_commitments = bb_commitments v, b1_proofs = bb_proofs v, b1_blobs = bb_blobs v\<rparr>"

definition execution_payload_from_v3 :: "execution_payload_v3 \<Rightarrow> execution_payload" where
  "execution_payload_from_v3 v =
     \<lparr>ep_parent_hash = x3_parent_hash v, ep_fee_recipient = x3_fee_recipient v,
      ep_state_root = x3_state_root v, ep_receipts_root = x3_receipts_root v,
      ep_logs_bloom = x3_logs_bloom v, ep_prev_randao = x3_prev_randao v,
      ep_block_number = x3_block_number v, ep_gas_limit = x3_gas_limit v,
      ep_gas_used = x3_gas_used v, ep_timestamp = x3_timestamp v,
      ep_extra_data = x3_extra_data v, ep_base_fee_per_gas = x3_base_fee_per_gas v,
      ep_block_hash = x3_block_hash v, ep_transactions = x3_transactions v,
      ep_withdrawals = map withdrawal_from_v1 (x3_withdrawals v),
      ep_blob_gas_used = x3_blob_gas_used v, ep_excess_blob_gas = x3_excess_blob_gas v\<rparr>"

definition execution_payload_to_v3 :: "execution_payload \<Rightarrow> execution_payload_v3" where
  "execution_payload_to_v3 v =
     \<lparr>x3_parent_hash = ep_parent_hash v, x3_fee_recipient = ep_fee_recipient v,
      x3_state_root = ep_state_root v, x3_receipts_root = ep_receipts_root v,
      x3_logs_bloom = ep_logs_bloom v, x3_prev_randao = ep_prev_randao v,
      x3_block_number = ep_block_number v, x3_gas_limit = ep_gas_limit v,
      x3_gas_used = ep_gas_used v, x3_timestamp = ep_timestamp v,
      x3_extra_data = ep_extra_data v, x3_base_fee_per_gas = ep_base_fee_per_gas v,
      x3_block_hash = ep_block_hash v, x3_transactions = ep_transactions v,
      x3_withdrawals = map withdrawal_to_v1 (ep_withdrawals v),
      x3_blob_gas_used = ep_blob_gas_used v, x3_excess_blob_gas = ep_excess_blob_gas v\<rparr>"

definition payload_response_from_v3 :: "get_payload_response_v3 \<Rightarrow> payload_response" where
  "payload_response_from_v3 v =
     \<lparr>pr_execution_payload = execution_payload_from_v3 (g3_execution_payload v),
      pr_block_value = g3_block_value v,
      pr_blobs_bundle = blobs_bundle_from_v1 (g3_blobs_bundle v),
      pr_should_override_builder = g3_should_override_builder v,
      pr_parent_beacon_block_root = g3_parent_beacon_block_root v\<rparr>"

definition payload_response_to_v3 :: "payload_response \<Rightarrow> get_payload_response_v3" where
  "payload_response_to_v3 v =
     \<lparr>g3_execution_payload = execution_payload_to_v3 (pr_execution_payload v),
      g3_block_value = pr_block_value v,
      g3_blobs_bundle = blobs_bundle_to_v1 (pr_blobs_bundle v),
      g3_should_override_builder = pr_should_override_builder v,
      g3_parent_beacon_block_root = pr_parent_beacon_block_root v\<rparr>"

section \<open>Properties\<close>

lemma withdrawal_v1_inverse [simp]: "withdrawal_to_v1 (withdrawal_from_v1 v) = v"
  by (simp add: withdrawal_to_v1_def withdrawal_from_v1_def)

lemma withdrawal_inverse [simp]: "withdrawal_from_v1 (withdrawal_to_v1 w) = w"
  by (simp add: withdrawal_to_v1_def withdrawal_from_v1_def)

lemma length_hex_digits: "n < 16 ^ Suc k \<Longrightarrow> length (hex_digits n) \<le> Suc k"
proof (induction k arbitrary: n)
  case 0
  then show ?case by (subst hex_digits.simps) simp
next
  case (Suc k)
  then have "n div 16 < 16 ^ Suc k" by (simp add: less_mult_imp_div_less)
  with Suc.IH show ?case by (subst hex_digits.simps) simp
qed

lemma from_hex_digits_zeros: "from_hex_digits (replicate k CHR ''0'' @ ds) 0 = from_hex_digits ds 0"
  by (induction k) (simp_all add: hex_value_def)

lemma hex_digits_nonempty: "hex_digits n \<noteq> []"
  by (subst hex_digits.simps) simp

lemma from_str_radix_16_digits:
  assumes "from_hex_digits ds 0 = Some n" "ds \<noteq> []" "n < 2 ^ 64"
  shows "from_str_radix_16 ds = Some (of_nat n)"
proof (cases ds)
  case (Cons c cs)
  have "hex_value CHR ''+'' = None" by (simp add: hex_value_def)
  with assms(1) Cons have "c \<noteq> CHR ''+''" by auto
  with assms Cons show ?thesis by (simp add: from_str_radix_16_def)
qed (use assms(2) in simp)

text \<open>Payload identifiers survive the wire: their JSON form always has eighteen characters, and
  the digits after the prefix read back as the identifier, as does the shorter form of the logs.\<close>

lemma payload_id_roundtrip:
  "length (string_from_payload_id i) = 18 \<and> take 2 (string_from_payload_id i) = ''0x'' \<and>
   from_str_radix_16 (drop 2 (string_from_payload_id i)) = Some i \<and>
   from_str_radix_16 (drop 2 (payload_id_fmt i)) = Some i"
proof -
  let ?ds = "hex_digits (unat i)"
  have lt: "unat i < 2 ^ 64" using unsigned_less [of i] by simp
  then have len: "length ?ds \<le> 16" using length_hex_digits [of "unat i" 15] by simp
  have "from_str_radix_16 (replicate k CHR ''0'' @ ?ds) = Some i" for k
    using from_str_radix_16_digits [OF _ _ lt] hex_digits_nonempty
    by (simp add: from_hex_digits_zeros from_hex_digits_hex)
  from this [of "16 - length ?ds"] this [of 0] show ?thesis
    using len by (simp add: string_from_payload_id_def payload_id_fmt_def Let_def)
qed

end
