(* ===== verification/State.thy ===== *)
theory State
  imports Execute Block_Memory Nonces "HOL-Library.AList" "HOL-Library.Multiset"
begin

text \<open>
  The state of the node and queries into its history: \<^verbatim>\<open>state/src/lib.rs\<close>, \<^verbatim>\<open>state/src/nodes.rs\<close> and
  \<^verbatim>\<open>blockchain/src/state/read.rs\<close>. A change set is flattened into keys and values of one Merkle trie,
  whose root is the state root; a query opens the trie at the root of a block. The trie, its node
  database \<open>'db\<close>, the state keys \<open>'k\<close>, the in-memory resolver \<open>'r\<close>, BCS and Keccak are third-party
  code: fields of \<open>state_ops\<close>.
\<close>

section \<open>Change sets\<close>

fun op_ok :: "'a change_op \<Rightarrow> 'a option" where
  "op_ok (New v) = Some v"
| "op_ok (Modify v) = Some v"
| "op_ok Delete = None"

record account_changes =
  ac_modules :: "(string \<times> bytes change_op) list"
  ac_resources :: "(struct_tag \<times> bytes change_op) list"

type_synonym change_set = "(account_address \<times> account_changes) list"

section \<open>Keys and values of the trie\<close>

datatype 'k tree_key = StateKey 'k | EvmKey address

datatype tree_value = Deleted | StateValue bytes | EvmValue bytes

record ('k, 'db, 't, 'r, 'tc) state_ops =
  so_module_key :: "account_address \<Rightarrow> string \<Rightarrow> 'k"
  so_resource_key :: "account_address \<Rightarrow> struct_tag \<Rightarrow> string + 'k"
  so_encoded :: "'k \<Rightarrow> bytes"
  so_keccak256 :: "bytes \<Rightarrow> b256"
  so_from_hex :: "string \<Rightarrow> address option"
  so_state_value_bytes :: "bytes \<Rightarrow> bytes"
  so_state_value_of :: "bytes \<Rightarrow> bytes option"
  so_open :: "'db \<Rightarrow> b256 option \<Rightarrow> string + 't"
  so_get :: "'db \<Rightarrow> 't \<Rightarrow> bytes \<Rightarrow> string + bytes option"
  so_insert :: "'db \<Rightarrow> 't \<Rightarrow> bytes \<Rightarrow> bytes \<Rightarrow> string + 't"
  so_root_hash :: "'db \<Rightarrow> 't \<Rightarrow> string + b256 \<times> 'db"
  so_order :: "('k tree_key \<times> tree_value) list \<Rightarrow> ('k tree_key \<times> tree_value) list"
  so_resolver_apply :: "change_set \<Rightarrow> 'r \<Rightarrow> partial_vm_error + 'r"
  so_resolver_apply_extended :: "change_set \<Rightarrow> 'tc \<Rightarrow> 'r \<Rightarrow> partial_vm_error + 'r"
  so_storage_error :: "string \<Rightarrow> partial_vm_error"
  so_data_format_error :: partial_vm_error

definition key_hash :: "('k, 'db, 't, 'r, 'tc) state_ops \<Rightarrow> 'k tree_key \<Rightarrow> bytes" where
  "key_hash so k =
     (case k of StateKey s \<Rightarrow> so_keccak256 so (so_encoded so s) | EvmKey a \<Rightarrow> so_keccak256 so a)"

definition serialize_value :: "('k, 'db, 't, 'r, 'tc) state_ops \<Rightarrow> tree_value \<Rightarrow> bytes" where
  "serialize_value so v =
     (case v of Deleted \<Rightarrow> [] | EvmValue b \<Rightarrow> b | StateValue b \<Rightarrow> so_state_value_bytes so b)"

fun strip_prefix :: "string \<Rightarrow> string \<Rightarrow> string option" where
  "strip_prefix s [] = Some s"
| "strip_prefix (c # s) (p # ps) = (if c = p then strip_prefix s ps else None)"
| "strip_prefix [] (p # ps) = None"

definition evm_key_address ::
  "('k, 'db, 't, 'r, 'tc) state_ops \<Rightarrow> struct_tag \<Rightarrow> address option" where
  "evm_key_address so k =
     (if st_address k = EVM_NATIVE_ADDRESS \<and> st_module k = EVM_NATIVE_MODULE
      then Option.bind (strip_prefix (st_name k) ACCOUNT_INFO_PREFIX) (so_from_hex so)
      else None)"

definition is_evm_storage_or_account_key :: "struct_tag \<Rightarrow> bool" where
  "is_evm_storage_or_account_key k \<longleftrightarrow>
     st_address k = EVM_NATIVE_ADDRESS \<and> st_module k = EVM_NATIVE_MODULE \<and>
     strip_prefix (st_name k) ACCOUNT_INFO_PREFIX \<noteq> None"

definition module_entry ::
  "('k, 'db, 't, 'r, 'tc) state_ops \<Rightarrow> account_address \<Rightarrow> string \<times> bytes change_op
     \<Rightarrow> 'k tree_key \<times> tree_value" where
  "module_entry so a = (\<lambda>(k, v).
     (StateKey (so_module_key so a k), case op_ok v of None \<Rightarrow> Deleted | Some b \<Rightarrow> StateValue b))"

definition resource_value :: "struct_tag \<Rightarrow> bytes change_op \<Rightarrow> tree_value" where
  "resource_value k v =
     (case op_ok v of
        None \<Rightarrow> Deleted
      | Some b \<Rightarrow> if is_evm_storage_or_account_key k then EvmValue b else StateValue b)"

definition resource_entry ::
  "('k, 'db, 't, 'r, 'tc) state_ops \<Rightarrow> account_address \<Rightarrow> struct_tag \<times> bytes change_op
     \<Rightarrow> panic + 'k tree_key \<times> tree_value" where
  "resource_entry so a = (\<lambda>(k, v).
     rbind (case evm_key_address so k of
              Some addr \<Rightarrow> Inr (EvmKey addr)
            | None \<Rightarrow> (case so_resource_key so a k of
                Inl _ \<Rightarrow> Inl (Panic ''called Result::unwrap() on an Err value'')
              | Inr s \<Rightarrow> Inr (StateKey s))) (\<lambda>key.
     Inr (key, resource_value k v)))"

definition tree_entries ::
  "('k, 'db, 't, 'r, 'tc) state_ops \<Rightarrow> change_set \<Rightarrow> panic + ('k tree_key \<times> tree_value) list" where
  "tree_entries so cs =
     collect_result (concat (map (\<lambda>(a, c).
       map (\<lambda>m. Inr (module_entry so a m)) (ac_modules c) @ map (resource_entry so a) (ac_resources c)) cs))"

text \<open>\<open>collect\<close> into a hash map: later entries replace earlier ones.\<close>

definition to_tree_values ::
  "('k, 'db, 't, 'r, 'tc) state_ops \<Rightarrow> change_set \<Rightarrow> panic + ('k tree_key \<times> tree_value) list" where
  "to_tree_values so cs =
     rbind (tree_entries so cs) (\<lambda>es. Inr (fold (\<lambda>(k, v). AList.update k v) es []))"

fun insert_all ::
  "('k, 'db, 't, 'r, 'tc) state_ops \<Rightarrow> 'db \<Rightarrow> ('k tree_key \<times> tree_value) list \<Rightarrow> 't \<Rightarrow> string + 't" where
  "insert_all so db [] t = Inr t"
| "insert_all so db ((k, v) # xs) t =
     rbind (so_insert so db t (key_hash so k) (serialize_value so v)) (insert_all so db xs)"

definition insert_change_set_into_merkle_trie ::
  "('k, 'db, 't, 'r, 'tc) state_ops \<Rightarrow> 'db \<Rightarrow> 't \<Rightarrow> change_set \<Rightarrow> panic + (string + b256 \<times> 'db)" where
  "insert_change_set_into_merkle_trie so db t cs =
     rbind (to_tree_values so cs) (\<lambda>vals.
     Inr (rbind (insert_all so db (so_order so vals) t) (so_root_hash so db)))"

section \<open>The in-memory state\<close>

definition IN_MEMORY_EXPECT_MSG :: string where
  "IN_MEMORY_EXPECT_MSG = ''In-memory storage cannot fail''"

record ('db, 'r) in_memory_state =
  im_resolver :: 'r
  im_db :: 'db
  im_current_state_root :: "b256 option"

definition in_memory_state_new :: "'r \<Rightarrow> 'db \<Rightarrow> ('db, 'r) in_memory_state" where
  "in_memory_state_new r db = \<lparr>im_resolver = r, im_db = db, im_current_state_root = None\<rparr>"

definition tree ::
  "('k, 'db, 't, 'r, 'tc) state_ops \<Rightarrow> ('db, 'r) in_memory_state \<Rightarrow> panic + 't" where
  "tree so st =
     map_err (\<lambda>_. Panic IN_MEMORY_EXPECT_MSG) (so_open so (im_db st) (im_current_state_root st))"

definition state_root :: "('db, 'r) in_memory_state \<Rightarrow> b256" where
  "state_root st = unwrap_or (im_current_state_root st) (replicate 32 0)"

definition update_root ::
  "('k, 'db, 't, 'r, 'tc) state_ops \<Rightarrow> change_set \<Rightarrow> ('db, 'r) in_memory_state
     \<Rightarrow> panic + ('db, 'r) in_memory_state" where
  "update_root so cs st =
     rbind (tree so st) (\<lambda>t.
     rbind (insert_change_set_into_merkle_trie so (im_db st) t cs) (\<lambda>r.
     rbind (map_err (\<lambda>_. Panic IN_MEMORY_EXPECT_MSG) r) (\<lambda>(root, db).
     Inr (st\<lparr>im_current_state_root := Some root, im_db := db\<rparr>))))"

text \<open>The root is replaced before the resolver applies the changes, which may fail.\<close>

definition state_apply ::
  "('k, 'db, 't, 'r, 'tc) state_ops \<Rightarrow> change_set \<Rightarrow> ('db, 'r) in_memory_state
     \<Rightarrow> panic + (partial_vm_error + unit) \<times> ('db, 'r) in_memory_state" where
  "state_apply so cs st =
     rbind (update_root so cs st) (\<lambda>st'.
     Inr (case so_resolver_apply so cs (im_resolver st') of
            Inl e \<Rightarrow> (Inl e, st')
          | Inr r \<Rightarrow> (Inr (), st'\<lparr>im_resolver := r\<rparr>)))"

definition apply_with_tables ::
  "('k, 'db, 't, 'r, 'tc) state_ops \<Rightarrow> change_set \<Rightarrow> 'tc \<Rightarrow> ('db, 'r) in_memory_state
     \<Rightarrow> panic + (partial_vm_error + unit) \<times> ('db, 'r) in_memory_state" where
  "apply_with_tables so cs tables st =
     rbind (update_root so cs st) (\<lambda>st'.
     Inr (case so_resolver_apply_extended so cs tables (im_resolver st') of
            Inl e \<Rightarrow> (Inl e, st')
          | Inr r \<Rightarrow> (Inr (), st'\<lparr>im_resolver := r\<rparr>)))"

section \<open>Reading the state through the trie\<close>

definition deserialize_state_value ::
  "('k, 'db, 't, 'r, 'tc) state_ops \<Rightarrow> bytes option \<Rightarrow> panic + bytes option" where
  "deserialize_state_value so b =
     (case b of
        None \<Rightarrow> Inr None
      | Some bs \<Rightarrow> rbind (ok_or (so_state_value_of so bs) (Panic ''Bytes must be serialized StateValue''))
          (\<lambda>inner. Inr (Some inner)))"

definition trie_err :: "('k, 'db, 't, 'r, 'tc) state_ops \<Rightarrow> string \<Rightarrow> partial_vm_error" where
  "trie_err so e = so_storage_error so e"

definition get_module ::
  "('k, 'db, 't, 'r, 'tc) state_ops \<Rightarrow> 'db \<Rightarrow> 't \<Rightarrow> module_id \<Rightarrow> panic + (partial_vm_error + bytes option)" where
  "get_module so db t i =
     (case so_get so db t (key_hash so (StateKey (so_module_key so (mid_address i) (mid_name i)))) of
        Inl e \<Rightarrow> Inr (Inl (trie_err so e))
      | Inr value \<Rightarrow> rbind (deserialize_state_value so value) (\<lambda>v. Inr (Inr v)))"

definition resource_tree_key ::
  "('k, 'db, 't, 'r, 'tc) state_ops \<Rightarrow> account_address \<Rightarrow> struct_tag \<Rightarrow> partial_vm_error + 'k tree_key" where
  "resource_tree_key so a tag =
     (case evm_key_address so tag of
        Some addr \<Rightarrow> Inr (EvmKey addr)
      | None \<Rightarrow> (case so_resource_key so a tag of
          Inl _ \<Rightarrow> Inl (so_data_format_error so)
        | Inr s \<Rightarrow> Inr (StateKey s)))"

definition get_resource ::
  "('k, 'db, 't, 'r, 'tc) state_ops \<Rightarrow> 'db \<Rightarrow> 't \<Rightarrow> account_address \<Rightarrow> struct_tag
     \<Rightarrow> panic + (partial_vm_error + bytes option \<times> nat)" where
  "get_resource so db t a tag =
     (case resource_tree_key so a tag of
        Inl e \<Rightarrow> Inr (Inl e)
      | Inr key \<Rightarrow>
          (case so_get so db t (key_hash so key) of
             Inl e \<Rightarrow> Inr (Inl (trie_err so e))
           | Inr value \<Rightarrow>
               rbind (if is_evm_storage_or_account_key tag then Inr value
                      else deserialize_state_value so value) (\<lambda>v.
               Inr (Inr (v, case v of None \<Rightarrow> 0 | Some b \<Rightarrow> length b)))))"

record resolver =
  rs_module :: "module_id \<Rightarrow> panic + (partial_vm_error + bytes option)"
  rs_resource :: "account_address \<Rightarrow> struct_tag \<Rightarrow> panic + (partial_vm_error + bytes option \<times> nat)"

definition eth_trie_resolver ::
  "('k, 'db, 't, 'r, 'tc) state_ops \<Rightarrow> 'db \<Rightarrow> 't \<Rightarrow> resolver" where
  "eth_trie_resolver so db t = \<lparr>rs_module = get_module so db t, rs_resource = get_resource so db t\<rparr>"

text \<open>\<open>ResolverBasedModuleBytesStorage\<close>; \<open>finish\<close> adds the location to the error.\<close>

definition fetch_module_bytes ::
  "(partial_vm_error \<Rightarrow> module_id \<Rightarrow> vm_error) \<Rightarrow> resolver \<Rightarrow> account_address \<Rightarrow> string
     \<Rightarrow> panic + (vm_error + bytes option)" where
  "fetch_module_bytes finish r a n =
     (let i = \<lparr>mid_address = a, mid_name = n\<rparr>
      in rbind (rs_module r i) (\<lambda>x. Inr (map_err (\<lambda>e. finish e i) x)))"

section \<open>Queries into the history\<close>

definition reader_root_by_height :: "block_pick \<Rightarrow> block_memory \<Rightarrow> u64 \<Rightarrow> b256 option" where
  "reader_root_by_height pick m h = map_by_height pick m h (\<lambda>b. hd_state_root (bl_header (eb_block b)))"

definition reader_height :: "block_memory \<Rightarrow> panic + u64" where
  "reader_height m = ok_or (height m) (Panic ''Genesis should not be missing'')"

record 'db state_queries =
  sq_memory :: block_memory
  sq_db :: 'db
  sq_genesis_state_root :: b256

definition root_by_height :: "block_pick \<Rightarrow> 'db state_queries \<Rightarrow> u64 \<Rightarrow> b256 option" where
  "root_by_height pick q h =
     (if h = 0 then Some (sq_genesis_state_root q) else reader_root_by_height pick (sq_memory q) h)"

definition query_resolver ::
  "('k, 'db, 't, 'r, 'tc) state_ops \<Rightarrow> block_pick \<Rightarrow> 'db state_queries \<Rightarrow> u64 \<Rightarrow> panic + resolver option" where
  "query_resolver so pick q h =
     (case root_by_height pick q h of
        None \<Rightarrow> Inr None
      | Some root \<Rightarrow>
          rbind (map_err (\<lambda>_. Panic ''State root should be valid'') (so_open so (sq_db q) (Some root)))
            (\<lambda>t. Inr (Some (eth_trie_resolver so (sq_db q) t))))"

definition resolver_at ::
  "('k, 'db, 't, 'r, 'tc) state_ops \<Rightarrow> block_pick \<Rightarrow> 'db state_queries \<Rightarrow> u64 \<Rightarrow> panic + resolver" where
  "resolver_at so pick q h =
     rbind (query_resolver so pick q h) (\<lambda>r.
     ok_or r (Panic ''called Option::unwrap() on a None value''))"

text \<open>\<open>new_session\<close> opens a session of the virtual machine over a resolver and the EVM storage.\<close>

definition balance_at ::
  "('k, 'db, 't, 'r, 'tc) state_ops \<Rightarrow> block_pick \<Rightarrow> 's vm_ops \<Rightarrow> (resolver \<Rightarrow> 'es \<Rightarrow> 's) \<Rightarrow> 'db state_queries
     \<Rightarrow> 'es \<Rightarrow> account_address \<Rightarrow> u64 \<Rightarrow> panic + u256 option" where
  "balance_at so pick vm new_session q evm_storage account h =
     rbind (query_resolver so pick q h) (\<lambda>r.
     case r of
       None \<Rightarrow> Inr None
     | Some res \<Rightarrow> rbind (quick_get_eth_balance vm (new_session res evm_storage) account) (\<lambda>b. Inr (Some b)))"

definition nonce_at ::
  "('k, 'db, 't, 'r, 'tc) state_ops \<Rightarrow> block_pick \<Rightarrow> 's vm_ops \<Rightarrow> (resolver \<Rightarrow> 'es \<Rightarrow> 's) \<Rightarrow> 'db state_queries
     \<Rightarrow> 'es \<Rightarrow> account_address \<Rightarrow> u64 \<Rightarrow> panic + u64 option" where
  "nonce_at so pick vm new_session q evm_storage account h =
     rbind (query_resolver so pick q h) (\<lambda>r.
     case r of
       None \<Rightarrow> Inr None
     | Some res \<Rightarrow> rbind (quick_get_nonce vm (new_session res evm_storage) account) (\<lambda>n. Inr (Some n)))"

section \<open>Laws of the trie\<close>

text \<open>
  What the node relies on of the third-party trie: \<open>rep db t m\<close> relates an open trie over a database
  to the map it stores, \<open>holds db root m\<close> says that the database holds a trie with that root. A trie
  opens at a root the database holds; reading and inserting work as on the map, where an empty value
  deletes; computing the root hash writes the nodes and keeps those of other roots, since the
  databases are created to keep them.
\<close>

definition trie_laws ::
  "('k, 'db, 't, 'r, 'tc) state_ops \<Rightarrow> ('db \<Rightarrow> 't \<Rightarrow> (bytes \<rightharpoonup> bytes) \<Rightarrow> bool)
     \<Rightarrow> ('db \<Rightarrow> b256 \<Rightarrow> (bytes \<rightharpoonup> bytes) \<Rightarrow> bool) \<Rightarrow> bool" where
  "trie_laws so rep holds \<longleftrightarrow>
     (\<forall>db. \<exists>t. so_open so db None = Inr t \<and> rep db t Map.empty) \<and>
     (\<forall>db root m. holds db root m \<longrightarrow> (\<exists>t. so_open so db (Some root) = Inr t \<and> rep db t m)) \<and>
     (\<forall>db t m k. rep db t m \<longrightarrow> so_get so db t k = Inr (m k)) \<and>
     (\<forall>db t m k v. rep db t m \<longrightarrow>
        (\<exists>t'. so_insert so db t k v = Inr t' \<and> rep db t' (m(k := if v = [] then None else Some v)))) \<and>
     (\<forall>db t m. rep db t m \<longrightarrow>
        (\<exists>root db'. so_root_hash so db t = Inr (root, db') \<and> holds db' root m \<and>
           (\<forall>r m'. holds db r m' \<longrightarrow> holds db' r m')))"

text \<open>Serialised state values are not empty and deserialise to what they were made of.\<close>

definition value_laws :: "('k, 'db, 't, 'r, 'tc) state_ops \<Rightarrow> bool" where
  "value_laws so \<longleftrightarrow>
     (\<forall>b. so_state_value_of so (so_state_value_bytes so b) = Some b \<and> so_state_value_bytes so b \<noteq> [])"

text \<open>The iteration order of a hash map.\<close>

definition order_laws :: "('k, 'db, 't, 'r, 'tc) state_ops \<Rightarrow> bool" where
  "order_laws so \<longleftrightarrow> (\<forall>xs. mset (so_order so xs) = mset xs)"

definition state_holds ::
  "('db \<Rightarrow> b256 \<Rightarrow> (bytes \<rightharpoonup> bytes) \<Rightarrow> bool) \<Rightarrow> ('db, 'r) in_memory_state \<Rightarrow> (bytes \<rightharpoonup> bytes) \<Rightarrow> bool" where
  "state_holds holds st m =
     (case im_current_state_root st of None \<Rightarrow> m = Map.empty | Some r \<Rightarrow> holds (im_db st) r m)"

lemma trie_opens:
  assumes "trie_laws so rep holds" "state_holds holds st m"
  shows "\<exists>t. so_open so (im_db st) (im_current_state_root st) = Inr t \<and> rep (im_db st) t m"
  using assms by (cases "im_current_state_root st") (auto simp: trie_laws_def state_holds_def)

lemma trie_open:
  "trie_laws so rep holds \<Longrightarrow> holds db root m \<Longrightarrow> \<exists>t. so_open so db (Some root) = Inr t \<and> rep db t m"
  by (simp add: trie_laws_def)

lemma trie_get: "trie_laws so rep holds \<Longrightarrow> rep db t m \<Longrightarrow> so_get so db t k = Inr (m k)"
  by (simp add: trie_laws_def)

lemma trie_commit:
  "trie_laws so rep holds \<Longrightarrow> rep db t m \<Longrightarrow> \<exists>root db'. so_root_hash so db t = Inr (root, db') \<and>
     holds db' root m \<and> (\<forall>r m'. holds db r m' \<longrightarrow> holds db' r m')"
  by (simp add: trie_laws_def)

text \<open>What a value becomes in the trie.\<close>

definition stored_value :: "('k, 'db, 't, 'r, 'tc) state_ops \<Rightarrow> tree_value \<Rightarrow> bytes option" where
  "stored_value so v = (let b = serialize_value so v in if b = [] then None else Some b)"

definition put ::
  "('k, 'db, 't, 'r, 'tc) state_ops \<Rightarrow> 'k tree_key \<times> tree_value \<Rightarrow> (bytes \<rightharpoonup> bytes) \<Rightarrow> (bytes \<rightharpoonup> bytes)" where
  "put so x m = m(key_hash so (fst x) := stored_value so (snd x))"

lemma put_apply: "put so (k, v) m h = (if h = key_hash so k then stored_value so v else m h)"
  by (simp add: put_def)

lemma trie_insert:
  assumes "trie_laws so rep holds" "rep db t m"
  shows "\<exists>t'. so_insert so db t (key_hash so k) (serialize_value so v) = Inr t' \<and> rep db t' (put so (k, v) m)"
  using assms unfolding trie_laws_def put_def stored_value_def Let_def fst_conv snd_conv by blast

lemma insert_all_rep:
  assumes "trie_laws so rep holds" "rep db t m"
  shows "\<exists>t'. insert_all so db xs t = Inr t' \<and>
    rep db t' (fold (put so) xs m)"
  using assms(2)
proof (induction xs arbitrary: t m)
  case (Cons x xs)
  obtain k v where x: "x = (k, v)" by (cases x)
  from trie_insert [OF assms(1) Cons.prems] obtain t1
    where "so_insert so db t (key_hash so k) (serialize_value so v) = Inr t1" "rep db t1 (put so (k, v) m)"
    by blast
  with Cons.IH [of t1] show ?case by (simp add: x)
qed auto

lemma fold_put_other:
  "h \<notin> (key_hash so \<circ> fst) ` set xs \<Longrightarrow>
     fold (put so) xs m h = m h"
  by (induction xs arbitrary: m) (auto simp: put_apply)

lemma fold_put:
  assumes "inj_on (key_hash so) K" "fst ` set xs \<subseteq> K" "distinct (map fst xs)" "k \<in> K"
  shows "fold (put so) xs m (key_hash so k)
    = (case map_of xs k of None \<Rightarrow> m (key_hash so k) | Some v \<Rightarrow> stored_value so v)"
  using assms(2,3)
proof (induction xs arbitrary: m)
  case (Cons x xs)
  obtain k' v where x: "x = (k', v)" by (cases x)
  have eq: "key_hash so k = key_hash so k' \<longleftrightarrow> k = k'"
    using assms(1,4) Cons.prems(1) by (auto simp: x inj_on_def)
  show ?case
  proof (cases "k = k'")
    case True
    have "key_hash so k' \<notin> (key_hash so \<circ> fst) ` set xs"
      using assms(1) Cons.prems by (auto simp: x inj_on_def)
    then show ?thesis using True by (simp add: x fold_put_other put_apply)
  next
    case False
    then show ?thesis using Cons.IH Cons.prems eq by (simp add: x put_apply cong: option.case_cong)
  qed
qed simp

lemma hash_map_distinct: "distinct (map fst (fold (\<lambda>(k, v). AList.update k v) es []))"
proof -
  have "distinct (map fst (fold (\<lambda>(k, v). AList.update k v) es al))" if "distinct (map fst al)" for al
    using that by (induction es arbitrary: al) (auto simp: AList.distinct_update)
  then show ?thesis by simp
qed

lemma hash_map_of:
  assumes "distinct (map fst es)"
  shows "map_of (fold (\<lambda>(k, v). AList.update k v) es []) = map_of es"
proof -
  have "map_of (fold (\<lambda>(k, v). AList.update k v) es al) = map_of al ++ map_of (rev es)" for al
    by (induction es arbitrary: al) (simp_all add: AList.update_conv' split_beta map_add_def fun_eq_iff split: option.split)
  moreover have "map_of (rev es) = map_of es" 
    using assms map_of_inject_set [of "rev es" es] by (simp flip: rev_map)
  ultimately show ?thesis by simp
qed

lemma ordered:
  assumes "order_laws so" "distinct (map fst xs)"
  shows "distinct (map fst (so_order so xs))" "map_of (so_order so xs) = map_of xs"
    "set (so_order so xs) = set xs"
proof -
  have ms: "mset (so_order so xs) = mset xs" using assms(1) by (simp add: order_laws_def)
  then show st: "set (so_order so xs) = set xs" by (metis set_mset_mset)
  have "mset (map fst (so_order so xs)) = mset (map fst xs)" by (simp add: ms)
  then show d: "distinct (map fst (so_order so xs))" using assms(2) mset_eq_imp_distinct_iff by blast
  show "map_of (so_order so xs) = map_of xs" using map_of_inject_set [OF d assms(2)] st by simp
qed

text \<open>The trie after a change set.\<close>

lemma update_root_trie:
  assumes laws: "trie_laws so rep holds" "order_laws so" and st: "state_holds holds st m"
    and es: "tree_entries so cs = Inr es" "distinct (map fst es)"
    and inj: "inj_on (key_hash so) K" "fst ` set es \<subseteq> K"
    and run: "update_root so cs st = Inr st'"
  shows "\<exists>m'. holds (im_db st') (state_root st') m' \<and> im_current_state_root st' = Some (state_root st') \<and>
    (\<forall>k \<in> K. m' (key_hash so k)
       = (case map_of es k of None \<Rightarrow> m (key_hash so k) | Some v \<Rightarrow> stored_value so v)) \<and>
    (\<forall>r m0. holds (im_db st) r m0 \<longrightarrow> holds (im_db st') r m0)"
proof -
  let ?vals = "so_order so (fold (\<lambda>(k, v). AList.update k v) es [])"
  obtain t where t: "so_open so (im_db st) (im_current_state_root st) = Inr t" "rep (im_db st) t m"
    using trie_opens [OF laws(1) st] by blast
  obtain t' where t': "insert_all so (im_db st) ?vals t = Inr t'"
    "rep (im_db st) t' (fold (put so) ?vals m)"
    using insert_all_rep [OF laws(1) t(2)] by blast
  obtain root db where db: "so_root_hash so (im_db st) t' = Inr (root, db)"
    "holds db root (fold (put so) ?vals m)" "\<forall>r m0. holds (im_db st) r m0 \<longrightarrow> holds db r m0"
    using trie_commit [OF laws(1) t'(2)] by blast
  have st': "st' = st\<lparr>im_current_state_root := Some root, im_db := db\<rparr>"
    using run by (simp add: update_root_def tree_def t insert_change_set_into_merkle_trie_def
        to_tree_values_def es t' db)
  note o = ordered [OF laws(2) hash_map_distinct [of es]]
  have "map_of ?vals = map_of es" using o(2) hash_map_of [OF es(2)] by simp
  moreover have "fst ` set ?vals \<subseteq> K"
    using inj(2) hash_map_of [OF es(2)] by (metis dom_map_of_conv_image_fst o(2))
  ultimately have "fold (put so) ?vals m (key_hash so k)
      = (case map_of es k of None \<Rightarrow> m (key_hash so k) | Some v \<Rightarrow> stored_value so v)" if "k \<in> K" for k
    using fold_put [OF inj(1) _ o(1) that] by simp
  then show ?thesis using db by (intro exI [of _ "fold (put so) ?vals m"]) (simp add: st' state_root_def)
qed

lemma state_apply_Inr:
  assumes "state_apply so cs st = Inr (Inr (), st')"
  shows "\<exists>st1. update_root so cs st = Inr st1 \<and> im_db st' = im_db st1 \<and>
    im_current_state_root st' = im_current_state_root st1"
proof -
  obtain st1 where st1: "update_root so cs st = Inr st1"
    using assms by (auto simp: state_apply_def rbind_Inr_iff)
  with assms show ?thesis
    by (cases "so_resolver_apply so cs (im_resolver st1)") (auto simp: state_apply_def)
qed

lemma get_module_rep:
  "trie_laws so rep holds \<Longrightarrow> rep db t m \<Longrightarrow> get_module so db t i =
     rbind (deserialize_state_value so (m (key_hash so (StateKey (so_module_key so (mid_address i) (mid_name i))))))
       (\<lambda>v. Inr (Inr v))"
  by (simp add: get_module_def trie_get)

lemma get_resource_rep:
  "trie_laws so rep holds \<Longrightarrow> rep db t m \<Longrightarrow> resource_tree_key so a tag = Inr key \<Longrightarrow>
     get_resource so db t a tag =
       rbind (if is_evm_storage_or_account_key tag then Inr (m (key_hash so key))
              else deserialize_state_value so (m (key_hash so key)))
         (\<lambda>v. Inr (Inr (v, case v of None \<Rightarrow> 0 | Some b \<Rightarrow> length b)))"
  by (simp add: get_resource_def trie_get)

lemma stored_module:
  "value_laws so \<Longrightarrow> deserialize_state_value so
     (stored_value so (case op_ok v of None \<Rightarrow> Deleted | Some b \<Rightarrow> StateValue b)) = Inr (op_ok v)"
  by (cases "op_ok v")
    (simp_all add: stored_value_def serialize_value_def deserialize_state_value_def value_laws_def Let_def)

lemma stored_resource:
  assumes "value_laws so" "is_evm_storage_or_account_key k \<Longrightarrow> op_ok v \<noteq> Some []"
  shows "(if is_evm_storage_or_account_key k then Inr (stored_value so (resource_value k v))
    else deserialize_state_value so (stored_value so (resource_value k v))) = Inr (op_ok v)"
  using assms by (cases "op_ok v")
    (auto simp: stored_value_def serialize_value_def deserialize_state_value_def value_laws_def Let_def
      resource_value_def)

lemma collect_result_Inr_iff: "collect_result ms = Inr xs \<longleftrightarrow> ms = map Inr xs"
proof (induction ms arbitrary: xs)
  case (Cons m ms)
  then show ?case by (cases xs) (auto simp: rbind_Inr_iff)
qed auto

lemma resource_entry_Inr:
  "resource_entry so a (k, v) = Inr e \<Longrightarrow> resource_tree_key so a k = Inr (fst e) \<and> snd e = resource_value k v"
  by (auto simp: resource_entry_def resource_tree_key_def rbind_Inr_iff split: option.splits sum.splits)

lemma tree_entries_members:
  assumes "tree_entries so cs = Inr es" "(a, c) \<in> set cs"
  shows "x \<in> set (ac_modules c) \<Longrightarrow> module_entry so a x \<in> set es"
    and "(k, v) \<in> set (ac_resources c) \<Longrightarrow>
      \<exists>key. (key, resource_value k v) \<in> set es \<and> resource_tree_key so a k = Inr key"
proof -
  let ?part = "\<lambda>(a, c).
    map (\<lambda>m. Inr (module_entry so a m)) (ac_modules c) @ map (resource_entry so a) (ac_resources c)"
  have "set (concat (map ?part cs)) = Inr ` set es"
    using assms(1) by (simp only: tree_entries_def collect_result_Inr_iff set_map)
  moreover have "set (?part (a, c)) \<subseteq> set (concat (map ?part cs))"
    using assms(2) by (simp only: set_concat set_map image_image) (rule UN_upper)
  ultimately have sub: "set (?part (a, c)) \<subseteq> Inr ` set es" by simp
  show "x \<in> set (ac_modules c) \<Longrightarrow> module_entry so a x \<in> set es" using sub by auto
  assume "(k, v) \<in> set (ac_resources c)"
  then have "resource_entry so a (k, v) \<in> Inr ` set es" using sub by auto
  then obtain e where "e \<in> set es" "resource_entry so a (k, v) = Inr e" by blast
  then show "\<exists>key. (key, resource_value k v) \<in> set es \<and> resource_tree_key so a k = Inr key"
    using resource_entry_Inr by (metis prod.collapse)
qed

text \<open>What the trie at the new root returns.\<close>

lemma update_root_reads:
  assumes laws: "trie_laws so rep holds" "value_laws so" "order_laws so" and st: "state_holds holds st m"
    and es: "tree_entries so cs = Inr es" "distinct (map fst es)"
    and inj: "inj_on (key_hash so) K" "fst ` set es \<subseteq> K"
    and run: "update_root so cs st = Inr st'"
  shows "\<exists>t'. so_open so (im_db st') (Some (state_root st')) = Inr t' \<and>
    (\<forall>(a, c) \<in> set cs. \<forall>(n, op) \<in> set (ac_modules c).
       get_module so (im_db st') t' \<lparr>mid_address = a, mid_name = n\<rparr> = Inr (Inr (op_ok op))) \<and>
    (\<forall>(a, c) \<in> set cs. \<forall>(tag, op) \<in> set (ac_resources c).
       (is_evm_storage_or_account_key tag \<longrightarrow> op_ok op \<noteq> Some []) \<longrightarrow>
       get_resource so (im_db st') t' a tag
         = Inr (Inr (op_ok op, case op_ok op of None \<Rightarrow> 0 | Some b \<Rightarrow> length b))) \<and>
    (\<forall>i t. StateKey (so_module_key so (mid_address i) (mid_name i)) \<in> K - fst ` set es \<longrightarrow>
       so_open so (im_db st) (im_current_state_root st) = Inr t \<longrightarrow>
       get_module so (im_db st') t' i = get_module so (im_db st) t i)"
proof -
  from update_root_trie [OF laws(1,3) st es inj run] obtain m' where
    held: "holds (im_db st') (state_root st') m'"
    and new: "\<And>k. k \<in> K \<Longrightarrow> m' (key_hash so k)
      = (case map_of es k of None \<Rightarrow> m (key_hash so k) | Some v \<Rightarrow> stored_value so v)"
    by auto
  obtain t' where t': "so_open so (im_db st') (Some (state_root st')) = Inr t'" "rep (im_db st') t' m'"
    using trie_open [OF laws(1) held] by blast
  have wrote: "m' (key_hash so k) = stored_value so v" if "(k, v) \<in> set es" for k v
  proof -
    have "k \<in> K" using inj(2) that by force
    then show ?thesis using new that es(2) by simp
  qed
  have "get_module so (im_db st') t' \<lparr>mid_address = a, mid_name = n\<rparr> = Inr (Inr (op_ok op))"
    if "(a, c) \<in> set cs" "(n, op) \<in> set (ac_modules c)" for a c n op
    using wrote tree_entries_members(1) [OF es(1) that(1,2)]
    by (simp add: get_module_rep [OF laws(1) t'(2)] module_entry_def stored_module [OF laws(2)])
  moreover have "get_resource so (im_db st') t' a tag
      = Inr (Inr (op_ok op, case op_ok op of None \<Rightarrow> 0 | Some b \<Rightarrow> length b))"
    if mem: "(a, c) \<in> set cs" "(tag, op) \<in> set (ac_resources c)"
      and ne: "is_evm_storage_or_account_key tag \<longrightarrow> op_ok op \<noteq> Some []" for a c tag op
  proof -
    obtain key where "(key, resource_value tag op) \<in> set es" and key: "resource_tree_key so a tag = Inr key"
      using tree_entries_members(2) [OF es(1) mem] by blast
    then have v: "m' (key_hash so key) = stored_value so (resource_value tag op)" by (simp add: wrote)
    have "(if is_evm_storage_or_account_key tag then Inr (stored_value so (resource_value tag op))
      else deserialize_state_value so (stored_value so (resource_value tag op))) = Inr (op_ok op)"
      by (rule stored_resource [OF laws(2)]) (use ne in simp)
    then show ?thesis by (simp only: get_resource_rep [OF laws(1) t'(2) key] v rbind_simps)
  qed
  moreover have "get_module so (im_db st') t' i = get_module so (im_db st) t i"
    if k: "StateKey (so_module_key so (mid_address i) (mid_name i)) \<in> K - fst ` set es"
      and t: "so_open so (im_db st) (im_current_state_root st) = Inr t" for i t
  proof -
    have "rep (im_db st) t m" using trie_opens [OF laws(1) st] t by auto
    moreover have "map_of es (StateKey (so_module_key so (mid_address i) (mid_name i))) = None"
      using k by (auto simp: map_of_eq_None_iff)
    ultimately show ?thesis
      using k new by (simp add: get_module_rep [OF laws(1)] get_module_rep [OF laws(1) t'(2)])
  qed
  ultimately show ?thesis using t'(1) by (intro exI [of _ t']) blast
qed

section \<open>Properties\<close>

text \<open>C31. What a transaction wrote is what the state trie at the new root returns: after a change set
  has been applied, the trie opens at the new state root, every module and every resource of the
  change set reads as its new value, or as absent when it was deleted, also the EVM accounts, whose
  keys and values bypass the state keys; and modules with other keys read as before. The
  keys of the change set are distinct, their hashes do not collide, and no EVM account is written
  as an empty value.\<close>

theorem state_apply_then_read:
  assumes laws: "trie_laws so rep holds" "value_laws so" "order_laws so" and st: "state_holds holds st m"
    and es: "tree_entries so cs = Inr es" "distinct (map fst es)"
    and inj: "inj_on (key_hash so) K" "fst ` set es \<subseteq> K"
    and run: "state_apply so cs st = Inr (Inr (), st')"
  shows "\<exists>t'. so_open so (im_db st') (Some (state_root st')) = Inr t' \<and>
    (\<forall>(a, c) \<in> set cs. \<forall>(n, op) \<in> set (ac_modules c).
       get_module so (im_db st') t' \<lparr>mid_address = a, mid_name = n\<rparr> = Inr (Inr (op_ok op))) \<and>
    (\<forall>(a, c) \<in> set cs. \<forall>(tag, op) \<in> set (ac_resources c).
       (is_evm_storage_or_account_key tag \<longrightarrow> op_ok op \<noteq> Some []) \<longrightarrow>
       get_resource so (im_db st') t' a tag
         = Inr (Inr (op_ok op, case op_ok op of None \<Rightarrow> 0 | Some b \<Rightarrow> length b))) \<and>
    (\<forall>i t. StateKey (so_module_key so (mid_address i) (mid_name i)) \<in> K - fst ` set es \<longrightarrow>
       so_open so (im_db st) (im_current_state_root st) = Inr t \<longrightarrow>
       get_module so (im_db st') t' i = get_module so (im_db st) t i)"
proof -
  from state_apply_Inr [OF run] obtain st1 where st1: "update_root so cs st = Inr st1"
    and same: "im_db st' = im_db st1" "im_current_state_root st' = im_current_state_root st1" by blast
  have root: "state_root st' = state_root st1" by (simp add: state_root_def same)
  show ?thesis unfolding same(1) root by (rule update_root_reads [OF laws st es inj st1])
qed

text \<open>A trie that keeps every version as a map, for evaluation.\<close>

definition example_state_ops ::
  "(bytes, (bytes \<rightharpoonup> bytes) list, bytes \<rightharpoonup> bytes, unit, unit) state_ops" where
  "example_state_ops =
     \<lparr>so_module_key = (\<lambda>_ _. [1]), so_resource_key = (\<lambda>_ _. Inr [2]), so_encoded = (\<lambda>k. k),
      so_keccak256 = (\<lambda>b. b), so_from_hex = (\<lambda>_. Some [9]), so_state_value_bytes = (\<lambda>b. 0 # b),
      so_state_value_of = (\<lambda>b. Some (tl b)),
      so_open = (\<lambda>db r. case r of None \<Rightarrow> Inr Map.empty
        | Some h \<Rightarrow> if length h < length db then Inr (db ! length h) else Inl ''unknown root''),
      so_get = (\<lambda>_ t k. Inr (t k)),
      so_insert = (\<lambda>_ t k v. Inr (t(k := if v = [] then None else Some v))),
      so_root_hash = (\<lambda>db t. Inr (replicate (length db) 0, db @ [t])),
      so_order = (\<lambda>xs. xs), so_resolver_apply = (\<lambda>_ _. Inr ()),
      so_resolver_apply_extended = (\<lambda>_ _ _. Inr ()),
      so_storage_error = (\<lambda>_. \<lparr>major_status = 1, vm_message = ''storage''\<rparr>),
      so_data_format_error = \<lparr>major_status = 2, vm_message = ''format''\<rparr>\<rparr>"

abbreviation example_holds :: "(bytes \<rightharpoonup> bytes) list \<Rightarrow> b256 \<Rightarrow> (bytes \<rightharpoonup> bytes) \<Rightarrow> bool" where
  "example_holds db r m \<equiv> length r < length db \<and> db ! length r = m"

lemma example_state_laws:
  "trie_laws example_state_ops (\<lambda>db t m. t = m) example_holds"
  "value_laws example_state_ops" "order_laws example_state_ops"
  by (auto simp: trie_laws_def value_laws_def order_laws_def example_state_ops_def nth_append)

definition example_changes :: change_set where
  "example_changes =
     [(EVM_NATIVE_ADDRESS, \<lparr>ac_modules = [(''m'', New [7])],
        ac_resources = [(account_info_struct_tag (replicate 20 5), Modify [5])]\<rparr>)]"

abbreviation example_state :: "((bytes \<rightharpoonup> bytes) list, unit) in_memory_state" where
  "example_state \<equiv> in_memory_state_new () []"

text \<open>The same state after the empty trie has been stored.\<close>

definition example_state2 :: "((bytes \<rightharpoonup> bytes) list, unit) in_memory_state" where
  "example_state2 = \<lparr>im_resolver = (), im_db = [Map.empty], im_current_state_root = Some []\<rparr>"

lemma strip_prefix_append [simp]: "strip_prefix (p @ s) p = Some s"
  by (induction p) simp_all

lemma example_entries:
  "tree_entries example_state_ops example_changes = Inr [(StateKey [1], StateValue [7]), (EvmKey [9], EvmValue [5])]"
  by (simp add: tree_entries_def example_changes_def module_entry_def resource_entry_def
      resource_value_def is_evm_storage_or_account_key_def evm_key_address_def account_info_struct_tag_def
      example_state_ops_def)

lemma example_keys: "key_hash example_state_ops (StateKey [1]) \<noteq> key_hash example_state_ops (EvmKey [9])"
  by (simp add: key_hash_def example_state_ops_def)

lemma example_inj: "inj_on (key_hash example_state_ops) {StateKey [1], EvmKey [9]}"
  using example_keys by auto

lemma example_applied:
  "\<exists>st'. state_apply example_state_ops example_changes example_state = Inr (Inr (), st')"
  "\<exists>st'. state_apply example_state_ops example_changes example_state2 = Inr (Inr (), st')"
  by (simp_all add: state_apply_def update_root_def tree_def insert_change_set_into_merkle_trie_def
      to_tree_values_def example_entries in_memory_state_new_def example_state2_def)
    (simp_all add: example_state_ops_def)

theorem state_apply_then_read_witness:
  "\<exists>st' t'. state_apply example_state_ops example_changes example_state = Inr (Inr (), st') \<and>
     get_module example_state_ops (im_db st') t' \<lparr>mid_address = EVM_NATIVE_ADDRESS, mid_name = ''m''\<rparr>
       = Inr (Inr (Some [7])) \<and>
     get_resource example_state_ops (im_db st') t' EVM_NATIVE_ADDRESS
       (account_info_struct_tag (replicate 20 5)) = Inr (Inr (Some [5], 1))"
proof -
  obtain st' where run: "state_apply example_state_ops example_changes example_state = Inr (Inr (), st')"
    using example_applied(1) by blast
  have st: "state_holds example_holds example_state Map.empty"
    by (simp add: state_holds_def in_memory_state_new_def)
  from state_apply_then_read [OF example_state_laws st example_entries _ example_inj _ run]
  obtain t' where
    "\<forall>(a, c) \<in> set example_changes. \<forall>(n, op) \<in> set (ac_modules c).
       get_module example_state_ops (im_db st') t' \<lparr>mid_address = a, mid_name = n\<rparr> = Inr (Inr (op_ok op))"
    "\<forall>(a, c) \<in> set example_changes. \<forall>(tag, op) \<in> set (ac_resources c).
       (is_evm_storage_or_account_key tag \<longrightarrow> op_ok op \<noteq> Some []) \<longrightarrow>
       get_resource example_state_ops (im_db st') t' a tag
         = Inr (Inr (op_ok op, case op_ok op of None \<Rightarrow> 0 | Some b \<Rightarrow> length b))"
    by auto
  then show ?thesis
    using run by (intro exI [of _ st'] exI [of _ t']) (simp add: example_changes_def)
qed

lemma resolver_rep:
  assumes "trie_laws so rep holds" "rep db t m" "rep db' t' m"
  shows "eth_trie_resolver so db t = eth_trie_resolver so db' t'"
proof -
  have "so_get so db t = so_get so db' t'"
    using trie_get [OF assms(1,2)] trie_get [OF assms(1,3)] by (intro ext) simp
  then show ?thesis
    by (simp only: eth_trie_resolver_def get_module_def [abs_def] get_resource_def [abs_def])
qed

text \<open>The EVM is not used for querying balances and nonces.\<close>

definition evm_unused :: "'s vm_ops \<Rightarrow> (resolver \<Rightarrow> 'es \<Rightarrow> 's) \<Rightarrow> bool" where
  "evm_unused vm new_session \<longleftrightarrow>
     (\<forall>res a e e'. quick_get_eth_balance vm (new_session res e') a = quick_get_eth_balance vm (new_session res e) a \<and>
        quick_get_nonce vm (new_session res e') a = quick_get_nonce vm (new_session res e) a)"

text \<open>C32. History does not change: once the state of a block is in the database, balances and nonces
  queried at its height stay what they are when later transactions change the state and a later block
  is stored. The EVM storage may have changed as well, as long as these two queries do not use the EVM.\<close>

theorem history_is_kept:
  assumes laws: "trie_laws so rep holds" "order_laws so" and st: "state_holds holds st m"
    and es: "tree_entries so cs = Inr es" "distinct (map fst es)" "inj_on (key_hash so) (fst ` set es)"
    and run: "state_apply so cs st = Inr (Inr (), st')"
    and pick: "picks_member pick" and blocks: "chain_ok mem" "unat (number_of b) = em_len (bm_heights mem)"
    and q: "q = \<lparr>sq_memory = mem, sq_db = im_db st, sq_genesis_state_root = g\<rparr>"
      "q' = \<lparr>sq_memory = block_memory_add b mem, sq_db = im_db st', sq_genesis_state_root = g\<rparr>"
    and h: "unat h < em_len (bm_heights mem)" "root_by_height pick q h = Some r" "holds (im_db st) r m0"
    and evm: "evm' = evm \<or> evm_unused vm new_session"
  shows "balance_at so pick vm new_session q' evm' a h = balance_at so pick vm new_session q evm a h \<and>
    nonce_at so pick vm new_session q' evm' a h = nonce_at so pick vm new_session q evm a h"
proof -
  from state_apply_Inr [OF run] obtain st1 where st1: "update_root so cs st = Inr st1"
    and same: "im_db st' = im_db st1" by blast
  have kept: "holds (im_db st') r m0"
    using update_root_trie [OF laws st es(1,2,3) order_refl st1] h(3) same by auto
  obtain t t' where t: "so_open so (im_db st) (Some r) = Inr t" "rep (im_db st) t m0"
    and t': "so_open so (im_db st') (Some r) = Inr t'" "rep (im_db st') t' m0"
    using trie_open [OF laws(1) h(3)] trie_open [OF laws(1) kept] by blast
  have "h \<noteq> number_of b" using h(1) blocks(2) by auto
  then have "root_by_height pick q' h = root_by_height pick q h"
    using by_height_add(2) [OF pick blocks]
    by (simp add: root_by_height_def reader_root_by_height_def q map_by_height_def flip: get_one_by_height)
  then have "query_resolver so pick q' h = query_resolver so pick q h"
    using t t' h(2) resolver_rep [OF laws(1) t(2) t'(2)] by (simp add: query_resolver_def q)
  moreover have "quick_get_eth_balance vm (new_session res evm') a = quick_get_eth_balance vm (new_session res evm) a"
    "quick_get_nonce vm (new_session res evm') a = quick_get_nonce vm (new_session res evm) a" for res
    using evm unfolding evm_unused_def by blast+
  ultimately show ?thesis by (simp add: balance_at_def nonce_at_def cong: option.case_cong)
qed

theorem history_is_kept_witness:
  "\<exists>st'. state_apply example_state_ops example_changes example_state2 = Inr (Inr (), st') \<and>
     balance_at example_state_ops hd example_vm (\<lambda>_ (_ :: nat). example_ledger)
       \<lparr>sq_memory = block_memory_add (example_block 1 [8]) (block_memory_add (example_block 0 [7]) block_memory_new),
        sq_db = im_db st', sq_genesis_state_root = []\<rparr> 1 (replicate 32 5) 0
     = balance_at example_state_ops hd example_vm (\<lambda>_ (_ :: nat). example_ledger)
       \<lparr>sq_memory = block_memory_add (example_block 0 [7]) block_memory_new,
        sq_db = im_db example_state2, sq_genesis_state_root = []\<rparr> 0 (replicate 32 5) 0"
proof -
  obtain st' where run: "state_apply example_state_ops example_changes example_state2 = Inr (Inr (), st')"
    using example_applied(2) by blast
  have st: "state_holds example_holds example_state2 Map.empty" by (simp add: state_holds_def example_state2_def)
  have num: "number_of (example_block n h) = n" for n h by (simp add: example_block_defs)
  have len: "em_len (bm_heights block_memory_new) = 0" by (simp add: block_memory_new_def em_new_def em_len_def)
  have mem: "chain_ok (block_memory_add (example_block 0 [7]) block_memory_new)"
    "em_len (bm_heights (block_memory_add (example_block 0 [7]) block_memory_new)) = Suc 0"
    using chain_ok_add [OF chain_ok_new, of "example_block 0 [7]"] by (simp_all add: num len)
  have "root_by_height hd \<lparr>sq_memory = block_memory_add (example_block 0 [7]) block_memory_new,
      sq_db = im_db example_state2, sq_genesis_state_root = []\<rparr> 0 = Some []"
    by (simp add: root_by_height_def)
  from history_is_kept [OF example_state_laws(1,3) st example_entries _ _ run picks_member_hd mem(1) _ refl refl
      _ this, where b = "example_block 1 [8]" and ?m0.0 = Map.empty and evm' = "1 :: nat" and evm = 0 and vm = example_vm
      and new_session = "\<lambda>_ _. example_ledger" and a = "replicate 32 5"] run
  show ?thesis
    by (intro exI [of _ st']) (simp add: num mem(2) example_keys example_state2_def evm_unused_def)
qed

end
