(* ===== verification/Evm_Storage.thy ===== *)
theory Evm_Storage
  imports State
begin

text \<open>
  Storage of the EVM accounts: \<^verbatim>\<open>evm-ext/src/state/storage.rs\<close> and \<^verbatim>\<open>trie/src/staging.rs\<close>. Every
  account has a Merkle trie of its own over a database with two layers: \<open>inner\<close> holds the nodes that
  have been applied and the current root, \<open>memory\<close> stages the nodes of tries that were only
  committed. The trie is third-party code; its operations and RLP are fields of \<open>storage_ops\<close>.
  A trie that the sources share by reference is given here by its account, whose database is looked
  up in the repository at each call.
\<close>

section \<open>Databases of nodes\<close>

type_synonym nodes = "bytes \<rightharpoonup> bytes"

record in_memory_db =
  idb_root :: "b256 option"
  idb_nodes :: nodes

definition in_memory_db_empty :: in_memory_db where
  "in_memory_db_empty = \<lparr>idb_root = None, idb_nodes = Map.empty\<rparr>"

definition idb_get :: "in_memory_db \<Rightarrow> bytes \<Rightarrow> bytes option" where
  "idb_get db k = idb_nodes db k"

definition idb_insert :: "bytes \<Rightarrow> bytes \<Rightarrow> in_memory_db \<Rightarrow> in_memory_db" where
  "idb_insert k v db = db\<lparr>idb_nodes := (idb_nodes db)(k \<mapsto> v)\<rparr>"

text \<open>The database is created as one that keeps removed nodes.\<close>

definition idb_remove :: "bytes \<Rightarrow> in_memory_db \<Rightarrow> in_memory_db" where
  "idb_remove k db = db"

definition put_root :: "b256 \<Rightarrow> in_memory_db \<Rightarrow> in_memory_db" where
  "put_root r db = db\<lparr>idb_root := Some r\<rparr>"

record staging_db =
  sg_memory :: nodes
  sg_inner :: in_memory_db

definition staging_new :: "in_memory_db \<Rightarrow> staging_db" where
  "staging_new db = \<lparr>sg_memory = Map.empty, sg_inner = db\<rparr>"

definition staging_get :: "staging_db \<Rightarrow> bytes \<Rightarrow> bytes option" where
  "staging_get db k = (case sg_memory db k of Some v \<Rightarrow> Some v | None \<Rightarrow> idb_get (sg_inner db) k)"

definition staging_insert :: "bytes \<Rightarrow> bytes \<Rightarrow> staging_db \<Rightarrow> staging_db" where
  "staging_insert k v db = db\<lparr>sg_memory := (sg_memory db)(k \<mapsto> v)\<rparr>"

definition staging_insert_batch :: "(bytes \<times> bytes) list \<Rightarrow> staging_db \<Rightarrow> staging_db" where
  "staging_insert_batch kvs db = fold (\<lambda>(k, v). staging_insert k v) kvs db"

definition staging_remove :: "bytes \<Rightarrow> staging_db \<Rightarrow> staging_db" where
  "staging_remove k db = db\<lparr>sg_memory := (sg_memory db)(k := None)\<rparr>"

definition staging_root :: "staging_db \<Rightarrow> b256 option" where
  "staging_root db = idb_root (sg_inner db)"

section \<open>Tries\<close>

datatype storage_error = EthTrie string | Rlp string

text \<open>What committing a trie returns and does to its database: the root, the new nodes, the trie
  after it, and the writes followed by the removals.\<close>

record 't committed =
  cm_root :: b256
  cm_diff :: nodes
  cm_trie :: 't
  cm_writes :: "(bytes \<times> bytes) list"
  cm_removes :: "bytes list"

record storage_trie_changes =
  tc_root :: b256
  tc_trie_diff :: nodes

type_synonym storage_tries_changes = "(address \<times> storage_trie_changes) list"

text \<open>\<open>ss_order\<close> is the iteration order of a hash map.\<close>

record 't storage_ops =
  ss_keccak256 :: "bytes \<Rightarrow> b256"
  ss_encode_rlp :: "u256 \<Rightarrow> bytes"
  ss_decode_rlp :: "bytes \<Rightarrow> string + u256"
  ss_new :: 't
  ss_open :: "nodes \<Rightarrow> b256 \<Rightarrow> string + 't"
  ss_get :: "nodes \<Rightarrow> 't \<Rightarrow> bytes \<Rightarrow> string + bytes option"
  ss_insert :: "nodes \<Rightarrow> 't \<Rightarrow> bytes \<Rightarrow> bytes \<Rightarrow> string + 't"
  ss_remove :: "nodes \<Rightarrow> 't \<Rightarrow> bytes \<Rightarrow> string + 't"
  ss_commit :: "nodes \<Rightarrow> 't \<Rightarrow> string + 't committed"
  ss_root_hash :: "nodes \<Rightarrow> 't \<Rightarrow> string + 't committed"
  ss_order :: "storage_tries_changes \<Rightarrow> storage_tries_changes"

record 't storage_trie =
  tr_account :: address
  tr_trie :: 't

section \<open>The repository\<close>

type_synonym repository = "address \<rightharpoonup> staging_db"

type_synonym 'a storing = "repository \<Rightarrow> (storage_error + 'a) \<times> repository"

definition sbind :: "'a storing \<Rightarrow> ('a \<Rightarrow> 'b storing) \<Rightarrow> 'b storing" where
  "sbind m f repo = (case m repo of (Inl e, repo') \<Rightarrow> (Inl e, repo') | (Inr a, repo') \<Rightarrow> f a repo')"

definition repository_new :: repository where
  "repository_new = Map.empty"

definition create :: staging_db where
  "create = staging_new in_memory_db_empty"

text \<open>The database of an account, with \<open>create\<close> for an account that has none yet.\<close>

definition db_of :: "repository \<Rightarrow> address \<Rightarrow> staging_db" where
  "db_of repo a = (case repo a of Some db \<Rightarrow> db | None \<Rightarrow> create)"

definition repository_db :: "repository \<Rightarrow> address \<Rightarrow> staging_db \<times> repository" where
  "repository_db repo a = (db_of repo a, repo(a \<mapsto> db_of repo a))"

definition update_db :: "address \<Rightarrow> (staging_db \<Rightarrow> staging_db) \<Rightarrow> repository \<Rightarrow> repository" where
  "update_db a f repo = repo(a \<mapsto> f (db_of repo a))"

definition for_account_with_root ::
  "'t storage_ops \<Rightarrow> address \<Rightarrow> b256 \<Rightarrow> 't storage_trie storing" where
  "for_account_with_root ss a root repo =
     (case repository_db repo a of
        (db, repo') \<Rightarrow>
          (case ss_open ss (staging_get db) root of
             Inl e \<Rightarrow> (Inl (EthTrie e), repo')
           | Inr t \<Rightarrow> (Inr \<lparr>tr_account = a, tr_trie = t\<rparr>, repo')))"

definition for_account :: "'t storage_ops \<Rightarrow> address \<Rightarrow> 't storage_trie storing" where
  "for_account ss a repo =
     (case repository_db repo a of
        (db, repo') \<Rightarrow>
          (case staging_root db of
             Some root \<Rightarrow> for_account_with_root ss a root repo'
           | None \<Rightarrow> (Inr \<lparr>tr_account = a, tr_trie = ss_new ss\<rparr>, repo')))"

definition trie_key :: "'t storage_ops \<Rightarrow> u256 \<Rightarrow> bytes" where
  "trie_key ss index = ss_keccak256 ss (be_bytes 32 index)"

definition trie_view :: "repository \<Rightarrow> 't storage_trie \<Rightarrow> nodes" where
  "trie_view repo tr = staging_get (db_of repo (tr_account tr))"

definition storage_get :: "'t storage_ops \<Rightarrow> 't storage_trie \<Rightarrow> u256 \<Rightarrow> u256 option storing" where
  "storage_get ss tr index repo =
     (case ss_get ss (trie_view repo tr) (tr_trie tr) (trie_key ss index) of
        Inl e \<Rightarrow> (Inl (EthTrie e), repo)
      | Inr None \<Rightarrow> (Inr None, repo)
      | Inr (Some bs) \<Rightarrow>
          (case ss_decode_rlp ss bs of
             Inl e \<Rightarrow> (Inl (Rlp e), repo)
           | Inr v \<Rightarrow> (Inr (Some v), repo)))"

definition storage_insert ::
  "'t storage_ops \<Rightarrow> 't storage_trie \<Rightarrow> u256 \<Rightarrow> u256 \<Rightarrow> 't storage_trie storing" where
  "storage_insert ss tr index v repo =
     (case (if v = 0 then ss_remove ss (trie_view repo tr) (tr_trie tr) (trie_key ss index)
            else ss_insert ss (trie_view repo tr) (tr_trie tr) (trie_key ss index) (ss_encode_rlp ss v)) of
        Inl e \<Rightarrow> (Inl (EthTrie e), repo)
      | Inr t \<Rightarrow> (Inr (tr\<lparr>tr_trie := t\<rparr>), repo))"

definition stage_nodes :: "'t committed \<Rightarrow> staging_db \<Rightarrow> staging_db" where
  "stage_nodes c db = fold staging_remove (cm_removes c) (staging_insert_batch (cm_writes c) db)"

definition storage_commit ::
  "'t storage_ops \<Rightarrow> 't storage_trie \<Rightarrow> (storage_trie_changes \<times> 't storage_trie) storing" where
  "storage_commit ss tr repo =
     (case ss_commit ss (trie_view repo tr) (tr_trie tr) of
        Inl e \<Rightarrow> (Inl (EthTrie e), repo)
      | Inr c \<Rightarrow>
          (Inr (\<lparr>tc_root = cm_root c, tc_trie_diff = cm_diff c\<rparr>, tr\<lparr>tr_trie := cm_trie c\<rparr>),
           update_db (tr_account tr) (stage_nodes c) repo))"

text \<open>\<open>root_hash\<close> commits too, and returns only the root.\<close>

definition storage_root_hash :: "'t storage_ops \<Rightarrow> 't storage_trie \<Rightarrow> (b256 \<times> 't storage_trie) storing" where
  "storage_root_hash ss tr repo =
     (case ss_root_hash ss (trie_view repo tr) (tr_trie tr) of
        Inl e \<Rightarrow> (Inl (EthTrie e), repo)
      | Inr c \<Rightarrow>
          (Inr (cm_root c, tr\<lparr>tr_trie := cm_trie c\<rparr>), update_db (tr_account tr) (stage_nodes c) repo))"

text \<open>The new nodes go to the inner database, in an order that does not matter, then the root.\<close>

definition apply_nodes :: "storage_trie_changes \<Rightarrow> staging_db \<Rightarrow> staging_db" where
  "apply_nodes c db =
     db\<lparr>sg_inner := put_root (tc_root c)
          ((sg_inner db)\<lparr>idb_nodes := idb_nodes (sg_inner db) ++ tc_trie_diff c\<rparr>)\<rparr>"

definition trie_apply :: "'t storage_trie \<Rightarrow> storage_trie_changes \<Rightarrow> unit storing" where
  "trie_apply tr c repo = (Inr (), update_db (tr_account tr) (apply_nodes c) repo)"

fun apply_tries :: "'t storage_ops \<Rightarrow> storage_tries_changes \<Rightarrow> unit storing" where
  "apply_tries ss [] repo = (Inr (), repo)"
| "apply_tries ss ((a, c) # cs) repo =
     sbind (sbind (for_account ss a) (\<lambda>tr. trie_apply tr c)) (\<lambda>_. apply_tries ss cs) repo"

definition repository_apply :: "'t storage_ops \<Rightarrow> storage_tries_changes \<Rightarrow> unit storing" where
  "repository_apply ss changes = apply_tries ss (ss_order ss changes)"

section \<open>Changes\<close>

definition storage_trie_changes_add ::
  "storage_trie_changes \<Rightarrow> storage_trie_changes \<Rightarrow> storage_trie_changes" where
  "storage_trie_changes_add c d = \<lparr>tc_root = tc_root d, tc_trie_diff = tc_trie_diff c ++ tc_trie_diff d\<rparr>"

definition with_trie_changes ::
  "address \<Rightarrow> storage_trie_changes \<Rightarrow> storage_tries_changes \<Rightarrow> storage_tries_changes" where
  "with_trie_changes a c ts =
     AList.update a
       (case map_of ts a of Some old \<Rightarrow> storage_trie_changes_add old c | None \<Rightarrow> c)
       (AList.delete a ts)"

section \<open>Laws of the tries\<close>

text \<open>
  What the sources rely on of the tries: \<open>holds base r m\<close> says that the nodes \<open>base\<close> contain a trie
  with root \<open>r\<close> and contents \<open>m\<close>, \<open>rep base t m\<close> that the open trie \<open>t\<close> has contents \<open>m\<close> and needs
  no stored nodes outside \<open>base\<close>. Nodes are stored under their hashes: \<open>hashed\<close> is the map from hashes to nodes
  that all databases are part of, so that more nodes never change what a trie reads. Committing
  returns the nodes that are missing in \<open>base\<close>.
\<close>

definition storage_laws ::
  "'t storage_ops \<Rightarrow> nodes \<Rightarrow> (nodes \<Rightarrow> 't \<Rightarrow> (bytes \<rightharpoonup> bytes) \<Rightarrow> bool)
     \<Rightarrow> (nodes \<Rightarrow> b256 \<Rightarrow> (bytes \<rightharpoonup> bytes) \<Rightarrow> bool) \<Rightarrow> bool" where
  "storage_laws ss hashed rep holds \<longleftrightarrow>
     (\<forall>base. rep base (ss_new ss) Map.empty) \<and>
     (\<forall>base v r m. holds base r m \<and> base \<subseteq>\<^sub>m v \<longrightarrow> (\<exists>t. ss_open ss v r = Inr t \<and> rep base t m)) \<and>
     (\<forall>base v t m k. rep base t m \<and> base \<subseteq>\<^sub>m v \<longrightarrow> ss_get ss v t k = Inr (m k)) \<and>
     (\<forall>base v t m k x. rep base t m \<and> base \<subseteq>\<^sub>m v \<and> x \<noteq> [] \<longrightarrow>
        (\<exists>t'. ss_insert ss v t k x = Inr t' \<and> rep base t' (m(k \<mapsto> x)))) \<and>
     (\<forall>base v t m k. rep base t m \<and> base \<subseteq>\<^sub>m v \<longrightarrow>
        (\<exists>t'. ss_remove ss v t k = Inr t' \<and> rep base t' (m(k := None)))) \<and>
     (\<forall>base v t m. rep base t m \<and> base \<subseteq>\<^sub>m v \<longrightarrow>
        (\<exists>c. ss_commit ss v t = Inr c \<and> holds (base ++ cm_diff c) (cm_root c) m \<and>
           cm_diff c \<subseteq>\<^sub>m hashed \<and> (\<forall>(k, x) \<in> set (cm_writes c). hashed k = Some x))) \<and>
     (\<forall>base base' r m. holds base r m \<and> base \<subseteq>\<^sub>m base' \<longrightarrow> holds base' r m)"

text \<open>Values are encoded as non-empty bytes and decoded again; a hash map is iterated in some order.\<close>

definition rlp_laws :: "'t storage_ops \<Rightarrow> bool" where
  "rlp_laws ss \<longleftrightarrow> (\<forall>v. ss_encode_rlp ss v \<noteq> [] \<and> ss_decode_rlp ss (ss_encode_rlp ss v) = Inr v) \<and>
     (\<forall>cs. mset (ss_order ss cs) = mset cs)"

abbreviation inner_nodes :: "repository \<Rightarrow> address \<Rightarrow> nodes" where
  "inner_nodes repo a \<equiv> idb_nodes (sg_inner (db_of repo a))"

abbreviation inner_root :: "repository \<Rightarrow> address \<Rightarrow> b256 option" where
  "inner_root repo a \<equiv> idb_root (sg_inner (db_of repo a))"

definition repo_ok :: "nodes \<Rightarrow> repository \<Rightarrow> bool" where
  "repo_ok hashed repo \<longleftrightarrow>
     (\<forall>a. sg_memory (db_of repo a) \<subseteq>\<^sub>m hashed \<and> inner_nodes repo a \<subseteq>\<^sub>m hashed)"

text \<open>The repository stores the contents \<open>m\<close> for an account.\<close>

definition storage_holds ::
  "(nodes \<Rightarrow> b256 \<Rightarrow> (bytes \<rightharpoonup> bytes) \<Rightarrow> bool) \<Rightarrow> repository \<Rightarrow> address \<Rightarrow> (bytes \<rightharpoonup> bytes) \<Rightarrow> bool" where
  "storage_holds holds repo a m =
     (case inner_root repo a of None \<Rightarrow> m = Map.empty | Some r \<Rightarrow> holds (inner_nodes repo a) r m)"

lemma storage_law_new: "storage_laws ss hashed rep holds \<Longrightarrow> rep base (ss_new ss) Map.empty"
  by (simp add: storage_laws_def)

lemma storage_law_open:
  "storage_laws ss hashed rep holds \<Longrightarrow> holds base r m \<Longrightarrow> base \<subseteq>\<^sub>m v \<Longrightarrow>
     \<exists>t. ss_open ss v r = Inr t \<and> rep base t m"
  by (simp add: storage_laws_def)

lemma storage_law_get:
  "storage_laws ss hashed rep holds \<Longrightarrow> rep base t m \<Longrightarrow> base \<subseteq>\<^sub>m v \<Longrightarrow> ss_get ss v t k = Inr (m k)"
  by (simp add: storage_laws_def)

lemma storage_law_insert:
  "storage_laws ss hashed rep holds \<Longrightarrow> rep base t m \<Longrightarrow> base \<subseteq>\<^sub>m v \<Longrightarrow> x \<noteq> [] \<Longrightarrow>
     \<exists>t'. ss_insert ss v t k x = Inr t' \<and> rep base t' (m(k \<mapsto> x))"
  by (simp add: storage_laws_def)

lemma storage_law_remove:
  "storage_laws ss hashed rep holds \<Longrightarrow> rep base t m \<Longrightarrow> base \<subseteq>\<^sub>m v \<Longrightarrow>
     \<exists>t'. ss_remove ss v t k = Inr t' \<and> rep base t' (m(k := None))"
  by (simp add: storage_laws_def)

lemma storage_law_commit:
  "storage_laws ss hashed rep holds \<Longrightarrow> rep base t m \<Longrightarrow> base \<subseteq>\<^sub>m v \<Longrightarrow>
     \<exists>c. ss_commit ss v t = Inr c \<and> holds (base ++ cm_diff c) (cm_root c) m \<and>
       cm_diff c \<subseteq>\<^sub>m hashed \<and> (\<forall>(k, x) \<in> set (cm_writes c). hashed k = Some x)"
  by (simp add: storage_laws_def)

lemma storage_law_mono:
  "storage_laws ss hashed rep holds \<Longrightarrow> holds base r m \<Longrightarrow> base \<subseteq>\<^sub>m base' \<Longrightarrow> holds base' r m"
  unfolding storage_laws_def by blast

lemma map_le_both: "m \<subseteq>\<^sub>m u \<Longrightarrow> n \<subseteq>\<^sub>m u \<Longrightarrow> m \<subseteq>\<^sub>m m ++ n"
  by (force simp: map_le_def map_add_def split: option.splits)

lemma map_add_le: "m \<subseteq>\<^sub>m u \<Longrightarrow> n \<subseteq>\<^sub>m u \<Longrightarrow> m ++ n \<subseteq>\<^sub>m u"
  by (auto simp: map_le_def map_add_def split: option.splits) (metis domI)+

lemma map_le_upd: "m \<subseteq>\<^sub>m u \<Longrightarrow> u k = Some x \<Longrightarrow> m(k \<mapsto> x) \<subseteq>\<^sub>m u"
  by (auto simp: map_le_def)

lemma map_le_drop: "m \<subseteq>\<^sub>m u \<Longrightarrow> m(k := None) \<subseteq>\<^sub>m u"
  by (auto simp: map_le_def)

lemma staging_get_add: "staging_get db = idb_nodes (sg_inner db) ++ sg_memory db"
  by (rule ext) (simp add: staging_get_def map_add_def idb_get_def split: option.split)

lemma view_extends: "repo_ok hashed repo \<Longrightarrow> inner_nodes repo a \<subseteq>\<^sub>m staging_get (db_of repo a)"
  unfolding staging_get_add by (rule map_le_both) (auto simp: repo_ok_def)

lemma db_of_upd [simp]: "db_of (repo(a \<mapsto> db)) b = (if b = a then db else db_of repo b)"
  by (simp add: db_of_def)

lemma db_of_update_db [simp]:
  "db_of (update_db a f repo) b = (if b = a then f (db_of repo a) else db_of repo b)"
  by (simp add: update_db_def)

subsection \<open>Staging does not change the stored contents\<close>

lemma stage_nodes_inner [simp]: "sg_inner (stage_nodes c db) = sg_inner db"
proof -
  have "sg_inner (fold staging_remove ks d) = sg_inner d" for ks d
    by (induction ks arbitrary: d) (simp_all add: staging_remove_def)
  moreover have "sg_inner (fold (\<lambda>(k, v). staging_insert k v) kvs d) = sg_inner d" for kvs d
    by (induction kvs arbitrary: d) (auto simp: staging_insert_def)
  ultimately show ?thesis by (simp add: stage_nodes_def staging_insert_batch_def)
qed

lemma stage_nodes_memory:
  assumes "sg_memory db \<subseteq>\<^sub>m hashed" "\<forall>(k, x) \<in> set (cm_writes c). hashed k = Some x"
  shows "sg_memory (stage_nodes c db) \<subseteq>\<^sub>m hashed"
proof -
  have "sg_memory (fold staging_remove ks d) \<subseteq>\<^sub>m hashed" if "sg_memory d \<subseteq>\<^sub>m hashed" for ks d
    using that by (induction ks arbitrary: d) (simp_all add: staging_remove_def map_le_drop)
  moreover have "sg_memory (fold (\<lambda>(k, v). staging_insert k v) kvs d) \<subseteq>\<^sub>m hashed"
    if "sg_memory d \<subseteq>\<^sub>m hashed" "\<forall>(k, x) \<in> set kvs. hashed k = Some x" for kvs d
    using that by (induction kvs arbitrary: d) (auto simp: staging_insert_def map_le_upd)
  ultimately show ?thesis using assms by (simp add: stage_nodes_def staging_insert_batch_def)
qed

text \<open>Two repositories with the same stored nodes and roots.\<close>

definition same_inner :: "repository \<Rightarrow> repository \<Rightarrow> bool" where
  "same_inner repo repo' \<longleftrightarrow> (\<forall>a. sg_inner (db_of repo' a) = sg_inner (db_of repo a))"

lemma same_inner_refl [simp]: "same_inner repo repo"
  by (simp add: same_inner_def)

lemma same_inner_trans: "same_inner r1 r2 \<Longrightarrow> same_inner r2 r3 \<Longrightarrow> same_inner r1 r3"
  by (simp add: same_inner_def)

lemma same_inner_holds: "same_inner repo repo' \<Longrightarrow> storage_holds h repo' a m = storage_holds h repo a m"
  by (simp add: storage_holds_def same_inner_def split: option.split)

lemma same_inner_stage: "same_inner repo (update_db a (stage_nodes c) repo)"
  by (simp add: same_inner_def)

lemma repo_ok_stage:
  "repo_ok hashed repo \<Longrightarrow> \<forall>(k, x) \<in> set (cm_writes c). hashed k = Some x \<Longrightarrow>
     repo_ok hashed (update_db a (stage_nodes c) repo)"
  by (auto simp: repo_ok_def intro: stage_nodes_memory)

lemma repo_ok_touch: "repo_ok hashed repo \<Longrightarrow> repo_ok hashed (repo(a \<mapsto> db_of repo a))"
  by (simp add: repo_ok_def)

lemma same_inner_touch [simp]: "same_inner repo (repo(a \<mapsto> db_of repo a))"
  by (simp add: same_inner_def)

subsection \<open>Operations on the contents\<close>

lemma for_account_rep:
  assumes laws: "storage_laws ss hashed rep holds" and ok: "repo_ok hashed repo"
    and m: "storage_holds holds repo a m"
  obtains t repo' where "for_account ss a repo = (Inr \<lparr>tr_account = a, tr_trie = t\<rparr>, repo')"
    "rep (inner_nodes repo a) t m" "repo' = repo(a \<mapsto> db_of repo a)"
proof (cases "inner_root repo a")
  case None
  then show ?thesis using laws m
    by (intro that [of "ss_new ss"])
      (auto simp: for_account_def repository_db_def staging_root_def storage_holds_def storage_law_new)
next
  case (Some r)
  then obtain t where "ss_open ss (staging_get (db_of repo a)) r = Inr t" "rep (inner_nodes repo a) t m"
    using storage_law_open [OF laws _ view_extends [OF ok], of a r m] m by (auto simp: storage_holds_def)
  then show ?thesis using Some
    by (intro that [of t])
      (auto simp: for_account_def for_account_with_root_def repository_db_def staging_root_def)
qed

definition put_slot :: "'t storage_ops \<Rightarrow> u256 \<times> u256 \<Rightarrow> (bytes \<rightharpoonup> bytes) \<Rightarrow> (bytes \<rightharpoonup> bytes)" where
  "put_slot ss x m = m(trie_key ss (fst x) := if snd x = 0 then None else Some (ss_encode_rlp ss (snd x)))"

lemma storage_insert_rep:
  assumes laws: "storage_laws ss hashed rep holds" "rlp_laws ss" and ok: "repo_ok hashed repo"
    and t: "rep (inner_nodes repo (tr_account tr)) (tr_trie tr) m"
  obtains t' where "storage_insert ss tr i v repo = (Inr (tr\<lparr>tr_trie := t'\<rparr>), repo)"
    "rep (inner_nodes repo (tr_account tr)) t' (put_slot ss (i, v) m)"
proof -
  have view: "inner_nodes repo (tr_account tr) \<subseteq>\<^sub>m trie_view repo tr"
    unfolding trie_view_def by (rule view_extends [OF ok])
  show ?thesis
  proof (cases "v = 0")
    case True
    obtain t' where "ss_remove ss (trie_view repo tr) (tr_trie tr) (trie_key ss i) = Inr t'"
      "rep (inner_nodes repo (tr_account tr)) t' (m(trie_key ss i := None))"
      using storage_law_remove [OF laws(1) t view] by blast
    then show ?thesis using True by (intro that [of t']) (simp_all add: storage_insert_def put_slot_def)
  next
    case False
    have "ss_encode_rlp ss v \<noteq> []" using laws(2) by (simp add: rlp_laws_def)
    then obtain t' where "ss_insert ss (trie_view repo tr) (tr_trie tr) (trie_key ss i) (ss_encode_rlp ss v) = Inr t'"
      "rep (inner_nodes repo (tr_account tr)) t' (m(trie_key ss i \<mapsto> ss_encode_rlp ss v))"
      using storage_law_insert [OF laws(1) t view] by blast
    then show ?thesis using False by (intro that [of t']) (simp_all add: storage_insert_def put_slot_def)
  qed
qed

lemma storage_commit_rep:
  assumes laws: "storage_laws ss hashed rep holds" and ok: "repo_ok hashed repo"
    and t: "rep (inner_nodes repo (tr_account tr)) (tr_trie tr) m"
  obtains c tr' repo' where "storage_commit ss tr repo = (Inr (c, tr'), repo')"
    "holds (inner_nodes repo (tr_account tr) ++ tc_trie_diff c) (tc_root c) m" "tc_trie_diff c \<subseteq>\<^sub>m hashed"
    "repo_ok hashed repo'" "same_inner repo repo'"
proof -
  have "inner_nodes repo (tr_account tr) \<subseteq>\<^sub>m trie_view repo tr"
    unfolding trie_view_def by (rule view_extends [OF ok])
  then obtain c where c: "ss_commit ss (trie_view repo tr) (tr_trie tr) = Inr c"
    "holds (inner_nodes repo (tr_account tr) ++ cm_diff c) (cm_root c) m"
    "cm_diff c \<subseteq>\<^sub>m hashed" "\<forall>(k, x) \<in> set (cm_writes c). hashed k = Some x"
    using storage_law_commit [OF laws t] by blast
  from c(2,3) repo_ok_stage [OF ok c(4)] same_inner_stage show ?thesis
    by (intro that [of "\<lparr>tc_root = cm_root c, tc_trie_diff = cm_diff c\<rparr>" "tr\<lparr>tr_trie := cm_trie c\<rparr>"
          "update_db (tr_account tr) (stage_nodes c) repo"])
      (simp_all add: storage_commit_def c(1))
qed

text \<open>What a query of a slot finds in the contents of an account.\<close>

definition slot_result :: "'t storage_ops \<Rightarrow> (bytes \<rightharpoonup> bytes) \<Rightarrow> u256 \<Rightarrow> storage_error + u256 option" where
  "slot_result ss m i =
     (case m (trie_key ss i) of
        None \<Rightarrow> Inr None
      | Some bs \<Rightarrow> (case ss_decode_rlp ss bs of Inl e \<Rightarrow> Inl (Rlp e) | Inr v \<Rightarrow> Inr (Some v)))"

lemma storage_get_rep:
  assumes "storage_laws ss hashed rep holds" "repo_ok hashed repo"
    "rep (inner_nodes repo (tr_account tr)) (tr_trie tr) m"
  shows "storage_get ss tr i repo = (slot_result ss m i, repo)"
proof -
  have "inner_nodes repo (tr_account tr) \<subseteq>\<^sub>m trie_view repo tr"
    unfolding trie_view_def by (rule view_extends [OF assms(2)])
  then have "ss_get ss (trie_view repo tr) (tr_trie tr) (trie_key ss i) = Inr (m (trie_key ss i))"
    using storage_law_get [OF assms(1,3)] by blast
  then show ?thesis by (simp add: storage_get_def slot_result_def split: option.split sum.split)
qed

lemma slot_result_put:
  assumes "rlp_laws ss" "trie_key ss j = trie_key ss i \<longleftrightarrow> j = i"
  shows "slot_result ss (put_slot ss (i, v) m) j =
    (if j = i then Inr (if v = 0 then None else Some v) else slot_result ss m j)"
  using assms by (auto simp: slot_result_def put_slot_def rlp_laws_def)

subsection \<open>Applying changes\<close>

lemma apply_nodes_inner:
  "idb_nodes (sg_inner (apply_nodes c db)) = idb_nodes (sg_inner db) ++ tc_trie_diff c"
  "idb_root (sg_inner (apply_nodes c db)) = Some (tc_root c)" "sg_memory (apply_nodes c db) = sg_memory db"
  by (simp_all add: apply_nodes_def put_root_def)

lemma repo_ok_apply:
  "repo_ok hashed repo \<Longrightarrow> tc_trie_diff c \<subseteq>\<^sub>m hashed \<Longrightarrow> repo_ok hashed (update_db a (apply_nodes c) repo)"
  by (auto simp: repo_ok_def apply_nodes_inner intro: map_add_le)

text \<open>Every account stores some contents.\<close>

definition well_stored :: "(nodes \<Rightarrow> b256 \<Rightarrow> (bytes \<rightharpoonup> bytes) \<Rightarrow> bool) \<Rightarrow> repository \<Rightarrow> bool" where
  "well_stored holds repo \<longleftrightarrow> (\<forall>a. \<exists>m. storage_holds holds repo a m)"

lemma well_stored_same:
  assumes "same_inner repo repo'" "well_stored holds repo"
  shows "well_stored holds repo'"
  unfolding well_stored_def
proof
  fix a
  from assms(2) obtain m where "storage_holds holds repo a m" unfolding well_stored_def by blast
  then show "\<exists>m. storage_holds holds repo' a m" using same_inner_holds [OF assms(1)] by blast
qed

lemma trie_apply_step:
  assumes laws: "storage_laws ss hashed rep holds" and ok: "repo_ok hashed repo"
    and m: "storage_holds holds repo a m0"
  shows "sbind (for_account ss a) (\<lambda>tr. trie_apply tr c) repo
    = (Inr (), update_db a (apply_nodes c) (repo(a \<mapsto> db_of repo a)))"
  using for_account_rep [OF laws ok m] by (force simp: sbind_def trie_apply_def)

lemma apply_tries_holds:
  assumes laws: "storage_laws ss hashed rep holds" and ok: "repo_ok hashed repo"
    and M: "\<And>a. storage_holds holds repo a (M a)" and d: "distinct (map fst cs)"
    and cs: "\<And>a c. (a, c) \<in> set cs \<Longrightarrow>
      tc_trie_diff c \<subseteq>\<^sub>m hashed \<and> holds (inner_nodes repo a ++ tc_trie_diff c) (tc_root c) (N a)"
  shows "\<exists>repo'. apply_tries ss cs repo = (Inr (), repo') \<and> repo_ok hashed repo' \<and>
    (\<forall>a. storage_holds holds repo' a (if a \<in> fst ` set cs then N a else M a))"
  using ok M d cs
proof (induction cs arbitrary: repo M)
  case Nil
  then show ?case by auto
next
  case (Cons x cs)
  obtain a c where x: "x = (a, c)" by (cases x)
  let ?repo = "update_db a (apply_nodes c) (repo(a \<mapsto> db_of repo a))"
  have c: "tc_trie_diff c \<subseteq>\<^sub>m hashed" "holds (inner_nodes repo a ++ tc_trie_diff c) (tc_root c) (N a)"
    using Cons.prems(4) [of a c] by (simp_all add: x)
  have other: "b \<noteq> a \<Longrightarrow> db_of ?repo b = db_of repo b" for b by simp
  have "\<exists>repo'. apply_tries ss cs ?repo = (Inr (), repo') \<and> repo_ok hashed repo' \<and>
    (\<forall>b. storage_holds holds repo' b (if b \<in> fst ` set cs then N b else (M(a := N a)) b))"
  proof (rule Cons.IH)
    show "repo_ok hashed ?repo" by (intro repo_ok_apply repo_ok_touch Cons.prems c)
    show "storage_holds holds ?repo b ((M(a := N a)) b)" for b
    proof (cases "b = a")
      case True
      then show ?thesis using c(2) by (simp add: storage_holds_def apply_nodes_inner)
    next
      case False
      then show ?thesis using Cons.prems(2) [of b] by (simp add: storage_holds_def split: option.splits)
    qed
    show "distinct (map fst cs)" using Cons.prems(3) by simp
    show "tc_trie_diff e \<subseteq>\<^sub>m hashed \<and> holds (inner_nodes ?repo b ++ tc_trie_diff e) (tc_root e) (N b)"
      if "(b, e) \<in> set cs" for b e
    proof -
      have "b \<noteq> a" using that Cons.prems(3) by (force simp: x)
      then show ?thesis using Cons.prems(4) [of b e] that by simp
    qed
  qed
  then obtain repo' where run: "apply_tries ss cs ?repo = (Inr (), repo')" and ok': "repo_ok hashed repo'"
    and after: "\<And>b. storage_holds holds repo' b (if b \<in> fst ` set cs then N b else (M(a := N a)) b)"
    by blast
  have "apply_tries ss (x # cs) repo = (Inr (), repo')"
    using trie_apply_step [OF laws Cons.prems(1) Cons.prems(2) [of a], of c] run
    by (simp add: x sbind_def [where m = "sbind _ _"])
  moreover have "storage_holds holds repo' b (if b \<in> fst ` set (x # cs) then N b else M b)" for b
    using after [of b] by (auto simp: x split: if_splits)
  ultimately show ?case using ok' by blast
qed

lemma repository_apply_holds:
  assumes laws: "storage_laws ss hashed rep holds" "rlp_laws ss" and ok: "repo_ok hashed repo"
    and M: "\<And>a. storage_holds holds repo a (M a)" and d: "distinct (map fst cs)"
    and cs: "\<And>a c. (a, c) \<in> set cs \<Longrightarrow>
      tc_trie_diff c \<subseteq>\<^sub>m hashed \<and> holds (inner_nodes repo a ++ tc_trie_diff c) (tc_root c) (N a)"
  shows "\<exists>repo'. repository_apply ss cs repo = (Inr (), repo') \<and> repo_ok hashed repo' \<and>
    (\<forall>a. storage_holds holds repo' a (if a \<in> fst ` set cs then N a else M a))"
proof -
  have ms: "mset (ss_order ss cs) = mset cs" using laws(2) by (simp add: rlp_laws_def)
  then have st: "set (ss_order ss cs) = set cs" by (metis set_mset_mset)
  have "mset (map fst (ss_order ss cs)) = mset (map fst cs)" by (simp add: ms)
  then have "distinct (map fst (ss_order ss cs))" using d mset_eq_imp_distinct_iff by blast
  then show ?thesis
    using apply_tries_holds [OF laws(1) ok M, of "ss_order ss cs" N] cs
    by (simp add: repository_apply_def st)
qed

end
