(* ===== verification/Evm_Native.thy ===== *)
theory Evm_Native
  imports Evm_Storage Canonical
begin

text \<open>
  The EVM inside the Move VM: \<^verbatim>\<open>evm-ext/src/native_evm_context.rs\<close>, \<^verbatim>\<open>native_impl.rs\<close>,
  \<^verbatim>\<open>state_changes.rs\<close> and \<^verbatim>\<open>state/account.rs\<close>. Native functions run an EVM transaction over a database
  that reads accounts and code through the resolver of the session and storage from the tries; the
  states that the transactions return are turned into changes of Move resources and of tries when
  the session ends. The EVM itself, its cache \<open>'m\<close> and the native interface of the Move VM are
  third-party code: arguments and fields of \<open>evm_machine\<close> and \<open>evm_ops\<close>. Module metadata, which the
  resolver is given with every query and ignores, is left out.
\<close>

section \<open>Accounts\<close>

record state_account =
  sa_nonce :: u64
  sa_balance :: u256
  sa_storage_root :: b256
  sa_code_hash :: b256

definition account_new :: "u64 \<Rightarrow> u256 \<Rightarrow> b256 \<Rightarrow> b256 \<Rightarrow> state_account" where
  "account_new nonce balance code_hash storage_root =
     \<lparr>sa_nonce = nonce, sa_balance = balance, sa_storage_root = storage_root, sa_code_hash = code_hash\<rparr>"

definition into_account_info :: "state_account \<Rightarrow> evm_account_info" where
  "into_account_info a =
     \<lparr>ai_balance = sa_balance a, ai_nonce = sa_nonce a, ai_code_hash = sa_code_hash a, ai_code = None\<rparr>"

text \<open>
  \<open>en_serialize\<close> and \<open>en_deserialize\<close> are the serialisation of VM values, \<open>en_squash\<close> merges two
  account change sets, the last fields build the errors of the VM.
\<close>

record 't evm_ops =
  en_storage :: "'t storage_ops"
  en_encode_account :: "state_account \<Rightarrow> bytes"
  en_decode_account :: "bytes \<Rightarrow> state_account option"
  en_serialize :: "move_value \<Rightarrow> move_type_layout \<Rightarrow> bytes option"
  en_deserialize :: "bytes \<Rightarrow> move_type_layout \<Rightarrow> move_value option"
  en_squash :: "account_changes \<Rightarrow> account_changes \<Rightarrow> account_changes option"
  en_storage_error :: "storage_error \<Rightarrow> partial_vm_error"
  en_missing_data :: "string \<Rightarrow> partial_vm_error"
  en_cast_error :: partial_vm_error
  en_evm_error :: "string \<Rightarrow> partial_vm_error"

section \<open>The database of the EVM\<close>

record header_lookup =
  rb_resolver :: resolver
  rb_block_hash_lookup :: "u64 \<Rightarrow> b256 option"
  rb_current_block_number :: u64

datatype db_error = DbError (db_inner: partial_vm_error)

definition get_account ::
  "'t evm_ops \<Rightarrow> header_lookup \<Rightarrow> address \<Rightarrow> panic + (partial_vm_error + state_account option)" where
  "get_account eo rb a =
     rbind (rs_resource (rb_resolver rb) EVM_NATIVE_ADDRESS (account_info_struct_tag a)) (\<lambda>r.
     case r of
       Inl e \<Rightarrow> Inr (Inl e)
     | Inr (None, _) \<Rightarrow> Inr (Inr None)
     | Inr (Some bs, _) \<Rightarrow>
         rbind (ok_or (en_decode_account eo bs) (Panic ''EVM account info must deserialize correctly.''))
           (\<lambda>x. Inr (Inr (Some x))))"

definition basic_ref ::
  "'t evm_ops \<Rightarrow> header_lookup \<Rightarrow> address \<Rightarrow> panic + (db_error + evm_account_info option)" where
  "basic_ref eo rb a =
     rbind (get_account eo rb a) (\<lambda>r.
     Inr (rbind (map_err DbError r) (\<lambda>v. Inr (map_option into_account_info v))))"

definition code_by_hash_ref :: "'t evm_ops \<Rightarrow> header_lookup \<Rightarrow> b256 \<Rightarrow> panic + (db_error + bytes)" where
  "code_by_hash_ref eo rb h =
     (if h = ss_keccak256 (en_storage eo) [] then Inr (Inr [])
      else
        (let tag = code_hash_struct_tag h
         in rbind (rs_resource (rb_resolver rb) EVM_NATIVE_ADDRESS tag) (\<lambda>r.
            case r of
              Inl e \<Rightarrow> Inr (Inl (DbError e))
            | Inr (None, _) \<Rightarrow> Inr (Inl (DbError (en_missing_data eo (st_name tag))))
            | Inr (Some bs, _) \<Rightarrow>
                rbind (ok_or (en_deserialize eo bs CODE_LAYOUT)
                  (Panic ''EVM account info must deserialize correctly.'')) (\<lambda>v.
                Inr (map_err DbError (ok_or (as_u8_vector v) (en_cast_error eo)))))))"

definition storage_ref :: "'t evm_ops \<Rightarrow> repository \<Rightarrow> address \<Rightarrow> u256 \<Rightarrow> (db_error + u256) \<times> repository" where
  "storage_ref eo repo a index =
     (case sbind (for_account (en_storage eo) a) (\<lambda>tr. storage_get (en_storage eo) tr index) repo of
        (Inl e, repo') \<Rightarrow> (Inl (DbError (en_storage_error eo e)), repo')
      | (Inr v, repo') \<Rightarrow> (Inr (unwrap_or v 0), repo'))"

definition block_hash_ref :: "header_lookup \<Rightarrow> u64 \<Rightarrow> b256" where
  "block_hash_ref rb number =
     (let lower_bound = saturating_sub (rb_current_block_number rb) 256;
          upper_bound = rb_current_block_number rb
      in if lower_bound \<le> number \<and> number < upper_bound
         then unwrap_or (rb_block_hash_lookup rb number) (replicate 32 0)
         else replicate 32 0)"

record database_ref =
  dr_basic :: "address \<Rightarrow> panic + (db_error + evm_account_info option)"
  dr_code_by_hash :: "b256 \<Rightarrow> panic + (db_error + bytes)"
  dr_storage :: "address \<Rightarrow> u256 \<Rightarrow> db_error + u256"
  dr_block_hash :: "u64 \<Rightarrow> b256"

section \<open>The native context\<close>

record evm_storage_slot =
  sl_original_value :: u256
  sl_present_value :: u256

record evm_account =
  ea_info :: evm_account_info
  ea_storage :: "(u256 \<times> evm_storage_slot) list"
  ea_touched :: bool
  ea_selfdestructed :: bool

text \<open>The state that an EVM transaction returns, in the order in which the hash map is iterated.\<close>

type_synonym evm_state = "(address \<times> evm_account) list"

record 'm native_evm_context =
  nc_resolver :: resolver
  nc_storage_trie :: repository
  nc_transfer_logs :: eth_transfers_logger
  nc_block_hash_lookup :: "u64 \<Rightarrow> b256 option"
  nc_db :: 'm
  nc_state_changes :: "evm_state list"
  nc_block_header :: header_for_execution

definition native_evm_context_new ::
  "resolver \<Rightarrow> repository \<Rightarrow> eth_transfers_logger \<Rightarrow> header_for_execution \<Rightarrow> (u64 \<Rightarrow> b256 option) \<Rightarrow> 'm
     \<Rightarrow> 'm native_evm_context" where
  "native_evm_context_new state storage lg hdr lookup cache =
     \<lparr>nc_resolver = state, nc_storage_trie = storage, nc_transfer_logs = lg,
      nc_block_hash_lookup = lookup, nc_db = cache, nc_state_changes = [], nc_block_header = hdr\<rparr>"

record evm_block_env =
  be_number :: u64
  be_beneficiary :: address
  be_timestamp :: u64
  be_gas_limit :: u64
  be_basefee :: u64
  be_difficulty :: u256
  be_prevrandao :: "b256 option"
  be_excess_blob_gas :: u64
  be_blob_gasprice :: u128

definition block_env :: "'m native_evm_context \<Rightarrow> evm_block_env" where
  "block_env ctx =
     \<lparr>be_number = hx_number (nc_block_header ctx), be_beneficiary = replicate 20 0,
      be_timestamp = hx_timestamp (nc_block_header ctx), be_gas_limit = max_of, be_basefee = 0,
      be_difficulty = 0, be_prevrandao = Some (hx_prev_randao (nc_block_header ctx)),
      be_excess_blob_gas = 0, be_blob_gasprice = 0\<rparr>"

text \<open>What the cache reads when it does not have a value. Looking up storage also makes sure that the
  account has a database, which later reads do not see.\<close>

definition database_of :: "'t evm_ops \<Rightarrow> 'm native_evm_context \<Rightarrow> database_ref" where
  "database_of eo ctx =
     (let rb = \<lparr>rb_resolver = nc_resolver ctx, rb_block_hash_lookup = nc_block_hash_lookup ctx,
                rb_current_block_number = hx_number (nc_block_header ctx)\<rparr>
      in \<lparr>dr_basic = basic_ref eo rb, dr_code_by_hash = code_by_hash_ref eo rb,
          dr_storage = (\<lambda>a i. fst (storage_ref eo (nc_storage_trie ctx) a i)),
          dr_block_hash = block_hash_ref rb\<rparr>)"

section \<open>Running the EVM\<close>

record tx_env =
  te_caller :: address
  te_gas_limit :: u64
  te_gas_price :: u128
  te_tx_type :: u8
  te_kind :: tx_kind
  te_value :: u256
  te_data :: bytes
  te_nonce :: u64
  te_chain_id :: "u64 option"
  te_disable_balance_check :: bool
  te_disable_nonce_check :: bool

definition build_evm :: "address \<Rightarrow> tx_kind \<Rightarrow> u256 \<Rightarrow> bytes \<Rightarrow> u64 \<Rightarrow> tx_env" where
  "build_evm caller kind value data limit =
     \<lparr>te_caller = caller, te_gas_limit = limit, te_gas_price = 0, te_tx_type = 0, te_kind = kind,
      te_value = value, te_data = data, te_nonce = 0, te_chain_id = None,
      te_disable_balance_check = True, te_disable_nonce_check = True\<rparr>"

datatype journal_entry = BalanceTransfer address address u256 | OtherEntry

datatype evm_error = Database db_error | OtherEvmError string

record result_and_state =
  ras_result :: execution_result
  ras_gas_used :: u64
  ras_state :: evm_state

text \<open>\<open>ev_execute\<close> is the handler up to its post-execution step, with the journal it leaves;
  \<open>ev_post_execution\<close> is the step of the handler that is wrapped; \<open>ev_replay\<close> runs on a cache that is
  thrown away.\<close>

record ('m, 'x) evm_machine =
  ev_execute :: "database_ref \<Rightarrow> evm_block_env \<Rightarrow> tx_env \<Rightarrow> 'm
    \<Rightarrow> (evm_error + journal_entry list list \<times> 'x) \<times> 'm"
  ev_post_execution :: "'x \<Rightarrow> 'm \<Rightarrow> (evm_error + result_and_state) \<times> 'm"
  ev_replay :: "database_ref \<Rightarrow> evm_block_env \<Rightarrow> tx_env \<Rightarrow> 'm \<Rightarrow> evm_error + result_and_state"

datatype safe_native_error = SafeInvariantViolation partial_vm_error | SafeOther partial_vm_error

fun evm_error_of :: "'t evm_ops \<Rightarrow> evm_error \<Rightarrow> safe_native_error" where
  "evm_error_of eo (Database e) = SafeInvariantViolation (db_inner e)"
| "evm_error_of eo (OtherEvmError s) = SafeInvariantViolation (en_evm_error eo s)"

fun journal_transfer :: "journal_entry \<Rightarrow> eth_transfer option" where
  "journal_transfer (BalanceTransfer f t b) =
     Some \<lparr>tf_from = to_move_address f, tf_to = to_move_address t, tf_amount = b\<rparr>"
| "journal_transfer OtherEntry = None"

definition journal_transfers :: "journal_entry list list \<Rightarrow> eth_transfer list" where
  "journal_transfers journal = concat (map (List.map_filter journal_transfer) journal)"

text \<open>The wrapped handler: the transfers of the journal are logged before the inner step.\<close>

definition handler_run ::
  "('m, 'x) evm_machine \<Rightarrow> 't evm_ops \<Rightarrow> tx_env \<Rightarrow> 'm native_evm_context
     \<Rightarrow> (evm_error + result_and_state) \<times> 'm native_evm_context" where
  "handler_run ev eo tx ctx =
     (case ev_execute ev (database_of eo ctx) (block_env ctx) tx (nc_db ctx) of
        (Inl e, m) \<Rightarrow> (Inl e, ctx\<lparr>nc_db := m\<rparr>)
      | (Inr (journal, x), m) \<Rightarrow>
          (case ev_post_execution ev x m of
             (r, m') \<Rightarrow>
               (r, ctx\<lparr>nc_db := m',
                    nc_transfer_logs := fold push_transfer (journal_transfers journal)
                      (nc_transfer_logs ctx)\<rparr>)))"

definition evm_transact_with_native ::
  "('m, 'x) evm_machine \<Rightarrow> 't evm_ops \<Rightarrow> address \<Rightarrow> tx_kind \<Rightarrow> u256 \<Rightarrow> bytes \<Rightarrow> u64
     \<Rightarrow> 'm native_evm_context \<Rightarrow> (safe_native_error + result_and_state) \<times> 'm native_evm_context" where
  "evm_transact_with_native ev eo caller kind value data limit ctx =
     (let ctx1 = ctx\<lparr>nc_transfer_logs := add_tx_origin (to_move_address caller) value (nc_transfer_logs ctx)\<rparr>
      in case handler_run ev eo (build_evm caller kind value data limit) ctx1 of
           (Inl e, ctx2) \<Rightarrow> (Inl (evm_error_of eo e), ctx2)
         | (Inr outcome, ctx2) \<Rightarrow>
             (Inr outcome, ctx2\<lparr>nc_state_changes := nc_state_changes ctx2 @ [ras_state outcome]\<rparr>))"

definition evm_view_with_native ::
  "('m, 'x) evm_machine \<Rightarrow> 't evm_ops \<Rightarrow> address \<Rightarrow> address \<Rightarrow> u256 \<Rightarrow> bytes \<Rightarrow> u64
     \<Rightarrow> 'm native_evm_context \<Rightarrow> safe_native_error + result_and_state" where
  "evm_view_with_native ev eo caller dest value data limit ctx =
     map_err (evm_error_of eo)
       (ev_replay ev (database_of eo ctx) (block_env ctx)
          (build_evm caller (Call dest) value data limit) (nc_db ctx))"

section \<open>Gas\<close>

definition EVM_SCALE_FACTOR :: u64 where
  "EVM_SCALE_FACTOR = 600"

definition EVM_BASE_GAS :: u64 where
  "EVM_BASE_GAS = 21000"

definition get_gas_limit :: "u64 \<Rightarrow> u64" where
  "get_gas_limit internal_units = saturating_add (internal_units div EVM_SCALE_FACTOR) EVM_BASE_GAS"

definition evm_gas_used_evaluate :: "u64 \<Rightarrow> u64" where
  "evm_gas_used_evaluate amount = saturating_mul (saturating_sub amount EVM_BASE_GAS) EVM_SCALE_FACTOR"

section \<open>The native functions\<close>

text \<open>The context of a native call: gas \<open>'g\<close> of the VM, read and charged by functions of the VM, and
  the native context of the session.\<close>

record 'g native_gas =
  ng_balance :: "'g \<Rightarrow> u64"
  ng_charge :: "u64 \<Rightarrow> 'g \<Rightarrow> (safe_native_error + unit) \<times> 'g"

type_synonym ('g, 'm) native = "'g \<times> 'm native_evm_context"

record evm_call_args =
  ca_caller :: account_address
  ca_to :: account_address
  ca_value :: u256
  ca_data :: bytes

fun as_address :: "move_value \<Rightarrow> account_address option" where
  "as_address (VAddress a) = Some a"
| "as_address v = None"

fun as_u256 :: "move_value \<Rightarrow> u256 option" where
  "as_u256 (VU256 v) = Some v"
| "as_u256 v = None"

text \<open>Arguments are popped from the back; \<open>args\<close> is the reversed list.\<close>

definition pop_arg ::
  "'t evm_ops \<Rightarrow> (move_value \<Rightarrow> 'a option) \<Rightarrow> move_value list \<Rightarrow> safe_native_error + 'a \<times> move_value list" where
  "pop_arg eo cast args =
     (case args of
        [] \<Rightarrow> Inl (SafeInvariantViolation (en_cast_error eo))
      | v # rest \<Rightarrow> map_err SafeInvariantViolation
          (rbind (ok_or (cast v) (en_cast_error eo)) (\<lambda>a. Inr (a, rest))))"

text \<open>The first \<open>pop_back\<close> is unwrapped, the others are safe.\<close>

definition pop_evm_args :: "'t evm_ops \<Rightarrow> move_value list \<Rightarrow> panic + (safe_native_error + evm_call_args)" where
  "pop_evm_args eo args =
     (if args = [] then Inl (Panic ''called Option::unwrap() on a None value'')
      else Inr
        (rbind (pop_arg eo as_u8_vector (rev args)) (\<lambda>(data, args).
         rbind (pop_arg eo as_u256 args) (\<lambda>(value, args).
         rbind (pop_arg eo as_address args) (\<lambda>(dest, args).
         rbind (pop_arg eo as_address args) (\<lambda>(caller, _).
         Inr \<lparr>ca_caller = caller, ca_to = dest, ca_value = value, ca_data = data\<rparr>))))))"

definition charged ::
  "'g native_gas \<Rightarrow> result_and_state \<Rightarrow> ('g, 'm) native
     \<Rightarrow> (safe_native_error + move_value list) \<times> ('g, 'm) native" where
  "charged ng outcome s =
     (case ng_charge ng (evm_gas_used_evaluate (ras_gas_used outcome)) (fst s) of
        (Inl e, g) \<Rightarrow> (Inl e, g, snd s)
      | (Inr _, g) \<Rightarrow> (Inr [evm_result_to_move_value (ras_result outcome)], g, snd s))"

definition evm_transact_inner ::
  "('m, 'x) evm_machine \<Rightarrow> 't evm_ops \<Rightarrow> 'g native_gas \<Rightarrow> address \<Rightarrow> tx_kind \<Rightarrow> u256 \<Rightarrow> bytes
     \<Rightarrow> ('g, 'm) native \<Rightarrow> (safe_native_error + move_value list) \<times> ('g, 'm) native" where
  "evm_transact_inner ev eo ng caller kind value data s =
     (case evm_transact_with_native ev eo caller kind value data
             (get_gas_limit (ng_balance ng (fst s))) (snd s) of
        (Inl e, ctx) \<Rightarrow> (Inl e, fst s, ctx)
      | (Inr outcome, ctx) \<Rightarrow> charged ng outcome (fst s, ctx))"

definition evm_call ::
  "('m, 'x) evm_machine \<Rightarrow> 't evm_ops \<Rightarrow> 'g native_gas \<Rightarrow> move_value list \<Rightarrow> ('g, 'm) native
     \<Rightarrow> panic + (safe_native_error + move_value list) \<times> ('g, 'm) native" where
  "evm_call ev eo ng args s =
     rbind (pop_evm_args eo args) (\<lambda>r.
     Inr (case r of
            Inl e \<Rightarrow> (Inl e, s)
          | Inr a \<Rightarrow> evm_transact_inner ev eo ng (to_eth_address (ca_caller a))
              (Call (to_eth_address (ca_to a))) (to_u256 (ca_value a)) (ca_data a) s))"

definition evm_create ::
  "('m, 'x) evm_machine \<Rightarrow> 't evm_ops \<Rightarrow> 'g native_gas \<Rightarrow> move_value list \<Rightarrow> ('g, 'm) native
     \<Rightarrow> panic + (safe_native_error + move_value list) \<times> ('g, 'm) native" where
  "evm_create ev eo ng args s =
     (if args = [] then Inl (Panic ''called Option::unwrap() on a None value'')
      else Inr
        (case rbind (pop_arg eo as_u8_vector (rev args)) (\<lambda>(data, args).
              rbind (pop_arg eo as_u256 args) (\<lambda>(value, args).
              rbind (pop_arg eo as_address args) (\<lambda>(caller, _). Inr (caller, value, data)))) of
           Inl e \<Rightarrow> (Inl e, s)
         | Inr (caller, value, data) \<Rightarrow>
             evm_transact_inner ev eo ng (to_eth_address caller) Create (to_u256 value) data s))"

definition evm_view ::
  "('m, 'x) evm_machine \<Rightarrow> 't evm_ops \<Rightarrow> 'g native_gas \<Rightarrow> move_value list \<Rightarrow> ('g, 'm) native
     \<Rightarrow> panic + (safe_native_error + move_value list) \<times> ('g, 'm) native" where
  "evm_view ev eo ng args s =
     rbind (pop_evm_args eo args) (\<lambda>r.
     Inr (case r of
            Inl e \<Rightarrow> (Inl e, s)
          | Inr a \<Rightarrow>
              (case evm_view_with_native ev eo (to_eth_address (ca_caller a)) (to_eth_address (ca_to a))
                      (to_u256 (ca_value a)) (ca_data a) (get_gas_limit (ng_balance ng (fst s))) (snd s) of
                 Inl e \<Rightarrow> (Inl e, s)
               | Inr outcome \<Rightarrow> charged ng outcome s)))"

section \<open>Changes of the session\<close>

record evm_changes =
  ec_accounts :: change_set
  ec_storage :: storage_tries_changes

definition changed_storage_slots :: "evm_account \<Rightarrow> (u256 \<times> evm_storage_slot) list" where
  "changed_storage_slots acc = filter (\<lambda>(_, s). sl_original_value s \<noteq> sl_present_value s) (ea_storage acc)"

definition account_changes_new :: account_changes where
  "account_changes_new = \<lparr>ac_modules = [], ac_resources = []\<rparr>"

definition add_resource_op :: "struct_tag \<Rightarrow> bytes change_op \<Rightarrow> account_changes \<Rightarrow> account_changes option" where
  "add_resource_op tag op ac =
     (if tag \<in> fst ` set (ac_resources ac) then None
      else Some (ac\<lparr>ac_resources := ac_resources ac @ [(tag, op)]\<rparr>))"

definition evm_resource_exists :: "resolver \<Rightarrow> account_changes \<Rightarrow> struct_tag \<Rightarrow> panic + bool" where
  "evm_resource_exists r prior_changes tag =
     (if tag \<in> fst ` set (ac_resources prior_changes) then Inr True
      else rbind (rs_resource r EVM_NATIVE_ADDRESS tag) (\<lambda>x.
        Inr (case x of Inl _ \<Rightarrow> False | Inr (b, _) \<Rightarrow> b \<noteq> None)))"

fun insert_slots :: "'t storage_ops \<Rightarrow> (u256 \<times> u256) list \<Rightarrow> 't storage_trie \<Rightarrow> 't storage_trie storing" where
  "insert_slots ss [] tr repo = (Inr tr, repo)"
| "insert_slots ss ((i, v) # xs) tr repo = sbind (storage_insert ss tr i v) (insert_slots ss xs) repo"

text \<open>The trie of the account with the changed slots, committed.\<close>

definition account_storage_changes ::
  "'t storage_ops \<Rightarrow> address \<Rightarrow> evm_account \<Rightarrow> storage_trie_changes storing" where
  "account_storage_changes ss a acc =
     sbind (for_account ss a) (\<lambda>tr.
     sbind (insert_slots ss (map (\<lambda>(i, s). (i, sl_present_value s)) (changed_storage_slots acc)) tr) (\<lambda>tr'.
     sbind (storage_commit ss tr') (\<lambda>(c, _) repo. (Inr c, repo))))"

definition unwrap_storage :: "(storage_error + 'a) \<times> repository \<Rightarrow> panic + 'a \<times> repository" where
  "unwrap_storage r =
     (case r of
        (Inl _, _) \<Rightarrow> Inl (Panic ''called Result::unwrap() on an Err value'')
      | (Inr a, repo) \<Rightarrow> Inr (a, repo))"

definition add_code ::
  "'t evm_ops \<Rightarrow> resolver \<Rightarrow> account_changes \<Rightarrow> evm_account \<Rightarrow> account_changes \<Rightarrow> panic + account_changes" where
  "add_code eo r prior acc result =
     (let tag = code_hash_struct_tag (get_account_code_hash (ss_keccak256 (en_storage eo)) (ea_info acc))
      in rbind (evm_resource_exists r prior tag) (\<lambda>code_resource_exists.
         case ai_code (ea_info acc) of
           Some code \<Rightarrow>
             if \<not> code_resource_exists \<and> code \<noteq> [] then
               rbind (ok_or (en_serialize eo (vector_u8 code) CODE_LAYOUT) (Panic ''EVM code must serialize''))
                 (\<lambda>bs. Inr (unwrap_or (add_resource_op tag (New bs) result) result))
             else Inr result
         | None \<Rightarrow> Inr result))"

definition add_account_changes ::
  "'t evm_ops \<Rightarrow> resolver \<Rightarrow> account_changes \<Rightarrow> address \<Rightarrow> evm_account \<Rightarrow> account_changes \<Rightarrow> repository
     \<Rightarrow> panic + storage_trie_changes \<times> account_changes \<times> repository" where
  "add_account_changes eo r prior a acc result repo =
     rbind (unwrap_storage (account_storage_changes (en_storage eo) a acc repo)) (\<lambda>(storage_changes, repo').
     let tag = account_info_struct_tag a;
         info = ea_info acc;
         account_bytes = en_encode_account eo
           (account_new (ai_nonce info) (ai_balance info) (ai_code_hash info) (tc_root storage_changes))
     in rbind (evm_resource_exists r prior tag) (\<lambda>present.
        let op = (if \<not> present then New account_bytes else Modify account_bytes)
        in rbind (ok_or (add_resource_op tag op result) (Panic ''Resource cannot already exist in result''))
             (\<lambda>result'.
           rbind (add_code eo r prior acc result') (\<lambda>result''.
           Inr (storage_changes, result'', repo')))))"

text \<open>Accounts whose changes are kept.\<close>

definition persistent :: "evm_account \<Rightarrow> bool" where
  "persistent acc \<longleftrightarrow> ea_touched acc \<and> \<not> ea_selfdestructed acc"

fun extract_state ::
  "'t evm_ops \<Rightarrow> resolver \<Rightarrow> account_changes \<Rightarrow> evm_state \<Rightarrow> account_changes \<Rightarrow> storage_tries_changes
     \<Rightarrow> repository \<Rightarrow> panic + account_changes \<times> storage_tries_changes \<times> repository" where
  "extract_state eo r prior [] single tries repo = Inr (single, tries, repo)"
| "extract_state eo r prior ((a, acc) # st) single tries repo =
     (if \<not> persistent acc then extract_state eo r prior st single tries repo
      else rbind (add_account_changes eo r prior a acc single repo) (\<lambda>(c, single', repo').
        extract_state eo r prior st single' (with_trie_changes a c tries) repo'))"

fun extract_states ::
  "'t evm_ops \<Rightarrow> resolver \<Rightarrow> evm_state list \<Rightarrow> account_changes \<Rightarrow> storage_tries_changes \<Rightarrow> repository
     \<Rightarrow> panic + account_changes \<times> storage_tries_changes \<times> repository" where
  "extract_states eo r [] changes tries repo = Inr (changes, tries, repo)"
| "extract_states eo r (st # sts) changes tries repo =
     rbind (extract_state eo r changes st account_changes_new tries repo) (\<lambda>(single, tries', repo').
     rbind (ok_or (en_squash eo changes single) (Panic ''Sequential EVM native changes must merge''))
       (\<lambda>changes'. extract_states eo r sts changes' tries' repo'))"

definition extract_evm_changes_from_native ::
  "'t evm_ops \<Rightarrow> 'm native_evm_context \<Rightarrow> panic + evm_changes \<times> 'm native_evm_context" where
  "extract_evm_changes_from_native eo ctx =
     rbind (extract_states eo (nc_resolver ctx) (nc_state_changes ctx) account_changes_new [] (nc_storage_trie ctx))
       (\<lambda>(changes, tries, repo).
        Inr (\<lparr>ec_accounts = [(EVM_NATIVE_ADDRESS, changes)], ec_storage = tries\<rparr>,
             ctx\<lparr>nc_storage_trie := repo\<rparr>))"

subsection \<open>Genesis\<close>

record genesis_account =
  ga_balance :: u256
  ga_nonce :: "u64 option"
  ga_code :: "bytes option"
  ga_storage :: "(b256 \<times> b256) list option"

definition genesis_evm_account :: "'t evm_ops \<Rightarrow> genesis_account \<Rightarrow> evm_account" where
  "genesis_evm_account eo ga =
     (let keccak = ss_keccak256 (en_storage eo);
          (code_hash, code) = (case ga_code ga of
             Some raw \<Rightarrow> (keccak raw, Some raw)
           | None \<Rightarrow> (keccak [], None))
      in \<lparr>ea_info = \<lparr>ai_balance = ga_balance ga, ai_nonce = unwrap_or (ga_nonce ga) 0,
                      ai_code_hash = code_hash, ai_code = code\<rparr>,
          ea_storage = map (\<lambda>(index, data). (from_be_bytes index,
             \<lparr>sl_original_value = 0, sl_present_value = from_be_bytes data\<rparr>)) (unwrap_or (ga_storage ga) []),
          ea_touched = True, ea_selfdestructed = False\<rparr>)"

fun genesis_loop ::
  "'t evm_ops \<Rightarrow> resolver \<Rightarrow> (address \<times> genesis_account) list \<Rightarrow> account_changes \<Rightarrow> storage_tries_changes
     \<Rightarrow> repository \<Rightarrow> panic + account_changes \<times> storage_tries_changes \<times> repository" where
  "genesis_loop eo r [] changes tries repo = Inr (changes, tries, repo)"
| "genesis_loop eo r ((a, ga) # alloc) changes tries repo =
     rbind (add_account_changes eo r account_changes_new a (genesis_evm_account eo ga) changes repo)
       (\<lambda>(c, changes', repo').
        genesis_loop eo r alloc changes' (with_trie_changes a c tries) repo')"

definition genesis_state_changes ::
  "'t evm_ops \<Rightarrow> resolver \<Rightarrow> (address \<times> genesis_account) list \<Rightarrow> repository \<Rightarrow> panic + evm_changes \<times> repository"
where
  "genesis_state_changes eo r alloc repo =
     rbind (genesis_loop eo r alloc account_changes_new [] repo) (\<lambda>(changes, tries, repo').
     Inr (\<lparr>ec_accounts = [(EVM_NATIVE_ADDRESS, changes)], ec_storage = tries\<rparr>, repo'))"

section \<open>Gas limits can be paid\<close>

text \<open>The gas that an EVM call may use can be paid: whatever the EVM uses within the limit that is
  derived from the remaining gas of the transaction costs at most this remaining gas, with no
  saturation in between.\<close>

lemma evm_gas_is_payable:
  assumes "used \<le> get_gas_limit balance"
  shows "evm_gas_used_evaluate used \<le> balance \<and>
    unat (evm_gas_used_evaluate used) = 600 * (unat used - 21000) \<and>
    unat (get_gas_limit balance) = unat balance div 600 + 21000"
proof -
  have "unat balance div 600 + 21000 < 2 ^ 64 - 1"
    using unat_less [of balance] by simp
  then have limit: "unat (get_gas_limit balance) = unat balance div 600 + 21000"
    by (simp add: get_gas_limit_def EVM_SCALE_FACTOR_def EVM_BASE_GAS_def unat_saturating_add unat_div)
  with assms have "unat used - 21000 \<le> unat balance div 600" by (simp add: word_le_nat_alt)
  then have "600 * (unat used - 21000) \<le> unat balance" by (simp add: less_eq_div_iff_mult_less_eq mult.commute)
  moreover from this have "unat (evm_gas_used_evaluate used) = 600 * (unat used - 21000)"
    using unat_less [of balance]
    by (simp add: evm_gas_used_evaluate_def EVM_SCALE_FACTOR_def EVM_BASE_GAS_def unat_saturating_mul
        unat_saturating_sub)
  ultimately show ?thesis using limit by (simp add: word_le_nat_alt)
qed

section \<open>What becomes of the storage\<close>

definition written_slots :: "evm_account \<Rightarrow> (u256 \<times> u256) list" where
  "written_slots acc = map (\<lambda>(i, s). (i, sl_present_value s)) (changed_storage_slots acc)"

lemma insert_slots_rep:
  assumes laws: "storage_laws ss hashed rep holds" "rlp_laws ss" and ok: "repo_ok hashed repo"
    and t: "rep (inner_nodes repo (tr_account tr)) (tr_trie tr) m"
  shows "\<exists>t'. insert_slots ss xs tr repo = (Inr (tr\<lparr>tr_trie := t'\<rparr>), repo) \<and>
    rep (inner_nodes repo (tr_account tr)) t' (fold (put_slot ss) xs m)"
  using t
proof (induction xs arbitrary: tr m)
  case Nil
  then show ?case by (intro exI [of _ "tr_trie tr"]) simp
next
  case (Cons x xs)
  obtain i v where x: "x = (i, v)" by (cases x)
  obtain t1 where t1: "storage_insert ss tr i v repo = (Inr (tr\<lparr>tr_trie := t1\<rparr>), repo)"
    "rep (inner_nodes repo (tr_account tr)) t1 (put_slot ss (i, v) m)"
    using storage_insert_rep [OF laws ok Cons.prems] by blast
  show ?case using Cons.IH [of "tr\<lparr>tr_trie := t1\<rparr>"] t1 by (simp add: x sbind_def)
qed

lemma account_storage_changes_holds:
  assumes laws: "storage_laws ss hashed rep holds" "rlp_laws ss" and ok: "repo_ok hashed repo"
    and m: "storage_holds holds repo a m"
  shows "\<exists>c repo'. account_storage_changes ss a acc repo = (Inr c, repo') \<and> repo_ok hashed repo' \<and>
    same_inner repo repo' \<and> tc_trie_diff c \<subseteq>\<^sub>m hashed \<and>
    holds (inner_nodes repo a ++ tc_trie_diff c) (tc_root c) (fold (put_slot ss) (written_slots acc) m)"
proof -
  let ?repo = "repo(a \<mapsto> db_of repo a)"
  obtain t where t: "for_account ss a repo = (Inr \<lparr>tr_account = a, tr_trie = t\<rparr>, ?repo)"
    "rep (inner_nodes ?repo a) t m"
    using for_account_rep [OF laws(1) ok m] by (metis db_of_upd)
  have ok1: "repo_ok hashed ?repo" by (rule repo_ok_touch [OF ok])
  obtain t' where t': "insert_slots ss (written_slots acc) \<lparr>tr_account = a, tr_trie = t\<rparr> ?repo
      = (Inr \<lparr>tr_account = a, tr_trie = t'\<rparr>, ?repo)"
    "rep (inner_nodes ?repo a) t' (fold (put_slot ss) (written_slots acc) m)"
    using insert_slots_rep [OF laws ok1, of "\<lparr>tr_account = a, tr_trie = t\<rparr>"] t(2) by fastforce
  obtain c tr' repo' where c: "storage_commit ss \<lparr>tr_account = a, tr_trie = t'\<rparr> ?repo = (Inr (c, tr'), repo')"
    "holds (inner_nodes repo a ++ tc_trie_diff c) (tc_root c) (fold (put_slot ss) (written_slots acc) m)"
    "tc_trie_diff c \<subseteq>\<^sub>m hashed" "repo_ok hashed repo'" "same_inner ?repo repo'"
    using storage_commit_rep [OF laws(1) ok1, of "\<lparr>tr_account = a, tr_trie = t'\<rparr>"
        "fold (put_slot ss) (written_slots acc) m"] t'(2) by auto
  have "same_inner repo repo'" using same_inner_trans [OF same_inner_touch c(5)] by simp
  moreover have "account_storage_changes ss a acc repo = (Inr c, repo')"
    using t(1) t'(1) c(1) by (simp add: account_storage_changes_def sbind_def written_slots_def)
  ultimately show ?thesis using c by blast
qed

text \<open>The tries collected so far: \<open>seen\<close> is the last kept account of each address.\<close>

definition tries_ok ::
  "'t storage_ops \<Rightarrow> nodes \<Rightarrow> (nodes \<Rightarrow> b256 \<Rightarrow> (bytes \<rightharpoonup> bytes) \<Rightarrow> bool) \<Rightarrow> repository
     \<Rightarrow> (address \<Rightarrow> bytes \<rightharpoonup> bytes) \<Rightarrow> (address \<rightharpoonup> evm_account) \<Rightarrow> storage_tries_changes \<Rightarrow> bool" where
  "tries_ok ss hashed holds repo M seen tries \<longleftrightarrow>
     distinct (map fst tries) \<and> fst ` set tries = dom seen \<and>
     (\<forall>(a, c) \<in> set tries. tc_trie_diff c \<subseteq>\<^sub>m hashed \<and>
        holds (inner_nodes repo a ++ tc_trie_diff c) (tc_root c)
          (fold (put_slot ss) (written_slots (the (seen a))) (M a)))"

lemma map_le_by_dom: "m \<subseteq>\<^sub>m u \<Longrightarrow> n \<subseteq>\<^sub>m u \<Longrightarrow> dom m \<subseteq> dom n \<Longrightarrow> m \<subseteq>\<^sub>m n"
  unfolding map_le_def by (metis subsetD)

lemma with_trie_changes_set:
  assumes "distinct (map fst ts)"
  shows "distinct (map fst (with_trie_changes a c ts))"
    "set (with_trie_changes a c ts) =
       insert (a, case map_of ts a of Some old \<Rightarrow> storage_trie_changes_add old c | None \<Rightarrow> c)
         {x \<in> set ts. fst x \<noteq> a}"
proof -
  have upd: "AList.update a v (AList.delete a ts) = AList.delete a ts @ [(a, v)]" for v
    by (induction ts) (auto simp: AList.delete_eq)
  show "distinct (map fst (with_trie_changes a c ts))"
    unfolding with_trie_changes_def by (intro AList.distinct_update AList.distinct_delete assms)
  show "set (with_trie_changes a c ts) =
       insert (a, case map_of ts a of Some old \<Rightarrow> storage_trie_changes_add old c | None \<Rightarrow> c)
         {x \<in> set ts. fst x \<noteq> a}"
    unfolding with_trie_changes_def upd by (auto simp: AList.delete_eq)
qed

lemma tries_ok_step:
  assumes laws: "storage_laws ss hashed rep holds" and ok: "repo_ok hashed repo"
    and tries: "tries_ok ss hashed holds repo M seen tries"
    and c: "tc_trie_diff c \<subseteq>\<^sub>m hashed"
      "holds (inner_nodes repo a ++ tc_trie_diff c) (tc_root c) (fold (put_slot ss) (written_slots acc) (M a))"
  shows "tries_ok ss hashed holds repo M (seen(a \<mapsto> acc)) (with_trie_changes a c tries)"
proof -
  let ?new = "case map_of tries a of Some old \<Rightarrow> storage_trie_changes_add old c | None \<Rightarrow> c"
  have d: "distinct (map fst tries)" and dom: "fst ` set tries = dom seen"
    and each: "\<And>b e. (b, e) \<in> set tries \<Longrightarrow> tc_trie_diff e \<subseteq>\<^sub>m hashed \<and>
        holds (inner_nodes repo b ++ tc_trie_diff e) (tc_root e)
          (fold (put_slot ss) (written_slots (the (seen b))) (M b))"
    using tries by (auto simp: tries_ok_def)
  have inner: "inner_nodes repo a \<subseteq>\<^sub>m hashed" using ok by (simp add: repo_ok_def)
  have "tc_trie_diff ?new \<subseteq>\<^sub>m hashed \<and>
    holds (inner_nodes repo a ++ tc_trie_diff ?new) (tc_root ?new) (fold (put_slot ss) (written_slots acc) (M a))"
  proof (cases "map_of tries a")
    case None
    then show ?thesis using c by simp
  next
    case (Some old)
    then have old: "tc_trie_diff old \<subseteq>\<^sub>m hashed" using each map_of_SomeD by fast
    have "inner_nodes repo a ++ tc_trie_diff c
        \<subseteq>\<^sub>m inner_nodes repo a ++ (tc_trie_diff old ++ tc_trie_diff c)"
      by (rule map_le_by_dom [of _ hashed]) (auto intro: map_add_le inner old c(1))
    then show ?thesis using Some storage_law_mono [OF laws c(2)] map_add_le [OF old c(1)]
      by (simp add: storage_trie_changes_add_def)
  qed
  then show ?thesis
    using each by (auto simp: tries_ok_def with_trie_changes_set [OF d] simp flip: dom)
qed

text \<open>The last kept account of an address in a sequence of states.\<close>

definition see :: "address \<times> evm_account \<Rightarrow> (address \<rightharpoonup> evm_account) \<Rightarrow> (address \<rightharpoonup> evm_account)" where
  "see x seen = (if persistent (snd x) then seen(fst x \<mapsto> snd x) else seen)"

lemma see_simps [simp]:
  "persistent acc \<Longrightarrow> see (a, acc) seen = seen(a \<mapsto> acc)" "\<not> persistent acc \<Longrightarrow> see (a, acc) seen = seen"
  by (simp_all add: see_def)

lemma add_account_changes_Inr:
  assumes "add_account_changes eo r prior a acc result repo = Inr (c, result', repo')"
  shows "account_storage_changes (en_storage eo) a acc repo = (Inr c, repo')"
  using assms by (auto simp: add_account_changes_def unwrap_storage_def rbind_Inr_iff Let_def
      split: prod.splits sum.splits)

lemma extract_state_tries:
  assumes laws: "storage_laws (en_storage eo) hashed rep holds" "rlp_laws (en_storage eo)"
    and M: "\<And>a. storage_holds holds repo0 a (M a)" and ok0: "repo_ok hashed repo0"
    and ok: "repo_ok hashed repo" "same_inner repo0 repo"
    and tries: "tries_ok (en_storage eo) hashed holds repo0 M seen tries"
    and run: "extract_state eo r prior st single tries repo = Inr (single', tries', repo')"
  shows "repo_ok hashed repo' \<and> same_inner repo0 repo' \<and>
    tries_ok (en_storage eo) hashed holds repo0 M (fold see st seen) tries'"
  using ok tries run
proof (induction st arbitrary: seen single tries repo)
  case Nil
  then show ?case by simp
next
  case (Cons x st)
  obtain a acc where x: "x = (a, acc)" by (cases x)
  show ?case
  proof (cases "persistent acc")
    case False
    then show ?thesis using Cons.IH [OF Cons.prems(1-3)] Cons.prems(4) by (simp add: x)
  next
    case True
    obtain c single1 repo1 where one: "add_account_changes eo r prior a acc single repo = Inr (c, single1, repo1)"
      and rest: "extract_state eo r prior st single1 (with_trie_changes a c tries) repo1
        = Inr (single', tries', repo')"
      using Cons.prems(4) True by (auto simp: x rbind_Inr_iff)
    have "storage_holds holds repo a (M a)" using M Cons.prems(2) by (simp add: same_inner_holds)
    then have c: "repo_ok hashed repo1" "same_inner repo repo1" "tc_trie_diff c \<subseteq>\<^sub>m hashed"
      "holds (inner_nodes repo a ++ tc_trie_diff c) (tc_root c)
        (fold (put_slot (en_storage eo)) (written_slots acc) (M a))"
      using account_storage_changes_holds [OF laws Cons.prems(1), of a "M a" acc]
        add_account_changes_Inr [OF one] by auto
    have same: "same_inner repo0 repo1" by (rule same_inner_trans [OF Cons.prems(2) c(2)])
    have "inner_nodes repo a = inner_nodes repo0 a" using Cons.prems(2) by (simp add: same_inner_def)
    with c(4) have "tries_ok (en_storage eo) hashed holds repo0 M (seen(a \<mapsto> acc)) (with_trie_changes a c tries)"
      by (intro tries_ok_step [OF laws(1) ok0 Cons.prems(3) c(3)]) simp
    from Cons.IH [OF c(1) same this rest] show ?thesis by (simp only: x fold_simps see_simps(1) [OF True])
  qed
qed

lemma extract_states_tries:
  assumes laws: "storage_laws (en_storage eo) hashed rep holds" "rlp_laws (en_storage eo)"
    and M: "\<And>a. storage_holds holds repo0 a (M a)" and ok0: "repo_ok hashed repo0"
    and ok: "repo_ok hashed repo" "same_inner repo0 repo"
    and tries: "tries_ok (en_storage eo) hashed holds repo0 M seen tries"
    and run: "extract_states eo r sts changes tries repo = Inr (changes', tries', repo')"
  shows "repo_ok hashed repo' \<and> same_inner repo0 repo' \<and>
    tries_ok (en_storage eo) hashed holds repo0 M (fold (fold see) sts seen) tries'"
  using ok tries run
proof (induction sts arbitrary: seen changes tries repo)
  case Nil
  then show ?case by simp
next
  case (Cons st sts)
  obtain single tries1 repo1 changes1
    where one: "extract_state eo r changes st account_changes_new tries repo = Inr (single, tries1, repo1)"
      and rest: "extract_states eo r sts changes1 tries1 repo1 = Inr (changes', tries', repo')"
    using Cons.prems(4) by (auto simp: rbind_Inr_iff)
  from extract_state_tries [OF laws M ok0 Cons.prems(1-3) one]
  have "repo_ok hashed repo1" "same_inner repo0 repo1"
    "tries_ok (en_storage eo) hashed holds repo0 M (fold see st seen) tries1" by simp_all
  from Cons.IH [OF this rest] show ?case by simp
qed

lemma storage_ref_rep:
  assumes "storage_laws (en_storage eo) hashed rep holds" "repo_ok hashed repo" "storage_holds holds repo a m"
  shows "fst (storage_ref eo repo a i) =
    (case slot_result (en_storage eo) m i of
       Inl e \<Rightarrow> Inl (DbError (en_storage_error eo e)) | Inr v \<Rightarrow> Inr (unwrap_or v 0))"
proof -
  let ?repo = "repo(a \<mapsto> db_of repo a)"
  obtain t where t: "for_account (en_storage eo) a repo = (Inr \<lparr>tr_account = a, tr_trie = t\<rparr>, ?repo)"
    "rep (inner_nodes ?repo a) t m"
    using for_account_rep [OF assms] by (metis db_of_upd)
  then have "storage_get (en_storage eo) \<lparr>tr_account = a, tr_trie = t\<rparr> i ?repo
      = (slot_result (en_storage eo) m i, ?repo)"
    by (intro storage_get_rep [OF assms(1) repo_ok_touch [OF assms(2)]]) simp
  with t(1) show ?thesis by (simp add: storage_ref_def sbind_def split: sum.split)
qed

lemma slot_result_fold:
  assumes rlp: "rlp_laws ss" and inj: "inj_on (trie_key ss) I" and i: "i \<in> I"
    and xs: "fst ` set xs \<subseteq> I" "distinct (map fst xs)"
  shows "slot_result ss (fold (put_slot ss) xs m) i =
    (case map_of xs i of None \<Rightarrow> slot_result ss m i | Some v \<Rightarrow> Inr (if v = 0 then None else Some v))"
  using xs
proof (induction xs arbitrary: m)
  case Nil
  then show ?case by simp
next
  case (Cons x xs)
  obtain j v where x: "x = (j, v)" by (cases x)
  have j: "trie_key ss i = trie_key ss j \<longleftrightarrow> i = j" using inj i Cons.prems(1) by (auto simp: x inj_on_def)
  note step = slot_result_put [OF rlp j, of v m] Cons.IH [of "put_slot ss x m"]
  show ?case
  proof (cases "i = j")
    case True
    then have "map_of xs i = None" using Cons.prems(2) by (simp add: x map_of_eq_None_iff)
    then show ?thesis using step Cons.prems True by (simp add: x)
  next
    case False
    then show ?thesis using step Cons.prems by (simp add: x split: option.split)
  qed
qed

lemma written_slots_keys:
  "fst ` set (written_slots acc) \<subseteq> fst ` set (ea_storage acc)"
  "distinct (map fst (ea_storage acc)) \<Longrightarrow> distinct (map fst (written_slots acc))"
  by (force simp: written_slots_def changed_storage_slots_def)
    (simp add: written_slots_def changed_storage_slots_def comp_def split_beta distinct_map_filter)

lemma map_of_written:
  assumes "distinct (map fst (ea_storage acc))"
  shows "map_of (written_slots acc) i =
    (if i \<in> fst ` set (changed_storage_slots acc) then Some (sl_present_value (the (map_of (ea_storage acc) i)))
     else None)"
proof -
  have w: "map_of (written_slots acc) i = map_option sl_present_value (map_of (changed_storage_slots acc) i)"
    by (simp add: written_slots_def map_of_map)
  show ?thesis
  proof (cases "map_of (changed_storage_slots acc) i")
    case None
    then show ?thesis using w by (simp add: map_of_eq_None_iff)
  next
    case (Some s)
    then have "(i, s) \<in> set (changed_storage_slots acc)" by (rule map_of_SomeD)
    moreover from this have "map_of (ea_storage acc) i = Some s"
      using assms by (simp add: changed_storage_slots_def)
    ultimately show ?thesis using w Some by force
  qed
qed

lemma fold_see:
  "distinct (map fst st) \<Longrightarrow> fold see st seen a =
     (case map_of st a of Some acc \<Rightarrow> if persistent acc then Some acc else seen a | None \<Rightarrow> seen a)"
proof (induction st arbitrary: seen a)
  case (Cons x st)
  obtain b acc where x: "x = (b, acc)" by (cases x)
  have st: "distinct (map fst st)" and "map_of st b = None" using Cons.prems by (simp_all add: x map_of_eq_None_iff)
  then show ?case
    by (cases "persistent acc"; cases "a = b") (simp_all add: x Cons.IH [OF st] split: option.split)
qed simp

text \<open>The storage of every account after the changes of a session have been applied.\<close>

lemma session_storage:
  assumes laws: "storage_laws (en_storage eo) hashed rep holds" "rlp_laws (en_storage eo)"
    and ok: "repo_ok hashed (nc_storage_trie ctx)" and ws: "well_stored holds (nc_storage_trie ctx)"
    and run: "extract_evm_changes_from_native eo ctx = Inr (ch, ctx')"
    and inj: "inj_on (trie_key (en_storage eo)) I"
    and slots: "\<forall>a acc. fold (fold see) (nc_state_changes ctx) Map.empty a = Some acc \<longrightarrow>
      distinct (map fst (ea_storage acc)) \<and> fst ` set (ea_storage acc) \<subseteq> I"
  shows "\<exists>repo'. repository_apply (en_storage eo) (ec_storage ch) (nc_storage_trie ctx') = (Inr (), repo') \<and>
    (\<forall>a. \<forall>i \<in> I. fst (storage_ref eo repo' a i) =
       (case Option.bind (fold (fold see) (nc_state_changes ctx) Map.empty a) (\<lambda>acc. map_of (written_slots acc) i) of
          Some v \<Rightarrow> Inr v | None \<Rightarrow> fst (storage_ref eo (nc_storage_trie ctx) a i)))"
proof -
  let ?ss = "en_storage eo" and ?repo = "nc_storage_trie ctx" and ?repo1 = "nc_storage_trie ctx'"
  let ?seen = "fold (fold see) (nc_state_changes ctx) Map.empty"
  obtain M where M: "\<And>a. storage_holds holds ?repo a (M a)" using ws unfolding well_stored_def by metis
  have "tries_ok ?ss hashed holds ?repo M Map.empty []" by (simp add: tries_ok_def)
  moreover obtain changes where "extract_states eo (nc_resolver ctx) (nc_state_changes ctx) account_changes_new []
      ?repo = Inr (changes, ec_storage ch, ?repo1)"
    using run by (auto simp: extract_evm_changes_from_native_def rbind_Inr_iff)
  ultimately have ok1: "repo_ok hashed ?repo1" and same: "same_inner ?repo ?repo1"
    and tries: "tries_ok ?ss hashed holds ?repo M ?seen (ec_storage ch)"
    using extract_states_tries [OF laws M ok ok same_inner_refl] by blast+
  let ?N = "\<lambda>a. fold (put_slot ?ss) (written_slots (the (?seen a))) (M a)"
  have M1: "storage_holds holds ?repo1 a (M a)" for a using M same by (simp add: same_inner_holds)
  have each: "tc_trie_diff c \<subseteq>\<^sub>m hashed \<and> holds (inner_nodes ?repo1 a ++ tc_trie_diff c) (tc_root c) (?N a)"
    if "(a, c) \<in> set (ec_storage ch)" for a c
    using tries same that by (auto simp: tries_ok_def same_inner_def)
  have dom: "fst ` set (ec_storage ch) = dom ?seen" and "distinct (map fst (ec_storage ch))"
    using tries by (simp_all add: tries_ok_def)
  from repository_apply_holds [OF laws ok1 M1 this(2) each] obtain repo'
    where run': "repository_apply ?ss (ec_storage ch) ?repo1 = (Inr (), repo')" "repo_ok hashed repo'"
      and after: "\<And>a. storage_holds holds repo' a (if a \<in> dom ?seen then ?N a else M a)"
    unfolding dom by blast
  have "fst (storage_ref eo repo' a i) =
       (case Option.bind (?seen a) (\<lambda>acc. map_of (written_slots acc) i) of
          Some v \<Rightarrow> Inr v | None \<Rightarrow> fst (storage_ref eo ?repo a i))" if i: "i \<in> I" for a i
  proof (cases "?seen a")
    case None
    then show ?thesis
      using storage_ref_rep [OF laws(1) run'(2) after] storage_ref_rep [OF laws(1) ok M] by (simp add: domIff)
  next
    case (Some acc)
    then have "storage_holds holds repo' a (fold (put_slot ?ss) (written_slots acc) (M a))"
      using after [of a] by (simp add: domIff)
    note new = storage_ref_rep [OF laws(1) run'(2) this]
    have "slot_result ?ss (fold (put_slot ?ss) (written_slots acc) (M a)) i =
      (case map_of (written_slots acc) i of None \<Rightarrow> slot_result ?ss (M a) i
       | Some v \<Rightarrow> Inr (if v = 0 then None else Some v))"
      using slots [rule_format, OF Some] written_slots_keys by (intro slot_result_fold [OF laws(2) inj i]) blast+
    with Some show ?thesis using new [of i] storage_ref_rep [OF laws(1) ok M, of a i]
      by (simp split: option.split)
  qed
  with run'(1) show ?thesis by blast
qed

text \<open>Tries for evaluation: a trie is the list of its entries, stored as one node that is its own
  hash. Byte strings are encoded with a marker in front of every byte.\<close>

definition example_string :: "bytes \<Rightarrow> bytes" where
  "example_string x = concat (map (\<lambda>b. [1, b]) x) @ [0, 0]"

definition example_encode_trie :: "(bytes \<times> bytes) list \<Rightarrow> bytes" where
  "example_encode_trie al = concat (map (\<lambda>(k, v). example_string k @ example_string v) al)"

fun example_strings :: "bytes \<Rightarrow> bytes \<Rightarrow> bytes list" where
  "example_strings acc (f # b # bs) =
     (if f = 1 then example_strings (acc @ [b]) bs else acc # example_strings [] bs)"
| "example_strings acc _ = []"

fun example_pairs :: "bytes list \<Rightarrow> (bytes \<times> bytes) list" where
  "example_pairs (k # v # xs) = (k, v) # example_pairs xs"
| "example_pairs _ = []"

definition example_decode_trie :: "bytes \<Rightarrow> (bytes \<times> bytes) list" where
  "example_decode_trie bs = example_pairs (example_strings [] bs)"

lemma example_strings_string:
  "example_strings acc (example_string x @ bs) = (acc @ x) # example_strings [] bs"
  by (induction x arbitrary: acc) (simp_all add: example_string_def)

lemma example_decode_encode_trie [simp]: "example_decode_trie (example_encode_trie al) = al"
  by (induction al) (auto simp: example_decode_trie_def example_encode_trie_def example_strings_string)

definition example_storage_ops :: "(bytes \<times> bytes) list storage_ops" where
  "example_storage_ops =
     (let commit = (\<lambda>v t. Inr \<lparr>cm_root = example_encode_trie t, cm_diff = [example_encode_trie t \<mapsto> example_encode_trie t],
             cm_trie = t, cm_writes = [(example_encode_trie t, example_encode_trie t)], cm_removes = []\<rparr>)
      in \<lparr>ss_keccak256 = (\<lambda>b. b), ss_encode_rlp = be_bytes 32, ss_decode_rlp = (\<lambda>b. Inr (from_be_bytes b)),
          ss_new = [],
          ss_open = (\<lambda>v r. case v r of None \<Rightarrow> Inl ''unknown root'' | Some n \<Rightarrow> Inr (example_decode_trie n)),
          ss_get = (\<lambda>v t k. Inr (map_of t k)), ss_insert = (\<lambda>v t k x. Inr (AList.update k x t)),
          ss_remove = (\<lambda>v t k. Inr (AList.delete k t)), ss_commit = commit, ss_root_hash = commit,
          ss_order = (\<lambda>cs. cs)\<rparr>)"

abbreviation example_storage_holds :: "nodes \<Rightarrow> b256 \<Rightarrow> (bytes \<rightharpoonup> bytes) \<Rightarrow> bool" where
  "example_storage_holds base r m \<equiv> base r = Some r \<and> (\<exists>al. r = example_encode_trie al \<and> m = map_of al)"

lemma example_storage_laws:
  "storage_laws example_storage_ops Some (\<lambda>_ t m. map_of t = m) example_storage_holds"
proof -
  have le: "base r = Some r \<Longrightarrow> base \<subseteq>\<^sub>m v \<Longrightarrow> v r = Some r" for base v :: nodes and r
    by (metis domI map_le_def)
  have one: "[x \<mapsto> x] \<subseteq>\<^sub>m Some" for x :: bytes by (simp add: map_le_def)
  show ?thesis
    by (auto simp: storage_laws_def example_storage_ops_def Let_def AList.update_conv' AList.delete_conv'
        one dest: le)
qed

lemma from_be_bytes_be_bytes [simp]: "from_be_bytes (be_bytes 32 v) = (v :: u256)"
  by (simp add: from_be_bytes_def be_bytes_def from_le_bytes_le_bytes take_bit_word_eq_self)

lemma example_rlp_laws: "rlp_laws example_storage_ops"
  by (simp add: rlp_laws_def example_storage_ops_def Let_def) (metis length_be_bytes list.size(3) zero_neq_numeral)

lemma example_trie_key_inj: "inj_on (trie_key example_storage_ops) I"
  by (intro inj_onI) (metis (no_types, lifting) example_storage_ops_def from_be_bytes_be_bytes
      storage_ops.select_convs(1) trie_key_def)

definition example_evm_ops :: "(bytes \<times> bytes) list evm_ops" where
  "example_evm_ops =
     \<lparr>en_storage = example_storage_ops, en_encode_account = (\<lambda>_. [1]), en_decode_account = (\<lambda>_. None),
      en_serialize = (\<lambda>_ _. None), en_deserialize = (\<lambda>_ _. None), en_squash = (\<lambda>_ b. Some b),
      en_storage_error = (\<lambda>_. \<lparr>major_status = 1, vm_message = ''storage''\<rparr>),
      en_missing_data = (\<lambda>s. \<lparr>major_status = 2, vm_message = s\<rparr>),
      en_cast_error = \<lparr>major_status = 3, vm_message = ''cast''\<rparr>,
      en_evm_error = (\<lambda>s. \<lparr>major_status = 4, vm_message = s\<rparr>)\<rparr>"

lemma example_ops_storage: "en_storage example_evm_ops = example_storage_ops"
  by (simp add: example_evm_ops_def)

lemmas example_laws = example_storage_laws [folded example_ops_storage] example_rlp_laws [folded example_ops_storage]

lemma example_slots_inj: "inj_on (trie_key (en_storage example_evm_ops)) I"
  using example_trie_key_inj by (simp add: example_ops_storage)

text \<open>An account that changes one slot from zero, and a session with some states.\<close>

definition example_account :: "u256 \<Rightarrow> u256 \<Rightarrow> evm_account" where
  "example_account i v =
     \<lparr>ea_info = \<lparr>ai_balance = 0, ai_nonce = 1, ai_code_hash = [], ai_code = None\<rparr>,
      ea_storage = [(i, \<lparr>sl_original_value = 0, sl_present_value = v\<rparr>)],
      ea_touched = True, ea_selfdestructed = False\<rparr>"

definition example_session :: "evm_state list \<Rightarrow> unit native_evm_context" where
  "example_session sts =
     (native_evm_context_new
        \<lparr>rs_module = (\<lambda>_. Inr (Inr None)), rs_resource = (\<lambda>_ _. Inr (Inr (None, 0)))\<rparr>
        repository_new eth_transfers_logger_default
        \<lparr>hx_number = 1, hx_timestamp = 12, hx_prev_randao = []\<rparr> (\<lambda>_. None) ())
     \<lparr>nc_state_changes := sts\<rparr>"

lemmas example_evm_defs = example_evm_ops_def example_account_def example_session_def
  native_evm_context_new_def

lemma example_persistent: "persistent (example_account i v)"
  by (simp add: persistent_def example_account_def)

lemma example_session_repo:
  "nc_storage_trie (example_session sts) = repository_new" "nc_state_changes (example_session sts) = sts"
  "repo_ok hashed repository_new" "well_stored holds repository_new"
  by (simp_all add: example_evm_defs repo_ok_def well_stored_def storage_holds_def repository_new_def
      db_of_def create_def staging_new_def in_memory_db_empty_def map_le_def)

lemma example_add_account:
  assumes "ac_resources single = []"
    "account_storage_changes example_storage_ops a (example_account i v) repo = (Inr c, repo')"
  shows "\<exists>single'. add_account_changes example_evm_ops (nc_resolver (example_session sts)) prior a
    (example_account i v) single repo = Inr (c, single', repo')"
  using assms
  by (simp add: add_account_changes_def unwrap_storage_def evm_resource_exists_def add_resource_op_def add_code_def
      example_evm_defs Let_def)

lemma example_changes_succeed:
  assumes "repo_ok Some repo" "well_stored example_storage_holds repo"
  shows "\<exists>c repo'. account_storage_changes example_storage_ops a acc repo = (Inr c, repo') \<and>
    repo_ok Some repo' \<and> well_stored example_storage_holds repo'"
proof -
  obtain m where "storage_holds example_storage_holds repo a m" using assms(2) unfolding well_stored_def by blast
  from account_storage_changes_holds [OF example_storage_laws example_rlp_laws assms(1) this, of acc]
  obtain c repo' where "account_storage_changes example_storage_ops a acc repo = (Inr c, repo')"
    "repo_ok Some repo'" "same_inner repo repo'" by blast
  then show ?thesis using well_stored_same [OF _ assms(2)] by blast
qed

lemma example_extract_state:
  assumes "repo_ok Some repo" "well_stored example_storage_holds repo"
  shows "\<exists>single tries' repo'. extract_state example_evm_ops (nc_resolver (example_session sts)) prior
      [(a, example_account i v)] account_changes_new tries repo = Inr (single, tries', repo') \<and>
    repo_ok Some repo' \<and> well_stored example_storage_holds repo'"
proof -
  from example_changes_succeed [OF assms] obtain c repo'
    where c: "account_storage_changes example_storage_ops a (example_account i v) repo = (Inr c, repo')"
      "repo_ok Some repo'" "well_stored example_storage_holds repo'" by blast
  from example_add_account [OF _ c(1), of account_changes_new] obtain single
    where "add_account_changes example_evm_ops (nc_resolver (example_session sts)) prior a
      (example_account i v) account_changes_new repo = Inr (c, single, repo')"
    by (auto simp: account_changes_new_def)
  with c show ?thesis by (simp add: example_persistent)
qed

lemma example_extract:
  assumes "sts = [[(a, example_account i v)]] \<or> sts = [[(a, example_account i v)], [(b, example_account j w)]]"
  shows "\<exists>ch ctx'. extract_evm_changes_from_native example_evm_ops (example_session sts) = Inr (ch, ctx')"
proof -
  define r where "r = nc_resolver (example_session sts)"
  have squash: "en_squash example_evm_ops x y = Some y" for x y by (simp add: example_evm_ops_def)
  obtain s1 t1 r1 where one: "extract_state example_evm_ops r account_changes_new
      [(a, example_account i v)] account_changes_new [] repository_new = Inr (s1, t1, r1)"
    "repo_ok Some r1" "well_stored example_storage_holds r1"
    using example_extract_state [OF example_session_repo(3,4), where sts = sts] unfolding r_def by blast
  obtain s2 t2 r2 where two: "extract_state example_evm_ops r s1
      [(b, example_account j w)] account_changes_new t1 r1 = Inr (s2, t2, r2)"
    using example_extract_state [OF one(2,3), where sts = sts] unfolding r_def by blast
  have "\<exists>x. extract_states example_evm_ops r sts account_changes_new [] repository_new = Inr x"
    using assms one(1) two squash by (elim disjE) (simp_all del: extract_state.simps)
  then show ?thesis
    by (auto simp: extract_evm_changes_from_native_def example_session_repo simp flip: r_def)
qed

lemma example_storage_is_zero: "fst (storage_ref example_evm_ops repository_new a i) = Inr 0"
proof -
  have "storage_holds example_storage_holds repository_new a Map.empty"
    by (simp add: storage_holds_def repository_new_def db_of_def create_def staging_new_def in_memory_db_empty_def)
  moreover have "storage_laws (en_storage example_evm_ops) Some (\<lambda>_ t m. map_of t = m) example_storage_holds"
    using example_storage_laws by (simp add: example_evm_ops_def)
  ultimately show ?thesis
    using storage_ref_rep [OF _ example_session_repo(3)] by (fastforce simp: slot_result_def)
qed

text \<open>C34. The storage that an EVM transaction writes is what later transactions read: after its changes
  have been applied, every slot of every account that it touched and did not destroy has the
  transaction's value, a slot set to zero included, and all other slots keep theirs.\<close>

theorem evm_storage_is_persisted:
  assumes laws: "storage_laws (en_storage eo) hashed rep holds" "rlp_laws (en_storage eo)"
    and repo: "repo_ok hashed (nc_storage_trie ctx)" "well_stored holds (nc_storage_trie ctx)"
    and run: "nc_state_changes ctx = [st]" "extract_evm_changes_from_native eo ctx = Inr (ch, ctx')"
    and inj: "inj_on (trie_key (en_storage eo)) I"
    and maps: "distinct (map fst st)" "\<forall>(a, acc) \<in> set st. distinct (map fst (ea_storage acc)) \<and>
      fst ` set (ea_storage acc) \<subseteq> I"
  shows "\<exists>repo'. repository_apply (en_storage eo) (ec_storage ch) (nc_storage_trie ctx') = (Inr (), repo') \<and>
    (\<forall>a. \<forall>i \<in> I. fst (storage_ref eo repo' a i) =
       (case map_of st a of
          Some acc \<Rightarrow> if persistent acc \<and> i \<in> fst ` set (changed_storage_slots acc)
            then Inr (sl_present_value (the (map_of (ea_storage acc) i)))
            else fst (storage_ref eo (nc_storage_trie ctx) a i)
        | None \<Rightarrow> fst (storage_ref eo (nc_storage_trie ctx) a i)))"
proof -
  have seen: "fold (fold see) (nc_state_changes ctx) Map.empty a =
    (case map_of st a of Some acc \<Rightarrow> if persistent acc then Some acc else None | None \<Rightarrow> None)" for a
    by (simp add: run(1) fold_see [OF maps(1)])
  have "distinct (map fst (ea_storage acc)) \<and> fst ` set (ea_storage acc) \<subseteq> I"
    if "fold (fold see) (nc_state_changes ctx) Map.empty a = Some acc" for a acc
  proof -
    have "(a, acc) \<in> set st" using that by (auto simp: seen split: option.splits if_splits dest!: map_of_SomeD)
    with maps(2) show ?thesis by blast
  qed
  then have "\<forall>a acc. fold (fold see) (nc_state_changes ctx) Map.empty a = Some acc \<longrightarrow>
      distinct (map fst (ea_storage acc)) \<and> fst ` set (ea_storage acc) \<subseteq> I" by blast
  from session_storage [OF laws repo run(2) inj this]
  obtain repo' where run': "repository_apply (en_storage eo) (ec_storage ch) (nc_storage_trie ctx') = (Inr (), repo')"
    and read: "\<And>a i. i \<in> I \<Longrightarrow> fst (storage_ref eo repo' a i) =
       (case Option.bind (fold (fold see) (nc_state_changes ctx) Map.empty a) (\<lambda>acc. map_of (written_slots acc) i) of
          Some v \<Rightarrow> Inr v | None \<Rightarrow> fst (storage_ref eo (nc_storage_trie ctx) a i))"
    by blast
  have "map_of (written_slots acc) i =
    (if i \<in> fst ` set (changed_storage_slots acc) then Some (sl_present_value (the (map_of (ea_storage acc) i)))
     else None)" if "map_of st a = Some acc" for a acc i
    using maps(2) map_of_SomeD [OF that] by (intro map_of_written) blast
  then have "\<forall>a. \<forall>i \<in> I. fst (storage_ref eo repo' a i) =
       (case map_of st a of
          Some acc \<Rightarrow> if persistent acc \<and> i \<in> fst ` set (changed_storage_slots acc)
            then Inr (sl_present_value (the (map_of (ea_storage acc) i)))
            else fst (storage_ref eo (nc_storage_trie ctx) a i)
        | None \<Rightarrow> fst (storage_ref eo (nc_storage_trie ctx) a i))"
    by (simp add: read seen split: option.split)
  with run' show ?thesis by blast
qed

theorem evm_storage_is_persisted_witness:
  "\<exists>ch ctx' repo'. extract_evm_changes_from_native example_evm_ops (example_session [[([5], example_account 1 7)]])
       = Inr (ch, ctx') \<and>
     repository_apply example_storage_ops (ec_storage ch) (nc_storage_trie ctx') = (Inr (), repo') \<and>
     fst (storage_ref example_evm_ops repo' [5] 1) = Inr 7 \<and>
     fst (storage_ref example_evm_ops repo' [5] 2) = Inr 0 \<and>
     fst (storage_ref example_evm_ops repo' [6] 1) = Inr 0"
proof -
  let ?sts = "[[([5], example_account 1 7)]] :: evm_state list"
  obtain ch ctx' where run: "extract_evm_changes_from_native example_evm_ops (example_session ?sts) = Inr (ch, ctx')"
    using example_extract [of ?sts "[5]" 1 7] by blast
  have changed: "changed_storage_slots (example_account 1 7) = ea_storage (example_account 1 7)"
    "map_of (ea_storage (example_account 1 7)) 1 = Some \<lparr>sl_original_value = 0, sl_present_value = 7\<rparr>"
    "fst ` set (ea_storage (example_account 1 7)) = {1}"
    by (simp_all add: changed_storage_slots_def example_account_def)
  have st: "distinct (map fst [([5 :: u8], example_account 1 7)])"
    "\<forall>(a, acc) \<in> set [([5 :: u8], example_account 1 7)]. distinct (map fst (ea_storage acc)) \<and>
      fst ` set (ea_storage acc) \<subseteq> UNIV"
    by (simp_all add: example_account_def)
  from evm_storage_is_persisted [OF example_laws example_session_repo(3,4) [folded example_session_repo(1) [of ?sts]]
      example_session_repo(2) run example_slots_inj st]
  obtain repo' where "repository_apply example_storage_ops (ec_storage ch) (nc_storage_trie ctx') = (Inr (), repo')"
    and read: "\<And>a i. fst (storage_ref example_evm_ops repo' a i) =
       (case map_of [([5], example_account 1 7)] a of
          Some acc \<Rightarrow> if persistent acc \<and> i \<in> fst ` set (changed_storage_slots acc)
            then Inr (sl_present_value (the (map_of (ea_storage acc) i)))
            else fst (storage_ref example_evm_ops repository_new a i)
        | None \<Rightarrow> fst (storage_ref example_evm_ops repository_new a i))"
    unfolding example_session_repo example_ops_storage by blast
  with run show ?thesis
    by (intro exI [of _ ch] exI [of _ ctx'] exI [of _ repo'])
      (simp add: example_persistent changed example_storage_is_zero)
qed

text \<open>C35. When a session calls the EVM more than once, the storage an earlier call wrote to an account is
  lost as soon as a later call touches that account: the slots the last state does not change have the
  values from before the session.\<close>

theorem later_call_discards_storage:
  assumes laws: "storage_laws (en_storage eo) hashed rep holds" "rlp_laws (en_storage eo)"
    and repo: "repo_ok hashed (nc_storage_trie ctx)" "well_stored holds (nc_storage_trie ctx)"
    and run: "nc_state_changes ctx = [st1, st2]" "extract_evm_changes_from_native eo ctx = Inr (ch, ctx')"
    and inj: "inj_on (trie_key (en_storage eo)) I"
    and maps: "distinct (map fst st1)" "distinct (map fst st2)"
      "\<forall>(a, acc) \<in> set st1 \<union> set st2. distinct (map fst (ea_storage acc)) \<and> fst ` set (ea_storage acc) \<subseteq> I"
    and last: "(a, acc) \<in> set st2" "persistent acc" "i \<in> I" "i \<notin> fst ` set (changed_storage_slots acc)"
  shows "\<exists>repo'. repository_apply (en_storage eo) (ec_storage ch) (nc_storage_trie ctx') = (Inr (), repo') \<and>
    fst (storage_ref eo repo' a i) = fst (storage_ref eo (nc_storage_trie ctx) a i)"
proof -
  let ?seen = "fold (fold see) (nc_state_changes ctx) Map.empty"
  have seen: "?seen b = (case map_of st2 b of Some acc \<Rightarrow> if persistent acc then Some acc else fold see st1 Map.empty b
      | None \<Rightarrow> fold see st1 Map.empty b)" for b
    by (simp add: run(1) fold_see [OF maps(2)])
  have "distinct (map fst (ea_storage x)) \<and> fst ` set (ea_storage x) \<subseteq> I" if "?seen b = Some x" for b x
  proof -
    have "(b, x) \<in> set st1 \<union> set st2"
      using that by (auto simp: seen fold_see [OF maps(1)] split: option.splits if_splits dest!: map_of_SomeD)
    with maps(3) show ?thesis by blast
  qed
  then have "\<forall>b x. ?seen b = Some x \<longrightarrow>
      distinct (map fst (ea_storage x)) \<and> fst ` set (ea_storage x) \<subseteq> I" by blast
  note all = session_storage [OF laws repo run(2) inj this]
  have "?seen a = Some acc" using last maps(2) by (simp add: seen)
  moreover have "map_of (written_slots acc) i = None"
    using last(4) by (force simp: map_of_eq_None_iff written_slots_def)
  ultimately show ?thesis using all last(3) by fastforce
qed

theorem later_call_discards_storage_witness:
  "\<exists>ch ctx' repo'. extract_evm_changes_from_native example_evm_ops
       (example_session [[([5], example_account 1 7)], [([5], example_account 2 8)]]) = Inr (ch, ctx') \<and>
     repository_apply example_storage_ops (ec_storage ch) (nc_storage_trie ctx') = (Inr (), repo') \<and>
     fst (storage_ref example_evm_ops repo' [5] 1) = Inr 0"
proof -
  let ?sts = "[[([5], example_account 1 7)], [([5], example_account 2 8)]] :: evm_state list"
  obtain ch ctx' where run: "extract_evm_changes_from_native example_evm_ops (example_session ?sts) = Inr (ch, ctx')"
    using example_extract [of ?sts "[5]" 1 7 "[5]" 2 8] by blast
  have "(1 :: u256) \<notin> fst ` set (changed_storage_slots (example_account 2 8))"
    by (simp add: changed_storage_slots_def example_account_def)
  note slot = this
  have st: "distinct (map fst [([5 :: u8], example_account 1 7)])" "distinct (map fst [([5 :: u8], example_account 2 8)])"
    "\<forall>(a, acc) \<in> set [([5 :: u8], example_account 1 7)] \<union> set [([5], example_account 2 8)].
      distinct (map fst (ea_storage acc)) \<and> fst ` set (ea_storage acc) \<subseteq> UNIV"
    "([5 :: u8], example_account 2 8) \<in> set [([5], example_account 2 8)]"
    by (simp_all add: example_account_def)
  from later_call_discards_storage [OF example_laws example_session_repo(3,4) [folded example_session_repo(1) [of ?sts]]
      example_session_repo(2) run example_slots_inj st example_persistent UNIV_I slot]
  obtain repo' where "repository_apply example_storage_ops (ec_storage ch) (nc_storage_trie ctx') = (Inr (), repo')"
    "fst (storage_ref example_evm_ops repo' [5] 1) = fst (storage_ref example_evm_ops repository_new [5] 1)"
    unfolding example_session_repo example_ops_storage by blast
  with run show ?thesis
    by (intro exI [of _ ch] exI [of _ ctx'] exI [of _ repo']) (simp add: example_storage_is_zero)
qed

end
