(* ===== verification/App_Queries.thy ===== *)
theory App_Queries
  imports App Evm_Native
begin

text \<open>
  The read side of the application: \<^verbatim>\<open>app/src/query.rs\<close>, \<^verbatim>\<open>execution/src/simulate.rs\<close> and the Merkle
  proofs of \<^verbatim>\<open>blockchain/src/state/read.rs\<close>. A reader sees the stores, the history of the state and the
  EVM storage; what it needs of third-party code is collected in \<open>reader_ops\<close>. Simulations run in a
  session over the resolver of a height; the time and the random values they draw are arguments.
\<close>

section \<open>Simulated transactions\<close>

type_synonym resolved = "resolver \<times> repository \<times> hash_lookup"

record drawn =
  dw_now :: u64
  dw_prev_randao :: b256
  dw_tx_hash :: b256

definition fault_of_panic :: "panic + 'a \<Rightarrow> fault + 'a" where
  "fault_of_panic r = map_err (\<lambda>p. case p of Panic m \<Rightarrow> Panicking m) r"

text \<open>A request without a nonce gets the next nonce of its sender, when it has one.\<close>

definition requested_transaction ::
  "('s vm_ops) \<Rightarrow> (resolver \<Rightarrow> repository \<Rightarrow> 's) \<Rightarrow> transaction_request \<Rightarrow> resolver \<Rightarrow> repository
     \<Rightarrow> panic + normalized_eth_transaction" where
  "requested_transaction vm quick request res repo =
     (let tx = from_transaction_request request
      in if tr_from request \<noteq> None \<and> tr_nonce request = None
         then rbind (quick_get_nonce vm (quick res repo) (to_move_address (nt_signer tx)))
           (\<lambda>n. Inr (tx\<lparr>nt_nonce := n\<rparr>))
         else Inr tx)"

definition simulate_transaction ::
  "(resolved, 's, 'c, 'e) machine \<Rightarrow> (resolver \<Rightarrow> repository \<Rightarrow> 's) \<Rightarrow> genesis_config \<Rightarrow> 's base_token_accounts
     \<Rightarrow> drawn \<Rightarrow> transaction_request \<Rightarrow> resolved \<Rightarrow> u64 \<Rightarrow> fault + ('c, 'e) transaction_execution_outcome" where
  "simulate_transaction m quick cfg base_token dw request v block_height =
     rbind (fault_of_panic (requested_transaction (m_vm m) quick request (fst v) (fst (snd v)))) (\<lambda>tx.
     let hdr = \<lparr>hx_number = block_height, hx_timestamp = dw_now dw, hx_prev_randao = dw_prev_randao dw\<rparr>
     in execute_transaction m v cfg base_token hdr (dw_tx_hash dw)
          (CanonicalInput tx 1 with_default_gas_fee_multiplier (l2_input_new max_of 0)))"

text \<open>The bytes of the return values, or the output of an EVM call; \<open>bcs_list\<close> is BCS encoding of a
  list of byte strings.\<close>

definition call_work ::
  "'s vm_ops \<Rightarrow> (bytes list \<Rightarrow> string + bytes) \<Rightarrow> normalized_eth_transaction \<Rightarrow> transaction_data
     \<Rightarrow> ('s, bytes) exec" where
  "call_work vm bcs_list tx tx_data =
     (let sender = to_move_address (nt_signer tx)
      in case tx_data of
           EntryFunction f \<Rightarrow>
             ebind (ecall error_from_vm (execute_function_bypass_visibility vm (ef_module f) (ef_function f)
               (ef_ty_args f) (ef_args f) Metered)) (\<lambda>vs.
             elift (map_err error_from_bcs (bcs_list (map fst vs))))
         | ScriptOrDeployment (Script scr) \<Rightarrow>
             ethen (execute_script vm scr sender Metered) (ereturn [])
         | L2Contract contract \<Rightarrow>
             ebind (execute_evm_contract vm sender (to_move_address contract) (nt_value tx) (nt_data tx) Metered)
               (\<lambda>out. ereturn (no_output out))
         | EvmContract contract data \<Rightarrow>
             ebind (execute_evm_contract vm sender (to_move_address contract) (nt_value tx) data Metered)
               (\<lambda>out. ereturn (no_output out))
         | _ \<Rightarrow> efail (InvalidTransaction UnsupportedType))"

definition session_id_default :: session_id where
  "session_id_default =
     \<lparr>sid_txn_hash = replicate 32 0, sid_script_hash = None, sid_chain_id = 0, sid_user_txn_context = None,
      sid_block_header = \<lparr>hx_number = 0, hx_timestamp = 0, hx_prev_randao = replicate 32 0\<rparr>\<rparr>"

definition call_transaction ::
  "(resolved, 's, 'c, 'e) machine \<Rightarrow> (resolver \<Rightarrow> repository \<Rightarrow> 's) \<Rightarrow> (bytes list \<Rightarrow> string + bytes)
     \<Rightarrow> genesis_config \<Rightarrow> 's base_token_accounts \<Rightarrow> transaction_request \<Rightarrow> resolved \<Rightarrow> fault + bytes" where
  "call_transaction m quick bcs_list cfg base_token request v =
     rbind (fault_of_panic (requested_transaction (m_vm m) quick request (fst v) (fst (snd v)))) (\<lambda>tx.
     rbind (map_err Err (parse_from (m_from_bytes m) (m_from_bytes_script m) tx)) (\<lambda>tx_data.
     rbind (map_err (\<lambda>e. Err (error_from_vm e)) (m_create_vm m)) (\<lambda>_.
     fst (ethen (verify_transaction (m_vm m) base_token cfg tx 0 0) (call_work (m_vm m) bcs_list tx tx_data)
       (m_new_session m v session_id_default (gas_limit tx))))))"

section \<open>Merkle proofs\<close>

record storage_proof =
  sp_key :: u256
  sp_value :: u256
  sp_proof :: "bytes list"

record proof_response =
  pf_address :: address
  pf_balance :: u256
  pf_code_hash :: b256
  pf_nonce :: u64
  pf_storage_hash :: b256
  pf_account_proof :: "bytes list"
  pf_storage_proof :: "storage_proof list"

text \<open>\<open>get_proof\<close> of a storage trie and of the state trie are third-party code. A slot whose proof
  fails is skipped, a slot whose value cannot be read panics.\<close>

fun slot_proofs ::
  "'u storage_ops \<Rightarrow> (nodes \<Rightarrow> 'u \<Rightarrow> bytes \<Rightarrow> string + bytes list) \<Rightarrow> 'u storage_trie \<Rightarrow> repository \<Rightarrow> u256 list
     \<Rightarrow> panic + storage_proof list" where
  "slot_proofs ss get_proof tr repo [] = Inr []"
| "slot_proofs ss get_proof tr repo (i # is) =
     (case get_proof (trie_view repo tr) (tr_trie tr) (trie_key ss i) of
        Inl _ \<Rightarrow> slot_proofs ss get_proof tr repo is
      | Inr p \<Rightarrow>
          (case fst (storage_get ss tr i repo) of
             Inl _ \<Rightarrow> Inl (Panic ''called Result::unwrap() on an Err value'')
           | Inr v \<Rightarrow> rbind (slot_proofs ss get_proof tr repo is) (\<lambda>ps.
               Inr (\<lparr>sp_key = i, sp_value = unwrap_or v 0, sp_proof = p\<rparr> # ps))))"

definition proof_from_trie_and_resolver ::
  "'u evm_ops \<Rightarrow> (nodes \<Rightarrow> 'u \<Rightarrow> bytes \<Rightarrow> string + bytes list) \<Rightarrow> address \<Rightarrow> u256 list
     \<Rightarrow> string + bytes list \<Rightarrow> resolver \<Rightarrow> repository \<Rightarrow> panic + proof_response option" where
  "proof_from_trie_and_resolver eo get_proof a slots account_proof res repo =
     rbind (get_account eo \<lparr>rb_resolver = res, rb_block_hash_lookup = (\<lambda>_. None), rb_current_block_number = 0\<rparr> a)
       (\<lambda>r. case (r, account_proof) of
          (Inr (Some info), Inr ap) \<Rightarrow>
            rbind (if slots = [] then Inr (Some [])
                   else case for_account_with_root (en_storage eo) a (sa_storage_root info) repo of
                          (Inl _, _) \<Rightarrow> Inr None
                        | (Inr tr, repo') \<Rightarrow>
                            rbind (slot_proofs (en_storage eo) get_proof tr repo' slots) (\<lambda>ps. Inr (Some ps)))
              (\<lambda>ps. Inr (map_option (\<lambda>ps.
                 \<lparr>pf_address = a, pf_balance = sa_balance info, pf_code_hash = sa_code_hash info,
                  pf_nonce = sa_nonce info, pf_storage_hash = sa_storage_root info,
                  pf_account_proof = ap, pf_storage_proof = ps\<rparr>) ps))
        | _ \<Rightarrow> Inr None)"

definition is_l2_contract :: "address \<Rightarrow> bool" where
  "is_l2_contract a \<longleftrightarrow> bytes_le L2_LOWEST_ADDRESS a \<and> bytes_le a L2_HIGHEST_ADDRESS"

text \<open>Only L2 contract addresses are supported.\<close>

definition proof_at ::
  "('k, 'db, 't, 'r, 'tc) state_ops \<Rightarrow> block_pick \<Rightarrow> 'u evm_ops \<Rightarrow> ('db \<Rightarrow> 't \<Rightarrow> bytes \<Rightarrow> string + bytes list)
     \<Rightarrow> (nodes \<Rightarrow> 'u \<Rightarrow> bytes \<Rightarrow> string + bytes list) \<Rightarrow> 'db state_queries \<Rightarrow> repository \<Rightarrow> account_address
     \<Rightarrow> u256 list \<Rightarrow> u64 \<Rightarrow> panic + proof_response option" where
  "proof_at so pick eo tree_proof slot_proof q repo account slots h =
     (let a = to_eth_address account
      in if \<not> is_l2_contract a then Inr None
         else case root_by_height pick q h of
                None \<Rightarrow> Inr None
              | Some root \<Rightarrow>
                  rbind (query_resolver so pick q h) (\<lambda>r.
                  case r of
                    None \<Rightarrow> Inr None
                  | Some res \<Rightarrow>
                      rbind (map_err (\<lambda>_. Panic IN_MEMORY_EXPECT_MSG) (so_open so (sq_db q) (Some root))) (\<lambda>tree.
                      proof_from_trie_and_resolver eo slot_proof a slots
                        (tree_proof (sq_db q) tree (key_hash so (EvmKey a))) res repo)))"

section \<open>Queries of the application\<close>

record 'db application_reader =
  ar_genesis_config :: genesis_config
  ar_receipt_memory :: receipt_memory
  ar_storage :: shared_memory
  ar_state_queries :: "'db state_queries"
  ar_evm_storage :: repository

record ('k, 'db, 't, 'r, 'tc, 'u, 's, 'c, 'e) reader_ops =
  ro_state :: "('k, 'db, 't, 'r, 'tc) state_ops"
  ro_evm :: "'u evm_ops"
  ro_machine :: "(resolved, 's, 'c, 'e) machine"
  ro_quick :: "resolver \<Rightarrow> repository \<Rightarrow> 's"
  ro_base_token :: "'s base_token_accounts"
  ro_bcs_list :: "bytes list \<Rightarrow> string + bytes"
  ro_tx_ops :: tx_ops
  ro_picks :: picks
  ro_pick_receipt :: receipt_pick
  ro_encode_2718 :: "op_tx_envelope \<Rightarrow> bytes"
  ro_tree_proof :: "'db \<Rightarrow> 't \<Rightarrow> bytes \<Rightarrow> string + bytes list"
  ro_slot_proof :: "nodes \<Rightarrow> 'u \<Rightarrow> bytes \<Rightarrow> string + bytes list"

datatype block_tag = Number u64 | Finalized | Pending | Latest | Safe | Earliest

datatype block_id = IdNumber block_tag | IdHash b256

definition query_chain_id :: "'db application_reader \<Rightarrow> u64" where
  "query_chain_id rd = gc_chain_id (ar_genesis_config rd)"

fun resolve_height :: "'db application_reader \<Rightarrow> block_tag \<Rightarrow> u64 option" where
  "resolve_height rd (Number h) = Some h"
| "resolve_height rd Earliest = Some 0"
| "resolve_height rd tag = query_latest (ar_storage rd)"

definition at_height :: "'db application_reader \<Rightarrow> block_tag \<Rightarrow> (u64 \<Rightarrow> panic + 'a option) \<Rightarrow> panic + 'a option" where
  "at_height rd tag f = (case resolve_height rd tag of None \<Rightarrow> Inr None | Some h \<Rightarrow> f h)"

definition balance_by_height ::
  "('k, 'db, 't, 'r, 'tc, 'u, 's, 'c, 'e) reader_ops \<Rightarrow> 'db application_reader \<Rightarrow> address \<Rightarrow> block_tag
     \<Rightarrow> panic + u256 option" where
  "balance_by_height ro rd a tag =
     at_height rd tag (balance_at (ro_state ro) (pk_block (ro_picks ro)) (m_vm (ro_machine ro))
       (ro_quick ro) (ar_state_queries rd) (ar_evm_storage rd) (to_move_address a))"

definition nonce_by_height ::
  "('k, 'db, 't, 'r, 'tc, 'u, 's, 'c, 'e) reader_ops \<Rightarrow> 'db application_reader \<Rightarrow> address \<Rightarrow> block_tag
     \<Rightarrow> panic + u64 option" where
  "nonce_by_height ro rd a tag =
     at_height rd tag (nonce_at (ro_state ro) (pk_block (ro_picks ro)) (m_vm (ro_machine ro))
       (ro_quick ro) (ar_state_queries rd) (ar_evm_storage rd) (to_move_address a))"

definition block_by_hash ::
  "('k, 'db, 't, 'r, 'tc, 'u, 's, 'c, 'e) reader_ops \<Rightarrow> 'db application_reader \<Rightarrow> b256 \<Rightarrow> bool
     \<Rightarrow> panic + block_response option" where
  "block_by_hash ro rd h include_transactions =
     query_by_hash (ro_tx_ops ro) (ro_picks ro) (ar_storage rd) h include_transactions"

definition block_by_height ::
  "('k, 'db, 't, 'r, 'tc, 'u, 's, 'c, 'e) reader_ops \<Rightarrow> 'db application_reader \<Rightarrow> block_tag \<Rightarrow> bool
     \<Rightarrow> panic + block_response option" where
  "block_by_height ro rd tag include_transactions =
     at_height rd tag (\<lambda>h. query_by_height (ro_tx_ops ro) (ro_picks ro) (ar_storage rd) h include_transactions)"

definition block_number :: "'db application_reader \<Rightarrow> panic + u64" where
  "block_number rd =
     ok_or (query_latest (ar_storage rd)) (Panic ''called Option::unwrap() on a None value'')"

definition reader_hash_by_number ::
  "('k, 'db, 't, 'r, 'tc, 'u, 's, 'c, 'e) reader_ops \<Rightarrow> 'db application_reader \<Rightarrow> hash_lookup" where
  "reader_hash_by_number ro rd number =
     (case ok (query_by_height (ro_tx_ops ro) (ro_picks ro) (ar_storage rd) number False) of
        Some (Some b) \<Rightarrow> Some (br_hash b)
      | _ \<Rightarrow> None)"

text \<open>The height a simulation runs at, and what it reads.\<close>

definition resolved_at ::
  "('k, 'db, 't, 'r, 'tc, 'u, 's, 'c, 'e) reader_ops \<Rightarrow> 'db application_reader \<Rightarrow> block_tag
     \<Rightarrow> fault + u64 \<times> resolved" where
  "resolved_at ro rd tag =
     rbind (ok_or (resolve_height rd tag) (Panicking ''called Option::unwrap() on a None value'')) (\<lambda>h.
     rbind (fault_of_panic (resolver_at (ro_state ro) (pk_block (ro_picks ro)) (ar_state_queries rd) h)) (\<lambda>res.
     Inr (h, res, ar_evm_storage rd, reader_hash_by_number ro rd)))"

definition estimate_gas ::
  "('k, 'db, 't, 'r, 'tc, 'u, 's, 'c, 'e) reader_ops \<Rightarrow> 'db application_reader \<Rightarrow> drawn \<Rightarrow> transaction_request
     \<Rightarrow> block_tag \<Rightarrow> fault + u64" where
  "estimate_gas ro rd dw request tag =
     rbind (resolved_at ro rd tag) (\<lambda>(h, v).
     rbind (simulate_transaction (ro_machine ro) (ro_quick ro) (ar_genesis_config rd) (ro_base_token ro) dw
       request v h) (\<lambda>out.
     Inr (teo_gas_used out + teo_gas_used out div 3)))"

definition query_call ::
  "('k, 'db, 't, 'r, 'tc, 'u, 's, 'c, 'e) reader_ops \<Rightarrow> 'db application_reader \<Rightarrow> transaction_request
     \<Rightarrow> block_tag \<Rightarrow> fault + bytes" where
  "query_call ro rd request tag =
     rbind (resolved_at ro rd tag) (\<lambda>(_, v).
     call_transaction (ro_machine ro) (ro_quick ro) (ro_bcs_list ro)
       (ar_genesis_config rd) (ro_base_token ro) request v)"

definition query_transaction_receipt ::
  "('k, 'db, 't, 'r, 'tc, 'u, 's, 'c, 'e) reader_ops \<Rightarrow> 'db application_reader \<Rightarrow> b256
     \<Rightarrow> panic + transaction_receipt option" where
  "query_transaction_receipt ro rd h =
     receipt_query_by_transaction_hash (ro_pick_receipt ro) (ar_receipt_memory rd) h"

definition query_transaction_by_hash ::
  "('k, 'db, 't, 'r, 'tc, 'u, 's, 'c, 'e) reader_ops \<Rightarrow> 'db application_reader \<Rightarrow> b256
     \<Rightarrow> panic + transaction_response option" where
  "query_transaction_by_hash ro rd h =
     transaction_query_by_hash (ro_tx_ops ro) (pk_tx (ro_picks ro)) (sm_transactions (ar_storage rd)) h"

definition height_from_block_id ::
  "('k, 'db, 't, 'r, 'tc, 'u, 's, 'c, 'e) reader_ops \<Rightarrow> 'db application_reader \<Rightarrow> block_id
     \<Rightarrow> panic + u64 option" where
  "height_from_block_id ro rd i =
     (case i of
        IdNumber tag \<Rightarrow> Inr (resolve_height rd tag)
      | IdHash h \<Rightarrow> rbind (block_by_hash ro rd h False) (\<lambda>b. Inr (map_option (hd_number \<circ> br_header) b)))"

definition query_proof ::
  "('k, 'db, 't, 'r, 'tc, 'u, 's, 'c, 'e) reader_ops \<Rightarrow> 'db application_reader \<Rightarrow> address \<Rightarrow> u256 list
     \<Rightarrow> block_id \<Rightarrow> panic + proof_response option" where
  "query_proof ro rd a slots i =
     rbind (height_from_block_id ro rd i) (\<lambda>h.
     case h of
       None \<Rightarrow> Inr None
     | Some h \<Rightarrow> proof_at (ro_state ro) (pk_block (ro_picks ro)) (ro_evm ro) (ro_tree_proof ro) (ro_slot_proof ro)
         (ar_state_queries rd) (ar_evm_storage rd) (to_move_address a) slots h)"

definition query_payload ::
  "('k, 'db, 't, 'r, 'tc, 'u, 's, 'c, 'e) reader_ops \<Rightarrow> 'db application_reader \<Rightarrow> payload_id
     \<Rightarrow> payload_response option" where
  "query_payload ro rd i = payload_by_id (ro_encode_2718 ro) (ro_picks ro) (ar_storage rd) i"

definition payload_by_block_hash ::
  "('k, 'db, 't, 'r, 'tc, 'u, 's, 'c, 'e) reader_ops \<Rightarrow> 'db application_reader \<Rightarrow> b256
     \<Rightarrow> payload_response option" where
  "payload_by_block_hash ro rd h = payload_by_hash (ro_encode_2718 ro) (ro_picks ro) (ar_storage rd) h"

end
