(* ===== verification/Ledger.thy ===== *)
theory Ledger
  imports App
begin

text \<open>
  What the application promises as a ledger. The abstraction of its block store is the list of blocks
  by height; \<open>valid_child\<close> says what makes a block a successor of another. Building a block appends
  a valid child to that list, the other commands leave it alone, and concurrent readers never find a
  block whose transactions are not yet stored.
\<close>

section \<open>The chain as a list\<close>

definition chain_of :: "block_pick \<Rightarrow> block_memory \<Rightarrow> extended_block list" where
  "chain_of pick m = map (\<lambda>k. the (by_height pick m (of_nat k))) [0..<em_len (bm_heights m)]"

abbreviation header_of :: "extended_block \<Rightarrow> header" where
  "header_of b \<equiv> bl_header (eb_block b)"

definition next_base_fee :: "eip1559_gas_fee \<Rightarrow> extended_block \<Rightarrow> panic + u256" where
  "next_base_fee fee parent =
     base_fee_per_gas fee (hd_gas_limit (header_of parent)) (hd_gas_used (header_of parent))
       (ucast (unwrap_or (hd_base_fee_per_gas (header_of parent)) 0))"

text \<open>\<open>valid_child\<close> parent block: number, parent hash, base fee and hash of a successor.\<close>

definition valid_child :: "(header \<Rightarrow> b256) \<Rightarrow> eip1559_gas_fee \<Rightarrow> extended_block \<Rightarrow> extended_block \<Rightarrow> bool" where
  "valid_child block_hash fee parent b \<longleftrightarrow>
     number_of b = number_of parent + 1 \<and> hd_parent_hash (header_of b) = eb_hash parent \<and>
     eb_hash b = block_hash (header_of b) \<and>
     (\<exists>f. next_base_fee fee parent = Inr f \<and> hd_base_fee_per_gas (header_of b) = Some (saturating_to f))"

lemma length_chain_of [simp]: "length (chain_of pick m) = em_len (bm_heights m)"
  by (simp add: chain_of_def)

lemma chain_of_add:
  assumes "picks_member pick" "chain_ok m" "unat (number_of b) = em_len (bm_heights m)"
    and "Suc (em_len (bm_heights m)) < 2 ^ 64"
  shows "chain_of pick (block_memory_add b m) = chain_of pick m @ [b]"
proof -
  have "by_height pick (block_memory_add b m) (of_nat k) = by_height pick m (of_nat k)"
    if "k < em_len (bm_heights m)" for k
  proof -
    have "unat (of_nat k :: u64) = k" using that assms(4) by (simp add: number_unat)
    then have "of_nat k \<noteq> number_of b" using that assms(3) by auto
    then show ?thesis by (rule by_height_add(2) [OF assms(1-3)])
  qed
  moreover have "by_height pick (block_memory_add b m) (of_nat (em_len (bm_heights m))) = Some b"
    using by_height_add(1) [OF assms(1-3)] by (simp flip: assms(3))
  ultimately show ?thesis
    by (simp add: chain_of_def chain_ok_add(2) [OF assms(2-4)])
qed

lemma latest_is_last:
  assumes "picks_member pick" "chain_ok m" "repository_latest pick m = Some b"
  shows "chain_of pick m \<noteq> [] \<and> last (chain_of pick m) = b \<and>
    em_len (bm_heights m) = Suc (unat (number_of b))"
proof -
  have lb: "last_block pick m = Some b" using assms(3) by (simp add: repository_latest_def)
  note n = last_block_number [OF assms(1,2) lb]
  have "by_height pick m (number_of b) = Some b"
    using lb n(1) by (simp add: last_block_def)
  then show ?thesis using n(2) by (simp add: chain_of_def last_map)
qed

lemma latest_exists:
  "chain_ok m \<Longrightarrow> chain_of pick m \<noteq> [] \<Longrightarrow> \<exists>b. repository_latest pick m = Some b"
  using last_block_exists [of m pick] by (simp add: repository_latest_def flip: length_greater_0_conv)

section \<open>The built block\<close>

lemma execute_transactions_storage:
  "execute_transactions d app ts fee hdr = Inr (out, rs, app') \<Longrightarrow>
     ap_storage app' = ap_storage app \<and> ap_receipt_memory app' = ap_receipt_memory app \<and>
     ap_gas_fee app' = ap_gas_fee app \<and> ap_mem_pool app' = ap_mem_pool app"
  by (auto simp: execute_transactions_def rbind_Inr_iff)

lemma build_block_Inr:
  assumes "build_block d app p i ts = Inr (b, rs, app')"
  obtains parent where
    "repository_latest (pk_block (d_picks d)) (sm_blocks (ap_storage app)) = Some parent"
    "valid_child (d_block_hash d) (ap_gas_fee app) parent b" "eb_payload_id b = i"
    "transaction_hashes b = map (op_trie_hash (d_tx_ops d) \<circ> fst \<circ> snd) ts"
    "ap_storage app' = ap_storage app" "ap_receipt_memory app' = ap_receipt_memory app"
    "ap_gas_fee app' = ap_gas_fee app" "ap_mem_pool app' = ap_mem_pool app"
    "subseq (map er_transaction_hash rs) (map fst ts)"
proof -
  from assms obtain parent f where
    latest: "repository_latest (pk_block (d_picks d)) (sm_blocks (ap_storage app)) = Some parent"
    and f: "next_base_fee (ap_gas_fee app) parent = Inr f"
    by (auto simp: build_block_def Let_def rbind_Inr_iff next_base_fee_def)
  define hdr where "hdr = \<lparr>hx_number = number_of parent + 1, hx_timestamp = pa_timestamp p,
    hx_prev_randao = pa_prev_randao p\<rparr>"
  have hdr: "hx_number hdr = number_of parent + 1" by (simp add: hdr_def)
  from assms obtain out where
    exec: "execute_transactions d app ts f hdr = Inr (out, rs, app')"
    and b: "b = (let h = block_header d p parent hdr f (map (fst \<circ> snd) ts) out
      in with_payload_id i (with_value (eo_total_tip out) (with_hash (d_block_hash d h)
           (block_new h (map (op_trie_hash (d_tx_ops d)) (map (fst \<circ> snd) ts))))))"
    using f by (auto simp: build_block_def Let_def rbind_Inr_iff next_base_fee_def latest hdr_def)
  have h: "header_of b = block_header d p parent hdr f (map (fst \<circ> snd) ts) out"
    "eb_hash b = d_block_hash d (header_of b)" "eb_payload_id b = i"
    "transaction_hashes b = map (op_trie_hash (d_tx_ops d) \<circ> fst \<circ> snd) ts"
    by (simp_all add: b Let_def with_payload_id_def with_value_def with_hash_def
        extended_block_new_def block_new_def transaction_hashes_def comp_assoc)
  have "valid_child (d_block_hash d) (ap_gas_fee app) parent b"
    using f hdr by (simp add: valid_child_def h block_header_def with_execution_outcome_def
        with_payload_attributes_def)
  moreover have "subseq (map er_transaction_hash rs) (map fst ts)"
    using receipts_subseq [OF exec] .
  ultimately show ?thesis
    using that latest h execute_transactions_storage [OF exec] by blast
qed

section \<open>Publication\<close>

abbreviation blocks_of :: "('st, 'es) application \<Rightarrow> block_memory" where
  "blocks_of app \<equiv> sm_blocks (ap_storage app)"

abbreviation txs_of :: "('st, 'es) application \<Rightarrow> transaction_memory" where
  "txs_of app \<equiv> sm_transactions (ap_storage app)"

lemma on_blocks_simps [simp]:
  "blocks_of (on_blocks f app) = f (blocks_of app)" "txs_of (on_blocks f app) = txs_of app"
  "ap_receipt_memory (on_blocks f app) = ap_receipt_memory app"
  "ap_gas_fee (on_blocks f app) = ap_gas_fee app" "ap_mem_pool (on_blocks f app) = ap_mem_pool app"
  by (simp_all add: on_blocks_def)

lemma fold_on_blocks:
  "fold (\<lambda>step. step) (map on_blocks fs) app = on_blocks (fold (\<lambda>step. step) fs) app"
  by (induction fs arbitrary: app) (simp_all add: on_blocks_def)

lemma publish_simps [simp]:
  "ap_storage (publish_receipts h rs app) = ap_storage app"
  "ap_gas_fee (publish_receipts h rs app) = ap_gas_fee app"
  "ap_mem_pool (publish_receipts h rs app) = ap_mem_pool app"
  "ap_receipt_memory (publish_receipts h rs app)
     = receipt_memory_extend (map (with_block_hash h) rs) (ap_receipt_memory app)"
  "blocks_of (publish_transactions th txs app) = blocks_of app"
  "txs_of (publish_transactions th txs app) = transaction_memory_extend th txs (txs_of app)"
  "ap_receipt_memory (publish_transactions th txs app) = ap_receipt_memory app"
  "ap_gas_fee (publish_transactions th txs app) = ap_gas_fee app"
  "ap_mem_pool (publish_transactions th txs app) = ap_mem_pool app"
  by (simp_all add: publish_receipts_def publish_transactions_def)

abbreviation published where
  "published d rs txs b app \<equiv> fold (\<lambda>step. step) (publish_steps d rs txs b) app"

lemma published_simps:
  "blocks_of (published d rs txs b app) = block_memory_add b (blocks_of app)"
  "txs_of (published d rs txs b app)
     = transaction_memory_extend (op_trie_hash (d_tx_ops d)) (stored_transactions d b txs) (txs_of app)"
  "ap_receipt_memory (published d rs txs b app)
     = receipt_memory_extend (map (with_block_hash (eb_hash b)) rs) (ap_receipt_memory app)"
  "ap_gas_fee (published d rs txs b app) = ap_gas_fee app"
  "ap_mem_pool (published d rs txs b app) = ap_mem_pool app"
  by (simp_all add: publish_steps_def fold_on_blocks block_memory_add_def)

lemma stored_transactions_hashes:
  "map (tx_hash th) (stored_transactions d b txs) = map th txs"
  by (simp add: stored_transactions_def tx_hash_def extended_transaction_new_def comp_def
      split_beta flip: map_map [of th snd, unfolded comp_def])

text \<open>A reader that finds a block finds all its transactions.\<close>

definition readers_complete :: "block_memory \<Rightarrow> transaction_memory \<Rightarrow> bool" where
  "readers_complete m txs \<longleftrightarrow>
     (\<forall>h b. b \<in> set (bag (em_read (bm_hashes m)) h) \<longrightarrow>
        (\<forall>t \<in> set (transaction_hashes b). bag (em_read txs) t \<noteq> []))"

lemma readers_complete_extend:
  "readers_complete m txs \<Longrightarrow> em_synced txs \<Longrightarrow>
     readers_complete m (transaction_memory_extend th ts txs)"
  by (auto simp: readers_complete_def txm.stored_extend)

lemma readers_complete_insert: "readers_complete (bm_insert b m) txs = readers_complete m txs"
  by (simp add: readers_complete_def bm_insert_def em_insert_def)

lemma readers_complete_refresh:
  assumes "readers_complete m txs" "bm_synced m"
    and "\<And>t. t \<in> set (transaction_hashes b) \<Longrightarrow> bag (em_read txs) t \<noteq> []"
  shows "readers_complete (bm_refresh_hashes (bm_insert b m)) txs"
  using assms by (auto simp: readers_complete_def bm_defs bm_synced_def bag_insert_read split: if_splits)

lemma readers_complete_others:
  "readers_complete (bm_refresh_heights m) txs = readers_complete m txs"
  "readers_complete (bm_refresh_payload_ids m) txs = readers_complete m txs"
  by (simp_all add: readers_complete_def bm_defs)

lemma readers_complete_prefix:
  assumes "readers_complete m txs" "bm_synced m"
    and "\<And>t. t \<in> set (transaction_hashes b) \<Longrightarrow> bag (em_read txs) t \<noteq> []"
  shows "readers_complete (fold (\<lambda>step. step) (take k (add_steps b)) m) txs"
proof -
  consider "k = 0" | "k = 1" | "k = 2" | "k = 3" | "4 \<le> k" by linarith
  then show ?thesis
  proof cases
    case 5
    then show ?thesis
      using readers_complete_refresh [OF assms] by (simp add: add_steps_def readers_complete_others)
  qed (simp_all add: add_steps_def assms readers_complete_insert readers_complete_others
      numeral_2_eq_2 numeral_3_eq_3 readers_complete_refresh)
qed

lemma stored_transactions_found:
  assumes "em_synced txs" "transaction_hashes b = map th ts" "t \<in> set (transaction_hashes b)"
  shows "bag (em_read (transaction_memory_extend th (stored_transactions d b ts) txs)) t \<noteq> []"
proof -
  have "t \<in> tx_hash th ` set (stored_transactions d b ts)"
    using assms(2,3) stored_transactions_hashes [of th d b ts] by (metis set_map)
  then show ?thesis by (auto simp: txm.stored_extend [OF assms(1)] filter_empty_conv)
qed

text \<open>What a reader sees after \<open>k\<close> of the writes.\<close>

lemma publication_prefix:
  assumes "bm_synced (blocks_of app)" "readers_consistent (blocks_of app)" "em_synced (txs_of app)"
    and "readers_complete (blocks_of app) (txs_of app)"
    and "transaction_hashes b = map (op_trie_hash (d_tx_ops d)) ts"
    and "app' = fold (\<lambda>step. step) (take k (publish_steps d rs ts b)) app"
  shows "readers_consistent (blocks_of app') \<and> readers_complete (blocks_of app') (txs_of app')"
proof -
  consider "k = 0" | "k = 1" | "2 \<le> k" by linarith
  then show ?thesis
  proof cases
    case 3
    then have "app' = on_blocks (fold (\<lambda>step. step) (take (k - 2) (add_steps b)))
        (publish_transactions (op_trie_hash (d_tx_ops d)) (stored_transactions d b ts)
          (publish_receipts (eb_hash b) rs app))"
      by (simp add: assms(6) publish_steps_def take_Cons' fold_on_blocks take_map numeral_2_eq_2)
    moreover have "readers_complete (fold (\<lambda>step. step) (take (k - 2) (add_steps b)) (blocks_of app))
        (transaction_memory_extend (op_trie_hash (d_tx_ops d)) (stored_transactions d b ts) (txs_of app))"
      by (rule readers_complete_prefix [OF readers_complete_extend [OF assms(4,3)] assms(1)
            stored_transactions_found [OF assms(3,5)]])
    ultimately show ?thesis
      using readers_consistent_prefix [OF assms(1,2)] by simp
  qed (simp_all add: assms publish_steps_def)
qed

section \<open>The invariant of the application\<close>

text \<open>The genesis block: number 0, no transactions, and the only block at its height, however often it was
  adopted.\<close>

definition genesis_stored :: "extended_block \<Rightarrow> block_memory \<Rightarrow> bool" where
  "genesis_stored g m \<longleftrightarrow>
     number_of g = 0 \<and> transaction_hashes g = [] \<and> set (bag (em_read (bm_heights m)) 0) = {g}"

definition app_inv ::
  "('st, 'es, 's, 'c, 'e) dependencies \<Rightarrow> extended_block \<Rightarrow> ('st, 'es) application \<Rightarrow> bool" where
  "app_inv d g app \<longleftrightarrow>
     chain_ok (blocks_of app) \<and> txm.keyed (op_trie_hash (d_tx_ops d)) (txs_of app) \<and>
     rxm.keyed (ap_receipt_memory app) \<and>
     readers_complete (blocks_of app) (txs_of app) \<and> genesis_stored g (blocks_of app) \<and>
     (let bs = chain_of (pk_block (d_picks d)) (blocks_of app)
      in bs \<noteq> [] \<and> hd bs = g \<and> successively (valid_child (d_block_hash d) (ap_gas_fee app)) bs)"

lemma start_block_build_Inr:
  assumes "start_block_build d app p i = Inr app'"
  obtains (known) "payload_by_id (d_encode_2718 d) (d_picks d) (ap_storage app) i \<noteq> None" "app' = app"
  | (built) b rs app1 where
      "payload_by_id (d_encode_2718 d) (d_picks d) (ap_storage app) i = None"
      "build_block d (app\<lparr>ap_mem_pool := []\<rparr>) p i (candidates d app p) = Inr (b, rs, app1)"
      "app' = published d rs (map (fst \<circ> snd) (candidates d app p)) b app1"
  using assms by (auto simp: start_block_build_def Let_def rbind_Inr_iff split: if_splits)

text \<open>A built block is appended to the chain.\<close>

lemma build_block_appends:
  assumes pick: "picks_member (pk_block (d_picks d))" and inv: "app_inv d g app"
    and built: "build_block d (app\<lparr>ap_mem_pool := []\<rparr>) p i ts = Inr (b, rs, app1)"
    and room: "Suc (em_len (bm_heights (blocks_of app))) < 2 ^ 64"
    and app': "app' = published d rs (map (fst \<circ> snd) ts) b app1"
  shows "app_inv d g app' \<and> ap_gas_fee app' = ap_gas_fee app \<and> ap_mem_pool app' = [] \<and>
    chain_of (pk_block (d_picks d)) (blocks_of app')
      = chain_of (pk_block (d_picks d)) (blocks_of app) @ [b]"
proof -
  let ?pick = "pk_block (d_picks d)"
  from built obtain parent where
    latest: "repository_latest ?pick (blocks_of app) = Some parent"
    and child: "valid_child (d_block_hash d) (ap_gas_fee app) parent b"
    and hashes: "transaction_hashes b = map (op_trie_hash (d_tx_ops d)) (map (fst \<circ> snd) ts)"
    and same: "ap_storage app1 = ap_storage app" "ap_receipt_memory app1 = ap_receipt_memory app"
      "ap_gas_fee app1 = ap_gas_fee app" "ap_mem_pool app1 = []"
    by (elim build_block_Inr) (auto simp: comp_assoc)
  have ok: "chain_ok (blocks_of app)" using inv by (simp add: app_inv_def)
  note last = latest_is_last [OF pick ok latest]
  have num: "unat (number_of b) = em_len (bm_heights (blocks_of app))"
    using child last room by (simp add: valid_child_def unat_word_ariths)
  note app = chain_of_add [OF pick ok num room]
  have "number_of b \<noteq> 0" using num last by auto
  then have stored: "genesis_stored g (blocks_of app')"
    using inv by (simp add: app' same published_simps app_inv_def genesis_stored_def
        bags_after_add [OF chain_ok_synced [OF ok]])
  have complete: "readers_complete (blocks_of app') (txs_of app')"
    using publication_prefix [OF _ _ _ _ hashes, of app1 _ "length (publish_steps d rs (map (fst \<circ> snd) ts) b)" rs]
      inv by (simp add: app' same app_inv_def chain_ok_def txm.keyed_def)
  show ?thesis
    using inv child last complete stored chain_ok_add [OF ok num room]
    by (auto simp: app' published_simps same app app_inv_def Let_def successively_append_iff
        txm.keyed_extend rxm.keyed_extend hd_append)
qed

lemma add_transaction_Inr:
  "add_transaction d app tx = Inr app' \<Longrightarrow>
     ap_storage app' = ap_storage app \<and> ap_receipt_memory app' = ap_receipt_memory app \<and>
     ap_gas_fee app' = ap_gas_fee app"
  by (auto simp: add_transaction_def rbind_Inr_iff)

text \<open>The one thing that breaks the chain: a command to adopt another genesis block. The node is told to
  adopt the block it started with again whenever it is asked for block 0.\<close>

fun other_genesis :: "extended_block \<Rightarrow> command \<Rightarrow> bool" where
  "other_genesis g (GenesisUpdate b) = (b \<noteq> g)"
| "other_genesis g _ = False"

lemma genesis_update_simps:
  "blocks_of (genesis_update app b) = block_memory_add b (blocks_of app)"
  "txs_of (genesis_update app b) = txs_of app"
  "ap_receipt_memory (genesis_update app b) = ap_receipt_memory app"
  "ap_gas_fee (genesis_update app b) = ap_gas_fee app"
  "ap_mem_pool (genesis_update app b) = ap_mem_pool app"
  "ap_state (genesis_update app b) = ap_state app"
  "ap_evm_storage (genesis_update app b) = ap_evm_storage app"
  by (simp_all add: genesis_update_def repository_add_def on_blocks_def)

lemma genesis_again:
  assumes "picks_member (pk_block (d_picks d))" "app_inv d g app"
  shows "app_inv d g (genesis_update app g)"
    and "chain_of (pk_block (d_picks d)) (blocks_of (genesis_update app g))
      = chain_of (pk_block (d_picks d)) (blocks_of app)"
    and "repository_latest (pk_block (d_picks d)) (blocks_of (genesis_update app g))
      = repository_latest (pk_block (d_picks d)) (blocks_of app)"
proof -
  have ok: "chain_ok (blocks_of app)" and g: "genesis_stored g (blocks_of app)"
    and complete: "readers_complete (blocks_of app) (txs_of app)"
    using assms(2) by (simp_all add: app_inv_def)
  have only: "set (bag (em_read (bm_heights (blocks_of app))) (number_of g)) = {g}"
    using g by (simp add: genesis_stored_def)
  note again = add_again [OF assms(1) ok only]
  show chain: "chain_of (pk_block (d_picks d)) (blocks_of (genesis_update app g))
      = chain_of (pk_block (d_picks d)) (blocks_of app)"
    by (simp add: chain_of_def genesis_update_simps again)
  show "repository_latest (pk_block (d_picks d)) (blocks_of (genesis_update app g))
      = repository_latest (pk_block (d_picks d)) (blocks_of app)"
    by (simp add: repository_latest_def last_block_def height_def genesis_update_simps again cong: bind_option_cong)
  have "readers_complete (block_memory_add g (blocks_of app)) (txs_of app)"
    using complete g
    by (auto simp: readers_complete_def genesis_stored_def bags_after_add [OF chain_ok_synced [OF ok]] split: if_splits)
  moreover have "genesis_stored g (block_memory_add g (blocks_of app))"
    using g by (simp add: genesis_stored_def bags_after_add [OF chain_ok_synced [OF ok]])
  ultimately show "app_inv d g (genesis_update app g)"
    using assms(2) again(1) chain by (simp add: app_inv_def genesis_update_simps)
qed

text \<open>One command: the chain is extended by at most one valid child.\<close>

lemma handle_command_inv:
  assumes "picks_member (pk_block (d_picks d))" "app_inv d g app" "\<not> other_genesis g c"
    and "handle_command d app c = Inr app'" "Suc (em_len (bm_heights (blocks_of app))) < 2 ^ 64"
  shows "app_inv d g app' \<and> ap_gas_fee app' = ap_gas_fee app \<and>
    (\<exists>bs. length bs \<le> 1 \<and> chain_of (pk_block (d_picks d)) (blocks_of app')
       = chain_of (pk_block (d_picks d)) (blocks_of app) @ bs)"
proof (cases c)
  case (StartBlockBuild p i)
  with assms(4) have "start_block_build d app p i = Inr app'" by simp
  then show ?thesis
  proof (cases rule: start_block_build_Inr)
    case (built b rs app1)
    from build_block_appends [OF assms(1,2) built(2) assms(5) built(3)]
    show ?thesis by (intro conjI exI [of _ "[b]"]) simp_all
  qed (use assms(2) in simp)
next
  case (AddTransaction tx)
  then have "ap_storage app' = ap_storage app \<and> ap_receipt_memory app' = ap_receipt_memory app \<and>
      ap_gas_fee app' = ap_gas_fee app"
    using assms(4) add_transaction_Inr by simp
  then show ?thesis using assms(2) by (simp add: app_inv_def)
next
  case (GenesisUpdate b)
  with assms(3,4) have "app' = genesis_update app g" by simp
  then show ?thesis using genesis_again [OF assms(1,2)] by (simp add: genesis_update_simps)
qed

lemma work_inv:
  assumes "picks_member (pk_block (d_picks d))" "app_inv d g app"
    and "\<And>c. c \<in> set cmds \<Longrightarrow> \<not> other_genesis g c"
    and "work d app cmds = Inr app'"
    and "em_len (bm_heights (blocks_of app)) + length cmds < 2 ^ 64"
  shows "app_inv d g app' \<and> ap_gas_fee app' = ap_gas_fee app \<and>
    (\<exists>bs. length bs \<le> length cmds \<and> chain_of (pk_block (d_picks d)) (blocks_of app')
       = chain_of (pk_block (d_picks d)) (blocks_of app) @ bs)"
  using assms(2-5)
proof (induction cmds arbitrary: app)
  case (Cons c cmds)
  let ?chain = "\<lambda>app. chain_of (pk_block (d_picks d)) (blocks_of app)"
  from Cons.prems(3) obtain app1 where one: "handle_command d app c = Inr app1"
    and rest: "work d app1 cmds = Inr app'" by (auto simp: rbind_Inr_iff)
  from handle_command_inv [OF assms(1) Cons.prems(1) _ one] Cons.prems(2,4) obtain bs1 where
    inv: "app_inv d g app1" "ap_gas_fee app1 = ap_gas_fee app"
    and bs1: "length bs1 \<le> 1" "?chain app1 = ?chain app @ bs1" by auto
  have "length (?chain app1) \<le> Suc (length (?chain app))" using bs1 by simp
  then have "em_len (bm_heights (blocks_of app1)) + length cmds < 2 ^ 64" using Cons.prems(4) by simp
  from Cons.IH [OF inv(1) _ rest this] Cons.prems(2) obtain bs where
    "app_inv d g app'" "ap_gas_fee app' = ap_gas_fee app1"
    "length bs \<le> length cmds" "?chain app' = ?chain app1 @ bs" by auto
  with inv(2) bs1 show ?case by (intro conjI exI [of _ "bs1 @ bs"]) simp_all
qed simp

lemma genesis_inv:
  assumes "picks_member (pk_block (d_picks d))" "number_of g = 0" "transaction_hashes g = []"
    and "app = genesis_update (application_new cfg fee st es) g"
  shows "app_inv d g app" "chain_of (pk_block (d_picks d)) (blocks_of app) = [g]"
    "ap_gas_fee app = fee"
proof -
  have len: "em_len (bm_heights block_memory_new) = 0" by (simp add: block_memory_new_def em_new_def em_len_def)
  have num: "unat (number_of g) = em_len (bm_heights block_memory_new)" by (simp add: assms(2) len)
  have room: "Suc (em_len (bm_heights block_memory_new)) < 2 ^ 64" by (simp add: len)
  have app: "blocks_of app = block_memory_add g block_memory_new" "txs_of app = em_new"
    "ap_receipt_memory app = em_new" "ap_gas_fee app = fee"
    by (simp_all add: assms(4) genesis_update_def application_new_def repository_add_def
        shared_memory_new_def on_blocks_def)
  show ch: "chain_of (pk_block (d_picks d)) (blocks_of app) = [g]"
    using chain_of_add [OF assms(1) chain_ok_new num room] by (simp add: app chain_of_def len)
  have "readers_complete (blocks_of app) (txs_of app)"
    using assms(3) chain_ok_synced [OF chain_ok_new]
    by (auto simp: readers_complete_def app bags_after_add block_memory_new_def split: if_splits)
  then show "app_inv d g app"
    using chain_ok_add [OF chain_ok_new num room] ch
    by (simp add: app_inv_def app rxm.keyed_def txm.keyed_def genesis_stored_def assms(2,3)
        bags_after_add chain_ok_synced [OF chain_ok_new]) (simp add: block_memory_new_def)
  show "ap_gas_fee app = fee" by (rule app)
qed

section \<open>Reachable states\<close>

text \<open>The states of the node: the genesis block is stored first, then the actor handles one command
  after the other, of any kind, the genesis block again included; \<open>n\<close> counts them.\<close>

inductive reachable ::
  "('st, 'es, 's, 'c, 'e) dependencies \<Rightarrow> ('st, 'es) application \<Rightarrow> extended_block \<Rightarrow> nat
     \<Rightarrow> ('st, 'es) application \<Rightarrow> bool"
  for d app0 g where
  genesis: "reachable d app0 g 0 (genesis_update app0 g)"
| handled: "reachable d app0 g n app \<Longrightarrow> \<not> other_genesis g c \<Longrightarrow> handle_command d app c = Inr app'
    \<Longrightarrow> reachable d app0 g (Suc n) app'"

lemma reachable_work:
  assumes "reachable d app0 g n app" "work d app cmds = Inr app'"
    and "\<And>c. c \<in> set cmds \<Longrightarrow> \<not> other_genesis g c"
  shows "reachable d app0 g (n + length cmds) app'"
  using assms
proof (induction cmds arbitrary: n app)
  case (Cons c cmds)
  from Cons.prems(2) obtain app1 where "handle_command d app c = Inr app1" "work d app1 cmds = Inr app'"
    by (auto simp: rbind_Inr_iff)
  then have "reachable d app0 g (Suc n + length cmds) app'"
    using Cons.prems(1,3) by (intro Cons.IH [OF handled]) auto
  then show ?case by simp
qed simp

lemma reachable_inv:
  assumes "reachable d (application_new cfg fee st es) g n app"
    and "picks_member (pk_block (d_picks d))" "number_of g = 0" "transaction_hashes g = []" "Suc n < 2 ^ 64"
  shows "app_inv d g app \<and> ap_gas_fee app = fee \<and> em_len (bm_heights (blocks_of app)) \<le> Suc n"
  using assms(1,5)
proof (induction rule: reachable.induct)
  case genesis
  let ?app = "genesis_update (application_new cfg fee st es) g"
  note inv = genesis_inv [OF assms(2-4) refl, where cfg = cfg and fee = fee and st = st and es = es]
  have "em_len (bm_heights (blocks_of ?app)) = 1"
    using arg_cong [OF inv(2), of length] by simp
  then show ?case using inv by simp
next
  case (handled n app c app')
  then have IH: "app_inv d g app" "ap_gas_fee app = fee" "em_len (bm_heights (blocks_of app)) \<le> Suc n"
    by simp_all
  have "Suc (em_len (bm_heights (blocks_of app))) < 2 ^ 64" using IH(3) handled.prems by simp
  from handle_command_inv [OF assms(2) IH(1) handled.hyps(2,3) this] obtain bs where
    inv: "app_inv d g app'" "ap_gas_fee app' = ap_gas_fee app" and bs: "length bs \<le> 1"
    and chain: "chain_of (pk_block (d_picks d)) (blocks_of app')
      = chain_of (pk_block (d_picks d)) (blocks_of app) @ bs" by blast
  have "em_len (bm_heights (blocks_of app')) \<le> Suc (em_len (bm_heights (blocks_of app)))"
    using bs arg_cong [OF chain, of length] by simp
  with inv IH show ?case by simp
qed

section \<open>Properties\<close>

lemma chain_by_height:
  assumes "picks_member pick" "chain_ok m" "k < em_len (bm_heights m)"
  shows "by_height pick m (of_nat k) = Some (chain_of pick m ! k)"
proof -
  have "of_nat k \<in> fst ` set (em_read (bm_heights m))" using assms(2,3) by (simp add: chain_ok_def)
  moreover have "bags_ok (em_read (bm_heights m))"
    using assms(2) by (simp add: chain_ok_def bm_synced_def em_synced_def)
  ultimately have "by_height pick m (of_nat k) \<noteq> None"
    by (simp add: get_one_by_height get_one_None_iff bag_nonempty_iff)
  then show ?thesis using assms(3) by (auto simp: chain_of_def)
qed

text \<open>The example node: its genesis block, and the block it builds on a payload without
  transactions.\<close>

abbreviation example_genesis :: extended_block where
  "example_genesis \<equiv> example_block 0 [7]"

definition example_payload :: payload where
  "example_payload = \<lparr>pa_timestamp = 12, pa_prev_randao = [], pa_suggested_fee_recipient = [],
     pa_withdrawals = [], pa_parent_beacon_block_root = [], pa_transactions = [],
     pa_gas_limit = 30000000\<rparr>"

lemma example_node:
  "picks_member (pk_block (d_picks example_dependencies))"
  "picks_member (pk_tx (d_picks example_dependencies))"
  "number_of example_genesis = 0" "transaction_hashes example_genesis = []"
  by (simp_all add: example_dependencies_def picks_member_hd example_block_defs transaction_hashes_def)

lemma example_started:
  "blocks_of (genesis_update example_app example_genesis) = block_memory_add example_genesis block_memory_new"
  "txs_of (genesis_update example_app example_genesis) = em_new"
  "ap_gas_fee (genesis_update example_app example_genesis) = example_fee"
  "ap_mem_pool (genesis_update example_app example_genesis) = []"
  "ap_receipt_memory (genesis_update example_app example_genesis) = em_new"
  by (simp_all add: genesis_update_def application_new_def repository_add_def shared_memory_new_def)

lemma example_latest:
  "repository_latest (pk_block (d_picks example_dependencies))
     (blocks_of (genesis_update example_app example_genesis)) = Some example_genesis"
  unfolding example_started repository_latest_def
  by (rule last_block_add(2) [OF example_node(1) chain_ok_new])
    (simp_all add: example_node block_memory_new_def em_new_def em_len_def)

lemma example_no_payload:
  "payload_by_id (d_encode_2718 example_dependencies) (d_picks example_dependencies)
     (ap_storage (genesis_update example_app example_genesis)) 5 = None"
proof -
  have "eb_payload_id example_genesis = 0" by (simp add: example_block_defs)
  then show ?thesis
    by (simp add: payload_by_id_def example_started by_payload_id_def get_one_None_iff bags_after_add
        chain_ok_synced [OF chain_ok_new]) (simp add: block_memory_new_def)
qed

lemma example_candidates:
  "candidates example_dependencies (genesis_update example_app example_genesis) example_payload = []"
  by (simp add: candidates_def example_payload_def example_started example_dependencies_def
      map_filter_simps)

lemma example_reachable:
  "reachable example_dependencies example_app example_genesis 0
     (genesis_update example_app example_genesis)"
  by (rule reachable.genesis)

lemma example_fee_new: "eip1559_new 6 250 = Inr example_fee"
  by (simp add: eip1559_new_def example_fee_def)

lemma example_limit: "6 \<le> hd_gas_limit (header_of example_genesis)"
  by (simp add: example_block_defs)

lemma example_base_fee:
  "\<exists>f. base_fee_per_gas example_fee (hd_gas_limit (header_of example_genesis))
     (hd_gas_used (header_of example_genesis))
     (ucast (unwrap_or (hd_base_fee_per_gas (header_of example_genesis)) 0)) = Inr f"
proof -
  have "\<not> hd_gas_limit (header_of example_genesis) < 6" using example_limit by simp
  then show ?thesis using base_fee_panics [OF example_fee_new] by (metis obj_sumE)
qed

text \<open>A block without transactions, and one with a transaction that is skipped.\<close>

lemma example_build:
  assumes "ts = [] \<or> ts = [(h, Eip7702 [] [], l1_input_of_bytes [])]"
  shows "\<exists>b rs app1. build_block example_dependencies
    ((genesis_update example_app example_genesis)\<lparr>ap_mem_pool := []\<rparr>) p 5 ts
      = Inr (b, rs, app1)"
proof -
  obtain f where "base_fee_per_gas example_fee (hd_gas_limit (header_of example_genesis))
     (hd_gas_used (header_of example_genesis))
     (ucast (unwrap_or (hd_base_fee_per_gas (header_of example_genesis)) 0)) = Inr f"
    using example_base_fee by blast
  then show ?thesis
    using assms
    by (auto simp: build_block_def example_latest [unfolded example_started] example_started execute_transactions_def
        block_l1_fee_def execute_one_def u64_from_def building_new_def Let_def)
qed

text \<open>A payload with a skipped transaction and a deposit, which gets a receipt.\<close>

abbreviation example_bridge_payload :: payload where
  "example_bridge_payload \<equiv> example_payload\<lparr>pa_transactions := [[0], [9]]\<rparr>"

lemma example_bridge_candidates:
  "candidates example_dependencies (genesis_update example_app example_genesis) example_bridge_payload
     = [(replicate 32 1, Eip7702 [] [], l1_input_of_bytes []),
        (replicate 32 1, Deposit example_bridge, l1_input_of_bytes [])]"
  by (simp add: candidates_def decode_payload_tx_def example_payload_def example_started
      example_dependencies_def map_filter_simps example_node_machine_def example_machine_on_def
      receipt_contains_def contains_key_def em_new_def)

lemma example_bridge_build:
  "\<exists>b r app1. build_block example_dependencies
    ((genesis_update example_app example_genesis)\<lparr>ap_mem_pool := []\<rparr>) example_bridge_payload 5
    [(replicate 32 1, Eip7702 [] [], l1_input_of_bytes []),
     (replicate 32 1, Deposit example_bridge, l1_input_of_bytes [])]
      = Inr (b, [r], app1) \<and> er_transaction_hash r = replicate 32 1"
proof -
  obtain f where f: "base_fee_per_gas example_fee (hd_gas_limit (header_of example_genesis))
     (hd_gas_used (header_of example_genesis))
     (ucast (unwrap_or (hd_base_fee_per_gas (header_of example_genesis)) 0)) = Inr f"
    using example_base_fee by blast
  have d: "d_machine example_dependencies = example_node_machine"
    "d_state_apply example_dependencies c st = Inr (unwrap_or c st)"
    "d_evm_apply example_dependencies e es = Inr es" for c st e es
    by (simp_all add: example_dependencies_def)
  show ?thesis
    using f
    by (auto simp: build_block_def example_latest [unfolded example_started] example_started
        execute_transactions_def block_l1_fee_def execute_one_def u64_from_def building_new_def Let_def
        execute_transaction_def deposited_example checked_outcome_def record_outcome_def d
        saturating_add_def)
qed

lemma example_bridge_built:
  "\<exists>app'. handle_command example_dependencies (genesis_update example_app example_genesis)
     (StartBlockBuild example_bridge_payload 5) = Inr app' \<and>
     receipt_contains (ap_receipt_memory app') (replicate 32 1)"
proof -
  obtain b r app1 where built: "build_block example_dependencies
      ((genesis_update example_app example_genesis)\<lparr>ap_mem_pool := []\<rparr>) example_bridge_payload 5
      (candidates example_dependencies (genesis_update example_app example_genesis) example_bridge_payload)
        = Inr (b, [r], app1)" and r: "er_transaction_hash r = replicate 32 1"
    using example_bridge_build unfolding example_bridge_candidates by blast
  then have "ap_receipt_memory app1 = em_new"
    by (elim build_block_Inr) (simp add: genesis_update_def application_new_def)
  then have "receipt_contains (ap_receipt_memory (published example_dependencies [r] txs b app1)) (replicate 32 1)"
    for txs
    using r rxm.lookup_extend_exists [of em_new "with_block_hash (eb_hash b) r" "[with_block_hash (eb_hash b) r]" hd]
    by (simp add: published_simps receipt_contains_iff [where pick = hd] rxm.ok_extend with_block_hash_def)
  then show ?thesis
    by (simp add: start_block_build_def example_no_payload built)
qed

lemma example_built:
  "\<exists>app'. handle_command example_dependencies (genesis_update example_app example_genesis)
     (StartBlockBuild example_payload 5) = Inr app'"
  using example_build [of "[]" _ example_payload]
  by (auto simp: start_block_build_def example_no_payload example_candidates)

text \<open>C1. The node is an append-only ledger. The genesis block has number 0 and no transactions. From it on,
  whatever payloads and transactions the actor handles, and however often it adopts the same genesis
  block again (adopting another one is excluded: it would be put beside the first), the blocks found by height are a chain that starts with the genesis block and in which
  every block is a valid child of the one before it: its number is the next one, it names its
  parent's hash, it is stored under the hash of its own header and its base fee is the one the
  parent determines. Further commands only append to that chain.\<close>

theorem node_is_append_only_ledger:
  assumes "picks_member (pk_block (d_picks d))" "number_of g = 0" "transaction_hashes g = []"
    and "reachable d (application_new cfg fee st es) g n app"
    and "work d app cmds = Inr app'" "\<And>c. c \<in> set cmds \<Longrightarrow> \<not> other_genesis g c"
    and "Suc (n + length cmds) < 2 ^ 64"
  shows "\<exists>bs bs'. (\<forall>k < Suc (length bs). by_height (pk_block (d_picks d)) (blocks_of app) (of_nat k)
        = Some ((g # bs) ! k)) \<and>
    successively (valid_child (d_block_hash d) fee) (g # bs @ bs') \<and> length bs' \<le> length cmds \<and>
    repository_latest (pk_block (d_picks d)) (blocks_of app') = Some (last (g # bs @ bs')) \<and>
    (\<forall>k < Suc (length (bs @ bs')). by_height (pk_block (d_picks d)) (blocks_of app') (of_nat k)
        = Some ((g # bs @ bs') ! k))"
proof -
  let ?pick = "pk_block (d_picks d)" and ?chain = "\<lambda>app. chain_of (pk_block (d_picks d)) (blocks_of app)"
  have inv: "app_inv d g app" "ap_gas_fee app = fee" "em_len (bm_heights (blocks_of app)) \<le> Suc n"
    using reachable_inv [OF assms(4,1,2,3)] assms(7) by simp_all
  then have room: "em_len (bm_heights (blocks_of app)) + length cmds < 2 ^ 64" using assms(7) by simp
  from work_inv [OF assms(1) inv(1) assms(6,5) room] obtain bs' where
    inv': "app_inv d g app'" "ap_gas_fee app' = fee" "length bs' \<le> length cmds"
    and chain: "?chain app' = ?chain app @ bs'" using inv(2) by auto
  obtain bs where bs: "?chain app = g # bs"
    using inv(1) by (cases "?chain app") (auto simp: app_inv_def)
  have ok: "chain_ok (blocks_of app)" "chain_ok (blocks_of app')"
    using inv(1) inv'(1) by (simp_all add: app_inv_def)
  obtain b where b: "repository_latest ?pick (blocks_of app') = Some b"
    using latest_exists [OF ok(2), of ?pick] chain bs by auto
  have len: "em_len (bm_heights (blocks_of app)) = Suc (length bs)"
    "em_len (bm_heights (blocks_of app')) = Suc (length (bs @ bs'))"
    using arg_cong [OF bs, of length] arg_cong [OF chain, of length] by simp_all
  have "by_height ?pick (blocks_of app) (of_nat k) = Some ((g # bs) ! k)" if "k < Suc (length bs)" for k
    using chain_by_height [OF assms(1) ok(1)] that len bs by simp
  moreover have "by_height ?pick (blocks_of app') (of_nat k) = Some ((g # bs @ bs') ! k)"
    if "k < Suc (length (bs @ bs'))" for k
    using chain_by_height [OF assms(1) ok(2)] that len bs chain by simp
  moreover have "repository_latest ?pick (blocks_of app') = Some (last (g # bs @ bs'))"
    using latest_is_last [OF assms(1) ok(2) b] b chain bs by simp
  moreover have "successively (valid_child (d_block_hash d) fee) (g # bs @ bs')"
    using inv' chain bs by (simp add: app_inv_def Let_def)
  ultimately show ?thesis using inv'(3) by blast
qed

theorem node_is_append_only_ledger_witness:
  "\<exists>app' bs. work example_dependencies (genesis_update example_app example_genesis)
       [StartBlockBuild example_payload 5, GenesisUpdate example_genesis] = Inr app' \<and>
     successively (valid_child (\<lambda>h. 1 # hd_parent_hash h) example_fee) (example_genesis # bs) \<and>
     repository_latest hd (blocks_of app') = Some (last (example_genesis # bs))"
proof -
  obtain app' where run: "work example_dependencies (genesis_update example_app example_genesis)
      [StartBlockBuild example_payload 5, GenesisUpdate example_genesis] = Inr app'"
    using example_built by auto
  have d: "pk_block (d_picks example_dependencies) = hd" "d_block_hash example_dependencies = (\<lambda>h. 1 # hd_parent_hash h)"
    by (simp_all add: example_dependencies_def)
  have same: "\<not> other_genesis example_genesis c"
    if "c \<in> set [StartBlockBuild example_payload 5, GenesisUpdate example_genesis]" for c
    using that by auto
  obtain bs bs' where "successively (valid_child (\<lambda>h. 1 # hd_parent_hash h) example_fee) (example_genesis # bs @ bs')"
    "repository_latest hd (blocks_of app') = Some (last (example_genesis # bs @ bs'))"
    using node_is_append_only_ledger [OF example_node(1,3,4) example_reachable run same] by (auto simp: d)
  with run show ?thesis by (intro exI [of _ app'] exI [of _ "bs @ bs'"]) simp
qed

lemma found_in_hashes:
  assumes "picks_member pick" "readers_consistent m"
    and "by_hash pick m h = Some b \<or> by_height pick m n = Some b \<or> by_payload_id pick m i = Some b"
  shows "\<exists>h. b \<in> set (bag (em_read (bm_hashes m)) h)"
  using assms(2,3) get_one_Some_member [OF assms(1), of "bm_hashes m" h b]
    get_one_Some_member [OF assms(1), of "bm_heights m" n b]
    get_one_Some_member [OF assms(1), of "bm_payload_ids m" i b]
  unfolding readers_consistent_def get_one_by_height by_hash_def by_payload_id_def by blast

lemma keyed_prefix:
  assumes "txm.keyed (op_trie_hash (d_tx_ops d)) (txs_of app)"
    and "app' = fold (\<lambda>step. step) (take k (publish_steps d rs ts b)) app"
  shows "txm.keyed (op_trie_hash (d_tx_ops d)) (txs_of app')"
proof -
  consider "k = 0" | "k = 1" | "2 \<le> k" by linarith
  then show ?thesis
  proof cases
    case 3
    then show ?thesis
      using assms(1)
      by (simp add: assms(2) publish_steps_def take_Cons' fold_on_blocks take_map txm.keyed_extend)
  qed (simp_all add: assms publish_steps_def)
qed

lemma map_filter_inverse:
  "\<forall>x \<in> set xs. \<exists>y. f x = Some y \<and> g y = x \<Longrightarrow> map g (List.map_filter f xs) = xs"
  by (induction xs) (auto simp: map_filter_simps)

text \<open>C3. Concurrent readers never see a block without its transactions: while the writes that
  publish a new block are being made, after any number of them, a reader that finds a block by hash,
  by height or by payload identifier finds for its list of transaction hashes exactly the
  transactions with these hashes, in order.\<close>

theorem readers_see_complete_blocks:
  assumes "picks_member (pk_block (d_picks d))" "picks_member (pk_tx (d_picks d))"
    and "number_of g = 0" "transaction_hashes g = []"
    and "reachable d (application_new cfg fee st es) g n app" "Suc n < 2 ^ 64"
    and "build_block d (app\<lparr>ap_mem_pool := []\<rparr>) p i ts = Inr (b, rs, app1)"
    and "app2 = fold (\<lambda>step. step) (take k (publish_steps d rs (map (fst \<circ> snd) ts) b)) app1"
    and "by_hash (pk_block (d_picks d)) (blocks_of app2) h = Some b' \<or>
      by_height (pk_block (d_picks d)) (blocks_of app2) m = Some b' \<or>
      by_payload_id (pk_block (d_picks d)) (blocks_of app2) j = Some b'"
  shows "map (tx_hash (op_trie_hash (d_tx_ops d)))
      (transactions_by_hashes (pk_tx (d_picks d)) (txs_of app2) (transaction_hashes b'))
    = transaction_hashes b'"
proof -
  let ?th = "op_trie_hash (d_tx_ops d)" and ?find = "transaction_by_hash (pk_tx (d_picks d)) (txs_of app2)"
  have inv: "app_inv d g app" using reachable_inv [OF assms(5,1,3,4,6)] by simp
  from assms(7) have hashes: "transaction_hashes b = map ?th (map (fst \<circ> snd) ts)"
    and same: "ap_storage app1 = ap_storage app"
    by (elim build_block_Inr; simp add: comp_assoc)+
  have seen: "readers_consistent (blocks_of app2)" "readers_complete (blocks_of app2) (txs_of app2)"
    using publication_prefix [OF _ _ _ _ hashes assms(8)] inv same
    by (simp_all add: app_inv_def chain_ok_def txm.keyed_def)
  have keyed: "txm.keyed ?th (txs_of app2)"
    using keyed_prefix [OF _ assms(8)] inv same by (simp add: app_inv_def)
  obtain h' where "b' \<in> set (bag (em_read (bm_hashes (blocks_of app2))) h')"
    using found_in_hashes [OF assms(1) seen(1) assms(9)] by blast
  then have "?find t \<noteq> None" if "t \<in> set (transaction_hashes b')" for t
    using that seen(2) by (auto simp: readers_complete_def txm.lookup_None)
  then have "\<forall>t \<in> set (transaction_hashes b'). \<exists>x. ?find t = Some x \<and> tx_hash ?th x = t"
    using txm.lookup_key [OF assms(2) keyed] by fastforce
  then show ?thesis by (simp add: transactions_by_hashes_def map_filter_inverse)
qed

theorem readers_see_complete_blocks_witness:
  "\<exists>(app2 :: (ledger, unit) application) b'. by_height hd (blocks_of app2) 1 = Some b' \<and> transaction_hashes b' = [[3]] \<and>
     map (tx_hash (\<lambda>_. [3])) (transactions_by_hashes hd (txs_of app2) (transaction_hashes b')) = [[3]]"
proof -
  let ?d = example_dependencies and ?ts = "[([1] :: b256, Eip7702 [] [], l1_input_of_bytes [])]"
  have d: "pk_block (d_picks ?d) = hd" "pk_tx (d_picks ?d) = hd" "op_trie_hash (d_tx_ops ?d) = (\<lambda>_. [3])"
    by (simp_all add: example_dependencies_def example_tx_ops_def)
  obtain b rs app1 where built: "build_block ?d
      ((genesis_update example_app example_genesis)\<lparr>ap_mem_pool := []\<rparr>) example_payload 5 ?ts
        = Inr (b, rs, app1)"
    using example_build [of ?ts] by blast
  define app2 where "app2 = fold (\<lambda>step. step)
    (take 6 (publish_steps ?d rs (map (fst \<circ> snd) ?ts) b)) app1"
  from built obtain parent where
    parent: "repository_latest (pk_block (d_picks ?d)) (blocks_of (genesis_update example_app example_genesis))
      = Some parent"
    and num: "number_of b = number_of parent + 1"
    and hashes: "transaction_hashes b = map (op_trie_hash (d_tx_ops ?d) \<circ> fst \<circ> snd) ?ts"
    and app1: "ap_storage app1 = ap_storage (genesis_update example_app example_genesis)"
    by (elim build_block_Inr) (simp add: valid_child_def)
  have b: "transaction_hashes b = [[3]]" "number_of b = 1"
    using num hashes option.inject [THEN iffD1, OF trans [OF sym [OF parent] example_latest]]
    by (simp_all add: d(3) example_node(3))
  have len: "length (publish_steps ?d rs (map (fst \<circ> snd) ?ts) b) = 6"
    by (simp add: publish_steps_def add_steps_def)
  have new: "chain_ok (block_memory_add example_genesis block_memory_new)"
    "em_len (bm_heights (block_memory_add example_genesis block_memory_new)) = Suc 0"
    using chain_ok_add [OF chain_ok_new] example_node(3)
    by (simp_all add: block_memory_new_def em_new_def em_len_def)
  have "by_height hd (blocks_of app2) 1 = Some b"
    using by_height_add(1) [OF picks_member_hd new(1), of b] new(2) b(2) len
    by (simp add: app2_def published_simps app1 example_started)
  moreover from this have "map (tx_hash (op_trie_hash (d_tx_ops ?d)))
      (transactions_by_hashes (pk_tx (d_picks ?d)) (txs_of app2) (transaction_hashes b))
        = transaction_hashes b"
    by (intro readers_see_complete_blocks [OF example_node example_reachable _ built app2_def, of _ b 1])
      (simp_all add: d)
  ultimately show ?thesis using b by (intro exI [of _ app2] exI [of _ b] conjI) (simp_all add: d)
qed

text \<open>C11. A payload is built once: after the command to build it has been handled, it is there, and
  handling a command with the same identifier again, with whatever attributes, changes nothing.\<close>

theorem payload_is_built_once:
  assumes "picks_member (pk_block (d_picks d))" "number_of g = 0" "transaction_hashes g = []"
    and "reachable d (application_new cfg fee st es) g n app" "Suc (Suc n) < 2 ^ 64"
    and "handle_command d app (StartBlockBuild p i) = Inr app'"
  shows "payload_by_id (d_encode_2718 d) (d_picks d) (ap_storage app') i \<noteq> None \<and>
    handle_command d app' (StartBlockBuild p' i) = Inr app'"
proof -
  have inv: "app_inv d g app" using reachable_inv [OF assms(4,1,2,3)] assms(5) by simp
  from assms(6) have "start_block_build d app p i = Inr app'" by simp
  then have there: "payload_by_id (d_encode_2718 d) (d_picks d) (ap_storage app') i \<noteq> None"
  proof (cases rule: start_block_build_Inr)
    case (built b rs app1)
    then have fresh: "by_payload_id (pk_block (d_picks d)) (blocks_of app) i = None"
      by (simp add: payload_by_id_def)
    from built(2) have id: "eb_payload_id b = i" and same: "ap_storage app1 = ap_storage app"
      by (elim build_block_Inr; simp)+
    have "bm_synced (blocks_of app)" using inv by (simp add: app_inv_def chain_ok_def)
    then have "by_payload_id (pk_block (d_picks d)) (blocks_of app') i = Some b"
      using by_id_add_fresh [OF assms(1)] fresh by (simp add: built(3) published_simps same flip: id)
    then show ?thesis by (simp add: payload_by_id_def)
  qed simp
  then have "start_block_build d app' p' i = Inr app'"
    unfolding start_block_build_def by (simp only: if_True simp_thms)
  with there show ?thesis by simp
qed

theorem payload_is_built_once_witness:
  "\<exists>app'. handle_command example_dependencies (genesis_update example_app example_genesis)
       (StartBlockBuild example_payload 5) = Inr app' \<and>
     handle_command example_dependencies app' (StartBlockBuild (example_payload\<lparr>pa_timestamp := 13\<rparr>) 5)
       = Inr app'"
proof -
  obtain app' where run: "handle_command example_dependencies (genesis_update example_app example_genesis)
      (StartBlockBuild example_payload 5) = Inr app'"
    using example_built by blast
  have "handle_command example_dependencies app'
      (StartBlockBuild (example_payload\<lparr>pa_timestamp := 13\<rparr>) 5) = Inr app'"
    using payload_is_built_once [OF example_node(1,3,4) example_reachable _ run] by simp
  with run show ?thesis by blast
qed

lemma subseq_set: "subseq xs ys \<Longrightarrow> set xs \<subseteq> set ys"
  by (induction rule: list_emb.induct) auto

text \<open>C12. A transaction is processed at most once: when it has a receipt, it is not a candidate for a
  new block, whether it comes again in a payload or from the mem pool, and handling any further
  command leaves its receipts as they are.\<close>

theorem processed_once:
  assumes "picks_member (pk_block (d_picks d))" "number_of g = 0" "transaction_hashes g = []"
    and "reachable d (application_new cfg fee st es) g n app" "Suc n < 2 ^ 64"
    and "receipt_contains (ap_receipt_memory app) h"
  shows "h \<notin> fst ` set (candidates d app p) \<and>
    (handle_command d app c = Inr app' \<longrightarrow>
       receipt_contains (ap_receipt_memory app') h \<and>
       receipt_by_transaction_hash pick (ap_receipt_memory app') h
         = receipt_by_transaction_hash pick (ap_receipt_memory app) h)"
proof -
  have no: "h \<notin> fst ` set (candidates d app p)" for p
    using assms(6) by (auto simp: candidates_def)
  have ok: "em_synced (ap_receipt_memory app)"
    using reachable_inv [OF assms(4,1,2,3,5)] by (simp add: app_inv_def rxm.keyed_def)
  have "bag (em_read (ap_receipt_memory app')) h = bag (em_read (ap_receipt_memory app)) h \<and>
      em_synced (ap_receipt_memory app')" if run: "handle_command d app c = Inr app'"
  proof (cases c)
    case (StartBlockBuild p i)
    with run have "start_block_build d app p i = Inr app'" by simp
    then show ?thesis
    proof (cases rule: start_block_build_Inr)
      case (built b rs app1)
      from built(2) have sub: "subseq (map er_transaction_hash rs) (map fst (candidates d app p))"
        and same: "ap_receipt_memory app1 = ap_receipt_memory app"
        by (elim build_block_Inr; simp)+
      from sub have "h \<notin> er_transaction_hash ` set rs"
        using no [of p] subseq_set [OF sub] by auto
      then have "filter (\<lambda>r. er_transaction_hash r = h) (map (with_block_hash (eb_hash b)) rs) = []"
        by (auto simp: filter_empty_conv with_block_hash_def)
      then show ?thesis
        using ok by (simp add: built(3) published_simps same rxm.stored_extend rxm.ok_extend)
    qed (use ok in simp)
  next
    case (AddTransaction tx)
    with run add_transaction_Inr [of d app tx app'] ok show ?thesis by simp
  next
    case (GenesisUpdate b)
    with run ok show ?thesis by (auto simp: genesis_update_def)
  qed
  with no assms(6) ok show ?thesis
    by (simp add: receipt_contains_iff [of _ _ pick] receipt_by_transaction_hash_def get_one_def Let_def)
qed

theorem processed_once_witness:
  "\<exists>app. reachable example_dependencies example_app example_genesis 1 app \<and>
     receipt_contains (ap_receipt_memory app) (replicate 32 1) \<and>
     replicate 32 1 \<notin> fst ` set (candidates example_dependencies app example_bridge_payload)"
proof -
  obtain app where run: "handle_command example_dependencies (genesis_update example_app example_genesis)
      (StartBlockBuild example_bridge_payload 5) = Inr app"
    and there: "receipt_contains (ap_receipt_memory app) (replicate 32 1)"
    using example_bridge_built by blast
  have at: "reachable example_dependencies example_app example_genesis 1 app"
    using reachable.handled [OF example_reachable _ run] by simp
  have "replicate 32 1 \<notin> fst ` set (candidates example_dependencies app example_bridge_payload)"
    using processed_once [OF example_node(1,3,4) at _ there] by simp
  with at there show ?thesis by blast
qed

text \<open>C13. The chain can be extended: a payload with a new identifier, with which neither the payload nor
  the mem pool brings a transaction to execute, is built without a panic on every reachable state whose
  latest block has a gas limit that reaches the elasticity multiplier or used no gas, and yields the next block, with the timestamp of the
  payload and no gas used, while the state is kept.\<close>

theorem empty_payload_is_built:
  assumes "picks_member (pk_block (d_picks d))" "number_of g = 0" "transaction_hashes g = []"
    and "reachable d (application_new cfg fee st es) g n app" "Suc (Suc n) < 2 ^ 64"
    and "eip1559_new e q = Inr fee"
    and "repository_latest (pk_block (d_picks d)) (blocks_of app) = Some parent"
    and "e \<le> hd_gas_limit (header_of parent) \<or> hd_gas_used (header_of parent) = 0"
    and "candidates d app p = []"
    and "payload_by_id (d_encode_2718 d) (d_picks d) (ap_storage app) i = None"
  shows "\<exists>app' b. start_block_build d app p i = Inr app' \<and>
    repository_latest (pk_block (d_picks d)) (blocks_of app') = Some b \<and>
    eb_payload_id b = i \<and> number_of b = number_of parent + 1 \<and> transaction_hashes b = [] \<and>
    hd_timestamp (header_of b) = pa_timestamp p \<and> hd_gas_used (header_of b) = 0 \<and>
    ap_state app' = ap_state app \<and> ap_evm_storage app' = ap_evm_storage app"
proof -
  have inv: "app_inv d g app" "ap_gas_fee app = fee" "em_len (bm_heights (blocks_of app)) \<le> Suc n"
    using reachable_inv [OF assms(4,1,2,3)] assms(5) by simp_all
  obtain f where f: "base_fee_per_gas fee (hd_gas_limit (header_of parent)) (hd_gas_used (header_of parent))
      (ucast (unwrap_or (hd_base_fee_per_gas (header_of parent)) 0)) = Inr f"
    using assms(8) base_fee_panics [OF assms(6)] by (metis linorder_not_le obj_sumE)
  obtain b app1 where built: "build_block d (app\<lparr>ap_mem_pool := []\<rparr>) p i [] = Inr (b, [], app1)"
    and b: "hd_timestamp (header_of b) = pa_timestamp p" "hd_gas_used (header_of b) = 0"
    and st: "ap_state app1 = ap_state app" "ap_evm_storage app1 = ap_evm_storage app"
    using f by (simp add: build_block_def assms(7) inv(2) execute_transactions_def block_l1_fee_def
        building_new_def u64_from_def Let_def block_header_def with_execution_outcome_def
        with_payload_attributes_def with_payload_id_def with_value_def with_hash_def
        extended_block_new_def block_new_def to_u64_def)
  define app' where "app' = published d [] [] b app1"
  have run: "start_block_build d app p i = Inr app'"
    by (simp add: start_block_build_def assms(9,10) built app'_def)
  have room: "Suc (em_len (bm_heights (blocks_of app))) < 2 ^ 64" using inv(3) assms(5) by simp
  from build_block_appends [OF assms(1) inv(1) built room, of app'] have
    inv': "app_inv d g app'"
    and chain: "chain_of (pk_block (d_picks d)) (blocks_of app')
      = chain_of (pk_block (d_picks d)) (blocks_of app) @ [b]" by (simp_all add: app'_def)
  have ok: "chain_ok (blocks_of app')" using inv' by (simp add: app_inv_def)
  obtain b' where "repository_latest (pk_block (d_picks d)) (blocks_of app') = Some b'"
    using latest_exists [OF ok, of "pk_block (d_picks d)"] chain by auto
  then have "repository_latest (pk_block (d_picks d)) (blocks_of app') = Some b"
    using latest_is_last [OF assms(1) ok] chain by simp
  moreover from built have "eb_payload_id b = i" "transaction_hashes b = []"
    "number_of b = number_of parent + 1"
    by (elim build_block_Inr; simp add: assms(7) valid_child_def)+
  moreover have "ap_state app' = ap_state app1" "ap_evm_storage app' = ap_evm_storage app1"
    by (simp_all add: app'_def publish_steps_def fold_on_blocks on_blocks_def publish_receipts_def
        publish_transactions_def)
  ultimately show ?thesis using run b st by (intro exI [of _ app'] exI [of _ b]) simp
qed

theorem empty_payload_is_built_witness:
  "\<exists>app' b. start_block_build example_dependencies (genesis_update example_app example_genesis)
       example_payload 5 = Inr app' \<and>
     repository_latest (pk_block (d_picks example_dependencies)) (blocks_of app') = Some b \<and>
     eb_payload_id b = 5"
proof -
  have "\<exists>app' b. start_block_build example_dependencies (genesis_update example_app example_genesis)
       example_payload 5 = Inr app' \<and>
     repository_latest (pk_block (d_picks example_dependencies)) (blocks_of app') = Some b \<and>
     eb_payload_id b = 5 \<and> number_of b = number_of example_genesis + 1 \<and> transaction_hashes b = [] \<and>
    hd_timestamp (header_of b) = pa_timestamp example_payload \<and> hd_gas_used (header_of b) = 0 \<and>
    ap_state app' = ap_state (genesis_update example_app example_genesis) \<and>
    ap_evm_storage app' = ap_evm_storage (genesis_update example_app example_genesis)"
    by (rule empty_payload_is_built [OF example_node(1,3,4) example_reachable _ example_fee_new
          example_latest disjI1 [OF example_limit] example_candidates example_no_payload]) simp
  then show ?thesis by blast
qed

end
