(* ===== verification/Rpc_Methods.thy ===== *)
theory Rpc_Methods
  imports Complex_Main Engine_Schema App_Queries Ledger
begin

text \<open>
  The JSON-RPC methods: \<^verbatim>\<open>api/src/methods/*.rs\<close> and \<^verbatim>\<open>api/src/request.rs\<close>. A method parses its parameters,
  asks the reader of the application or sends commands to the queue, and encodes its answer. Decoding
  and encoding of the types of the interface (\<open>serde\<close>) are the fields of \<open>wire\<close>; a method returns its
  answer with the commands it has sent, an error of the protocol, or a panic of a query it ran.
\<close>

section \<open>Decoders and encoders\<close>

record wire =
  wi_forkchoice_state :: "forkchoice_state_v1 decoder"
  wi_payload_attributes :: "payload_attributes_v3 option decoder"
  wi_payload_id :: "payload_id decoder"
  wi_execution_payload :: "execution_payload_v3 decoder"
  wi_b256 :: "b256 decoder"
  wi_b256_list :: "b256 list decoder"
  wi_bytes :: "bytes decoder"
  wi_string :: "string decoder"
  wi_bool :: "bool decoder"
  wi_address :: "address decoder"
  wi_u256_list :: "u256 list decoder"
  wi_percentiles :: "rat list decoder"
  wi_block_tag :: "block_tag decoder"
  wi_block_id :: "block_id decoder"
  wi_transaction_request :: "transaction_request decoder"
  wi_decode_envelope :: "bytes \<Rightarrow> string + tx_envelope \<times> bytes"
  wi_tx_hash :: "tx_envelope \<Rightarrow> b256"
  wi_of_forkchoice_response :: "forkchoice_updated_response_v1 \<Rightarrow> json"
  wi_of_get_payload_response :: "get_payload_response_v3 \<Rightarrow> json"
  wi_of_payload_status :: "payload_status_v1 \<Rightarrow> json"
  wi_of_b256 :: "b256 \<Rightarrow> json"
  wi_of_block :: "block_response option \<Rightarrow> json"
  wi_of_transaction :: "transaction_response option \<Rightarrow> json"
  wi_of_receipt :: "transaction_receipt option \<Rightarrow> json"
  wi_of_proof :: "proof_response \<Rightarrow> json"
  wi_of_default_fee_history :: json
  wi_show_tag :: "block_tag \<Rightarrow> string"
  wi_show_id :: "block_id \<Rightarrow> string"
  wi_show_error :: "error \<Rightarrow> string"

datatype rpc_fault =
  RpcError json_rpc_error
| RpcPanic string

type_synonym answer = "rpc_fault + json \<times> command list"

abbreviation parsed :: "json_rpc_error + 'a \<Rightarrow> rpc_fault + 'a" where
  "parsed r \<equiv> map_err RpcError r"

definition asked :: "panic + 'a \<Rightarrow> rpc_fault + 'a" where
  "asked r = map_err (\<lambda>p. case p of Panic m \<Rightarrow> RpcPanic m) r"

definition simulated :: "wire \<Rightarrow> fault + 'a \<Rightarrow> rpc_fault + 'a" where
  "simulated w r =
     map_err (\<lambda>f. case f of Err e \<Rightarrow> RpcError (transaction_error (wi_show_error w e)) | Panicking m \<Rightarrow> RpcPanic m) r"

abbreviation answered :: "json \<Rightarrow> answer" where
  "answered x \<equiv> Inr (x, [])"

section \<open>Engine API\<close>

subsection \<open>\<open>engine_forkchoiceUpdatedV3\<close>\<close>

definition forkchoice_parse_params_v3 ::
  "wire \<Rightarrow> json \<Rightarrow> json_rpc_error + forkchoice_state_v1 \<times> payload_attributes_v3 option" where
  "forkchoice_parse_params_v3 w request =
     (case get_params_list request of
        [] \<Rightarrow> Inl (not_enough request)
      | [x] \<Rightarrow> rbind (deserialize_json (wi_forkchoice_state w) x) (\<lambda>fs. Inr (fs, None))
      | [x, y] \<Rightarrow>
          rbind (deserialize_json (wi_forkchoice_state w) x) (\<lambda>fs.
          rbind (deserialize_json (wi_payload_attributes w) y) (\<lambda>attrs. Inr (fs, attrs)))
      | _ \<Rightarrow> Inl (too_many request))"

definition forkchoice_inner_execute_v3 ::
  "(new_payload_id_input \<Rightarrow> payload_id) \<Rightarrow> forkchoice_state_v1 \<Rightarrow> payload_attributes_v3 option
     \<Rightarrow> forkchoice_updated_response_v1 \<times> command list" where
  "forkchoice_inner_execute_v3 new_id fs attrs =
     (let payload_status = \<lparr>ps_status = Valid, ps_latest_valid_hash = Some (fs_head_block_hash fs),
                            ps_validation_error = None\<rparr>
      in case attrs of
           Some a \<Rightarrow>
             let p = payload_from_attributes a; i = new_id (to_payload_id_input p (fs_head_block_hash fs))
             in (\<lparr>fr_payload_status = payload_status, fr_payload_id = Some i\<rparr>, [StartBlockBuild p i])
         | None \<Rightarrow> (\<lparr>fr_payload_status = payload_status, fr_payload_id = None\<rparr>, []))"

definition forkchoice_execute_v3 :: "wire \<Rightarrow> (new_payload_id_input \<Rightarrow> payload_id) \<Rightarrow> json \<Rightarrow> answer" where
  "forkchoice_execute_v3 w new_id request =
     rbind (parsed (forkchoice_parse_params_v3 w request)) (\<lambda>(fs, attrs).
     case forkchoice_inner_execute_v3 new_id fs attrs of
       (response, msgs) \<Rightarrow> Inr (wi_of_forkchoice_response w response, msgs))"

subsection \<open>\<open>engine_getPayloadV3\<close>\<close>

definition unknown_payload :: "payload_id \<Rightarrow> json_rpc_error" where
  "unknown_payload i =
     \<lparr>je_code = - 38001, je_data = JString (string_from_payload_id i), je_message = ''Unknown payload''\<rparr>"

definition get_payload_execute_v3 ::
  "wire \<Rightarrow> ('k, 'db, 't, 'r, 'tc, 'u, 's, 'c, 'e) reader_ops \<Rightarrow> 'db application_reader \<Rightarrow> json \<Rightarrow> answer" where
  "get_payload_execute_v3 w ro rd request =
     rbind (parsed (parse_params_1 (wi_payload_id w) request)) (\<lambda>i.
     rbind (parsed (ok_or (map_option payload_response_to_v3 (query_payload ro rd i)) (unknown_payload i)))
       (\<lambda>response. answered (wi_of_get_payload_response w response)))"

subsection \<open>\<open>engine_newPayloadV3\<close>\<close>

definition invalid_payload :: "string \<Rightarrow> payload_status_v1" where
  "invalid_payload e =
     \<lparr>ps_status = Invalid, ps_latest_valid_hash = None, ps_validation_error = Some e\<rparr>"

definition validate_payload ::
  "execution_payload_v3 \<Rightarrow> b256 list \<Rightarrow> b256 \<Rightarrow> get_payload_response_v3 \<Rightarrow> payload_status_v1" where
  "validate_payload x blob_hashes beacon_root known =
     (let k = g3_execution_payload known
      in if x3_block_number x \<noteq> x3_block_number k then invalid_payload ''Incorrect block height''
         else if x3_extra_data x \<noteq> x3_extra_data k then invalid_payload ''Incorrect extra data''
         else if x3_fee_recipient x \<noteq> x3_fee_recipient k then invalid_payload ''Incorrect fee recipient''
         else if x3_gas_limit x \<noteq> x3_gas_limit k then invalid_payload ''Incorrect gas limit''
         else if x3_parent_hash x \<noteq> x3_parent_hash k then invalid_payload ''Incorrect parent hash''
         else if x3_prev_randao x \<noteq> x3_prev_randao k then invalid_payload ''Incorrect prev randao''
         else if x3_timestamp x \<noteq> x3_timestamp k then invalid_payload ''Incorrect timestamp''
         else if x3_withdrawals x \<noteq> x3_withdrawals k then invalid_payload ''Incorrect withdraws''
         else if blob_hashes \<noteq> [] then invalid_payload ''Unexpected blob hashes''
         else if beacon_root \<noteq> g3_parent_beacon_block_root known
              then invalid_payload ''Incorrect parent beacon block root''
         else \<lparr>ps_status = Valid, ps_latest_valid_hash = Some (x3_block_hash x), ps_validation_error = None\<rparr>)"

definition unknown_block_hash :: "json \<Rightarrow> json_rpc_error" where
  "unknown_block_hash h = \<lparr>je_code = - 1, je_data = h, je_message = ''Unknown block hash''\<rparr>"

definition new_payload_inner_execute_v3 ::
  "wire \<Rightarrow> ('k, 'db, 't, 'r, 'tc, 'u, 's, 'c, 'e) reader_ops \<Rightarrow> 'db application_reader
     \<Rightarrow> execution_payload_v3 \<Rightarrow> b256 list \<Rightarrow> b256 \<Rightarrow> json_rpc_error + payload_status_v1" where
  "new_payload_inner_execute_v3 w ro rd x blob_hashes beacon_root =
     rbind (ok_or (payload_by_block_hash ro rd (x3_block_hash x))
       (unknown_block_hash (wi_of_b256 w (x3_block_hash x)))) (\<lambda>response.
     Inr (validate_payload x blob_hashes beacon_root (payload_response_to_v3 response)))"

definition new_payload_execute_v3 ::
  "wire \<Rightarrow> ('k, 'db, 't, 'r, 'tc, 'u, 's, 'c, 'e) reader_ops \<Rightarrow> 'db application_reader \<Rightarrow> json \<Rightarrow> answer" where
  "new_payload_execute_v3 w ro rd request =
     rbind (parsed (parse_params_3 (wi_execution_payload w) (wi_b256_list w) (wi_b256 w) request))
       (\<lambda>(x, blob_hashes, beacon_root).
     rbind (parsed (new_payload_inner_execute_v3 w ro rd x blob_hashes beacon_root)) (\<lambda>response.
     answered (wi_of_payload_status w response)))"

section \<open>Transactions\<close>

subsection \<open>\<open>eth_sendRawTransaction\<close>\<close>

definition raw_parse_params :: "wire \<Rightarrow> json \<Rightarrow> json_rpc_error + tx_envelope" where
  "raw_parse_params w request =
     (case get_params_list request of
        [] \<Rightarrow> Inl (not_enough request)
      | [x] \<Rightarrow>
          rbind (deserialize_json (wi_bytes w) x) (\<lambda>bs.
          rbind (map_err (\<lambda>e. parse_error request (''RLP decode failed: '' @ e)) (wi_decode_envelope w bs))
            (\<lambda>(tx, _). Inr tx))
      | _ \<Rightarrow> Inl (too_many request))"

definition send_raw_transaction :: "wire \<Rightarrow> json \<Rightarrow> answer" where
  "send_raw_transaction w request =
     rbind (parsed (raw_parse_params w request)) (\<lambda>tx.
     Inr (wi_of_b256 w (wi_tx_hash w tx), [AddTransaction tx]))"

subsection \<open>Simulations: \<open>eth_estimateGas\<close> and \<open>eth_call\<close>\<close>

text \<open>Parameters with a block that is the latest one when it is left out: \<open>parse_params\<close> of
  \<open>estimate_gas.rs\<close> and \<open>get_nonce.rs\<close>.\<close>

definition parse_params_at :: "wire \<Rightarrow> 'a decoder \<Rightarrow> json \<Rightarrow> json_rpc_error + 'a \<times> block_tag" where
  "parse_params_at w dec request =
     (case get_params_list request of
        [] \<Rightarrow> Inl (not_enough request)
      | [a] \<Rightarrow> rbind (deserialize_json dec a) (\<lambda>x. Inr (x, Latest))
      | [a, b] \<Rightarrow>
          rbind (deserialize_json dec a) (\<lambda>x.
          rbind (deserialize_json (wi_block_tag w) b) (\<lambda>tag. Inr (x, tag)))
      | _ \<Rightarrow> Inl (too_many request))"

definition BASE_FEE :: u64 where
  "BASE_FEE = 21000"

definition estimate_gas_execute ::
  "wire \<Rightarrow> ('k, 'db, 't, 'r, 'tc, 'u, 's, 'c, 'e) reader_ops \<Rightarrow> 'db application_reader \<Rightarrow> drawn \<Rightarrow> json \<Rightarrow> answer"
where
  "estimate_gas_execute w ro rd dw request =
     rbind (parsed (parse_params_at w (wi_transaction_request w) request)) (\<lambda>(tx, tag).
     rbind (simulated w (estimate_gas ro rd dw tx tag)) (\<lambda>gas.
     answered (JString (hex_string (max gas BASE_FEE)))))"

definition call_execute ::
  "wire \<Rightarrow> ('k, 'db, 't, 'r, 'tc, 'u, 's, 'c, 'e) reader_ops \<Rightarrow> 'db application_reader \<Rightarrow> json \<Rightarrow> answer" where
  "call_execute w ro rd request =
     rbind (parsed (parse_params_2 (wi_transaction_request w) (wi_block_tag w) request)) (\<lambda>(tx, tag).
     rbind (simulated w (query_call ro rd tx tag)) (\<lambda>bs.
     answered (JArray (map (JNumber \<circ> uint) bs))))"

section \<open>Accounts and blocks\<close>

definition chain_id_execute :: "'db application_reader \<Rightarrow> answer" where
  "chain_id_execute rd = answered (JString (hex_string (query_chain_id rd)))"

definition get_balance_execute ::
  "wire \<Rightarrow> ('k, 'db, 't, 'r, 'tc, 'u, 's, 'c, 'e) reader_ops \<Rightarrow> 'db application_reader \<Rightarrow> json \<Rightarrow> answer" where
  "get_balance_execute w ro rd request =
     rbind (parsed (parse_params_2 (wi_address w) (wi_block_tag w) request)) (\<lambda>(a, tag).
     rbind (asked (balance_by_height ro rd a tag)) (\<lambda>r.
     rbind (parsed (ok_or r (block_not_found (wi_show_tag w tag)))) (\<lambda>balance.
     answered (JString (hex_string balance)))))"

definition get_nonce_execute ::
  "wire \<Rightarrow> ('k, 'db, 't, 'r, 'tc, 'u, 's, 'c, 'e) reader_ops \<Rightarrow> 'db application_reader \<Rightarrow> json \<Rightarrow> answer" where
  "get_nonce_execute w ro rd request =
     rbind (parsed (parse_params_at w (wi_address w) request)) (\<lambda>(a, tag).
     rbind (asked (nonce_by_height ro rd a tag)) (\<lambda>r.
     rbind (parsed (ok_or r (block_not_found (wi_show_tag w tag)))) (\<lambda>nonce.
     answered (JString (hex_string nonce)))))"

definition get_block_by_hash_execute ::
  "wire \<Rightarrow> ('k, 'db, 't, 'r, 'tc, 'u, 's, 'c, 'e) reader_ops \<Rightarrow> 'db application_reader \<Rightarrow> json \<Rightarrow> answer" where
  "get_block_by_hash_execute w ro rd request =
     rbind (parsed (parse_params_2 (wi_b256 w) (wi_bool w) request)) (\<lambda>(h, include_transactions).
     rbind (asked (block_by_hash ro rd h include_transactions)) (\<lambda>b. answered (wi_of_block w b)))"

definition get_block_by_number_execute ::
  "wire \<Rightarrow> ('k, 'db, 't, 'r, 'tc, 'u, 's, 'c, 'e) reader_ops \<Rightarrow> 'db application_reader \<Rightarrow> json \<Rightarrow> answer" where
  "get_block_by_number_execute w ro rd request =
     rbind (parsed (parse_params_2 (wi_block_tag w) (wi_bool w) request)) (\<lambda>(tag, include_transactions).
     rbind (asked (block_by_height ro rd tag include_transactions)) (\<lambda>b. answered (wi_of_block w b)))"

definition block_number_execute :: "'db application_reader \<Rightarrow> json \<Rightarrow> answer" where
  "block_number_execute rd request =
     rbind (parsed (parse_params_0 request)) (\<lambda>_.
     rbind (asked (block_number rd)) (\<lambda>n. answered (JString (hex_string n))))"

definition get_transaction_by_hash_execute ::
  "wire \<Rightarrow> ('k, 'db, 't, 'r, 'tc, 'u, 's, 'c, 'e) reader_ops \<Rightarrow> 'db application_reader \<Rightarrow> json \<Rightarrow> answer" where
  "get_transaction_by_hash_execute w ro rd request =
     rbind (parsed (parse_params_1 (wi_b256 w) request)) (\<lambda>h.
     rbind (asked (query_transaction_by_hash ro rd h)) (\<lambda>tx. answered (wi_of_transaction w tx)))"

definition get_transaction_receipt_execute ::
  "wire \<Rightarrow> ('k, 'db, 't, 'r, 'tc, 'u, 's, 'c, 'e) reader_ops \<Rightarrow> 'db application_reader \<Rightarrow> json \<Rightarrow> answer" where
  "get_transaction_receipt_execute w ro rd request =
     rbind (parsed (parse_params_1 (wi_b256 w) request)) (\<lambda>h.
     rbind (asked (query_transaction_receipt ro rd h)) (\<lambda>r. answered (wi_of_receipt w r)))"

definition proof_parse_params ::
  "wire \<Rightarrow> json \<Rightarrow> json_rpc_error + address \<times> u256 list \<times> block_id" where
  "proof_parse_params w request =
     (case get_params_list request of
        [] \<Rightarrow> Inl (not_enough request)
      | [_] \<Rightarrow> Inl (not_enough request)
      | [a, b] \<Rightarrow>
          rbind (deserialize_json (wi_address w) a) (\<lambda>a.
          rbind (deserialize_json (wi_u256_list w) b) (\<lambda>slots. Inr (a, slots, IdNumber Latest)))
      | [a, b, c] \<Rightarrow>
          rbind (deserialize_json (wi_address w) a) (\<lambda>a.
          rbind (deserialize_json (wi_u256_list w) b) (\<lambda>slots.
          rbind (deserialize_json (wi_block_id w) c) (\<lambda>i. Inr (a, slots, i))))
      | _ \<Rightarrow> Inl (too_many request))"

definition get_proof_execute ::
  "wire \<Rightarrow> ('k, 'db, 't, 'r, 'tc, 'u, 's, 'c, 'e) reader_ops \<Rightarrow> 'db application_reader \<Rightarrow> json \<Rightarrow> answer" where
  "get_proof_execute w ro rd request =
     rbind (parsed (proof_parse_params w request)) (\<lambda>(a, slots, i).
     rbind (asked (query_proof ro rd a slots i)) (\<lambda>r.
     rbind (parsed (ok_or r (block_not_found (wi_show_id w i)))) (\<lambda>p.
     answered (wi_of_proof w p))))"

section \<open>Fees\<close>

text \<open>\<open>trim_start_matches\<close> takes the prefix away as often as it is there.\<close>

function trim_start_matches :: "string \<Rightarrow> string \<Rightarrow> string" where
  "trim_start_matches pat s =
     (if pat \<noteq> [] \<and> take (length pat) s = pat then trim_start_matches pat (drop (length pat) s) else s)"
  by pat_completeness auto

termination
proof (relation "measure (length \<circ> snd)")
  fix pat s :: string
  assume "pat \<noteq> [] \<and> take (length pat) s = pat"
  then have "s \<noteq> []" "pat \<noteq> []" by auto
  then show "((pat, drop (length pat) s), pat, s) \<in> measure (length \<circ> snd)" by simp
qed simp

declare trim_start_matches.simps [simp del]

definition count_error :: "string \<Rightarrow> json_rpc_error" where
  "count_error m = \<lparr>je_code = - 32602, je_data = JNumber 0, je_message = m\<rparr>"

definition parse_block_count :: "wire \<Rightarrow> json \<Rightarrow> json_rpc_error + u64" where
  "parse_block_count w x =
     rbind (deserialize_json (wi_string w) x) (\<lambda>s.
     ok_or (from_str_radix_16 (trim_start_matches ''0x'' s)) (count_error ''Block count parsing error''))"

definition fee_history_parse_params ::
  "wire \<Rightarrow> json \<Rightarrow> json_rpc_error + u64 \<times> block_tag \<times> rat list option" where
  "fee_history_parse_params w request =
     (case get_params_list request of
        [] \<Rightarrow> Inl (not_enough request)
      | [_] \<Rightarrow> Inl (not_enough request)
      | [a, b] \<Rightarrow>
          rbind (parse_block_count w a) (\<lambda>n.
          rbind (deserialize_json (wi_block_tag w) b) (\<lambda>tag. Inr (n, tag, None)))
      | [a, b, c] \<Rightarrow>
          rbind (parse_block_count w a) (\<lambda>n.
          rbind (deserialize_json (wi_block_tag w) b) (\<lambda>tag.
          rbind (deserialize_json (wi_percentiles w) c) (\<lambda>rewards.
          if list_ex (\<lambda>r. r < 0 \<or> 100 < r) rewards then Inl (count_error ''Incorrect reward percentile'')
          else Inr (n, tag, Some rewards))))
      | _ \<Rightarrow> Inl (too_many request))"

text \<open>The application answers with a default history.\<close>

definition fee_history_execute :: "wire \<Rightarrow> json \<Rightarrow> answer" where
  "fee_history_execute w request =
     rbind (parsed (fee_history_parse_params w request)) (\<lambda>_. answered (wi_of_default_fee_history w))"

definition gas_price_execute :: answer where
  "gas_price_execute = answered (JString ''0x3b9aca00'')"

section \<open>Requests\<close>

definition invalid_method :: json_rpc_error where
  "invalid_method = without_data (- 32601) ''Invalid/missing method''"

definition inner_handle_request ::
  "wire \<Rightarrow> (new_payload_id_input \<Rightarrow> payload_id) \<Rightarrow> (method_name \<Rightarrow> bool)
     \<Rightarrow> ('k, 'db, 't, 'r, 'tc, 'u, 's, 'c, 'e) reader_ops \<Rightarrow> 'db application_reader \<Rightarrow> drawn \<Rightarrow> json \<Rightarrow> answer" where
  "inner_handle_request w new_id is_allowed ro rd dw request =
     rbind (parsed (ok_or (as_str (get_field request ''method'')) invalid_method)) (\<lambda>s.
     rbind (parsed (method_from_str s)) (\<lambda>m.
     if \<not> is_allowed m then Inl (RpcError invalid_method)
     else case m of
            ForkChoiceUpdatedV3 \<Rightarrow> forkchoice_execute_v3 w new_id request
          | GetPayloadV3 \<Rightarrow> get_payload_execute_v3 w ro rd request
          | NewPayloadV3 \<Rightarrow> new_payload_execute_v3 w ro rd request
          | SendRawTransaction \<Rightarrow> send_raw_transaction w request
          | ChainId \<Rightarrow> chain_id_execute rd
          | GetBalance \<Rightarrow> get_balance_execute w ro rd request
          | GetNonce \<Rightarrow> get_nonce_execute w ro rd request
          | GetTransactionByHash \<Rightarrow> get_transaction_by_hash_execute w ro rd request
          | GetBlockByHash \<Rightarrow> get_block_by_hash_execute w ro rd request
          | GetBlockByNumber \<Rightarrow> get_block_by_number_execute w ro rd request
          | BlockNumber \<Rightarrow> block_number_execute rd request
          | FeeHistory \<Rightarrow> fee_history_execute w request
          | EstimateGas \<Rightarrow> estimate_gas_execute w ro rd dw request
          | CallMethod \<Rightarrow> call_execute w ro rd request
          | TransactionReceipt \<Rightarrow> get_transaction_receipt_execute w ro rd request
          | GetProof \<Rightarrow> get_proof_execute w ro rd request
          | GasPrice \<Rightarrow> gas_price_execute))"

text \<open>The response of a request and the commands it sent; a panic takes the request down.\<close>

definition handle ::
  "wire \<Rightarrow> (new_payload_id_input \<Rightarrow> payload_id) \<Rightarrow> (method_name \<Rightarrow> bool)
     \<Rightarrow> ('k, 'db, 't, 'r, 'tc, 'u, 's, 'c, 'e) reader_ops \<Rightarrow> 'db application_reader \<Rightarrow> drawn \<Rightarrow> json
     \<Rightarrow> panic + json_rpc_response \<times> command list" where
  "handle w new_id is_allowed ro rd dw request =
     (let i = get_field request ''id''; v = get_field request ''jsonrpc''
      in case inner_handle_request w new_id is_allowed ro rd dw request of
           Inr (r, msgs) \<Rightarrow> Inr (\<lparr>jr_id = i, jr_jsonrpc = v, jr_result = Some r, jr_error = None\<rparr>, msgs)
         | Inl (RpcError e) \<Rightarrow> Inr (\<lparr>jr_id = i, jr_jsonrpc = v, jr_result = None, jr_error = Some e\<rparr>, [])
         | Inl (RpcPanic m) \<Rightarrow> Inl (Panic m))"

section \<open>An example interface\<close>

text \<open>Decoders that accept what the witnesses send, over the example machine.\<close>

definition example_wire :: wire where
  "example_wire =
     \<lparr>wi_forkchoice_state = (\<lambda>_. Inr \<lparr>fs_head_block_hash = [7], fs_safe_block_hash = [7], fs_finalized_block_hash = [7]\<rparr>),
      wi_payload_attributes = (\<lambda>_. Inr None), wi_payload_id = (\<lambda>_. Inr 5),
      wi_execution_payload = (\<lambda>_. Inl ''malformed''), wi_b256 = (\<lambda>_. Inr [7]), wi_b256_list = (\<lambda>_. Inr []),
      wi_bytes = (\<lambda>_. Inr [3]), wi_string = (\<lambda>x. ok_or (as_str x) ''not a string''),
      wi_bool = (\<lambda>_. Inr False), wi_address = (\<lambda>_. Inr (replicate 20 5)), wi_u256_list = (\<lambda>_. Inr []),
      wi_percentiles = (\<lambda>_. Inr []), wi_block_tag = (\<lambda>_. Inr Latest), wi_block_id = (\<lambda>_. Inr (IdNumber Latest)),
      wi_transaction_request = (\<lambda>_. Inl ''malformed''),
      wi_decode_envelope = (\<lambda>bs. if bs = [3] then Inr (EthEip4844 [] [], []) else Inl ''malformed''),
      wi_tx_hash = (\<lambda>_. [8]), wi_of_forkchoice_response = (\<lambda>_. JNull),
      wi_of_get_payload_response = (\<lambda>_. JNull), wi_of_payload_status = (\<lambda>_. JNull),
      wi_of_b256 = (\<lambda>h. JArray (map (JNumber \<circ> uint) h)), wi_of_block = (\<lambda>_. JNull), wi_of_transaction = (\<lambda>_. JNull),
      wi_of_receipt = (\<lambda>_. JNull), wi_of_proof = (\<lambda>_. JNull), wi_of_default_fee_history = JNull,
      wi_show_tag = (\<lambda>_. []), wi_show_id = (\<lambda>_. []), wi_show_error = (\<lambda>_. [])\<rparr>"

definition example_reader_ops ::
  "(bytes, (bytes \<rightharpoonup> bytes) list, bytes \<rightharpoonup> bytes, unit, unit, (bytes \<times> bytes) list, ledger, ledger option, unit) reader_ops"
where
  "example_reader_ops =
     \<lparr>ro_state = example_state_ops, ro_evm = example_evm_ops,
      ro_machine = example_machine_on example_vm (\<lambda>_. example_ledger), ro_quick = (\<lambda>_ _. example_ledger),
      ro_base_token = example_token, ro_bcs_list = (\<lambda>_. Inl ''unsupported''), ro_tx_ops = example_tx_ops,
      ro_picks = \<lparr>pk_block = hd, pk_tx = hd\<rparr>, ro_pick_receipt = hd, ro_encode_2718 = (\<lambda>_. [1, 2]),
      ro_tree_proof = (\<lambda>_ _ _. Inr []), ro_slot_proof = (\<lambda>_ _ _. Inr [])\<rparr>"

definition example_reader :: "shared_memory \<Rightarrow> (bytes \<rightharpoonup> bytes) list application_reader" where
  "example_reader mem =
     \<lparr>ar_genesis_config = example_config, ar_receipt_memory = em_new, ar_storage = mem,
      ar_state_queries = \<lparr>sq_memory = sm_blocks mem, sq_db = [], sq_genesis_state_root = []\<rparr>, ar_evm_storage = repository_new\<rparr>"

section \<open>Properties\<close>

lemmas query_executes =
  get_payload_execute_v3_def new_payload_execute_v3_def chain_id_execute_def get_balance_execute_def
  get_nonce_execute_def get_transaction_by_hash_execute_def get_block_by_hash_execute_def
  get_block_by_number_execute_def block_number_execute_def fee_history_execute_def
  estimate_gas_execute_def call_execute_def get_transaction_receipt_execute_def get_proof_execute_def
  gas_price_execute_def

lemma forkchoice_execute_msgs:
  "forkchoice_execute_v3 w new_id request = Inr (r, msgs) \<Longrightarrow>
     msgs = [] \<or> (\<exists>p i. msgs = [StartBlockBuild p i])"
  by (auto simp: forkchoice_execute_v3_def forkchoice_inner_execute_v3_def rbind_Inr_iff Let_def
      split: option.splits)

lemma send_raw_transaction_msgs:
  "send_raw_transaction w request = Inr (r, msgs) \<Longrightarrow> \<exists>tx. msgs = [AddTransaction tx]"
  by (auto simp: send_raw_transaction_def rbind_Inr_iff)

text \<open>The commands a request sends, by its method.\<close>

lemma inner_handle_request_msgs:
  assumes "inner_handle_request w new_id is_allowed ro rd dw request = Inr (r, msgs)"
  obtains m where "as_str (get_field request ''method'') \<noteq> None" "is_allowed m"
    "method_from_str (the (as_str (get_field request ''method''))) = Inr m"
    "msgs = [] \<or> (m = SendRawTransaction \<and> (\<exists>tx. msgs = [AddTransaction tx])) \<or>
     (m = ForkChoiceUpdatedV3 \<and> (\<exists>p i. msgs = [StartBlockBuild p i]))"
proof -
  from assms obtain s m where s: "as_str (get_field request ''method'') = Some s"
    and m: "method_from_str s = Inr m" "is_allowed m"
    by (auto simp: inner_handle_request_def rbind_Inr_iff split: if_splits)
  have "msgs = [] \<or> (m = SendRawTransaction \<and> (\<exists>tx. msgs = [AddTransaction tx])) \<or>
     (m = ForkChoiceUpdatedV3 \<and> (\<exists>p i. msgs = [StartBlockBuild p i]))"
    using assms m
    by (cases m) (auto simp: inner_handle_request_def s query_executes rbind_Inr_iff
      dest: forkchoice_execute_msgs send_raw_transaction_msgs)
  with s m show ?thesis by (intro that [of m]) simp_all
qed

lemma handle_Inr:
  assumes "handle w new_id is_allowed ro rd dw request = Inr (resp, msgs)"
  obtains (answered) r where "inner_handle_request w new_id is_allowed ro rd dw request = Inr (r, msgs)"
      "jr_result resp = Some r" "jr_error resp = None"
  | (failed) e where "inner_handle_request w new_id is_allowed ro rd dw request = Inl (RpcError e)"
      "jr_result resp = None" "jr_error resp = Some e" "msgs = []"
  using assms by (auto simp: handle_def Let_def split: sum.splits rpc_fault.splits prod.splits)

text \<open>C17. Every response of the node is a well-formed JSON-RPC response: it repeats the identifier and
  the version of the request, and it carries a result or an error, never both and never neither; a
  request that is answered with an error has sent no command.\<close>

theorem responses_are_well_formed:
  assumes "handle w new_id is_allowed ro rd dw request = Inr (resp, msgs)"
  shows "jr_id resp = get_field request ''id'' \<and> jr_jsonrpc resp = get_field request ''jsonrpc'' \<and>
    (jr_result resp = None \<longleftrightarrow> jr_error resp \<noteq> None) \<and> (jr_error resp \<noteq> None \<longrightarrow> msgs = []) \<and> length msgs \<le> 1"
proof -
  have "jr_id resp = get_field request ''id'' \<and> jr_jsonrpc resp = get_field request ''jsonrpc''"
    using assms by (auto simp: handle_def Let_def split: sum.splits rpc_fault.splits)
  with assms show ?thesis
    by (cases rule: handle_Inr) (auto elim!: inner_handle_request_msgs)
qed

text \<open>A payload that consensus submits is declared valid exactly when it agrees with the block the
  node built in number, extra data, fee recipient, gas limit, parent hash, randomness, timestamp and
  withdrawals, comes without blobs and with the beacon root of the block; what the transactions
  produced is not compared. A payload that is not valid is declared invalid with a reason and without
  a valid ancestor.\<close>

lemma validate_payload_correct:
  "let x' = g3_execution_payload known; st = validate_payload x blob_hashes beacon_root known
   in (ps_status st = Valid \<longleftrightarrow>
        (x3_block_number x, x3_extra_data x, x3_fee_recipient x, x3_gas_limit x)
          = (x3_block_number x', x3_extra_data x', x3_fee_recipient x', x3_gas_limit x') \<and>
        (x3_parent_hash x, x3_prev_randao x, x3_timestamp x, x3_withdrawals x)
          = (x3_parent_hash x', x3_prev_randao x', x3_timestamp x', x3_withdrawals x') \<and>
        blob_hashes = [] \<and> beacon_root = g3_parent_beacon_block_root known) \<and>
      (if ps_status st = Valid then ps_latest_valid_hash st = Some (x3_block_hash x) \<and> ps_validation_error st = None
       else ps_status st = Invalid \<and> ps_latest_valid_hash st = None \<and> ps_validation_error st \<noteq> None)"
  by (simp add: validate_payload_def invalid_payload_def Let_def)

text \<open>C36. A blob transaction stops the node: when the raw bytes of a request decode to an EIP-4844
  envelope, the request is answered with the hash of the transaction, and handling the command it
  sent panics, whatever the application's state is.\<close>

theorem blob_transaction_panics:
  assumes "as_str (get_field request ''method'') = Some ''eth_sendRawTransaction''"
    and "raw_parse_params w request = Inr (EthEip4844 body sig)"
  shows "\<exists>msgs. handle w new_id is_non_engine_api ro rd dw request
      = Inr (\<lparr>jr_id = get_field request ''id'', jr_jsonrpc = get_field request ''jsonrpc'',
              jr_result = Some (wi_of_b256 w (wi_tx_hash w (EthEip4844 body sig))), jr_error = None\<rparr>, msgs) \<and>
    work d app msgs = Inl (Panic ''EIP-4844 not supported'')"
proof -
  have m: "method_from_str ''eth_sendRawTransaction'' = Inr SendRawTransaction"
    by (simp add: method_from_str_def method_table_def)
  show ?thesis
    by (simp add: handle_def Let_def inner_handle_request_def assms m is_non_engine_api_def
        send_raw_transaction_def add_transaction_def)
qed

text \<open>Applications of the theorems above to a request without parameters, and to one with the bytes of
  a blob transaction.\<close>

definition example_request :: "string \<Rightarrow> json list \<Rightarrow> json" where
  "example_request method params =
     JObject [(''id'', JNumber 1), (''jsonrpc'', JString ''2.0''), (''method'', JString method), (''params'', JArray params)]"

definition example_drawn :: drawn where
  "example_drawn = \<lparr>dw_now = 12, dw_prev_randao = [], dw_tx_hash = []\<rparr>"

lemma example_request_simps [simp]:
  "get_field (example_request m ps) ''id'' = JNumber 1" "get_field (example_request m ps) ''jsonrpc'' = JString ''2.0''"
  "get_field (example_request m ps) ''method'' = JString m" "get_params_list (example_request m ps) = ps"
  by (simp_all add: example_request_def get_field_def get_params_list_def)

lemma example_chain_id:
  "handle example_wire (\<lambda>_. 5) is_non_engine_api example_reader_ops (example_reader shared_memory_new) example_drawn
     (example_request ''eth_chainId'' [])
   = Inr (\<lparr>jr_id = JNumber 1, jr_jsonrpc = JString ''2.0'',
            jr_result = Some (JString (hex_string (gc_chain_id example_config))), jr_error = None\<rparr>, [])"
  by (simp add: handle_def inner_handle_request_def method_from_str_def method_table_def is_non_engine_api_def
      chain_id_execute_def query_chain_id_def example_reader_def)

theorem responses_are_well_formed_witness:
  "\<exists>resp msgs. handle example_wire (\<lambda>_. 5) is_non_engine_api example_reader_ops (example_reader shared_memory_new)
       example_drawn (example_request ''eth_chainId'' []) = Inr (resp, msgs) \<and> jr_id resp = JNumber 1"
  using responses_are_well_formed [OF example_chain_id] example_chain_id by auto

theorem blob_transaction_panics_witness:
  "\<exists>msgs resp. handle example_wire (\<lambda>_. 5) is_non_engine_api example_reader_ops (example_reader shared_memory_new)
       example_drawn (example_request ''eth_sendRawTransaction'' [JString ''0x03'']) = Inr (resp, msgs) \<and>
     work example_dependencies example_app msgs = Inl (Panic ''EIP-4844 not supported'')"
proof -
  have "raw_parse_params example_wire (example_request ''eth_sendRawTransaction'' [JString ''0x03''])
      = Inr (EthEip4844 [] [])"
    by (simp add: raw_parse_params_def deserialize_json_def example_wire_def)
  from blob_transaction_panics [OF _ this, where d = example_dependencies and app = example_app]
  show ?thesis by (fastforce simp del: work.simps)
qed

end
