(* ===== verification/Server.thy ===== *)
theory Server
  imports Rpc_Methods
begin

text \<open>
  The server: \<^verbatim>\<open>server/src/lib.rs\<close> and \<^verbatim>\<open>geth_genesis.rs\<close>. Every request is first forwarded to op-geth; when
  op-geth answers with JSON, the request is handled by the node itself, and its answer is returned,
  except that op-geth's genesis block is adopted and returned. HTTP, the proxy, compression, the text
  form of JSON and the signature of tokens are third-party code, the fields of \<open>server_ops\<close>.
\<close>

section \<open>The genesis block of op-geth\<close>

definition is_genesis_block_request :: "json \<Rightarrow> bool option" where
  "is_genesis_block_request request =
     Option.bind (as_object request) (\<lambda>obj.
     Option.bind (Option.bind (map_of obj ''method'') as_str) (\<lambda>method.
     if method \<noteq> ''eth_getBlockByNumber'' then Some False
     else Option.bind (Option.bind (map_of obj ''params'') as_array) (\<lambda>ps.
          Option.bind (case ps of [] \<Rightarrow> None | p # _ \<Rightarrow> as_str p) (\<lambda>first_param.
          Some (first_param = ''0x0'')))))"

text \<open>The code copies the header field by field.\<close>

definition extract_genesis_block :: "block_response decoder \<Rightarrow> json \<Rightarrow> extended_block option" where
  "extract_genesis_block dec geth_response =
     Option.bind (as_object geth_response) (\<lambda>obj.
     Option.bind (map_of obj ''result'') (\<lambda>result.
     Option.bind (ok (dec result)) (\<lambda>geth_block.
     Some (extended_block_new (br_hash geth_block) 0 0 (block_new (br_header geth_block) [])))))"

section \<open>Tokens\<close>

definition JWT_VALID_DURATION_IN_SECS :: u64 where
  "JWT_VALID_DURATION_IN_SECS = 60"

text \<open>\<open>decode\<close> checks the signature of a token and returns its \<open>iat\<close> claim. The sum wraps around as in a
  release build.\<close>

definition validate_jwt :: "(string \<Rightarrow> u64 option) \<Rightarrow> u64 \<Rightarrow> string \<Rightarrow> string option" where
  "validate_jwt decode now header =
     (let token = trim_start_matches ''Bearer '' header
      in Option.bind (decode token) (\<lambda>iat.
         if iat + JWT_VALID_DURATION_IN_SECS < now then None else Some token))"

section \<open>Mirroring\<close>

record http_request =
  hq_path :: string
  hq_query :: "string option"
  hq_is_get :: bool
  hq_headers :: "(string \<times> bytes) list"
  hq_body :: bytes

record 'p server_ops =
  sv_wire :: wire
  sv_rpc_block :: "block_response decoder"
  sv_from_slice :: "bytes \<Rightarrow> json option"
  sv_to_vec :: "json_rpc_response \<Rightarrow> bytes"
  sv_to_str :: "bytes \<Rightarrow> string option"
  sv_decompress :: "bytes \<Rightarrow> bytes option"
  sv_jwt_decode :: "string \<Rightarrow> u64 option"
  sv_new_payload_id :: "new_payload_id_input \<Rightarrow> payload_id"

datatype 'p reply =
  StatusOk
| FromParts 'p bytes
| NewReply bytes

datatype server_fault =
  Rejected
| ServerPanic string

definition accepts_gzip :: "'p server_ops \<Rightarrow> http_request \<Rightarrow> server_fault + bool" where
  "accepts_gzip sv q =
     (case map_of (hq_headers q) ''accept-encoding'' of
        None \<Rightarrow> Inr False
      | Some x \<Rightarrow>
          rbind (ok_or (sv_to_str sv x) (ServerPanic ''called Result::unwrap() on an Err value'')) (\<lambda>s.
          Inr (sublist ''gzip'' s)))"

text \<open>What is done with the answer of op-geth: \<open>None\<close> when there was none, else its head and its body.
  The result is a reply to pass on, or the head, the raw body and the parsed answer.\<close>

definition read_geth ::
  "'p server_ops \<Rightarrow> bool \<Rightarrow> ('p \<times> bytes) option \<Rightarrow> server_fault + ('p reply + 'p \<times> bytes \<times> json)" where
  "read_geth sv is_zipped geth =
     (case geth of
        None \<Rightarrow> Inl Rejected
      | Some (parts, raw) \<Rightarrow>
          (case if is_zipped then sv_decompress sv raw else Some raw of
             None \<Rightarrow> Inr (Inl (FromParts parts raw))
           | Some bs \<Rightarrow>
               (case sv_from_slice sv bs of
                  Some parsed_response \<Rightarrow> Inr (Inr (parts, raw, parsed_response))
                | None \<Rightarrow> Inr (Inl (FromParts parts bs)))))"

text \<open>The node's own answer, given the head, the raw body and the parsed answer of op-geth.\<close>

definition answer_request ::
  "'p server_ops \<Rightarrow> ('k, 'db, 't, 'r, 'tc, 'u, 's, 'c, 'e) reader_ops \<Rightarrow> 'db application_reader \<Rightarrow> drawn
     \<Rightarrow> (method_name \<Rightarrow> bool) \<Rightarrow> 'p \<times> bytes \<times> json \<Rightarrow> json \<Rightarrow> server_fault + 'p reply \<times> command list"
where
  "answer_request sv ro rd dw is_allowed geth request =
     (case geth of (parts, raw, geth_response) \<Rightarrow>
        rbind (map_err (\<lambda>p. case p of Panic m \<Rightarrow> ServerPanic m)
          (handle (sv_wire sv) (sv_new_payload_id sv) is_allowed ro rd dw request)) (\<lambda>(response, msgs).
        if unwrap_or (is_genesis_block_request request) False
        then rbind (ok_or (extract_genesis_block (sv_rpc_block sv) geth_response)
               (ServerPanic ''Must get genesis from geth'')) (\<lambda>b.
             Inr (FromParts parts raw, msgs @ [GenesisUpdate b]))
        else Inr (NewReply (sv_to_vec sv response), msgs)))"

text \<open>\<open>mirror\<close>: \<open>geth\<close> is the answer of the proxy, \<open>is_allowed\<close> the gate of the port.\<close>

definition mirror ::
  "'p server_ops \<Rightarrow> ('k, 'db, 't, 'r, 'tc, 'u, 's, 'c, 'e) reader_ops \<Rightarrow> 'db application_reader \<Rightarrow> drawn
     \<Rightarrow> (method_name \<Rightarrow> bool) \<Rightarrow> ('p \<times> bytes) option \<Rightarrow> http_request \<Rightarrow> server_fault + 'p reply \<times> command list"
where
  "mirror sv ro rd dw is_allowed geth q =
     (if hq_is_get q then Inr (StatusOk, [])
      else
        rbind (accepts_gzip sv q) (\<lambda>is_zipped.
        rbind (read_geth sv is_zipped geth) (\<lambda>r.
        case r of
          Inl passed \<Rightarrow> Inr (passed, [])
        | Inr known \<Rightarrow>
            rbind (ok_or (sv_from_slice sv (hq_body q))
              (ServerPanic ''geth responded, so body must have been JSON''))
              (answer_request sv ro rd dw is_allowed known))))"

text \<open>The two ports of the server.\<close>

definition http_route ::
  "'p server_ops \<Rightarrow> ('k, 'db, 't, 'r, 'tc, 'u, 's, 'c, 'e) reader_ops \<Rightarrow> 'db application_reader \<Rightarrow> drawn
     \<Rightarrow> ('p \<times> bytes) option \<Rightarrow> http_request \<Rightarrow> server_fault + 'p reply \<times> command list"
where
  "http_route sv ro rd dw geth q = mirror sv ro rd dw is_non_engine_api geth q"

definition auth_route ::
  "'p server_ops \<Rightarrow> ('k, 'db, 't, 'r, 'tc, 'u, 's, 'c, 'e) reader_ops \<Rightarrow> 'db application_reader \<Rightarrow> drawn
     \<Rightarrow> u64 \<Rightarrow> string option \<Rightarrow> ('p \<times> bytes) option \<Rightarrow> http_request \<Rightarrow> server_fault + 'p reply \<times> command list"
where
  "auth_route sv ro rd dw now authorization geth q =
     rbind (ok_or (Option.bind authorization (validate_jwt (sv_jwt_decode sv) now)) Rejected) (\<lambda>_.
     mirror sv ro rd dw (\<lambda>_. True) geth q)"

section \<open>Properties\<close>

lemma genesis_request_method:
  "is_genesis_block_request request = Some True \<Longrightarrow>
     as_str (get_field request ''method'') = Some ''eth_getBlockByNumber''"
  by (auto simp: is_genesis_block_request_def get_field_def bind_eq_Some_conv split: if_splits)

lemma answer_request_msgs:
  assumes "answer_request sv ro rd dw is_allowed geth request = Inr (reply, msgs)"
  shows "msgs = [] \<or> (\<exists>tx. msgs = [AddTransaction tx]) \<or> (\<exists>b. msgs = [GenesisUpdate b]) \<or>
    (is_allowed ForkChoiceUpdatedV3 \<and> (\<exists>p i. msgs = [StartBlockBuild p i]))"
proof -
  from assms obtain response ms where
    run: "handle (sv_wire sv) (sv_new_payload_id sv) is_allowed ro rd dw request = Inr (response, ms)"
    and msgs: "(is_genesis_block_request request = Some True \<and> (\<exists>b. msgs = ms @ [GenesisUpdate b])) \<or> msgs = ms"
    by (cases "is_genesis_block_request request")
      (auto simp: answer_request_def rbind_Inr_iff split: prod.splits if_splits)
  have get: "method_from_str ''eth_getBlockByNumber'' = Inr GetBlockByNumber"
    by (simp add: method_from_str_def method_table_def)
  from run show ?thesis
  proof (cases rule: handle_Inr)
    case (answered r)
    then obtain m where m: "is_allowed m" "method_from_str (the (as_str (get_field request ''method''))) = Inr m"
      "ms = [] \<or> (m = SendRawTransaction \<and> (\<exists>tx. ms = [AddTransaction tx])) \<or>
        (m = ForkChoiceUpdatedV3 \<and> (\<exists>p i. ms = [StartBlockBuild p i]))"
      by (elim inner_handle_request_msgs)
    have "ms = []" if "is_genesis_block_request request = Some True"
      using m(2,3) get genesis_request_method [OF that] by auto
    with m(1,3) msgs show ?thesis by auto
  next
    case (failed e)
    with msgs show ?thesis by auto
  qed
qed

lemma mirror_msgs:
  assumes run: "mirror sv ro rd dw is_allowed geth q = Inr (reply, msgs)"
  shows "msgs = [] \<or> (\<exists>tx. msgs = [AddTransaction tx]) \<or> (\<exists>b. msgs = [GenesisUpdate b]) \<or>
    (is_allowed ForkChoiceUpdatedV3 \<and> (\<exists>p i. msgs = [StartBlockBuild p i]))"
proof (cases "hq_is_get q")
  case False
  with run obtain z r where r: "accepts_gzip sv q = Inr z" "read_geth sv z geth = Inr r"
    by (auto simp: mirror_def rbind_Inr_iff)
  show ?thesis
    using run False by (cases r) (auto simp: mirror_def r rbind_Inr_iff dest: answer_request_msgs)
qed (use run in \<open>simp add: mirror_def\<close>)

text \<open>C5. Only a consensus client with a token can make the node build a block. The public port never
  starts one: what it sends is a transaction for the mem pool or the genesis block of op-geth, and an
  engine method is answered there as an invalid method. On the other port a request is served only
  with a token that decodes under the secret of the node and was issued at most a minute ago.\<close>

theorem block_builds_are_authenticated:
  "(\<forall>p i. http_route sv ro rd dw geth q = Inr (reply, msgs) \<longrightarrow> StartBlockBuild p i \<notin> set msgs) \<and>
   (method_from_str s = Inr m \<and> is_engine_api m \<and> as_str (get_field request ''method'') = Some s \<longrightarrow>
      handle w new_id is_non_engine_api ro rd dw request
        = Inr (\<lparr>jr_id = get_field request ''id'', jr_jsonrpc = get_field request ''jsonrpc'', jr_result = None,
                jr_error = Some invalid_method\<rparr>, [])) \<and>
   (auth_route sv ro rd dw now authorization geth q = Inr (reply, msgs) \<longrightarrow>
      (\<exists>header iat. authorization = Some header \<and>
         sv_jwt_decode sv (trim_start_matches ''Bearer '' header) = Some iat \<and>
         now \<le> iat + JWT_VALID_DURATION_IN_SECS))"
proof (intro conjI allI impI)
  show "StartBlockBuild p i \<notin> set msgs" if "http_route sv ro rd dw geth q = Inr (reply, msgs)" for p i
    using mirror_msgs [OF that [unfolded http_route_def]] by (auto simp: is_non_engine_api_def)
next
  assume "method_from_str s = Inr m \<and> is_engine_api m \<and> as_str (get_field request ''method'') = Some s"
  then show "handle w new_id is_non_engine_api ro rd dw request
      = Inr (\<lparr>jr_id = get_field request ''id'', jr_jsonrpc = get_field request ''jsonrpc'', jr_result = None,
              jr_error = Some invalid_method\<rparr>, [])"
    by (simp add: handle_def Let_def inner_handle_request_def is_non_engine_api_def del: is_engine_api.simps)
next
  assume "auth_route sv ro rd dw now authorization geth q = Inr (reply, msgs)"
  then show "\<exists>header iat. authorization = Some header \<and>
      sv_jwt_decode sv (trim_start_matches ''Bearer '' header) = Some iat \<and> now \<le> iat + JWT_VALID_DURATION_IN_SECS"
    by (auto simp: auth_route_def rbind_Inr_iff bind_eq_Some_conv validate_jwt_def Let_def not_less split: if_splits)
qed

definition example_server :: "unit server_ops" where
  "example_server =
     \<lparr>sv_wire = example_wire, sv_rpc_block = (\<lambda>_. Inl ''malformed''),
      sv_from_slice = (\<lambda>bs. Some (example_request (if bs = [1] then ''eth_chainId'' else ''eth_sendRawTransaction'')
        (if bs = [1] then [] else [JString ''0x03'']))),
      sv_to_vec = (\<lambda>_. [2]), sv_to_str = (\<lambda>_. None), sv_decompress = (\<lambda>_. None),
      sv_jwt_decode = (\<lambda>token. if token = ''abc'' then Some 100 else None), sv_new_payload_id = (\<lambda>_. 5)\<rparr>"

definition example_post :: http_request where
  "example_post = \<lparr>hq_path = ''/'', hq_query = None, hq_is_get = False, hq_headers = [], hq_body = [1]\<rparr>"

theorem block_builds_are_authenticated_witness:
  "(\<exists>reply. http_route example_server example_reader_ops (example_reader shared_memory_new) example_drawn
       (Some ((), [1])) example_post = Inr (reply, [])) \<and>
   auth_route example_server example_reader_ops (example_reader shared_memory_new) example_drawn 150
     (Some ''Bearer abc'') (Some ((), [1])) example_post = Inr (NewReply [2], []) \<and>
   (150 :: u64) \<le> 100 + JWT_VALID_DURATION_IN_SECS \<and>
   jr_error (fst (projr (handle example_wire (\<lambda>_. 5) is_non_engine_api example_reader_ops
     (example_reader shared_memory_new) example_drawn (example_request ''engine_getPayloadV3'' []))))
       = Some invalid_method"
proof -
  have trim: "trim_start_matches ''Bearer '' ''Bearer abc'' = ''abc''"
    by (simp add: trim_start_matches.simps [of _ "''Bearer abc''"] trim_start_matches.simps [of _ "''abc''"])
  have any: "mirror example_server example_reader_ops (example_reader shared_memory_new) example_drawn al
      (Some ((), [1])) example_post = Inr (NewReply [2], [])" if "al ChainId" for al
    using that by (simp add: mirror_def answer_request_def example_server_def example_post_def accepts_gzip_def read_geth_def handle_def
        inner_handle_request_def method_from_str_def method_table_def chain_id_execute_def
        is_genesis_block_request_def example_request_def get_field_def)
  then have auth: "auth_route example_server example_reader_ops (example_reader shared_memory_new) example_drawn 150
      (Some ''Bearer abc'') (Some ((), [1])) example_post = Inr (NewReply [2], [])"
    by (simp add: auth_route_def validate_jwt_def trim)
      (simp add: example_server_def JWT_VALID_DURATION_IN_SECS_def)
  have m: "method_from_str ''engine_getPayloadV3'' = Inr GetPayloadV3"
    by (simp add: method_from_str_def method_table_def)
  note all = block_builds_are_authenticated [of example_server example_reader_ops
      "example_reader shared_memory_new" example_drawn "Some ((), [1])" example_post "NewReply [2]" "[]"
      "''engine_getPayloadV3''" GetPayloadV3 "example_request ''engine_getPayloadV3'' []" example_wire "\<lambda>_. 5"
      150 "Some ''Bearer abc''"]
  have "(150 :: u64) \<le> 100 + JWT_VALID_DURATION_IN_SECS"
    using all auth by (auto simp: trim example_server_def)
  moreover have "jr_error (fst (projr (handle example_wire (\<lambda>_. 5) is_non_engine_api example_reader_ops
     (example_reader shared_memory_new) example_drawn (example_request ''engine_getPayloadV3'' []))))
       = Some invalid_method"
    using all m by simp
  ultimately show ?thesis
    using auth any [of is_non_engine_api] by (simp add: http_route_def is_non_engine_api_def)
qed

end
