(* ===== verification/Engine.thy ===== *)
theory Engine
  imports Server
begin

text \<open>
  What the node promises to a consensus client that drives it through the engine API, over the
  methods, the application and the stores together.
\<close>

section \<open>Attributes and state of a built block\<close>

lemma build_block_attributes:
  fixes app :: "('st, 'es) application"
  assumes "build_block d app p i ts = Inr (b, rs, app')"
  shows "hd_timestamp (header_of b) = pa_timestamp p" "hd_mix_hash (header_of b) = pa_prev_randao p"
    "hd_beneficiary (header_of b) = pa_suggested_fee_recipient p" "hd_gas_limit (header_of b) = pa_gas_limit p"
    "hd_parent_beacon_block_root (header_of b) = Some (pa_parent_beacon_block_root p)"
    "hd_state_root (header_of b) = d_state_root d (ap_state app')"
proof -
  obtain parent hdr f out where exec: "execute_transactions d app ts f hdr = Inr (out, rs, app')"
    and h: "header_of b = block_header d p parent hdr f (map (fst \<circ> snd) ts) out"
    using assms by (auto simp: build_block_def Let_def rbind_Inr_iff with_payload_id_def with_value_def
        with_hash_def extended_block_new_def block_new_def)
  obtain bu :: "('st, 'es) building" where "app' = app\<lparr>ap_state := bu_state bu, ap_evm_storage := bu_evm bu\<rparr>"
    "eo_state_root out = d_state_root d (bu_state bu)"
    using exec by (elim execute_transactions_Inr) blast
  then show "hd_timestamp (header_of b) = pa_timestamp p" "hd_mix_hash (header_of b) = pa_prev_randao p"
    "hd_beneficiary (header_of b) = pa_suggested_fee_recipient p" "hd_gas_limit (header_of b) = pa_gas_limit p"
    "hd_parent_beacon_block_root (header_of b) = Some (pa_parent_beacon_block_root p)"
    "hd_state_root (header_of b) = d_state_root d (ap_state app')"
    by (simp_all add: h block_header_def with_execution_outcome_def with_payload_attributes_def to_u64_def)
qed

lemma published_state [simp]: "ap_state (published d rs txs b app) = ap_state app"
  by (simp add: publish_steps_def fold_on_blocks on_blocks_def publish_receipts_def publish_transactions_def)

lemma latest_published:
  assumes "picks_member (pk_block (d_picks d))" "app_inv d g app'"
    and "chain_of (pk_block (d_picks d)) (blocks_of app') = bs @ [b]"
  shows "repository_latest (pk_block (d_picks d)) (blocks_of app') = Some b"
proof -
  have ok: "chain_ok (blocks_of app')" using assms(2) by (simp add: app_inv_def)
  then obtain b' where b': "repository_latest (pk_block (d_picks d)) (blocks_of app') = Some b'"
    using latest_exists [OF ok, of "pk_block (d_picks d)"] assms(3) by auto
  with latest_is_last [OF assms(1) ok b'] assms(3) show ?thesis by simp
qed

text \<open>C10. The head of the chain commits to the state of the node: provided the genesis block has number 0
  and no transactions and commits to the initial state, the state root in the latest block is the root
  of the application's state after any number of payloads, transactions and repetitions of that genesis
  block. Adopting another genesis block is excluded.\<close>

theorem head_commits_to_state:
  assumes "picks_member (pk_block (d_picks d))" "number_of g = 0" "transaction_hashes g = []"
    and "hd_state_root (header_of g) = d_state_root d st"
    and "reachable d (application_new cfg fee st es) g n app" "Suc n < 2 ^ 64"
  shows "\<exists>b. repository_latest (pk_block (d_picks d)) (blocks_of app) = Some b \<and>
    hd_state_root (header_of b) = d_state_root d (ap_state app)"
  using assms(5,6)
proof (induction rule: reachable.induct)
  case genesis
  let ?app = "genesis_update (application_new cfg fee st es) g"
  note inv = genesis_inv [OF assms(1-3) refl, where cfg = cfg and fee = fee and st = st and es = es]
  have "repository_latest (pk_block (d_picks d)) (blocks_of ?app) = Some g"
    using latest_published [OF assms(1) inv(1), of "[]" g] inv(2) by simp
  then show ?case
    using assms(4) by (simp add: genesis_update_def on_blocks_def application_new_def)
next
  case (handled n app c app')
  have inv: "app_inv d g app" "em_len (bm_heights (blocks_of app)) \<le> Suc n"
    using reachable_inv [OF handled.hyps(1) assms(1-3)] handled.prems by simp_all
  then have room: "Suc (em_len (bm_heights (blocks_of app))) < 2 ^ 64" using handled.prems by simp
  have IH: "\<exists>b. repository_latest (pk_block (d_picks d)) (blocks_of app) = Some b \<and>
      hd_state_root (header_of b) = d_state_root d (ap_state app)"
    using handled.IH handled.prems by simp
  show ?case
  proof (cases c)
    case (StartBlockBuild p i)
    with handled.hyps(3) have "start_block_build d app p i = Inr app'" by simp
    then show ?thesis
    proof (cases rule: start_block_build_Inr)
      case (built b rs app1)
      from build_block_appends [OF assms(1) inv(1) built(2) room built(3)]
      have "repository_latest (pk_block (d_picks d)) (blocks_of app') = Some b"
        using latest_published [OF assms(1)] by blast
      with build_block_attributes(6) [OF built(2)] show ?thesis by (simp add: built(3))
    qed (use IH in simp)
  next
    case (AddTransaction tx)
    with handled.hyps(3) have "ap_storage app' = ap_storage app" "ap_state app' = ap_state app"
      by (auto simp: add_transaction_def rbind_Inr_iff)
    with IH show ?thesis by simp
  next
    case (GenesisUpdate b)
    with handled.hyps(2,3) have "app' = genesis_update app g" by simp
    with IH show ?thesis using genesis_again(3) [OF assms(1) inv(1)] by (simp add: genesis_update_simps(6))
  qed
qed

section \<open>The engine API\<close>

text \<open>What \<open>newPayload\<close> says about a payload served for a block of the node.\<close>

lemma served_payload_is_valid:
  "validate_payload (g3_execution_payload k) [] (g3_parent_beacon_block_root k) k =
     \<lparr>ps_status = Valid, ps_latest_valid_hash = Some (x3_block_hash (g3_execution_payload k)), ps_validation_error = None\<rparr>"
  by (simp add: validate_payload_def Let_def)

lemma served_payload_fields:
  "x3_parent_hash (execution_payload_to_v3 (execution_payload_from enc b txs)) = hd_parent_hash (header_of b)"
  "x3_block_number (execution_payload_to_v3 (execution_payload_from enc b txs)) = number_of b"
  "x3_timestamp (execution_payload_to_v3 (execution_payload_from enc b txs)) = hd_timestamp (header_of b)"
  "x3_prev_randao (execution_payload_to_v3 (execution_payload_from enc b txs)) = hd_mix_hash (header_of b)"
  "x3_fee_recipient (execution_payload_to_v3 (execution_payload_from enc b txs)) = hd_beneficiary (header_of b)"
  "x3_gas_limit (execution_payload_to_v3 (execution_payload_from enc b txs)) = hd_gas_limit (header_of b)"
  "x3_block_hash (execution_payload_to_v3 (execution_payload_from enc b txs)) = eb_hash b"
  "x3_state_root (execution_payload_to_v3 (execution_payload_from enc b txs)) = hd_state_root (header_of b)"
  "x3_transactions (execution_payload_to_v3 (execution_payload_from enc b txs)) = map enc txs"
  "x3_withdrawals (execution_payload_to_v3 (execution_payload_from enc b txs)) = []"
  by (simp_all add: execution_payload_to_v3_def execution_payload_from_def Let_def)

text \<open>No two different transactions among \<open>ts\<close> and those stored before have the same hash.\<close>

definition no_collision ::
  "('st, 'es, 's, 'c, 'e) dependencies \<Rightarrow> ('st, 'es) application \<Rightarrow> op_tx_envelope list \<Rightarrow> bool" where
  "no_collision d app ts \<longleftrightarrow>
     inj_on (op_trie_hash (d_tx_ops d)) (set ts \<union> et_inner ` (\<Union>h. set (bag (em_read (txs_of app)) h)))"

lemma map_filter_hashes:
  "\<forall>t \<in> set ts. \<exists>y. f (h t) = Some y \<and> g y = t \<Longrightarrow> map g (filter_map f (map h ts)) = ts"
  by (induction ts) (auto simp: map_filter_simps)

text \<open>The transactions of a block come back as they were put into it, those stored before included.\<close>

lemma transactions_come_back:
  assumes "picks_member pick" "txm.keyed (op_trie_hash (d_tx_ops d)) (txs_of app)" "no_collision d app ts"
  shows "map et_inner (transactions_by_hashes pick
      (transaction_memory_extend (op_trie_hash (d_tx_ops d)) (stored_transactions d b ts) (txs_of app))
      (map (op_trie_hash (d_tx_ops d)) ts)) = ts"
proof -
  let ?th = "op_trie_hash (d_tx_ops d)"
  let ?m = "transaction_memory_extend ?th (stored_transactions d b ts) (txs_of app)"
  have ok: "em_synced (txs_of app)" using assms(2) unfolding txm.keyed_def by blast
  have keyed: "txm.keyed ?th ?m" by (rule txm.keyed_extend [OF assms(2)])
  have "\<exists>x. transaction_by_hash pick ?m (?th t) = Some x \<and> et_inner x = t" if t: "t \<in> set ts" for t
  proof -
    have "?th t \<in> set (map (tx_hash ?th) (stored_transactions d b ts))"
      unfolding stored_transactions_hashes using t by simp
    then have "bag (em_read ?m) (?th t) \<noteq> []" by (auto simp: txm.stored_extend [OF ok] filter_empty_conv)
    then obtain x where x: "transaction_by_hash pick ?m (?th t) = Some x"
      using txm.lookup_None [of pick ?m "?th t"] by auto
    have "x \<in> set (bag (em_read (txs_of app)) (?th t)) \<or> x \<in> set (stored_transactions d b ts)"
      using txm.lookup_member [OF assms(1) x] by (auto simp: txm.stored_extend [OF ok])
    then have "et_inner x \<in> set ts \<union> et_inner ` (\<Union>h. set (bag (em_read (txs_of app)) h))"
      by (auto simp: stored_transactions_def extended_transaction_new_def in_set_enumerate_eq)
    moreover have "?th (et_inner x) = ?th t"
      using txm.lookup_key [OF assms(1) keyed x] by (simp add: tx_hash_def)
    ultimately have "et_inner x = t" using assms(3) t by (auto simp: no_collision_def dest: inj_onD)
    with x show ?thesis by blast
  qed
  then show ?thesis unfolding transactions_by_hashes_def by (intro map_filter_hashes) blast
qed

text \<open>C2. The engine API round trip: when consensus updates the fork choice with attributes whose
  identifier is new, and the command this sends has been handled, asking for the payload of the
  returned identifier serves the block that extends the head of the chain, with the timestamp, the
  randomness, the fee recipient, the gas limit and the beacon root of the attributes and the state root
  of the node, under the hash of its header. Its transactions are those of the attributes that can be
  decoded, then those of the mem pool, without those that have a receipt already, provided no two
  different transactions have the same hash; its withdrawals are empty, whatever the attributes say.
  Submitting that payload is answered as valid with its block hash, provided no older block has the
  same hash.\<close>

theorem engine_round_trip:
  fixes app :: "('st, 'es) application"
  assumes "picks_member (pk_block (d_picks d))" "picks_member (pk_tx (d_picks d))" "number_of g = 0" "transaction_hashes g = []"
    and "reachable d (application_new cfg fee st es) g n app" "Suc (Suc n) < 2 ^ 64"
    and "repository_latest (pk_block (d_picks d)) (blocks_of app) = Some head"
    and "forkchoice_inner_execute_v3 new_id fs (Some a) = (response, msgs)"
    and "fr_payload_id response = Some i"
    and "payload_by_id (d_encode_2718 d) (d_picks d) (ap_storage app) i = None"
    and "work d app msgs = Inr app'"
    and "ar_storage rd = ap_storage app'" "ro_picks ro = d_picks d" "ro_encode_2718 ro = d_encode_2718 d"
  shows "ps_status (fr_payload_status response) = Valid \<and>
    (\<exists>r. query_payload ro rd i = Some r \<and>
      (let k = payload_response_to_v3 r; x = g3_execution_payload k
       in x3_parent_hash x = eb_hash head \<and> x3_block_number x = number_of head + 1 \<and>
          x3_timestamp x = at_timestamp a \<and> x3_prev_randao x = at_prev_randao a \<and>
          x3_fee_recipient x = at_suggested_fee_recipient a \<and> x3_gas_limit x = at_gas_limit a \<and>
          g3_parent_beacon_block_root k = at_parent_beacon_block_root a \<and>
          x3_state_root x = d_state_root d (ap_state app') \<and> x3_withdrawals x = [] \<and>
          (let ts = map (fst \<circ> snd) (filter (\<lambda>(h, _). \<not> receipt_contains (ap_receipt_memory app) h)
             (filter_map (decode_payload_tx d) (at_transactions a) @ d_drain d (ap_mem_pool app)))
           in no_collision d app ts \<longrightarrow> x3_transactions x = map (d_encode_2718 d) ts) \<and>
          (\<exists>h. x3_block_hash x = d_block_hash d h \<and> hd_parent_hash h = x3_parent_hash x \<and>
             hd_state_root h = x3_state_root x) \<and>
          (by_hash (pk_block (d_picks d)) (blocks_of app) (x3_block_hash x) = None \<longrightarrow>
             new_payload_inner_execute_v3 w ro rd x [] (g3_parent_beacon_block_root k)
               = Inr \<lparr>ps_status = Valid, ps_latest_valid_hash = Some (x3_block_hash x), ps_validation_error = None\<rparr>)))"
proof -
  let ?pick = "pk_block (d_picks d)" and ?p = "payload_from_attributes a"
  have msgs: "msgs = [StartBlockBuild ?p i]" and ok: "ps_status (fr_payload_status response) = Valid"
    using assms(8,9) by (auto simp: forkchoice_inner_execute_v3_def Let_def)
  have inv: "app_inv d g app" using reachable_inv [OF assms(5,1,3,4)] assms(6) by simp
  then have sy: "bm_synced (blocks_of app)" by (simp add: app_inv_def chain_ok_def)
  have "start_block_build d app ?p i = Inr app'" using assms(11) by (simp add: msgs rbind_Inr_iff)
  then obtain b rs app1 where built: "build_block d (app\<lparr>ap_mem_pool := []\<rparr>) ?p i (candidates d app ?p) = Inr (b, rs, app1)"
    and app': "app' = published d rs (map (fst \<circ> snd) (candidates d app ?p)) b app1"
    using assms(10) by (cases rule: start_block_build_Inr) blast+
  from built have child: "valid_child (d_block_hash d) (ap_gas_fee app) head b" "eb_payload_id b = i"
    and same: "ap_storage app1 = ap_storage app"
    and hashes: "transaction_hashes b = map (op_trie_hash (d_tx_ops d)) (map (fst \<circ> snd) (candidates d app ?p))"
    by (elim build_block_Inr; simp add: assms(7) comp_assoc)+
  have blocks: "blocks_of app' = block_memory_add b (blocks_of app)"
    by (simp add: app' published_simps same)
  have "by_payload_id ?pick (blocks_of app) i = None" using assms(10) by (simp add: payload_by_id_def)
  then have by_id: "by_payload_id ?pick (blocks_of app') i = Some b"
    using by_id_add_fresh [OF assms(1) sy, of b] child(2) by (simp add: blocks)
  define r where "r = block_into_payload (d_encode_2718 d) (d_picks d) (ap_storage app') b"
  have served: "query_payload ro rd i = Some r"
    by (simp add: query_payload_def assms(12-14) payload_by_id_def by_id r_def)
  have x: "g3_execution_payload (payload_response_to_v3 r) = execution_payload_to_v3
      (execution_payload_from (d_encode_2718 d) b (map et_inner (transactions_by_hashes (pk_tx (d_picks d))
        (sm_transactions (ap_storage app')) (transaction_hashes b))))"
    "g3_parent_beacon_block_root (payload_response_to_v3 r) = at_parent_beacon_block_root a"
    using build_block_attributes(5) [OF built]
    by (simp_all add: r_def block_into_payload_def payload_response_from_def payload_response_to_v3_def
        payload_from_attributes_def)
  define k where "k = payload_response_to_v3 r"
  have fields: "x3_parent_hash (g3_execution_payload k) = eb_hash head"
    "x3_block_number (g3_execution_payload k) = number_of head + 1"
    "x3_timestamp (g3_execution_payload k) = at_timestamp a" "x3_prev_randao (g3_execution_payload k) = at_prev_randao a"
    "x3_fee_recipient (g3_execution_payload k) = at_suggested_fee_recipient a"
    "x3_gas_limit (g3_execution_payload k) = at_gas_limit a"
    "g3_parent_beacon_block_root k = at_parent_beacon_block_root a"
    "x3_state_root (g3_execution_payload k) = d_state_root d (ap_state app')" "x3_withdrawals (g3_execution_payload k) = []"
    using child(1) build_block_attributes [OF built]
    by (simp_all add: k_def x served_payload_fields valid_child_def payload_from_attributes_def app')
  have hash: "\<exists>h. x3_block_hash (g3_execution_payload k) = d_block_hash d h \<and>
      hd_parent_hash h = x3_parent_hash (g3_execution_payload k) \<and> hd_state_root h = x3_state_root (g3_execution_payload k)"
    using child(1) by (intro exI [of _ "header_of b"]) (simp add: k_def x served_payload_fields valid_child_def)
  have txs: "no_collision d app (map (fst \<circ> snd) (candidates d app ?p)) \<longrightarrow>
      x3_transactions (g3_execution_payload k) = map (d_encode_2718 d) (map (fst \<circ> snd) (candidates d app ?p))"
  proof
    assume none: "no_collision d app (map (fst \<circ> snd) (candidates d app ?p))"
    have "txm.keyed (op_trie_hash (d_tx_ops d)) (txs_of app)" using inv by (simp add: app_inv_def)
    from transactions_come_back [OF assms(2) this none, of b] have
      "map et_inner (transactions_by_hashes (pk_tx (d_picks d)) (txs_of app') (transaction_hashes b))
        = map (fst \<circ> snd) (candidates d app ?p)"
      unfolding hashes app' published_simps(2) same .
    then show "x3_transactions (g3_execution_payload k) = map (d_encode_2718 d) (map (fst \<circ> snd) (candidates d app ?p))"
      unfolding k_def x(1) served_payload_fields by (rule arg_cong)
  qed
  have valid: "by_hash ?pick (blocks_of app) (x3_block_hash (g3_execution_payload k)) = None \<longrightarrow>
      new_payload_inner_execute_v3 w ro rd (g3_execution_payload k) [] (g3_parent_beacon_block_root k)
      = Inr \<lparr>ps_status = Valid, ps_latest_valid_hash = Some (x3_block_hash (g3_execution_payload k)), ps_validation_error = None\<rparr>"
  proof
    have h: "x3_block_hash (g3_execution_payload k) = eb_hash b" by (simp add: k_def x(1) served_payload_fields)
    assume "by_hash ?pick (blocks_of app) (x3_block_hash (g3_execution_payload k)) = None"
    then have "payload_by_block_hash ro rd (eb_hash b) = Some r"
      using by_hash_add_fresh [OF assms(1) sy]
      by (simp add: payload_by_block_hash_def assms(12-14) payload_by_hash_def blocks r_def h)
    then show "new_payload_inner_execute_v3 w ro rd (g3_execution_payload k) [] (g3_parent_beacon_block_root k)
      = Inr \<lparr>ps_status = Valid, ps_latest_valid_hash = Some (x3_block_hash (g3_execution_payload k)), ps_validation_error = None\<rparr>"
      using served_payload_is_valid [of k] by (simp add: new_payload_inner_execute_v3_def h flip: k_def)
  qed
  have cand: "candidates d app ?p = filter (\<lambda>(h, _). \<not> receipt_contains (ap_receipt_memory app) h)
      (filter_map (decode_payload_tx d) (at_transactions a) @ d_drain d (ap_mem_pool app))"
    by (simp add: candidates_def payload_from_attributes_def)
  show ?thesis
    unfolding Let_def
    by (intro conjI exI [of _ r]) (fact ok served fields [unfolded k_def] hash [unfolded k_def]
      txs [unfolded k_def cand] valid [unfolded k_def])+
qed

section \<open>Witnesses\<close>

theorem head_commits_to_state_witness:
  "\<exists>app b. reachable example_dependencies example_app example_genesis 1 app \<and>
     repository_latest hd (blocks_of app) = Some b \<and>
     hd_state_root (header_of b) = d_state_root example_dependencies (ap_state app)"
proof -
  obtain app where run: "handle_command example_dependencies (genesis_update example_app example_genesis)
      (StartBlockBuild example_payload 5) = Inr app"
    using example_built by blast
  have at: "reachable example_dependencies example_app example_genesis (Suc 0) app"
    using reachable.handled [OF example_reachable _ run] by simp
  have root: "hd_state_root (header_of example_genesis) = d_state_root example_dependencies example_ledger"
    and pick: "pk_block (d_picks example_dependencies) = hd"
    by (simp_all add: example_dependencies_def example_block_defs)
  have "\<exists>b. repository_latest (pk_block (d_picks example_dependencies)) (blocks_of app) = Some b \<and>
      hd_state_root (header_of b) = d_state_root example_dependencies (ap_state app)"
    by (rule head_commits_to_state [OF example_node(1,3,4) root at]) simp
  then show ?thesis using at by (auto simp: pick)
qed

text \<open>Attributes with a transaction, and the identifier five for them.\<close>

definition example_attributes :: payload_attributes_v3 where
  "example_attributes = \<lparr>at_timestamp = 12, at_prev_randao = [], at_suggested_fee_recipient = [],
     at_withdrawals = [], at_parent_beacon_block_root = [], at_transactions = [[0]], at_gas_limit = 30000000\<rparr>"

definition example_forkchoice :: forkchoice_state_v1 where
  "example_forkchoice = \<lparr>fs_head_block_hash = [7], fs_safe_block_hash = [7], fs_finalized_block_hash = [7]\<rparr>"

abbreviation example_attributes_payload :: payload where
  "example_attributes_payload \<equiv> example_payload\<lparr>pa_transactions := [[0]]\<rparr>"

lemma example_attributes_fields:
  "payload_from_attributes example_attributes = example_attributes_payload"
  "at_timestamp example_attributes = 12" "at_parent_beacon_block_root example_attributes = []"
  "at_transactions example_attributes = [[0]]"
  by (simp_all add: payload_from_attributes_def example_attributes_def example_payload_def)

lemma example_attributes_candidates:
  "filter (\<lambda>(h, _). \<not> receipt_contains (ap_receipt_memory (genesis_update example_app example_genesis)) h)
     (filter_map (decode_payload_tx example_dependencies) [[0]]
       @ d_drain example_dependencies (ap_mem_pool (genesis_update example_app example_genesis)))
     = [(replicate 32 1, Eip7702 [] [], l1_input_of_bytes [])]"
  by (simp add: decode_payload_tx_def example_started example_dependencies_def map_filter_simps
      example_node_machine_def example_machine_on_def receipt_contains_def contains_key_def em_new_def)

lemma example_attributes_built:
  "\<exists>app'. work example_dependencies (genesis_update example_app example_genesis)
     [StartBlockBuild example_attributes_payload 5] = Inr app'"
proof -
  have "candidates example_dependencies (genesis_update example_app example_genesis) example_attributes_payload
      = [(replicate 32 1, Eip7702 [] [], l1_input_of_bytes [])]"
    unfolding candidates_def using example_attributes_candidates by simp
  then show ?thesis
    using example_build [of "[(replicate 32 1, Eip7702 [] [], l1_input_of_bytes [])]" "replicate 32 1"
        example_attributes_payload]
    by (auto simp: start_block_build_def example_no_payload)
qed

lemma example_no_collision:
  "no_collision example_dependencies (genesis_update example_app example_genesis) [t]"
  by (simp add: no_collision_def example_started em_new_def)

theorem engine_round_trip_witness:
  "\<exists>app' r x. work example_dependencies (genesis_update example_app example_genesis)
       (snd (forkchoice_inner_execute_v3 (\<lambda>_. 5) example_forkchoice (Some example_attributes))) = Inr app' \<and>
     query_payload example_reader_ops (example_reader (ap_storage app')) 5 = Some r \<and>
     x = g3_execution_payload (payload_response_to_v3 r) \<and> x3_block_number x = 1 \<and> x3_timestamp x = 12 \<and>
     x3_transactions x = [d_encode_2718 example_dependencies (Eip7702 [] [])] \<and>
     new_payload_inner_execute_v3 example_wire example_reader_ops (example_reader (ap_storage app')) x [] []
       = Inr \<lparr>ps_status = Valid, ps_latest_valid_hash = Some (x3_block_hash x), ps_validation_error = None\<rparr>"
proof -
  let ?d = example_dependencies and ?app = "genesis_update example_app example_genesis"
  obtain response where fc: "forkchoice_inner_execute_v3 (\<lambda>_. 5) example_forkchoice (Some example_attributes)
      = (response, [StartBlockBuild example_attributes_payload 5])" and id: "fr_payload_id response = Some 5"
    by (simp add: forkchoice_inner_execute_v3_def Let_def example_attributes_fields(1))
  obtain app' where run: "work ?d ?app [StartBlockBuild example_attributes_payload 5] = Inr app'"
    using example_attributes_built ..
  have d: "ro_picks example_reader_ops = d_picks ?d" "ro_encode_2718 example_reader_ops = d_encode_2718 ?d"
    by (simp_all add: example_dependencies_def example_reader_ops_def)
  have rd: "ar_storage (example_reader (ap_storage app')) = ap_storage app'" by (simp add: example_reader_def)
  note round = engine_round_trip [OF example_node example_reachable _ example_latest fc id example_no_payload
      run rd d, where w = example_wire, unfolded example_attributes_fields example_attributes_candidates Let_def]
  then obtain r h where r: "query_payload example_reader_ops (example_reader (ap_storage app')) 5 = Some r"
    and x: "x3_parent_hash (g3_execution_payload (payload_response_to_v3 r)) = eb_hash example_genesis"
      "x3_block_number (g3_execution_payload (payload_response_to_v3 r)) = number_of example_genesis + 1"
      "x3_timestamp (g3_execution_payload (payload_response_to_v3 r)) = 12"
      "g3_parent_beacon_block_root (payload_response_to_v3 r) = []"
      "x3_transactions (g3_execution_payload (payload_response_to_v3 r)) = [d_encode_2718 ?d (Eip7702 [] [])]"
    and hash: "x3_block_hash (g3_execution_payload (payload_response_to_v3 r)) = d_block_hash ?d h"
      "hd_parent_hash h = eb_hash example_genesis"
    and valid: "by_hash (pk_block (d_picks ?d)) (blocks_of ?app)
        (x3_block_hash (g3_execution_payload (payload_response_to_v3 r))) = None \<longrightarrow>
      new_payload_inner_execute_v3 example_wire example_reader_ops (example_reader (ap_storage app'))
        (g3_execution_payload (payload_response_to_v3 r)) [] (g3_parent_beacon_block_root (payload_response_to_v3 r))
      = Inr \<lparr>ps_status = Valid, ps_latest_valid_hash = Some (x3_block_hash (g3_execution_payload (payload_response_to_v3 r))),
          ps_validation_error = None\<rparr>"
    using example_no_collision by auto
  have fresh: "by_hash (pk_block (d_picks ?d)) (blocks_of ?app)
      (x3_block_hash (g3_execution_payload (payload_response_to_v3 r))) = None"
  proof -
    have h: "eb_hash example_genesis = [7]" by (simp add: example_block_defs extended_block_new_def)
    with hash have "x3_block_hash (g3_execution_payload (payload_response_to_v3 r)) = [1, 7]"
      by (simp add: example_dependencies_def)
    then show ?thesis
      by (simp add: by_hash_def get_one_None_iff example_started bags_after_add chain_ok_synced [OF chain_ok_new] h)
        (simp add: block_memory_new_def)
  qed
  show ?thesis
    using run r x mp [OF valid fresh]
    by (intro exI [of _ app'] exI [of _ r] exI [of _ "g3_execution_payload (payload_response_to_v3 r)"])
      (simp add: example_node(3) fc del: work.simps)
qed

end
