(* ===== verification/Solidity_Abi.thy ===== *)
theory Solidity_Abi
  imports Tag_Validation Evm_Values
begin

text \<open>
  Conversion between Move values and Solidity ABI values: \<^verbatim>\<open>evm-ext/src/solidity_abi.rs\<close>. The values
  and types of the third-party ABI library are the data types \<open>sol_value\<close> and \<open>sol_type\<close>; its
  encoder and decoder are arguments. A layout carries the type tags of its structs, as the virtual
  machine annotates it.
\<close>

section \<open>Layouts, Solidity values and types\<close>

datatype annotated_layout =
  ABool | AU8 | AU16 | AU32 | AU64 | AU128 | AU256 | AAddress | ASigner
| AVector annotated_layout
| AStruct struct_tag "annotated_layout list"
| AStructPlain "annotated_layout list"
| AStructVariants
| ANative string annotated_layout

datatype sol_value =
  SBool bool
| SUint u256 nat
| SFixedBytes bytes nat
| SAddress address
| SBytes bytes
| SString bytes
| SArray "sol_value list"
| SFixedArray "sol_value list"
| STuple "sol_value list"
| SOther

datatype sol_type =
  TBool | TUint nat | TFixedBytes nat | TAddress | TBytes | TString
| TArray sol_type
| TTuple "sol_type list"

datatype abi_fault = AbiError string | AbiPanic string

definition FIXED_BYTES_TAG :: struct_tag where
  "FIXED_BYTES_TAG = StructTag EVM_NATIVE_ADDRESS EVM_NATIVE_MODULE ''SolidityFixedBytes'' []"

definition FIXED_ARRAY_TAG :: struct_tag where
  "FIXED_ARRAY_TAG = StructTag EVM_NATIVE_ADDRESS EVM_NATIVE_MODULE ''SolidityFixedArray'' []"

definition STRING_TAG :: struct_tag where
  "STRING_TAG = StructTag FRAMEWORK_ADDRESS ''string'' ''String'' []"

definition same_struct :: "struct_tag \<Rightarrow> struct_tag \<Rightarrow> bool" where
  "same_struct t u \<longleftrightarrow> struct_module_id t = struct_module_id u \<and> st_name t = st_name u"

fun tag_struct :: "type_tag \<Rightarrow> struct_tag option" where
  "tag_struct (TagStruct s) = Some s"
| "tag_struct _ = None"

text \<open>The loop over the bits of a size given as type arguments.\<close>

fun clear_bits :: "nat \<Rightarrow> type_tag list \<Rightarrow> u64 \<Rightarrow> u64" where
  "clear_bits i [] bytes_size = bytes_size"
| "clear_bits i (param # params) bytes_size =
     (if 5 \<le> i then bytes_size
      else clear_bits (Suc i) params
        (if (case tag_struct param of None \<Rightarrow> '''' | Some tag \<Rightarrow> st_name tag) = ''B0''
         then xor bytes_size (push_bit (4 - i) 1) else bytes_size))"

definition type_args_to_usize :: "type_tag list \<Rightarrow> u64" where
  "type_args_to_usize type_args =
     (let u5_type_params =
        (case type_args of [] \<Rightarrow> None | tag # _ \<Rightarrow> map_option st_type_args (tag_struct tag))
      in (case u5_type_params of None \<Rightarrow> 31 | Some params \<Rightarrow> clear_bits 0 params 31) + 1)"

section \<open>From Move to Solidity\<close>

fun force_to_u8 :: "move_value \<Rightarrow> abi_fault + u8" where
  "force_to_u8 (VU8 x) = Inr x"
| "force_to_u8 _ = Inl (AbiPanic ''Only call force_to_u8 with MoveValue::U8'')"

fun starts_with_u8 :: "move_value list \<Rightarrow> bool" where
  "starts_with_u8 (VU8 _ # _) = True"
| "starts_with_u8 _ = False"

definition layout_mismatch :: "abi_fault + 'a" where
  "layout_mismatch = Inl (AbiPanic ''The annotated layout must match the MoveValue'')"

definition fixed_bytes_value :: "struct_tag \<Rightarrow> move_value list \<Rightarrow> abi_fault + sol_value" where
  "fixed_bytes_value tag fs =
     (case rev fs of
        VVector data # _ \<Rightarrow>
          rbind (collect_result (map force_to_u8 (take 32 data))) (\<lambda>bs.
            Inr (SFixedBytes (bs @ replicate (32 - length bs) 0)
              (unat (type_args_to_usize (st_type_args tag)))))
      | _ \<Rightarrow> Inl (AbiPanic ''SolidityFixedBytes contains a vector''))"

fun move_value_to_sol_value :: "move_value \<Rightarrow> annotated_layout \<Rightarrow> abi_fault + sol_value"
and sol_values_of :: "move_value list \<Rightarrow> annotated_layout \<Rightarrow> abi_fault + sol_value list"
and sol_fields_of :: "move_value list \<Rightarrow> annotated_layout list \<Rightarrow> abi_fault + sol_value list"
and last_vector_sol :: "move_value list \<Rightarrow> annotated_layout list \<Rightarrow> abi_fault + sol_value list"
where
  "move_value_to_sol_value (VSigner a) l = Inr (SAddress (to_eth_address a))"
| "move_value_to_sol_value (VAddress a) l = Inr (SAddress (to_eth_address a))"
| "move_value_to_sol_value (VBool b) l = Inr (SBool b)"
| "move_value_to_sol_value (VU8 x) l = Inr (SUint (ucast x) 8)"
| "move_value_to_sol_value (VU16 x) l = Inr (SUint (ucast x) 16)"
| "move_value_to_sol_value (VU32 x) l = Inr (SUint (ucast x) 32)"
| "move_value_to_sol_value (VU64 x) l = Inr (SUint (ucast x) 64)"
| "move_value_to_sol_value (VU128 x) l = Inr (SUint (ucast x) 128)"
| "move_value_to_sol_value (VU256 x) l = Inr (SUint (to_u256 x) 256)"
| "move_value_to_sol_value (VVector xs) l =
     (if starts_with_u8 xs
      then rbind (collect_result (map force_to_u8 xs)) (\<lambda>bs. Inr (SBytes bs))
      else (case l of
          AVector inner_layout \<Rightarrow> rbind (sol_values_of xs inner_layout) (\<lambda>vs. Inr (SArray vs))
        | _ \<Rightarrow> layout_mismatch))"
| "move_value_to_sol_value (VStruct variant fs) l =
     (case l of
        AStruct tag field_layouts \<Rightarrow>
          if same_struct FIXED_BYTES_TAG tag then fixed_bytes_value tag fs
          else if same_struct FIXED_ARRAY_TAG tag
          then rbind (last_vector_sol fs field_layouts) (\<lambda>vs. Inr (SFixedArray vs))
          else rbind (sol_fields_of fs field_layouts) (\<lambda>vs. Inr (STuple vs))
      | AStructPlain _ \<Rightarrow> Inl (AbiPanic ''Must have type because layout is constructed with `type_to_fully_annotated_layout`'')
      | AStructVariants \<Rightarrow> Inl (AbiPanic ''Must have type because layout is constructed with `type_to_fully_annotated_layout`'')
      | _ \<Rightarrow> layout_mismatch)"
| "sol_values_of [] l = Inr []"
| "sol_values_of (x # xs) l =
     rbind (move_value_to_sol_value x l) (\<lambda>v. rbind (sol_values_of xs l) (\<lambda>vs. Inr (v # vs)))"
| "sol_fields_of [] ls = Inr []"
| "sol_fields_of (x # xs) [] = Inr []"
| "sol_fields_of (x # xs) (l # ls) =
     rbind (move_value_to_sol_value x l) (\<lambda>v. rbind (sol_fields_of xs ls) (\<lambda>vs. Inr (v # vs)))"
| "last_vector_sol [] ls = Inl (AbiPanic ''SolidityFixedArray contains a vector'')"
| "last_vector_sol (x # y # xs) ls = last_vector_sol (y # xs) ls"
| "last_vector_sol [VVector data] ls =
     (case ls of
        [] \<Rightarrow> Inl (AbiPanic ''index out of bounds'')
      | AVector inner_layout # _ \<Rightarrow> sol_values_of data inner_layout
      | _ \<Rightarrow> layout_mismatch)"
| "last_vector_sol [x] ls = Inl (AbiPanic ''SolidityFixedArray contains a vector'')"

section \<open>From Solidity to Move\<close>

fun layout_to_sol_type :: "annotated_layout \<Rightarrow> abi_fault + sol_type"
and layouts_to_sol_types :: "annotated_layout list \<Rightarrow> abi_fault + sol_type list"
where
  "layout_to_sol_type ABool = Inr TBool"
| "layout_to_sol_type AU8 = Inr (TUint 8)"
| "layout_to_sol_type AU16 = Inr (TUint 16)"
| "layout_to_sol_type AU32 = Inr (TUint 32)"
| "layout_to_sol_type AU64 = Inr (TUint 64)"
| "layout_to_sol_type AU128 = Inr (TUint 128)"
| "layout_to_sol_type AU256 = Inr (TUint 256)"
| "layout_to_sol_type ASigner = Inr TAddress"
| "layout_to_sol_type AAddress = Inr TAddress"
| "layout_to_sol_type (AVector vector_layout) =
     (if vector_layout = AU8 then Inr TBytes
      else rbind (layout_to_sol_type vector_layout) (\<lambda>t. Inr (TArray t)))"
| "layout_to_sol_type (AStruct tag field_layouts) =
     (if same_struct FIXED_BYTES_TAG tag
      then Inr (TFixedBytes (unat (type_args_to_usize (st_type_args tag))))
      else if same_struct FIXED_ARRAY_TAG tag
      then Inl (AbiError ''Fixed size arrays are not supported in move'')
      else if STRING_TAG = tag then Inr TString
      else rbind (layouts_to_sol_types field_layouts) (\<lambda>ts. Inr (TTuple ts)))"
| "layout_to_sol_type (AStructPlain ls) =
     Inl (AbiPanic ''Must have type because layout is constructed with `type_to_fully_annotated_layout`'')"
| "layout_to_sol_type AStructVariants =
     Inl (AbiPanic ''Must have type because layout is constructed with `type_to_fully_annotated_layout`'')"
| "layout_to_sol_type (ANative n native_layout) = layout_to_sol_type native_layout"
| "layouts_to_sol_types [] = Inr []"
| "layouts_to_sol_types (l # ls) =
     rbind (layout_to_sol_type l) (\<lambda>t. rbind (layouts_to_sol_types ls) (\<lambda>ts. Inr (t # ts)))"

definition mismatched :: "string + 'a" where
  "mismatched = Inl ''Unrecognized and/or mismatched types. Note: Int, FixedArray, Function and CustomStruct are not supported''"

definition uint_to_value :: "u256 \<Rightarrow> nat \<Rightarrow> annotated_layout \<Rightarrow> string + move_value" where
  "uint_to_value u n layout =
     (if n = 8 \<and> layout = AU8 then Inr (VU8 (ucast (to_move_u256 u)))
      else if n = 16 \<and> layout = AU16 then Inr (VU16 (ucast (to_move_u256 u)))
      else if n = 32 \<and> layout = AU32 then Inr (VU32 (ucast (to_move_u256 u)))
      else if n = 64 \<and> layout = AU64 then Inr (VU64 (ucast (to_move_u256 u)))
      else if n = 128 \<and> layout = AU128 then Inr (VU128 (ucast (to_move_u256 u)))
      else if n = 256 \<and> layout = AU256 then Inr (VU256 (to_move_u256 u))
      else Inl ''Only 8, 16, 32, 64, 128 and 256 bit uints are supported by move'')"

fun is_struct_layout :: "annotated_layout \<Rightarrow> bool" where
  "is_struct_layout (AStruct _ _) = True"
| "is_struct_layout (AStructPlain _) = True"
| "is_struct_layout AStructVariants = True"
| "is_struct_layout _ = False"

fun sol_to_value :: "sol_value \<Rightarrow> annotated_layout \<Rightarrow> string + move_value"
and values_of :: "sol_value list \<Rightarrow> annotated_layout \<Rightarrow> string + move_value list"
and fields_of :: "sol_value list \<Rightarrow> annotated_layout list \<Rightarrow> string + move_value list"
where
  "sol_to_value (SBool b) l = (if l = ABool then Inr (VBool b) else mismatched)"
| "sol_to_value (SUint u n) l = uint_to_value u n l"
| "sol_to_value (SFixedBytes w n) l =
     (if is_struct_layout l then Inr (VStruct None [vector_u8 w]) else mismatched)"
| "sol_to_value (SAddress a) l =
     (if l = AAddress then Inr (VAddress (to_move_address a))
      else if l = ASigner then Inl ''Decoding signer type not allowed''
      else mismatched)"
| "sol_to_value (SBytes b) l = (if l = AVector AU8 then Inr (vector_u8 b) else mismatched)"
| "sol_to_value (SString s) l =
     (if is_struct_layout l then Inr (VStruct None [vector_u8 s]) else mismatched)"
| "sol_to_value (SArray a) l =
     (case l of
        AVector inner_layout \<Rightarrow> rbind (values_of a inner_layout) (\<lambda>vs. Inr (VVector vs))
      | _ \<Rightarrow> mismatched)"
| "sol_to_value (STuple t) l =
     (case l of
        AStruct _ ls \<Rightarrow> rbind (fields_of t ls) (\<lambda>vs. Inr (VStruct None vs))
      | AStructPlain ls \<Rightarrow> rbind (fields_of t ls) (\<lambda>vs. Inr (VStruct None vs))
      | AStructVariants \<Rightarrow> Inl ''Variant-type layouts are unsupported''
      | _ \<Rightarrow> mismatched)"
| "sol_to_value (SFixedArray a) l = mismatched"
| "sol_to_value SOther l = mismatched"
| "values_of [] l = Inr []"
| "values_of (x # xs) l =
     rbind (sol_to_value x l) (\<lambda>v. rbind (values_of xs l) (\<lambda>vs. Inr (v # vs)))"
| "fields_of [] ls = Inr []"
| "fields_of (x # xs) [] = Inr []"
| "fields_of (x # xs) (l # ls) =
     rbind (sol_to_value x l) (\<lambda>v. rbind (fields_of xs ls) (\<lambda>vs. Inr (v # vs)))"

section \<open>Encoding and decoding of parameters\<close>

fun inner_abi_encode_params ::
  "(sol_value \<Rightarrow> bytes) \<Rightarrow> move_value \<Rightarrow> annotated_layout \<Rightarrow> abi_fault + bytes" where
  "inner_abi_encode_params encode (VU8 x) l = Inr (replicate 31 0 @ [x])"
| "inner_abi_encode_params encode (VU16 x) l = Inr (replicate 30 0 @ be_bytes 2 x)"
| "inner_abi_encode_params encode (VU32 x) l = Inr (replicate 28 0 @ be_bytes 4 x)"
| "inner_abi_encode_params encode (VVector []) l = Inr ((replicate 64 0)[31 := 32])"
| "inner_abi_encode_params encode mv l =
     rbind (move_value_to_sol_value mv l) (\<lambda>v. Inr (encode v))"

definition inner_abi_decode_params ::
  "(sol_type \<Rightarrow> bytes \<Rightarrow> string + sol_value) \<Rightarrow> bytes \<Rightarrow> annotated_layout \<Rightarrow> abi_fault + move_value" where
  "inner_abi_decode_params decode value l =
     rbind (layout_to_sol_type l) (\<lambda>t.
     rbind (map_err AbiError (decode t value)) (\<lambda>v.
     map_err AbiError (sol_to_value v l)))"

section \<open>Values of a layout\<close>

text \<open>The layouts whose values are decoded to themselves, and these values: addresses are Ethereum addresses,
  inner byte vectors are not empty, and fixed bytes are padded with zeros. Strings have a Solidity type,
  but they are encoded as the struct around their bytes and not as that type, and fixed arrays lose the
  struct around them, so that the code does not decode what it encodes for either.\<close>

fun abi_invertible :: "annotated_layout \<Rightarrow> bool" where
  "abi_invertible ASigner = False"
| "abi_invertible (AVector l) = abi_invertible l"
| "abi_invertible (AStruct tag ls) =
     (same_struct FIXED_BYTES_TAG tag \<or>
      \<not> same_struct FIXED_ARRAY_TAG tag \<and> tag \<noteq> STRING_TAG \<and> (\<forall>l \<in> set ls. abi_invertible l))"
| "abi_invertible (AStructPlain ls) = False"
| "abi_invertible AStructVariants = False"
| "abi_invertible (ANative n l) = False"
| "abi_invertible _ = True"

fun fixed_bytes_typed :: "struct_tag \<Rightarrow> move_value list \<Rightarrow> bool" where
  "fixed_bytes_typed tag [VVector xs] \<longleftrightarrow>
     length xs = 32 \<and> (\<forall>x \<in> set xs. \<exists>b. x = VU8 b) \<and>
     (\<forall>x \<in> set (drop (unat (type_args_to_usize (st_type_args tag))) xs). x = VU8 0)"
| "fixed_bytes_typed tag _ \<longleftrightarrow> False"

fun mv_typed :: "move_value \<Rightarrow> annotated_layout \<Rightarrow> bool"
and all_typed :: "move_value list \<Rightarrow> annotated_layout \<Rightarrow> bool"
and fields_typed :: "move_value list \<Rightarrow> annotated_layout list \<Rightarrow> bool"
where
  "mv_typed (VBool b) l \<longleftrightarrow> l = ABool"
| "mv_typed (VU8 x) l \<longleftrightarrow> l = AU8"
| "mv_typed (VU16 x) l \<longleftrightarrow> l = AU16"
| "mv_typed (VU32 x) l \<longleftrightarrow> l = AU32"
| "mv_typed (VU64 x) l \<longleftrightarrow> l = AU64"
| "mv_typed (VU128 x) l \<longleftrightarrow> l = AU128"
| "mv_typed (VU256 x) l \<longleftrightarrow> l = AU256"
| "mv_typed (VAddress a) l \<longleftrightarrow> l = AAddress \<and> length a = 32 \<and> take 12 a = replicate 12 0"
| "mv_typed (VSigner a) l \<longleftrightarrow> False"
| "mv_typed (VVector xs) l \<longleftrightarrow>
     (case l of AVector i \<Rightarrow> (i = AU8 \<longrightarrow> xs \<noteq> []) \<and> all_typed xs i | _ \<Rightarrow> False)"
| "mv_typed (VStruct n fs) l \<longleftrightarrow>
     (case l of
        AStruct tag ls \<Rightarrow> n = None \<and>
          (if same_struct FIXED_BYTES_TAG tag then fixed_bytes_typed tag fs else fields_typed fs ls)
      | _ \<Rightarrow> False)"
| "all_typed [] l \<longleftrightarrow> True"
| "all_typed (x # xs) l \<longleftrightarrow> mv_typed x l \<and> all_typed xs l"
| "fields_typed [] [] \<longleftrightarrow> True"
| "fields_typed (x # xs) (l # ls) \<longleftrightarrow> mv_typed x l \<and> fields_typed xs ls"
| "fields_typed _ _ \<longleftrightarrow> False"

fun sol_typed :: "sol_value \<Rightarrow> sol_type \<Rightarrow> bool"
and all_sol_typed :: "sol_value list \<Rightarrow> sol_type \<Rightarrow> bool"
and fields_sol_typed :: "sol_value list \<Rightarrow> sol_type list \<Rightarrow> bool"
where
  "sol_typed (SBool b) t \<longleftrightarrow> t = TBool"
| "sol_typed (SUint w n) t \<longleftrightarrow> t = TUint n \<and> unat w < 2 ^ n"
| "sol_typed (SFixedBytes w n) t \<longleftrightarrow> t = TFixedBytes n \<and> length w = 32 \<and> (\<forall>b \<in> set (drop n w). b = 0)"
| "sol_typed (SAddress a) t \<longleftrightarrow> t = TAddress \<and> length a = 20"
| "sol_typed (SBytes b) t \<longleftrightarrow> t = TBytes"
| "sol_typed (SString s) t \<longleftrightarrow> t = TString"
| "sol_typed (SArray vs) t \<longleftrightarrow> (case t of TArray u \<Rightarrow> all_sol_typed vs u | _ \<Rightarrow> False)"
| "sol_typed (SFixedArray vs) t \<longleftrightarrow> False"
| "sol_typed (STuple vs) t \<longleftrightarrow> (case t of TTuple us \<Rightarrow> fields_sol_typed vs us | _ \<Rightarrow> False)"
| "sol_typed SOther t \<longleftrightarrow> False"
| "all_sol_typed [] t \<longleftrightarrow> True"
| "all_sol_typed (v # vs) t \<longleftrightarrow> sol_typed v t \<and> all_sol_typed vs t"
| "fields_sol_typed [] [] \<longleftrightarrow> True"
| "fields_sol_typed (v # vs) (t # ts) \<longleftrightarrow> sol_typed v t \<and> fields_sol_typed vs ts"
| "fields_sol_typed _ _ \<longleftrightarrow> False"

text \<open>What the conversion of a value of a layout achieves: the Solidity value has the type of the
  layout and converts back.\<close>

definition converts :: "move_value \<Rightarrow> annotated_layout \<Rightarrow> bool" where
  "converts v l \<longleftrightarrow> (\<exists>sv t. move_value_to_sol_value v l = Inr sv \<and> layout_to_sol_type l = Inr t \<and>
     sol_typed sv t \<and> sol_to_value sv l = Inr v)"

lemma ucast_up_down:
  assumes "LENGTH('a) \<le> LENGTH('b)"
  shows "ucast (ucast (x :: 'a::len word) :: 'b::len word) = x"
proof -
  have "unat (ucast (ucast x :: 'b word) :: 'a word) = take_bit LENGTH('a) (unat (ucast x :: 'b word))"
    by (rule unsigned_ucast_eq)
  also have "\<dots> = unat x" using assms by (simp only: unat_ucast_up) (simp add: take_bit_nat_eq_self)
  finally show ?thesis by (simp add: word_unat_eq_iff)
qed

lemma invertible_type:
  "abi_invertible l \<Longrightarrow> \<exists>t. layout_to_sol_type l = Inr t"
  "\<forall>l \<in> set ls. abi_invertible l \<Longrightarrow> \<exists>ts. layouts_to_sol_types ls = Inr ts"
  by (induction l and ls rule: layout_to_sol_type_layouts_to_sol_types.induct) auto

lemma word_bounds:
  "unat (a :: u8) < 256" "unat (b :: 16 word) < 65536" "unat (c :: u32) < 4294967296"
  "unat (d :: u64) < 18446744073709551616" "unat (e :: u128) < 340282366920938463463374607431768211456"
  "unat (f :: u256) < 115792089237316195423570985008687907853269984665640564039457584007913129639936"
  using unat_less [of a] unat_less [of b] unat_less [of c] unat_less [of d] unat_less [of e] unat_less [of f]
  by simp_all

lemma eth_address_back:
  "length a = 32 \<Longrightarrow> take 12 a = replicate 12 0 \<Longrightarrow> to_move_address (to_eth_address a) = a"
  using append_take_drop_id [of 12 a] by (simp add: to_move_address_def to_eth_address_def)

lemma collect_force_to_u8: "collect_result (map force_to_u8 (map VU8 bs)) = Inr bs"
  by (induction bs) simp_all

lemma u8s: "(\<forall>x \<in> set xs. \<exists>b. x = VU8 b) \<Longrightarrow> \<exists>bs. xs = map VU8 bs"
proof (induction xs)
  case (Cons x xs)
  then obtain b bs where "x = VU8 b" "xs = map VU8 bs" by auto
  then show ?case by (intro exI [of _ "b # bs"]) simp
qed simp

lemma all_typed_u8: "all_typed xs AU8 \<Longrightarrow> \<exists>bs. xs = map VU8 bs"
proof (induction xs)
  case (Cons x xs)
  then obtain b bs where "x = VU8 b" "xs = map VU8 bs" by (cases x) auto
  then show ?case by (intro exI [of _ "b # bs"]) simp
qed simp

lemma starts_with_u8_typed: "all_typed xs l \<Longrightarrow> l \<noteq> AU8 \<Longrightarrow> \<not> starts_with_u8 xs"
  by (cases xs rule: starts_with_u8.cases) auto

lemma converts_fixed_bytes:
  assumes "same_struct FIXED_BYTES_TAG tag" "fixed_bytes_typed tag fs"
  shows "converts (VStruct None fs) (AStruct tag ls)"
proof -
  let ?n = "unat (type_args_to_usize (st_type_args tag))"
  from assms(2) obtain xs where fs: "fs = [VVector xs]" "length xs = 32" "\<forall>x \<in> set xs. \<exists>b. x = VU8 b"
    and pad: "\<forall>x \<in> set (drop ?n xs). x = VU8 0"
    by (auto elim: fixed_bytes_typed.elims)
  obtain bs where bs: "xs = map VU8 bs" using u8s [OF fs(3)] by blast
  have len: "length bs = 32" using fs(2) by (simp add: bs)
  have "\<forall>b \<in> set (drop ?n bs). b = 0" using pad by (auto simp: bs drop_map)
  moreover have "fixed_bytes_value tag fs = Inr (SFixedBytes bs ?n)"
    using collect_force_to_u8 [of bs] len by (simp add: fixed_bytes_value_def fs(1) bs)
  ultimately show ?thesis
    using assms(1) len by (simp add: converts_def fs(1) bs vector_u8_def)
qed

lemma conversion:
  "mv_typed v l \<Longrightarrow> abi_invertible l \<Longrightarrow> converts v l"
  "all_typed vs l \<Longrightarrow> abi_invertible l \<Longrightarrow> \<exists>svs t. sol_values_of vs l = Inr svs \<and>
     layout_to_sol_type l = Inr t \<and> all_sol_typed svs t \<and> values_of svs l = Inr vs"
  "fields_typed vs ls \<Longrightarrow> \<forall>l \<in> set ls. abi_invertible l \<Longrightarrow> \<exists>svs ts. sol_fields_of vs ls = Inr svs \<and>
     layouts_to_sol_types ls = Inr ts \<and> fields_sol_typed svs ts \<and> fields_of svs ls = Inr vs"
proof (induction v l and vs l and vs ls rule: mv_typed_all_typed_fields_typed.induct)
  case (10 xs l)
  then obtain i where l: "l = AVector i" and xs: "i = AU8 \<longrightarrow> xs \<noteq> []" "all_typed xs i"
    by (auto split: annotated_layout.splits)
  show ?case
  proof (cases "i = AU8")
    case True
    then obtain bs where bs: "xs = map VU8 bs" "bs \<noteq> []" using all_typed_u8 [of xs] xs by auto
    then have "starts_with_u8 xs" by (cases bs) simp_all
    then show ?thesis
      using True collect_force_to_u8 [of bs] by (simp add: converts_def l bs vector_u8_def)
  next
    case False
    then show ?thesis
      using 10 xs starts_with_u8_typed [OF xs(2)] by (auto simp: converts_def l)
  qed
next
  case (11 n fs l)
  then obtain tag ls where l: "l = AStruct tag ls" by (auto split: annotated_layout.splits)
  show ?case
  proof (cases "same_struct FIXED_BYTES_TAG tag")
    case True
    then show ?thesis using 11 by (simp add: l converts_fixed_bytes)
  next
    case False
    then show ?thesis using 11 by (auto simp: converts_def l)
  qed
qed (auto simp: converts_def uint_to_value_def unat_ucast_up ucast_up_down word_bounds eth_address_back
    invertible_type(1)
    to_eth_address_def [THEN arg_cong [where f = length]])

section \<open>Properties\<close>

lemma le_bytes_zero: "le_bytes n 0 = replicate n 0"
  by (induction n) simp_all

lemma unat_drop_bit: "unat (drop_bit n (w :: 'a::len word)) = drop_bit n (unat w)"
  by (simp add: unsigned_drop_bit_eq take_bit_nat_eq_self)

lemma le_bytes_ucast:
  assumes "LENGTH('a) \<le> LENGTH('b)" "unat (x :: 'a::len word) < 2 ^ (8 * n)"
  shows "le_bytes (n + k) (ucast x :: 'b::len word) = le_bytes n x @ replicate k 0"
  using assms(2)
proof (induction n arbitrary: x)
  case 0
  then have "x = 0" by (simp add: word_unat_eq_iff)
  then show ?case by (simp add: le_bytes_zero)
next
  case (Suc n)
  have "drop_bit 8 (unat x) < 2 ^ (8 * n)"
    using Suc.prems
    by (simp only: drop_bit_eq_div) (simp add: power_add less_mult_imp_div_less mult.commute)
  then have "unat (drop_bit 8 x) < 2 ^ (8 * n)" by (simp only: unat_drop_bit)
  moreover have "drop_bit 8 (ucast x :: 'b word) = ucast (drop_bit 8 x)"
    using assms(1) by (simp only: word_unat_eq_iff unat_drop_bit unat_ucast_up)
  moreover have "(ucast (ucast x :: 'b word) :: u8) = ucast x"
    using assms(1) by (intro bit_word_eqI) (auto simp: bit_simps dest: bit_imp_le_length)
  ultimately show ?case using Suc.IH [of "drop_bit 8 x"] by simp
qed

lemma be_bytes_ucast:
  "LENGTH('a) \<le> 256 \<Longrightarrow> LENGTH('a) \<le> 8 * n \<Longrightarrow> n \<le> 32 \<Longrightarrow>
     be_bytes 32 (ucast (x :: 'a::len word) :: u256) = replicate (32 - n) 0 @ be_bytes n x"
  using le_bytes_ucast [of x n "32 - n", where 'b = 256] less_le_trans [OF unat_less [of x], of "2 ^ (8 * n)"]
  by (simp add: be_bytes_def)

lemma small_words:
  "be_bytes 32 (ucast (x :: u8) :: u256) = replicate 31 0 @ [x]"
  "be_bytes 32 (ucast (y :: 16 word) :: u256) = replicate 30 0 @ be_bytes 2 y"
  "be_bytes 32 (ucast (z :: u32) :: u256) = replicate 28 0 @ be_bytes 4 z"
  using be_bytes_ucast [of 1 x] be_bytes_ucast [of 2 y] be_bytes_ucast [of 4 z] by (simp_all add: be_bytes_def)

text \<open>Encoding and decoding are inverse: for a layout that can be decoded and a value of it, the
  value is encoded, the encoding decodes, and the result is the value. The hand-written encodings of
  small integers and of the empty vector agree with those of the library. The library decodes what
  it encodes for values of the type of the layout, writes an unsigned integer as one word and an
  empty sequence as the words 32 and 0.\<close>

lemma abi_round_trip:
  assumes "abi_invertible l" "mv_typed v l \<or> (\<exists>i. l = AVector i) \<and> v = VVector []"
    and dec: "\<And>t sv. layout_to_sol_type l = Inr t \<Longrightarrow> sol_typed sv t \<Longrightarrow> decode t (encode sv) = Inr sv"
    and word: "\<And>w n. encode (SUint w n) = be_bytes 32 w"
    and empties: "encode (SArray []) = (replicate 64 0)[31 := 32]" "encode (SBytes []) = (replicate 64 0)[31 := 32]"
  shows "\<exists>bs. inner_abi_encode_params encode v l = Inr bs \<and> inner_abi_decode_params decode bs l = Inr v"
proof -
  have inv: "inner_abi_decode_params decode (encode sv) l = Inr v"
    if "layout_to_sol_type l = Inr t" "sol_typed sv t" "sol_to_value sv l = Inr v" for sv t
    using that dec by (simp add: inner_abi_decode_params_def)
  have enc: "inner_abi_encode_params encode v l = Inr (encode sv)"
    if "move_value_to_sol_value v l = Inr sv" "v \<noteq> VVector []" for sv
  proof (cases v)
    case (VVector xs)
    then show ?thesis using that by (cases xs) auto
  qed (use that word in \<open>auto simp: small_words\<close>)
  show ?thesis
  proof (cases "v = VVector []")
    case True
    then obtain i where i: "l = AVector i"
      using assms(2) by (auto split: annotated_layout.splits)
    obtain t where t: "layout_to_sol_type l = Inr t" using invertible_type(1) assms(1) by blast
    have "inner_abi_decode_params decode ((replicate 64 0)[31 := 32]) l = Inr v"
    proof (cases "i = AU8")
      case u8: True
      have "inner_abi_decode_params decode (encode (SBytes [])) l = Inr v"
        by (rule inv [OF t]) (use t in \<open>simp_all add: i u8 True vector_u8_def\<close>)
      then show ?thesis unfolding empties(2) .
    next
      case False
      have "inner_abi_decode_params decode (encode (SArray [])) l = Inr v"
        by (rule inv [OF t]) (use t False in \<open>auto simp: i True rbind_Inr_iff\<close>)
      then show ?thesis unfolding empties(1) .
    qed
    then show ?thesis using True by simp
  next
    case False
    then have "converts v l" using assms(1,2) conversion(1) by blast
    with enc inv False show ?thesis unfolding converts_def by metis
  qed
qed

lemma decoded_no_signer:
  "sol_to_value sv l = Inr v \<Longrightarrow> signers v = []"
  "values_of svs l = Inr vs \<Longrightarrow> concat (map signers vs) = []"
  "fields_of svs ls = Inr vs \<Longrightarrow> concat (map signers vs) = []"
  by (induction sv l and svs l and svs ls arbitrary: v and vs and vs rule: sol_to_value_values_of_fields_of.induct)
    (auto simp: mismatched_def uint_to_value_def vector_u8_def rbind_Inr_iff split: if_splits annotated_layout.splits)

text \<open>Decoding never makes a signer: whatever bytes a contract returns and whatever type a Move
  program asks for, the decoded value contains no signer.\<close>

lemma abi_decode_no_signer:
  assumes "inner_abi_decode_params decode bs l = Inr v"
  shows "signers v = []"
  using assms by (auto simp: inner_abi_decode_params_def rbind_Inr_iff intro: decoded_no_signer(1))

text \<open>A library that knows words and pairs of words.\<close>

definition example_encode :: "sol_value \<Rightarrow> bytes" where
  "example_encode v =
     (case v of
        SUint w n \<Rightarrow> be_bytes 32 w
      | STuple [SUint a m, SUint b n] \<Rightarrow> be_bytes 32 a @ be_bytes 32 b
      | _ \<Rightarrow> (replicate 64 0)[31 := 32])"

definition example_decode :: "sol_type \<Rightarrow> bytes \<Rightarrow> string + sol_value" where
  "example_decode t bs =
     (case t of
        TTuple [TUint m, TUint n] \<Rightarrow>
          Inr (STuple [SUint (from_be_bytes (take 32 bs)) m, SUint (from_be_bytes (drop 32 bs)) n])
      | _ \<Rightarrow> Inl ''type mismatch'')"

abbreviation example_pair_layout :: annotated_layout where
  "example_pair_layout \<equiv> AStruct (StructTag FRAMEWORK_ADDRESS ''m'' ''Pair'' []) [AU64, AU256]"

lemma from_be_bytes_32: "from_be_bytes (be_bytes 32 w) = (w :: u256)"
proof -
  have "take_bit 256 w = w" using take_bit_length_eq [of w] by simp
  then show ?thesis by (simp add: be_bytes_def from_be_bytes_def from_le_bytes_le_bytes)
qed

lemma example_tag [simp]:
  "\<not> same_struct FIXED_BYTES_TAG (StructTag FRAMEWORK_ADDRESS ''m'' ''Pair'' [])"
  "\<not> same_struct FIXED_ARRAY_TAG (StructTag FRAMEWORK_ADDRESS ''m'' ''Pair'' [])"
  "STRING_TAG \<noteq> StructTag FRAMEWORK_ADDRESS ''m'' ''Pair'' []"
  "StructTag FRAMEWORK_ADDRESS ''m'' ''Pair'' [] \<noteq> STRING_TAG"
  by (simp_all add: same_struct_def FIXED_BYTES_TAG_def FIXED_ARRAY_TAG_def STRING_TAG_def)

lemma example_pair:
  "abi_invertible example_pair_layout" "mv_typed (VStruct None [VU64 7, VU256 9]) example_pair_layout"
  "layout_to_sol_type example_pair_layout = Inr (TTuple [TUint 64, TUint 256])"
  by simp_all

lemma example_decodes:
  assumes "sol_typed sv (TTuple [TUint 64, TUint 256])"
  shows "example_decode (TTuple [TUint 64, TUint 256]) (example_encode sv) = Inr sv"
proof -
  from assms obtain vs where sv: "sv = STuple vs" "fields_sol_typed vs [TUint 64, TUint 256]" by (cases sv) auto
  then obtain x y where vs: "vs = [x, y]" by (cases vs; cases "tl vs"; cases "tl (tl vs)") auto
  then obtain a b where "x = SUint a 64" "y = SUint b 256" using sv(2) by (cases x; cases y) auto
  then show ?thesis by (simp add: sv vs example_encode_def example_decode_def from_be_bytes_32)
qed

text \<open>The size of fixed bytes is between 1 and 32, whatever the type arguments are; five markers
  spell it in binary.\<close>

lemma clear_bits_bound: "unat s \<le> 31 \<Longrightarrow> unat (clear_bits i ps s) \<le> 31"
proof (induction i ps s rule: clear_bits.induct)
  case (2 i param params bytes_size)
  have "take_bit 5 bytes_size = bytes_size"
    using 2 by (simp add: word_unat_eq_iff unsigned_take_bit_eq take_bit_nat_eq_self)
  then have "take_bit 5 (xor bytes_size (push_bit (4 - i) 1)) = xor bytes_size (push_bit (4 - i) 1)" if "i < 5"
    using that by (intro bit_word_eqI) (auto simp: bit_simps dest: sym)
  then have "unat (xor bytes_size (push_bit (4 - i) 1)) < 2 ^ 5" if "i < 5"
    using that take_bit_nat_less_exp [of 5 "unat (xor bytes_size (push_bit (4 - i) 1))"]
    by (metis unsigned_take_bit_eq)
  then show ?case using 2 by auto
qed simp

lemma type_args_to_usize_bound: "unat (type_args_to_usize ts) \<in> {1..32}"
proof -
  have "unat (w + 1) = unat w + 1" if "unat w \<le> 31" for w :: u64
    using that by (simp add: unat_word_ariths)
  moreover have "unat (case ps of None \<Rightarrow> 31 | Some params \<Rightarrow> clear_bits 0 params 31) \<le> 31" for ps
    by (simp add: clear_bits_bound split: option.split)
  ultimately show ?thesis unfolding type_args_to_usize_def Let_def by simp
qed

text \<open>A Move string is decoded as a Solidity string but not encoded as one: its type is the type
  of strings, while its value becomes a tuple of one byte sequence, which is not a value of that
  type.\<close>

lemma string_encoded_as_tuple:
  assumes "bs \<noteq> []"
  shows "layout_to_sol_type (AStruct STRING_TAG [AVector AU8]) = Inr TString \<and>
    (\<exists>sv. move_value_to_sol_value (VStruct None [vector_u8 bs]) (AStruct STRING_TAG [AVector AU8]) = Inr sv \<and>
       sv = STuple [SBytes bs] \<and> \<not> sol_typed sv TString)"
proof -
  have tag: "\<not> same_struct FIXED_BYTES_TAG STRING_TAG" "\<not> same_struct FIXED_ARRAY_TAG STRING_TAG"
    by (simp_all add: same_struct_def FIXED_BYTES_TAG_def FIXED_ARRAY_TAG_def STRING_TAG_def)
  have "starts_with_u8 (map VU8 bs)" using assms by (cases bs) simp_all
  then show ?thesis using collect_force_to_u8 [of bs] by (simp add: tag vector_u8_def)
qed

end
