(* ===== verification/Abi_Native.thy ===== *)
theory Abi_Native
  imports Solidity_Abi Evm_Native
begin

text \<open>
  The native functions that encode and decode with the Solidity ABI: \<open>abi_encode_params\<close> and
  \<open>abi_decode_params\<close> of \<^verbatim>\<open>evm-ext/src/solidity_abi.rs\<close>, with what they charge before they work. The gas of
  the virtual machine, its layouts of types and the size of a serialised value are fields of
  \<open>abi_context\<close>.
\<close>

section \<open>Metered computations\<close>

text \<open>How a native function stops without a result.\<close>

datatype native_stop =
  NativeError safe_native_error
| NativeAbort u64
| NativePanic string

type_synonym ('g, 'a) metered = "'g \<Rightarrow> (native_stop + 'a) \<times> 'g"

definition mbind :: "('g, 'a) metered \<Rightarrow> ('a \<Rightarrow> ('g, 'b) metered) \<Rightarrow> ('g, 'b) metered" where
  "mbind m f g = (case m g of (Inl e, g') \<Rightarrow> (Inl e, g') | (Inr a, g') \<Rightarrow> f a g')"

definition mlift :: "(native_stop + 'a) \<Rightarrow> ('g, 'a) metered" where
  "mlift r g = (r, g)"

text \<open>The gas expressions of the two functions.\<close>

datatype abi_charge =
  TYPE_INFO_TYPE_OF_BASE
| UTIL_FROM_BYTES_PER_BYTE u64

record ('g, 'ty, 'layout) abi_context =
  ac_charge :: "abi_charge \<Rightarrow> 'g \<Rightarrow> (safe_native_error + unit) \<times> 'g"
  ac_type_layout :: "'ty \<Rightarrow> safe_native_error + 'layout"
  ac_annotated_layout :: "'ty \<Rightarrow> safe_native_error + annotated_layout"
  ac_as_move_value :: "move_value \<Rightarrow> 'layout \<Rightarrow> move_value"
  ac_serialized_size :: "move_value \<Rightarrow> string + nat"
  ac_size_error :: "string \<Rightarrow> partial_vm_error"
  ac_cast_error :: partial_vm_error
  ac_pop_error :: partial_vm_error

definition abi_charged :: "('g, 'ty, 'layout) abi_context \<Rightarrow> abi_charge \<Rightarrow> ('g, unit) metered" where
  "abi_charged ac c g = (case ac_charge ac c g of (r, g') \<Rightarrow> (map_err NativeError r, g'))"

definition native_result :: "safe_native_error + 'a \<Rightarrow> ('g, 'a) metered" where
  "native_result r = mlift (map_err NativeError r)"

fun abi_panic :: "abi_fault \<Rightarrow> native_stop" where
  "abi_panic (AbiError m) = NativePanic m"
| "abi_panic (AbiPanic m) = NativePanic m"

fun abi_abort :: "abi_fault \<Rightarrow> native_stop" where
  "abi_abort (AbiError m) = NativeAbort 0"
| "abi_abort (AbiPanic m) = NativePanic m"

section \<open>The functions\<close>

definition abi_encode_gas_cost :: "('g, 'ty, 'layout) abi_context \<Rightarrow> move_value \<Rightarrow> safe_native_error + abi_charge" where
  "abi_encode_gas_cost ac mv =
     rbind (map_err (SafeInvariantViolation \<circ> ac_size_error ac) (ac_serialized_size ac mv)) (\<lambda>size.
     Inr (UTIL_FROM_BYTES_PER_BYTE (of_nat size)))"

definition abi_decode_gas_cost :: "bytes \<Rightarrow> abi_charge" where
  "abi_decode_gas_cost value = UTIL_FROM_BYTES_PER_BYTE (of_nat (length value))"

definition pop_type_arg :: "('g, 'ty, 'layout) abi_context \<Rightarrow> 'ty list \<Rightarrow> safe_native_error + 'ty" where
  "pop_type_arg ac ty_args =
     (if ty_args = [] then Inl (SafeInvariantViolation (ac_pop_error ac)) else Inr (last ty_args))"

definition value_as_bytes :: "('g, 'ty, 'layout) abi_context \<Rightarrow> move_value \<Rightarrow> safe_native_error + bytes" where
  "value_as_bytes ac v = ok_or (as_u8_vector v) (SafeInvariantViolation (ac_cast_error ac))"

text \<open>The two arguments are popped from the back and unwrapped.\<close>

definition abi_encode_params ::
  "('g, 'ty, 'layout) abi_context \<Rightarrow> (sol_value \<Rightarrow> bytes) \<Rightarrow> 'ty list \<Rightarrow> move_value list
     \<Rightarrow> ('g, move_value list) metered" where
  "abi_encode_params ac encode ty_args args =
     (case rev args of
        value # prefix # _ \<Rightarrow>
          mbind (native_result (value_as_bytes ac prefix)) (\<lambda>prefix.
          mbind (native_result (pop_type_arg ac ty_args)) (\<lambda>ty_arg.
          mbind (abi_charged ac TYPE_INFO_TYPE_OF_BASE) (\<lambda>_.
          mbind (abi_charged ac TYPE_INFO_TYPE_OF_BASE) (\<lambda>_.
          mbind (native_result (ac_type_layout ac ty_arg)) (\<lambda>undecorated_layout.
          mbind (native_result (ac_annotated_layout ac ty_arg)) (\<lambda>annotated_layout.
          let mv = ac_as_move_value ac value undecorated_layout
          in mbind (native_result (abi_encode_gas_cost ac mv)) (\<lambda>cost.
             mbind (abi_charged ac cost) (\<lambda>_.
             mbind (mlift (map_err abi_panic (inner_abi_encode_params encode mv annotated_layout))) (\<lambda>encoding.
             mlift (Inr [vector_u8 (prefix @ encoding)]))))))))))
      | _ \<Rightarrow> mlift (Inl (NativePanic ''called Option::unwrap() on a None value'')))"

definition abi_decode_params ::
  "('g, 'ty, 'layout) abi_context \<Rightarrow> (sol_type \<Rightarrow> bytes \<Rightarrow> string + sol_value) \<Rightarrow> 'ty list \<Rightarrow> move_value list
     \<Rightarrow> ('g, move_value list) metered" where
  "abi_decode_params ac decode ty_args args =
     mbind (native_result
       (if args = [] then Inl (SafeInvariantViolation (ac_pop_error ac)) else value_as_bytes ac (last args))) (\<lambda>value.
     mbind (native_result (pop_type_arg ac ty_args)) (\<lambda>ty_arg.
     mbind (abi_charged ac TYPE_INFO_TYPE_OF_BASE) (\<lambda>_.
     mbind (abi_charged ac (abi_decode_gas_cost value)) (\<lambda>_.
     mbind (native_result (ac_annotated_layout ac ty_arg)) (\<lambda>annotated_layout.
     mbind (mlift (map_err abi_abort (inner_abi_decode_params decode value annotated_layout))) (\<lambda>result.
     mlift (Inr [result])))))))"

section \<open>Work is paid for in advance\<close>

text \<open>Charging takes a cost from a balance, or fails when it does not cover the cost.\<close>

definition meter_laws ::
  "('g, 'ty, 'layout) abi_context \<Rightarrow> (abi_charge \<Rightarrow> nat) \<Rightarrow> ('g \<Rightarrow> nat) \<Rightarrow> bool" where
  "meter_laws ac cost balance \<longleftrightarrow>
     (\<forall>c g. if cost c \<le> balance g
            then \<exists>g'. ac_charge ac c g = (Inr (), g') \<and> balance g' = balance g - cost c
            else \<exists>e g'. ac_charge ac c g = (Inl e, g'))"

text \<open>A computation that returns \<open>r\<close> for a price, and an error of the virtual machine for less.\<close>

definition priced :: "('g \<Rightarrow> nat) \<Rightarrow> nat \<Rightarrow> 'a \<Rightarrow> ('g, 'a) metered \<Rightarrow> bool" where
  "priced balance price r m \<longleftrightarrow>
     (\<forall>g. if price \<le> balance g then \<exists>g'. m g = (Inr r, g') \<and> balance g' = balance g - price
          else \<exists>e g'. m g = (Inl (NativeError e), g'))"

lemma priced_charge:
  assumes "meter_laws ac cost balance"
  shows "priced balance (cost c) () (abi_charged ac c)"
proof -
  have "if cost c \<le> balance g then \<exists>g'. abi_charged ac c g = (Inr (), g') \<and> balance g' = balance g - cost c
    else \<exists>e g'. abi_charged ac c g = (Inl (NativeError e), g')" for g
    using assms [unfolded meter_laws_def, rule_format, of c g] by (auto simp: abi_charged_def split: if_splits)
  then show ?thesis by (simp add: priced_def)
qed

lemma priced_bind:
  assumes "priced balance p r m" "priced balance p' r' (f r)"
  shows "priced balance (p + p') r' (mbind m f)"
proof -
  have "if p + p' \<le> balance g then \<exists>g'. mbind m f g = (Inr r', g') \<and> balance g' = balance g - (p + p')
    else \<exists>e g'. mbind m f g = (Inl (NativeError e), g')" for g
  proof (cases "p \<le> balance g")
    case True
    then obtain g1 where g1: "m g = (Inr r, g1)" "balance g1 = balance g - p"
      using assms(1) unfolding priced_def by meson
    have "if p' \<le> balance g1 then \<exists>g'. f r g1 = (Inr r', g') \<and> balance g' = balance g1 - p'
      else \<exists>e g'. f r g1 = (Inl (NativeError e), g')"
      using assms(2) unfolding priced_def by blast
    then show ?thesis using True by (auto simp: mbind_def g1 split: if_splits)
  next
    case False
    then obtain e g1 where "m g = (Inl (NativeError e), g1)" using assms(1) unfolding priced_def by meson
    then show ?thesis using False by (auto simp: mbind_def)
  qed
  then show ?thesis by (simp add: priced_def)
qed

lemma priced_return: "priced balance 0 r (mlift (Inr r))"
  by (simp add: priced_def mlift_def)

lemma mbind_free [simp]:
  "mbind (mlift (Inr a)) f = f a" "mbind (native_result (Inr a)) f = f a"
  by (simp_all add: mbind_def mlift_def native_result_def fun_eq_iff)

lemma abi_encode_priced:
  assumes "meter_laws ac cost balance" "ac_type_layout ac ty = Inr u" "ac_annotated_layout ac ty = Inr l"
    and "ac_as_move_value ac v u = v" "ac_serialized_size ac v = Inr n" "inner_abi_encode_params encode v l = Inr bs"
  shows "priced balance (2 * cost TYPE_INFO_TYPE_OF_BASE + cost (UTIL_FROM_BYTES_PER_BYTE (of_nat n)))
    [vector_u8 (prefix @ bs)] (abi_encode_params ac encode [ty] [vector_u8 prefix, v])"
proof -
  note charge = priced_charge [OF assms(1)]
  let ?base = "cost TYPE_INFO_TYPE_OF_BASE" and ?size = "cost (UTIL_FROM_BYTES_PER_BYTE (of_nat n))"
  have "abi_encode_params ac encode [ty] [vector_u8 prefix, v] =
      mbind (abi_charged ac TYPE_INFO_TYPE_OF_BASE) (\<lambda>_. mbind (abi_charged ac TYPE_INFO_TYPE_OF_BASE) (\<lambda>_.
      mbind (abi_charged ac (UTIL_FROM_BYTES_PER_BYTE (of_nat n))) (\<lambda>_. mlift (Inr [vector_u8 (prefix @ bs)]))))"
    by (simp add: abi_encode_params_def value_as_bytes_def pop_type_arg_def abi_encode_gas_cost_def assms(2-6))
  moreover have "priced balance (?base + (?base + (?size + 0))) [vector_u8 (prefix @ bs)] \<dots>"
    by (intro priced_bind [OF charge] priced_return)
  ultimately show ?thesis by (simp add: mult_2 add.assoc)
qed

lemma abi_decode_priced:
  assumes "meter_laws ac cost balance" "ac_annotated_layout ac ty = Inr l" "inner_abi_decode_params decode bs l = Inr v"
  shows "priced balance (cost TYPE_INFO_TYPE_OF_BASE + cost (UTIL_FROM_BYTES_PER_BYTE (of_nat (length bs))))
    [v] (abi_decode_params ac decode [ty] [vector_u8 bs])"
proof -
  note charge = priced_charge [OF assms(1)]
  let ?base = "cost TYPE_INFO_TYPE_OF_BASE" and ?size = "cost (UTIL_FROM_BYTES_PER_BYTE (of_nat (length bs)))"
  have "abi_decode_params ac decode [ty] [vector_u8 bs] =
      mbind (abi_charged ac TYPE_INFO_TYPE_OF_BASE) (\<lambda>_.
      mbind (abi_charged ac (UTIL_FROM_BYTES_PER_BYTE (of_nat (length bs)))) (\<lambda>_. mlift (Inr [v])))"
    by (simp add: abi_decode_params_def value_as_bytes_def pop_type_arg_def abi_decode_gas_cost_def assms(2,3))
  moreover have "priced balance (?base + (?size + 0)) [v] \<dots>"
    by (intro priced_bind [OF charge] priced_return)
  ultimately show ?thesis by simp
qed

text \<open>For less gas than the price a computation is an error of the virtual machine, whatever it would do.\<close>

definition unpaid :: "('g \<Rightarrow> nat) \<Rightarrow> nat \<Rightarrow> ('g, 'a) metered \<Rightarrow> bool" where
  "unpaid balance price m \<longleftrightarrow> (\<forall>g. balance g < price \<longrightarrow> (\<exists>e g'. m g = (Inl (NativeError e), g')))"

lemma unpaid_charge:
  assumes "meter_laws ac cost balance" "unpaid balance p (f ())"
  shows "unpaid balance (cost c + p) (mbind (abi_charged ac c) f)"
proof -
  have "\<exists>e g'. mbind (abi_charged ac c) f g = (Inl (NativeError e), g')" if "balance g < cost c + p" for g
  proof (cases "cost c \<le> balance g")
    case True
    then obtain g1 where g1: "abi_charged ac c g = (Inr (), g1)" "balance g1 = balance g - cost c"
      using priced_charge [OF assms(1), of c] unfolding priced_def by meson
    then have "balance g1 < p" using True that by simp
    with assms(2) g1 show ?thesis by (simp add: unpaid_def mbind_def)
  next
    case False
    then obtain e g1 where "abi_charged ac c g = (Inl (NativeError e), g1)"
      using priced_charge [OF assms(1), of c] unfolding priced_def by meson
    then show ?thesis by (simp add: mbind_def)
  qed
  then show ?thesis by (simp add: unpaid_def)
qed

lemma unpaid_charge_last:
  "meter_laws ac cost balance \<Longrightarrow> unpaid balance (cost c) (mbind (abi_charged ac c) f)"
  using unpaid_charge [of ac cost balance 0 f c] by (simp add: unpaid_def)

lemma unpaid_result:
  "(\<And>a. r = Inr a \<Longrightarrow> unpaid balance p (f a)) \<Longrightarrow> unpaid balance p (mbind (native_result r) f)"
  by (cases r) (simp_all add: unpaid_def mbind_def native_result_def mlift_def)

lemma abi_encode_unpaid:
  assumes "meter_laws ac cost balance" "ac_type_layout ac ty = Inr u"
    and "ac_serialized_size ac (ac_as_move_value ac w u) = Inr n"
  shows "unpaid balance (2 * cost TYPE_INFO_TYPE_OF_BASE + cost (UTIL_FROM_BYTES_PER_BYTE (of_nat n)))
    (abi_encode_params ac encode [ty] [vector_u8 prefix, w])"
proof -
  let ?base = "cost TYPE_INFO_TYPE_OF_BASE" and ?size = "cost (UTIL_FROM_BYTES_PER_BYTE (of_nat n))"
  have "unpaid balance (?base + (?base + ?size)) (abi_encode_params ac encode [ty] [vector_u8 prefix, w])"
    by (simp only: abi_encode_params_def value_as_bytes_def pop_type_arg_def abi_encode_gas_cost_def Let_def
        rev.simps append.simps list.case assms(2))
      (intro unpaid_result unpaid_charge [OF assms(1)],
        use assms(2,3) in \<open>auto simp: rbind_Inr_iff intro: unpaid_charge_last [OF assms(1)]\<close>)
  then show ?thesis by (simp add: mult_2 add.assoc)
qed

lemma abi_decode_unpaid:
  assumes "meter_laws ac cost balance"
  shows "unpaid balance (cost TYPE_INFO_TYPE_OF_BASE + cost (UTIL_FROM_BYTES_PER_BYTE (of_nat (length bs))))
    (abi_decode_params ac decode [ty] [vector_u8 bs])"
  by (simp add: abi_decode_params_def value_as_bytes_def pop_type_arg_def abi_decode_gas_cost_def)
    (intro unpaid_charge [OF assms] unpaid_charge_last [OF assms])

text \<open>Bytes that do not decode abort the call with code 0, and they have been paid for.\<close>

lemma abi_decode_aborts:
  assumes "ac_charge ac TYPE_INFO_TYPE_OF_BASE g = (Inr (), g1)"
    and "ac_charge ac (UTIL_FROM_BYTES_PER_BYTE (of_nat (length bs))) g1 = (Inr (), g2)"
    and "ac_annotated_layout ac ty = Inr l" "inner_abi_decode_params decode bs l = Inl (AbiError m)"
  shows "abi_decode_params ac decode [ty] [vector_u8 bs] g = (Inl (NativeAbort 0), g2)"
  by (simp add: abi_decode_params_def value_as_bytes_def pop_type_arg_def abi_decode_gas_cost_def mbind_def mlift_def
      native_result_def abi_charged_def assms)

text \<open>C33. Encoding and decoding with the native functions are inverse for an exact price, and the price is
  paid before any work is done. For a type built from integers, booleans, addresses, vectors, fixed bytes
  and structs (no strings, fixed arrays, signers or variants) and a value of it (with Ethereum addresses
  and no empty inner byte vector), encoding returns the prefix followed by bytes that decode to the
  value. Encoding costs two lookups of the type and the size of the serialised value, decoding one lookup
  and the number of bytes. With less gas than this either stops with an error of the virtual machine:
  whatever the value, the bytes and the library, so also where the work itself would panic or abort.
  The library decodes what it encodes for values of the type of the layout, writes an unsigned integer
  as one word and an empty sequence as the words 32 and 0, with which the hand-written encodings of
  small integers and of the empty vector agree.\<close>

theorem abi_native_round_trip:
  assumes "meter_laws ac cost balance" "ac_type_layout ac ty = Inr u" "ac_annotated_layout ac ty = Inr l"
    and "ac_as_move_value ac v u = v" "ac_serialized_size ac v = Inr n"
    and "abi_invertible l" "mv_typed v l \<or> (\<exists>i. l = AVector i) \<and> v = VVector []"
    and "\<And>t sv. layout_to_sol_type l = Inr t \<Longrightarrow> sol_typed sv t \<Longrightarrow> decode t (encode sv) = Inr sv"
    and "\<And>w n. encode (SUint w n) = be_bytes 32 w"
    and "encode (SArray []) = (replicate 64 0)[31 := 32]" "encode (SBytes []) = (replicate 64 0)[31 := 32]"
  shows "(\<exists>bs.
    (\<forall>prefix. priced balance (2 * cost TYPE_INFO_TYPE_OF_BASE + cost (UTIL_FROM_BYTES_PER_BYTE (of_nat n)))
       [vector_u8 (prefix @ bs)] (abi_encode_params ac encode [ty] [vector_u8 prefix, v])) \<and>
    priced balance (cost TYPE_INFO_TYPE_OF_BASE + cost (UTIL_FROM_BYTES_PER_BYTE (of_nat (length bs))))
      [v] (abi_decode_params ac decode [ty] [vector_u8 bs])) \<and>
    (\<forall>encode' prefix w k. ac_serialized_size ac (ac_as_move_value ac w u) = Inr k \<longrightarrow>
       unpaid balance (2 * cost TYPE_INFO_TYPE_OF_BASE + cost (UTIL_FROM_BYTES_PER_BYTE (of_nat k)))
         (abi_encode_params ac encode' [ty] [vector_u8 prefix, w])) \<and>
    (\<forall>decode' bs. unpaid balance (cost TYPE_INFO_TYPE_OF_BASE + cost (UTIL_FROM_BYTES_PER_BYTE (of_nat (length bs))))
       (abi_decode_params ac decode' [ty] [vector_u8 bs]))"
proof (intro conjI allI impI)
  have "\<exists>bs. inner_abi_encode_params encode v l = Inr bs \<and> inner_abi_decode_params decode bs l = Inr v"
    by (rule abi_round_trip) (fact assms)+
  then show "\<exists>bs.
    (\<forall>prefix. priced balance (2 * cost TYPE_INFO_TYPE_OF_BASE + cost (UTIL_FROM_BYTES_PER_BYTE (of_nat n)))
       [vector_u8 (prefix @ bs)] (abi_encode_params ac encode [ty] [vector_u8 prefix, v])) \<and>
    priced balance (cost TYPE_INFO_TYPE_OF_BASE + cost (UTIL_FROM_BYTES_PER_BYTE (of_nat (length bs))))
      [v] (abi_decode_params ac decode [ty] [vector_u8 bs])"
    using abi_encode_priced [OF assms(1-5)] abi_decode_priced [OF assms(1,3)] by blast
qed (fact abi_encode_unpaid [OF assms(1,2)] abi_decode_unpaid [OF assms(1)])+

text \<open>A machine with a purse of gas, on which the type has the layout of a pair.\<close>

definition example_abi_context :: "(nat, unit, unit) abi_context" where
  "example_abi_context =
     \<lparr>ac_charge = (\<lambda>c g. let price = case c of TYPE_INFO_TYPE_OF_BASE \<Rightarrow> 2 | UTIL_FROM_BYTES_PER_BYTE n \<Rightarrow> unat n
        in if price \<le> g then (Inr (), g - price)
           else (Inl (SafeOther \<lparr>major_status = 4002, vm_message = ''out of gas''\<rparr>), 0)),
      ac_type_layout = (\<lambda>_. Inr ()), ac_annotated_layout = (\<lambda>_. Inr example_pair_layout),
      ac_as_move_value = (\<lambda>v _. v), ac_serialized_size = (\<lambda>_. Inr 40),
      ac_size_error = (\<lambda>m. \<lparr>major_status = 1, vm_message = m\<rparr>), ac_cast_error = \<lparr>major_status = 2, vm_message = []\<rparr>,
      ac_pop_error = \<lparr>major_status = 3, vm_message = []\<rparr>\<rparr>"

theorem abi_native_round_trip_witness:
  "\<exists>bs. abi_encode_params example_abi_context example_encode [()] [vector_u8 [1, 2], VStruct None [VU64 7, VU256 9]] 50
       = (Inr [vector_u8 ([1, 2] @ bs)], 6) \<and>
     (\<exists>e g. abi_encode_params example_abi_context example_encode [()] [vector_u8 [1, 2], VStruct None [VU64 7, VU256 9]] 43
       = (Inl (NativeError e), g)) \<and>
     fst (abi_decode_params example_abi_context example_decode [()] [vector_u8 bs] (2 + unat (of_nat (length bs) :: u64)))
       = Inr [VStruct None [VU64 7, VU256 9]] \<and>
     (\<exists>e g. abi_encode_params example_abi_context example_encode [()] [vector_u8 [], VBool True] 43
       = (Inl (NativeError e), g))"
proof -
  let ?cost = "\<lambda>c. case c of TYPE_INFO_TYPE_OF_BASE \<Rightarrow> 2 | UTIL_FROM_BYTES_PER_BYTE n \<Rightarrow> unat n"
  let ?v = "VStruct None [VU64 7, VU256 9]"
  have laws: "meter_laws example_abi_context ?cost id"
    by (auto simp: meter_laws_def example_abi_context_def Let_def split: abi_charge.split)
  have round: "(\<exists>bs. (\<forall>prefix. priced id (2 * ?cost TYPE_INFO_TYPE_OF_BASE + ?cost (UTIL_FROM_BYTES_PER_BYTE (of_nat 40)))
        [vector_u8 (prefix @ bs)] (abi_encode_params example_abi_context example_encode [()] [vector_u8 prefix, ?v])) \<and>
      priced id (?cost TYPE_INFO_TYPE_OF_BASE + ?cost (UTIL_FROM_BYTES_PER_BYTE (of_nat (length bs))))
        [?v] (abi_decode_params example_abi_context example_decode [()] [vector_u8 bs])) \<and>
      (\<forall>encode' prefix w k. ac_serialized_size example_abi_context (ac_as_move_value example_abi_context w ()) = Inr k \<longrightarrow>
       unpaid id (2 * ?cost TYPE_INFO_TYPE_OF_BASE + ?cost (UTIL_FROM_BYTES_PER_BYTE (of_nat k)))
         (abi_encode_params example_abi_context encode' [()] [vector_u8 prefix, w])) \<and>
      (\<forall>decode' bs. unpaid id (?cost TYPE_INFO_TYPE_OF_BASE + ?cost (UTIL_FROM_BYTES_PER_BYTE (of_nat (length bs))))
        (abi_decode_params example_abi_context decode' [()] [vector_u8 bs]))"
  proof (rule abi_native_round_trip [OF laws])
    show "example_decode t (example_encode sv) = Inr sv"
      if "layout_to_sol_type example_pair_layout = Inr t" "sol_typed sv t" for t sv
      using that example_decodes example_pair(3) by simp
  qed (simp_all add: example_pair example_abi_context_def, simp_all add: example_encode_def)
  then obtain bs where
    all: "\<forall>prefix. priced id 44 [vector_u8 (prefix @ bs)] (abi_encode_params example_abi_context example_encode [()] [vector_u8 prefix, ?v])" and
    dec: "priced id (2 + unat (of_nat (length bs) :: u64)) [?v] (abi_decode_params example_abi_context example_decode [()] [vector_u8 bs])"
    by auto
  have "ac_serialized_size example_abi_context (ac_as_move_value example_abi_context (VBool True) ()) = Inr 40"
    by (simp add: example_abi_context_def)
  with round have "unpaid id (2 * ?cost TYPE_INFO_TYPE_OF_BASE + ?cost (UTIL_FROM_BYTES_PER_BYTE (of_nat 40)))
      (abi_encode_params example_abi_context example_encode [()] [vector_u8 [], VBool True])" by blast
  then have first: "\<exists>e g. abi_encode_params example_abi_context example_encode [()] [vector_u8 [], VBool True] 43
      = (Inl (NativeError e), g)" unfolding unpaid_def by (elim allE [of _ 43] impE) simp_all
  note enc = all [rule_format, of "[1, 2]"]
  have paid: "\<exists>g'. m g = (Inr r, g') \<and> g' = g - price" if "priced id price r m" "price \<le> g"
    for price r g and m :: "(nat, move_value list) metered"
    using that unfolding priced_def id_def by meson
  have unpaid: "\<exists>e g'. m g = (Inl (NativeError e), g')" if "priced id price r m" "\<not> price \<le> g"
    for price r g and m :: "(nat, move_value list) metered"
    using that unfolding priced_def id_def by meson
  show ?thesis using paid [OF enc, of 50] unpaid [OF enc, of 43] paid [OF dec order_refl] first by fastforce
qed

end
