(* ===== verification/Kv_Store.thy ===== *)
theory Kv_Store
  imports Block_Queries Receipt_Memory State
begin

text \<open>
  The embedded databases under the persistent stores. RocksDB and LMDB are third-party code: ordered
  maps from byte strings to byte strings, one for each column family or named database, that can fail
  on every access and write a batch at once. The fields of \<open>kv_ops\<close> stand for them, \<open>kv_laws\<close> states
  what they document of their contents and \<open>kv_reliable\<close> that no access fails. The names of the
  families and the encodings of keys and values are \<^verbatim>\<open>storage/rocksdb/src/generic.rs\<close>, \<^verbatim>\<open>all.rs\<close> and their
  counterparts under \<^verbatim>\<open>storage/heed/src\<close>.
\<close>

section \<open>Databases\<close>

text \<open>\<open>kv_last\<close> is the entry with the greatest key.\<close>

record 'db kv_ops =
  kv_get :: "'db \<Rightarrow> string \<Rightarrow> bytes \<Rightarrow> string + bytes option"
  kv_write :: "'db \<Rightarrow> (string \<times> bytes \<times> bytes) list \<Rightarrow> string + 'db"
  kv_last :: "'db \<Rightarrow> string \<Rightarrow> string + (bytes \<times> bytes) option"

type_synonym contents = "string \<Rightarrow> bytes \<rightharpoonup> bytes"

definition kv_put :: "string \<times> bytes \<times> bytes \<Rightarrow> contents \<Rightarrow> contents" where
  "kv_put e m = (case e of (cf, k, v) \<Rightarrow> m(cf := (m cf)(k \<mapsto> v)))"

definition is_last :: "(bytes \<rightharpoonup> bytes) \<Rightarrow> (bytes \<times> bytes) option \<Rightarrow> bool" where
  "is_last m r =
     (case r of
        None \<Rightarrow> m = Map.empty
      | Some (k, v) \<Rightarrow> m k = Some v \<and> (\<forall>k' \<in> dom m. bytes_le k' k))"

definition kv_laws :: "'db kv_ops \<Rightarrow> ('db \<Rightarrow> contents) \<Rightarrow> bool" where
  "kv_laws kv content \<longleftrightarrow>
     (\<forall>db cf k v. kv_get kv db cf k = Inr v \<longrightarrow> v = content db cf k) \<and>
     (\<forall>db es db'. kv_write kv db es = Inr db' \<longrightarrow> content db' = fold kv_put es (content db)) \<and>
     (\<forall>db cf r. kv_last kv db cf = Inr r \<longrightarrow> is_last (content db cf) r)"

definition kv_reliable :: "'db kv_ops \<Rightarrow> bool" where
  "kv_reliable kv \<longleftrightarrow>
     (\<forall>db cf k. \<exists>v. kv_get kv db cf k = Inr v) \<and> (\<forall>db es. \<exists>db'. kv_write kv db es = Inr db') \<and>
     (\<forall>db cf. \<exists>r. kv_last kv db cf = Inr r)"

lemma kv_get_content:
  "kv_laws kv content \<Longrightarrow> kv_reliable kv \<Longrightarrow> kv_get kv db cf k = Inr (content db cf k)"
  unfolding kv_laws_def kv_reliable_def by metis

lemma kv_write_content:
  assumes "kv_laws kv content" "kv_reliable kv"
  obtains db' where "kv_write kv db es = Inr db'" "content db' = fold kv_put es (content db)"
  using assms unfolding kv_laws_def kv_reliable_def by metis

lemma kv_last_content:
  assumes "kv_laws kv content" "kv_reliable kv"
  obtains r where "kv_last kv db cf = Inr r" "is_last (content db cf) r"
  using assms unfolding kv_laws_def kv_reliable_def by metis

section \<open>Families\<close>

definition BLOCK_COLUMN_FAMILY :: string where "BLOCK_COLUMN_FAMILY = ''block''"
definition HEIGHT_COLUMN_FAMILY :: string where "HEIGHT_COLUMN_FAMILY = ''height''"
definition STATE_COLUMN_FAMILY :: string where "STATE_COLUMN_FAMILY = ''state''"
definition STATE_HEIGHT_COLUMN_FAMILY :: string where "STATE_HEIGHT_COLUMN_FAMILY = ''state_height''"
definition TRIE_COLUMN_FAMILY :: string where "TRIE_COLUMN_FAMILY = ''trie''"
definition TRIE_ROOT_COLUMN_FAMILY :: string where "TRIE_ROOT_COLUMN_FAMILY = ''trie_root''"
definition STORAGE_TRIE_COLUMN_FAMILY :: string where "STORAGE_TRIE_COLUMN_FAMILY = ''evm_storage_trie''"
definition STORAGE_ROOT_COLUMN_FAMILY :: string where "STORAGE_ROOT_COLUMN_FAMILY = ''evm_storage_trie_root''"
definition TRANSACTION_COLUMN_FAMILY :: string where "TRANSACTION_COLUMN_FAMILY = ''transaction''"
definition RECEIPT_COLUMN_FAMILY :: string where "RECEIPT_COLUMN_FAMILY = ''receipt''"
definition PAYLOAD_COLUMN_FAMILY :: string where "PAYLOAD_COLUMN_FAMILY = ''payload''"

lemmas family_defs = BLOCK_COLUMN_FAMILY_def HEIGHT_COLUMN_FAMILY_def STATE_COLUMN_FAMILY_def
  STATE_HEIGHT_COLUMN_FAMILY_def TRIE_COLUMN_FAMILY_def TRIE_ROOT_COLUMN_FAMILY_def
  STORAGE_TRIE_COLUMN_FAMILY_def STORAGE_ROOT_COLUMN_FAMILY_def TRANSACTION_COLUMN_FAMILY_def
  RECEIPT_COLUMN_FAMILY_def PAYLOAD_COLUMN_FAMILY_def

definition COLUMN_FAMILIES :: "string list" where
  "COLUMN_FAMILIES =
     [BLOCK_COLUMN_FAMILY, HEIGHT_COLUMN_FAMILY, STATE_COLUMN_FAMILY, STATE_HEIGHT_COLUMN_FAMILY,
      TRIE_COLUMN_FAMILY, TRIE_ROOT_COLUMN_FAMILY, STORAGE_TRIE_COLUMN_FAMILY, STORAGE_ROOT_COLUMN_FAMILY,
      TRANSACTION_COLUMN_FAMILY, RECEIPT_COLUMN_FAMILY, PAYLOAD_COLUMN_FAMILY]"

lemma families_distinct: "distinct COLUMN_FAMILIES"
  by (simp add: COLUMN_FAMILIES_def family_defs)

section \<open>Errors, keys and values\<close>

text \<open>An access returns an error of the database or panics.\<close>

datatype db_fault =
  KvError string
| KvPanic string

type_synonym 'a stored = "db_fault + 'a"

definition db_call :: "string + 'a \<Rightarrow> 'a stored" where
  "db_call r = map_err KvError r"

definition db_unwrap :: "panic + 'a \<Rightarrow> 'a stored" where
  "db_unwrap r = map_err (\<lambda>p. case p of Panic m \<Rightarrow> KvPanic m) r"

definition try_into_unwrap :: "nat \<Rightarrow> bytes \<Rightarrow> bytes stored" where
  "try_into_unwrap n bs =
     (if length bs = n then Inr bs else Inl (KvPanic ''called Result::unwrap() on an Err value''))"

definition u64_to_key :: "u64 \<Rightarrow> bytes" where
  "u64_to_key n = be_bytes 8 n"

definition u64_from_key :: "bytes \<Rightarrow> u64 stored" where
  "u64_from_key bs = rbind (try_into_unwrap 8 bs) (\<lambda>bs. Inr (from_be_bytes bs))"

text \<open>Values are stored in the JSON form of \<open>serde_json\<close>.\<close>

record codec =
  cd_block :: "extended_block \<Rightarrow> bytes"
  cd_block_of :: "bytes \<Rightarrow> string + extended_block"
  cd_transaction :: "extended_transaction \<Rightarrow> bytes"
  cd_transaction_of :: "bytes \<Rightarrow> string + extended_transaction"
  cd_receipt :: "extended_receipt \<Rightarrow> bytes"
  cd_receipt_of :: "bytes \<Rightarrow> string + extended_receipt"

section \<open>The order of keys\<close>

lemma le_bytes_snoc: "le_bytes (Suc n) w = le_bytes n w @ [ucast (drop_bit (8 * n) w)]"
proof (induction n arbitrary: w)
  case (Suc n)
  show ?case by (subst le_bytes.simps(2), subst Suc) (simp add: add.commute)
qed simp

lemma be_bytes_Suc: "be_bytes (Suc n) w = ucast (drop_bit (8 * n) w) # be_bytes n w"
  unfolding be_bytes_def le_bytes_snoc by simp

lemma lex_arith:
  fixes a b c d k :: nat
  assumes "c < k" "d < k"
  shows "a * k + c \<le> b * k + d \<longleftrightarrow> a < b \<or> a = b \<and> c \<le> d"
proof (cases "a = b")
  case False
  then consider "a < b" | "b < a" by linarith
  then show ?thesis
  proof cases
    case 1
    then have "Suc a * k \<le> b * k" by (intro mult_le_mono1) simp
    with 1 assms show ?thesis by simp
  next
    case 2
    then have "Suc b * k \<le> a * k" by (intro mult_le_mono1) simp
    with 2 assms show ?thesis by simp
  qed
qed simp

lemma byte_split:
  "take_bit (8 * Suc n) (unat w) = unat (ucast (drop_bit (8 * n) w) :: u8) * 2 ^ (8 * n) + take_bit (8 * n) (unat w)"
  for w :: u64
proof -
  have "unat (ucast (drop_bit (8 * n) w) :: u8) = unat w div 2 ^ (8 * n) mod 2 ^ 8"
    unfolding unsigned_ucast_eq unat_drop_bit_eq by (simp add: take_bit_eq_mod drop_bit_eq_div)
  moreover have "unat w mod (2 ^ (8 * n) * 2 ^ 8) = 2 ^ (8 * n) * (unat w div 2 ^ (8 * n) mod 2 ^ 8) + unat w mod 2 ^ (8 * n)"
    by (rule mod_mult2_eq)
  ultimately show ?thesis by (simp add: take_bit_eq_mod power_add mult.commute)
qed

lemma bytes_le_be_bytes:
  fixes x y :: u64
  shows "bytes_le (be_bytes n x) (be_bytes n y) \<longleftrightarrow> take_bit (8 * n) (unat x) \<le> take_bit (8 * n) (unat y)"
proof (induction n)
  case 0
  then show ?case by (simp add: be_bytes_def)
next
  case (Suc n)
  let ?b = "\<lambda>w :: u64. ucast (drop_bit (8 * n) w) :: u8"
  have "take_bit (8 * n) (unat w) < 2 ^ (8 * n)" for w :: u64 by simp
  from lex_arith [OF this [of x] this [of y], of "unat (?b x)" "unat (?b y)"] show ?case
    by (simp add: be_bytes_Suc Suc byte_split word_less_nat_alt word_unat_eq_iff del: mult_Suc_right)
qed

lemma key_order: "bytes_le (u64_to_key x) (u64_to_key y) \<longleftrightarrow> x \<le> y"
proof -
  have "take_bit 64 (unat n) = unat n" for n :: u64
    using unsigned_less [of n, where 'a = nat] by (intro take_bit_nat_eq_self) simp
  then show ?thesis by (simp add: u64_to_key_def bytes_le_be_bytes word_le_nat_alt)
qed

lemma key_roundtrip [simp]: "u64_from_key (u64_to_key n) = Inr n"
proof -
  have "take_bit 64 n = n" by (simp add: take_bit_word_eq_self)
  then show ?thesis
    by (simp add: u64_from_key_def u64_to_key_def try_into_unwrap_def from_be_bytes_def be_bytes_def
        from_le_bytes_le_bytes)
qed

lemma key_inj [simp]: "u64_to_key m = u64_to_key n \<longleftrightarrow> m = n"
  by (metis key_roundtrip sum.inject(2))

section \<open>An example database\<close>

text \<open>A database that is the list of its writes.\<close>

definition example_content :: "(string \<times> bytes \<times> bytes) list \<Rightarrow> contents" where
  "example_content db = fold kv_put db (\<lambda>_. Map.empty)"

fun greatest :: "bytes list \<Rightarrow> bytes option" where
  "greatest [] = None"
| "greatest (k # ks) = (case greatest ks of None \<Rightarrow> Some k | Some g \<Rightarrow> Some (if bytes_le k g then g else k))"

definition example_kv :: "(string \<times> bytes \<times> bytes) list kv_ops" where
  "example_kv =
     \<lparr>kv_get = (\<lambda>db cf k. Inr (example_content db cf k)), kv_write = (\<lambda>db es. Inr (db @ es)),
      kv_last = (\<lambda>db cf. Inr (Option.bind (greatest (map (fst \<circ> snd) (filter (\<lambda>e. fst e = cf) db)))
        (\<lambda>k. map_option (Pair k) (example_content db cf k))))\<rparr>"

lemma bytes_le_total: "bytes_le xs ys \<or> bytes_le ys xs"
  by (induction xs ys rule: bytes_le.induct) auto

lemma bytes_le_trans: "bytes_le xs ys \<Longrightarrow> bytes_le ys zs \<Longrightarrow> bytes_le xs zs"
proof (induction xs ys arbitrary: zs rule: bytes_le.induct)
  case (3 x xs y ys)
  then show ?case by (cases zs) auto
qed auto

lemma greatest_None: "greatest ks = None \<longleftrightarrow> ks = []"
  by (cases ks) (auto split: option.splits)

lemma greatest_Some: "greatest ks = Some g \<Longrightarrow> g \<in> set ks \<and> (\<forall>k \<in> set ks. bytes_le k g)"
proof (induction ks arbitrary: g)
  case (Cons k ks)
  show ?case
  proof (cases "greatest ks")
    case None
    with Cons.prems show ?thesis by (simp add: greatest_None)
  next
    case (Some g')
    have IH: "g' \<in> set ks" "\<And>k. k \<in> set ks \<Longrightarrow> bytes_le k g'" using Cons.IH [OF Some] by simp_all
    show ?thesis
    proof (cases "bytes_le k g'")
      case True
      with Cons.prems Some IH show ?thesis by simp
    next
      case False
      then have "bytes_le g' k" using bytes_le_total by blast
      with Cons.prems Some False IH(2) bytes_le_trans show ?thesis by auto
    qed
  qed
qed simp

lemma dom_fold_kv_put: "dom (fold kv_put db m cf) = dom (m cf) \<union> (fst \<circ> snd) ` {e \<in> set db. fst e = cf}"
proof (induction db arbitrary: m)
  case (Cons e db)
  obtain c k v where e: "e = (c, k, v)" by (cases e) auto
  have "dom (kv_put e m cf) = dom (m cf) \<union> (if c = cf then {k} else {})" by (simp add: e kv_put_def)
  moreover have "{x \<in> set (e # db). fst x = cf} = {x \<in> set db. fst x = cf} \<union> (if c = cf then {e} else {})"
    by (auto simp: e)
  ultimately show ?case using Cons.IH [of "kv_put e m"] by (simp add: e Un_ac image_Un)
qed simp

lemma example_kv_laws: "kv_laws example_kv example_content" "kv_reliable example_kv"
proof -
  have "is_last (example_content db cf) (Option.bind (greatest (map (fst \<circ> snd) (filter (\<lambda>e. fst e = cf) db)))
      (\<lambda>k. map_option (Pair k) (example_content db cf k)))" for db cf
  proof -
    let ?ks = "map (fst \<circ> snd) (filter (\<lambda>e. fst e = cf) db)"
    have dom: "dom (example_content db cf) = set ?ks" by (auto simp: example_content_def dom_fold_kv_put)
    show ?thesis
    proof (cases "greatest ?ks")
      case None
      then show ?thesis using dom by (simp add: greatest_None is_last_def)
    next
      case (Some g)
      then have g: "g \<in> set ?ks" "\<And>k. k \<in> set ?ks \<Longrightarrow> bytes_le k g" using greatest_Some by blast+
      then obtain v where "example_content db cf g = Some v" using dom by blast
      moreover have "\<forall>k \<in> dom (example_content db cf). bytes_le k g" using g(2) dom by blast
      ultimately show ?thesis using Some by (simp add: is_last_def)
    qed
  qed
  then show "kv_laws example_kv example_content"
    by (simp add: kv_laws_def example_kv_def example_content_def)
  show "kv_reliable example_kv" by (simp add: kv_reliable_def example_kv_def)
qed

end
