(* ===== verification/Rocks_Store.thy ===== *)
theory Rocks_Store
  imports Kv_Store App_Queries
begin

text \<open>
  The persistent stores on RocksDB: \<^verbatim>\<open>storage/rocksdb/src/block.rs\<close>, \<^verbatim>\<open>transaction.rs\<close>, \<^verbatim>\<open>receipt.rs\<close>,
  \<^verbatim>\<open>payload.rs\<close>, \<^verbatim>\<open>state.rs\<close>, \<^verbatim>\<open>trie.rs\<close> and \<^verbatim>\<open>evm_storage_trie.rs\<close>. A family that is missing panics; the
  families exist from the opening of the database on, and so does every access here.
\<close>

section \<open>Values\<close>

definition rocks_from_value :: "(bytes \<Rightarrow> string + 'a) \<Rightarrow> bytes \<Rightarrow> 'a stored" where
  "rocks_from_value dec bs = map_err KvPanic (dec bs)"

text \<open>A value by its key, decoded when it is there.\<close>

definition rocks_get ::
  "'db kv_ops \<Rightarrow> (bytes \<Rightarrow> 'a stored) \<Rightarrow> 'db \<Rightarrow> string \<Rightarrow> bytes \<Rightarrow> 'a option stored" where
  "rocks_get kv dec db cf k =
     rbind (db_call (kv_get kv db cf k)) (\<lambda>v.
     case v of None \<Rightarrow> Inr None | Some bs \<Rightarrow> rbind (dec bs) (\<lambda>x. Inr (Some x)))"

abbreviation b256_from :: "bytes \<Rightarrow> b256 stored" where
  "b256_from \<equiv> try_into_unwrap 32"

section \<open>Blocks\<close>

definition rocks_block_entries :: "codec \<Rightarrow> extended_block \<Rightarrow> (string \<times> bytes \<times> bytes) list" where
  "rocks_block_entries cd b =
     [(BLOCK_COLUMN_FAMILY, eb_hash b, cd_block cd b),
      (HEIGHT_COLUMN_FAMILY, u64_to_key (number_of b), eb_hash b)]"

definition rocks_block_add :: "'db kv_ops \<Rightarrow> codec \<Rightarrow> extended_block \<Rightarrow> 'db \<Rightarrow> 'db stored" where
  "rocks_block_add kv cd b db = db_call (kv_write kv db (rocks_block_entries cd b))"

definition rocks_block_by_hash :: "'db kv_ops \<Rightarrow> codec \<Rightarrow> 'db \<Rightarrow> b256 \<Rightarrow> extended_block option stored" where
  "rocks_block_by_hash kv cd db h = rocks_get kv (rocks_from_value (cd_block_of cd)) db BLOCK_COLUMN_FAMILY h"

definition rocks_block_latest :: "'db kv_ops \<Rightarrow> codec \<Rightarrow> 'db \<Rightarrow> extended_block option stored" where
  "rocks_block_latest kv cd db =
     rbind (db_call (kv_last kv db HEIGHT_COLUMN_FAMILY)) (\<lambda>e.
     case e of
       None \<Rightarrow> Inr None
     | Some (_, h) \<Rightarrow> rbind (b256_from h) (rocks_block_by_hash kv cd db))"

text \<open>The transactions that are there, in the order of their hashes.\<close>

definition rocks_transactions ::
  "'db kv_ops \<Rightarrow> codec \<Rightarrow> 'db \<Rightarrow> b256 list \<Rightarrow> extended_transaction list stored" where
  "rocks_transactions kv cd db hs =
     rbind (collect_result (map (rocks_get kv (rocks_from_value (cd_transaction_of cd)) db TRANSACTION_COLUMN_FAMILY) hs))
       (\<lambda>ts. Inr (filter_map (\<lambda>t. t) ts))"

definition rocks_query_by_hash ::
  "'db kv_ops \<Rightarrow> codec \<Rightarrow> tx_ops \<Rightarrow> 'db \<Rightarrow> b256 \<Rightarrow> bool \<Rightarrow> block_response option stored" where
  "rocks_query_by_hash kv cd ops db h include_transactions =
     rbind (rocks_block_by_hash kv cd db h) (\<lambda>r.
     case r of
       None \<Rightarrow> Inr None
     | Some b \<Rightarrow>
         if include_transactions
         then rbind (rocks_transactions kv cd db (transaction_hashes b)) (\<lambda>txs.
              rbind (db_unwrap (from_block_with_transactions ops b txs)) (\<lambda>x. Inr (Some x)))
         else Inr (Some (from_block_with_transaction_hashes b)))"

definition rocks_query_by_height ::
  "'db kv_ops \<Rightarrow> codec \<Rightarrow> tx_ops \<Rightarrow> 'db \<Rightarrow> u64 \<Rightarrow> bool \<Rightarrow> block_response option stored" where
  "rocks_query_by_height kv cd ops db n include_transactions =
     rbind (rocks_get kv b256_from db HEIGHT_COLUMN_FAMILY (u64_to_key n)) (\<lambda>r.
     case r of
       None \<Rightarrow> Inr None
     | Some h \<Rightarrow> rocks_query_by_hash kv cd ops db h include_transactions)"

definition rocks_query_latest :: "'db kv_ops \<Rightarrow> 'db \<Rightarrow> u64 option stored" where
  "rocks_query_latest kv db =
     rbind (db_call (kv_last kv db HEIGHT_COLUMN_FAMILY)) (\<lambda>e.
     case e of None \<Rightarrow> Inr None | Some (k, _) \<Rightarrow> rbind (u64_from_key k) (\<lambda>n. Inr (Some n)))"

section \<open>Transactions and receipts\<close>

definition rocks_transaction_extend ::
  "'db kv_ops \<Rightarrow> codec \<Rightarrow> (op_tx_envelope \<Rightarrow> b256) \<Rightarrow> extended_transaction list \<Rightarrow> 'db \<Rightarrow> 'db stored" where
  "rocks_transaction_extend kv cd trie_hash txs db =
     db_call (kv_write kv db (map (\<lambda>t. (TRANSACTION_COLUMN_FAMILY, tx_hash trie_hash t, cd_transaction cd t)) txs))"

definition rocks_transaction_by_hash ::
  "'db kv_ops \<Rightarrow> codec \<Rightarrow> tx_ops \<Rightarrow> 'db \<Rightarrow> b256 \<Rightarrow> transaction_response option stored" where
  "rocks_transaction_by_hash kv cd ops db h =
     rocks_get kv (\<lambda>bs. rbind (rocks_from_value (cd_transaction_of cd) bs)
       (\<lambda>t. db_unwrap (transaction_response_from ops t))) db TRANSACTION_COLUMN_FAMILY h"

definition rocks_receipt_contains :: "'db kv_ops \<Rightarrow> 'db \<Rightarrow> b256 \<Rightarrow> bool stored" where
  "rocks_receipt_contains kv db h =
     rbind (db_call (kv_get kv db RECEIPT_COLUMN_FAMILY h)) (\<lambda>v. Inr (v \<noteq> None))"

definition rocks_receipt_extend ::
  "'db kv_ops \<Rightarrow> codec \<Rightarrow> extended_receipt list \<Rightarrow> 'db \<Rightarrow> 'db stored" where
  "rocks_receipt_extend kv cd rs db =
     db_call (kv_write kv db (map (\<lambda>r. (RECEIPT_COLUMN_FAMILY, er_transaction_hash r, cd_receipt cd r)) rs))"

definition rocks_receipt_by_transaction_hash ::
  "'db kv_ops \<Rightarrow> codec \<Rightarrow> 'db \<Rightarrow> b256 \<Rightarrow> transaction_receipt option stored" where
  "rocks_receipt_by_transaction_hash kv cd db h =
     rocks_get kv (\<lambda>bs. rbind (rocks_from_value (cd_receipt_of cd) bs)
       (\<lambda>r. db_unwrap (transaction_receipt_from r))) db RECEIPT_COLUMN_FAMILY h"

section \<open>Payloads\<close>

definition rocks_add_block_hash :: "'db kv_ops \<Rightarrow> payload_id \<Rightarrow> b256 \<Rightarrow> 'db \<Rightarrow> 'db stored" where
  "rocks_add_block_hash kv i h db = db_call (kv_write kv db [(PAYLOAD_COLUMN_FAMILY, u64_to_key i, h)])"

definition rocks_payload_by_hash ::
  "'db kv_ops \<Rightarrow> codec \<Rightarrow> (op_tx_envelope \<Rightarrow> bytes) \<Rightarrow> 'db \<Rightarrow> b256 \<Rightarrow> payload_response option stored" where
  "rocks_payload_by_hash kv cd encode_2718 db h =
     rbind (rocks_block_by_hash kv cd db h) (\<lambda>r.
     case r of
       None \<Rightarrow> Inr None
     | Some b \<Rightarrow>
         rbind (rocks_transactions kv cd db (transaction_hashes b)) (\<lambda>txs.
         Inr (Some (payload_response_from encode_2718 b (map et_inner txs)))))"

definition rocks_payload_by_id ::
  "'db kv_ops \<Rightarrow> codec \<Rightarrow> (op_tx_envelope \<Rightarrow> bytes) \<Rightarrow> 'db \<Rightarrow> payload_id \<Rightarrow> payload_response option stored" where
  "rocks_payload_by_id kv cd encode_2718 db i =
     rbind (rocks_get kv b256_from db PAYLOAD_COLUMN_FAMILY (u64_to_key i)) (\<lambda>r.
     case r of None \<Rightarrow> Inr None | Some h \<Rightarrow> rocks_payload_by_hash kv cd encode_2718 db h)"

section \<open>Trie nodes\<close>

definition ROOT_KEY :: bytes where
  "ROOT_KEY = map of_char ''trie_root''"

definition rocks_trie_root :: "'db kv_ops \<Rightarrow> 'db \<Rightarrow> b256 option stored" where
  "rocks_trie_root kv db = rocks_get kv b256_from db TRIE_ROOT_COLUMN_FAMILY ROOT_KEY"

definition rocks_trie_put_root :: "'db kv_ops \<Rightarrow> b256 \<Rightarrow> 'db \<Rightarrow> 'db stored" where
  "rocks_trie_put_root kv root db = db_call (kv_write kv db [(TRIE_ROOT_COLUMN_FAMILY, ROOT_KEY, root)])"

definition rocks_trie_get :: "'db kv_ops \<Rightarrow> 'db \<Rightarrow> bytes \<Rightarrow> bytes option stored" where
  "rocks_trie_get kv db k = db_call (kv_get kv db TRIE_COLUMN_FAMILY k)"

definition rocks_trie_insert :: "'db kv_ops \<Rightarrow> bytes \<Rightarrow> bytes \<Rightarrow> 'db \<Rightarrow> 'db stored" where
  "rocks_trie_insert kv k v db = db_call (kv_write kv db [(TRIE_COLUMN_FAMILY, k, v)])"

definition rocks_trie_insert_batch :: "'db kv_ops \<Rightarrow> bytes list \<Rightarrow> bytes list \<Rightarrow> 'db \<Rightarrow> 'db stored" where
  "rocks_trie_insert_batch kv ks vs db =
     db_call (kv_write kv db (map (\<lambda>(k, v). (TRIE_COLUMN_FAMILY, k, v)) (zip ks vs)))"

text \<open>Nothing is removed, to keep the nodes of earlier states.\<close>

definition rocks_trie_remove :: "bytes \<Rightarrow> 'db \<Rightarrow> 'db stored" where
  "rocks_trie_remove k db = Inr db"

text \<open>The tries of the storage of EVM accounts share a family; \<open>unique_key\<close> keeps them apart.\<close>

definition unique_key :: "address \<Rightarrow> bytes \<Rightarrow> bytes" where
  "unique_key account k = account @ k"

definition rocks_storage_root :: "'db kv_ops \<Rightarrow> address \<Rightarrow> 'db \<Rightarrow> b256 option stored" where
  "rocks_storage_root kv account db = rocks_get kv b256_from db STORAGE_ROOT_COLUMN_FAMILY account"

definition rocks_storage_put_root :: "'db kv_ops \<Rightarrow> address \<Rightarrow> b256 \<Rightarrow> 'db \<Rightarrow> 'db stored" where
  "rocks_storage_put_root kv account root db =
     db_call (kv_write kv db [(STORAGE_ROOT_COLUMN_FAMILY, account, root)])"

definition rocks_storage_get :: "'db kv_ops \<Rightarrow> address \<Rightarrow> 'db \<Rightarrow> bytes \<Rightarrow> bytes option stored" where
  "rocks_storage_get kv account db k = db_call (kv_get kv db STORAGE_TRIE_COLUMN_FAMILY (unique_key account k))"

definition rocks_storage_insert :: "'db kv_ops \<Rightarrow> address \<Rightarrow> bytes \<Rightarrow> bytes \<Rightarrow> 'db \<Rightarrow> 'db stored" where
  "rocks_storage_insert kv account k v db =
     db_call (kv_write kv db [(STORAGE_TRIE_COLUMN_FAMILY, unique_key account k, v)])"

definition rocks_storage_insert_batch ::
  "'db kv_ops \<Rightarrow> address \<Rightarrow> bytes list \<Rightarrow> bytes list \<Rightarrow> 'db \<Rightarrow> 'db stored" where
  "rocks_storage_insert_batch kv account ks vs db =
     db_call (kv_write kv db (map (\<lambda>(k, v). (STORAGE_TRIE_COLUMN_FAMILY, unique_key account k, v)) (zip ks vs)))"

definition rocks_storage_remove :: "address \<Rightarrow> bytes \<Rightarrow> 'db \<Rightarrow> 'db stored" where
  "rocks_storage_remove account k db = Inr db"

section \<open>The state\<close>

text \<open>The root is kept in memory and in the database; the resolver reads the tree of the last changes.\<close>

record 'db rocks_state =
  rk_db :: 'db
  rk_resolver :: resolver
  rk_state_root :: "b256 option"

text \<open>\<open>EthTrie::from_opt_root\<close>.\<close>

definition from_opt_root ::
  "('k, 'db, 't, 'r, 'tc) state_ops \<Rightarrow> 'db \<Rightarrow> b256 option \<Rightarrow> 't stored" where
  "from_opt_root so db root = map_err (\<lambda>_. KvPanic ''Root node should exist'') (so_open so db root)"

definition db_expect :: "string \<Rightarrow> 'a stored \<Rightarrow> 'a stored" where
  "db_expect m r = map_err (\<lambda>f. case f of KvError _ \<Rightarrow> KvPanic m | KvPanic p \<Rightarrow> KvPanic p) r"

definition rocks_state_new ::
  "'db kv_ops \<Rightarrow> ('k, 'db, 't, 'r, 'tc) state_ops \<Rightarrow> 'db \<Rightarrow> 'db rocks_state stored" where
  "rocks_state_new kv so db =
     rbind (db_expect ''Database should be able to fetch state root'' (rocks_trie_root kv db)) (\<lambda>root.
     rbind (from_opt_root so db root) (\<lambda>t.
     Inr \<lparr>rk_db = db, rk_resolver = eth_trie_resolver so db t, rk_state_root = root\<rparr>))"

definition persist_state_root :: "'db kv_ops \<Rightarrow> 'db rocks_state \<Rightarrow> 'db rocks_state stored" where
  "persist_state_root kv st =
     (case rk_state_root st of
        None \<Rightarrow> Inr st
      | Some root \<Rightarrow> rbind (rocks_trie_put_root kv root (rk_db st)) (\<lambda>db. Inr (st\<lparr>rk_db := db\<rparr>)))"

text \<open>An error of the trie is returned, with the state as it was; a root that cannot be stored panics.\<close>

definition rocks_state_apply ::
  "'db kv_ops \<Rightarrow> ('k, 'db, 't, 'r, 'tc) state_ops \<Rightarrow> change_set \<Rightarrow> 'db rocks_state \<Rightarrow> 'db rocks_state stored" where
  "rocks_state_apply kv so cs st =
     rbind (from_opt_root so (rk_db st) (rk_state_root st)) (\<lambda>t.
     rbind (db_unwrap (to_tree_values so cs)) (\<lambda>vals.
     rbind (db_call (insert_all so (rk_db st) (so_order so vals) t)) (\<lambda>t'.
     rbind (db_call (so_root_hash so (rk_db st) t')) (\<lambda>(root, db).
     db_expect ''called Result::unwrap() on an Err value''
       (persist_state_root kv \<lparr>rk_db = db, rk_resolver = eth_trie_resolver so db t', rk_state_root = Some root\<rparr>)))))"

definition rocks_state_root :: "'db rocks_state \<Rightarrow> b256" where
  "rocks_state_root st = unwrap_or (rk_state_root st) (replicate 32 0)"

section \<open>The history of the state\<close>

definition HEIGHT_KEY :: bytes where
  "HEIGHT_KEY = map of_char ''state_height''"

definition rocks_height :: "'db kv_ops \<Rightarrow> 'db \<Rightarrow> u64 stored" where
  "rocks_height kv db =
     rbind (rocks_get kv u64_from_key db STATE_HEIGHT_COLUMN_FAMILY HEIGHT_KEY) (\<lambda>h. Inr (unwrap_or h 0))"

definition rocks_push_state_root :: "'db kv_ops \<Rightarrow> b256 \<Rightarrow> 'db \<Rightarrow> 'db stored" where
  "rocks_push_state_root kv root db =
     rbind (rocks_height kv db) (\<lambda>h.
     db_call (kv_write kv db
       [(STATE_COLUMN_FAMILY, u64_to_key (h + 1), root),
        (STATE_HEIGHT_COLUMN_FAMILY, HEIGHT_KEY, u64_to_key (h + 1))]))"

definition rocks_root_by_height :: "'db kv_ops \<Rightarrow> b256 \<Rightarrow> 'db \<Rightarrow> u64 \<Rightarrow> b256 option stored" where
  "rocks_root_by_height kv genesis_root db h =
     (if h = 0 then Inr (Some genesis_root)
      else rocks_get kv b256_from db STATE_COLUMN_FAMILY (u64_to_key h))"

text \<open>A height without a root is read from a new, empty trie.\<close>

definition rocks_tree ::
  "'db kv_ops \<Rightarrow> ('k, 'db, 't, 'r, 'tc) state_ops \<Rightarrow> b256 \<Rightarrow> 'db \<Rightarrow> u64 \<Rightarrow> 't stored" where
  "rocks_tree kv so genesis_root db h =
     rbind (rocks_root_by_height kv genesis_root db h) (\<lambda>r.
     case r of
       Some root \<Rightarrow> map_err (\<lambda>_. KvPanic ''State root should be valid'') (so_open so db (Some root))
     | None \<Rightarrow> map_err KvPanic (so_open so db None))"

definition rocks_resolver ::
  "'db kv_ops \<Rightarrow> ('k, 'db, 't, 'r, 'tc) state_ops \<Rightarrow> b256 \<Rightarrow> 'db \<Rightarrow> u64 \<Rightarrow> resolver stored" where
  "rocks_resolver kv so genesis_root db h =
     rbind (rocks_tree kv so genesis_root db h) (\<lambda>t. Inr (eth_trie_resolver so db t))"

text \<open>\<open>.ok()?\<close>: an error of the database is \<open>None\<close>, a panic stays one.\<close>

definition stored_ok :: "'a stored \<Rightarrow> panic + 'a option" where
  "stored_ok r =
     (case r of Inr x \<Rightarrow> Inr (Some x) | Inl (KvError _) \<Rightarrow> Inr None | Inl (KvPanic m) \<Rightarrow> Inl (Panic m))"

definition rocks_balance_at ::
  "'db kv_ops \<Rightarrow> ('k, 'db, 't, 'r, 'tc) state_ops \<Rightarrow> b256 \<Rightarrow> 's vm_ops \<Rightarrow> (resolver \<Rightarrow> 'es \<Rightarrow> 's) \<Rightarrow> 'db
     \<Rightarrow> 'es \<Rightarrow> account_address \<Rightarrow> u64 \<Rightarrow> panic + u256 option" where
  "rocks_balance_at kv so genesis_root vm new_session db evm_storage account h =
     rbind (stored_ok (rocks_resolver kv so genesis_root db h)) (\<lambda>r.
     case r of
       None \<Rightarrow> Inr None
     | Some res \<Rightarrow> rbind (quick_get_eth_balance vm (new_session res evm_storage) account) (\<lambda>b. Inr (Some b)))"

definition rocks_nonce_at ::
  "'db kv_ops \<Rightarrow> ('k, 'db, 't, 'r, 'tc) state_ops \<Rightarrow> b256 \<Rightarrow> 's vm_ops \<Rightarrow> (resolver \<Rightarrow> 'es \<Rightarrow> 's) \<Rightarrow> 'db
     \<Rightarrow> 'es \<Rightarrow> account_address \<Rightarrow> u64 \<Rightarrow> panic + u64 option" where
  "rocks_nonce_at kv so genesis_root vm new_session db evm_storage account h =
     rbind (stored_ok (rocks_resolver kv so genesis_root db h)) (\<lambda>r.
     case r of
       None \<Rightarrow> Inr None
     | Some res \<Rightarrow> rbind (quick_get_nonce vm (new_session res evm_storage) account) (\<lambda>n. Inr (Some n)))"

definition rocks_proof_at ::
  "'db kv_ops \<Rightarrow> ('k, 'db, 't, 'r, 'tc) state_ops \<Rightarrow> b256 \<Rightarrow> 'u evm_ops \<Rightarrow> ('db \<Rightarrow> 't \<Rightarrow> bytes \<Rightarrow> string + bytes list)
     \<Rightarrow> (nodes \<Rightarrow> 'u \<Rightarrow> bytes \<Rightarrow> string + bytes list) \<Rightarrow> 'db \<Rightarrow> repository \<Rightarrow> account_address
     \<Rightarrow> u256 list \<Rightarrow> u64 \<Rightarrow> panic + proof_response option" where
  "rocks_proof_at kv so genesis_root eo tree_proof slot_proof db repo account slots h =
     (let a = to_eth_address account
      in if \<not> is_l2_contract a then Inr None
         else
           rbind (stored_ok (rocks_tree kv so genesis_root db h)) (\<lambda>t.
           case t of
             None \<Rightarrow> Inr None
           | Some t \<Rightarrow>
               rbind (stored_ok (rocks_resolver kv so genesis_root db h)) (\<lambda>r.
               case r of
                 None \<Rightarrow> Inr None
               | Some res \<Rightarrow>
                   proof_from_trie_and_resolver eo slot_proof a slots
                     (tree_proof db t (key_hash so (EvmKey a))) res repo)))"

definition rocks_resolver_at ::
  "'db kv_ops \<Rightarrow> ('k, 'db, 't, 'r, 'tc) state_ops \<Rightarrow> b256 \<Rightarrow> 'db \<Rightarrow> u64 \<Rightarrow> panic + resolver" where
  "rocks_resolver_at kv so genesis_root db h =
     (case rocks_resolver kv so genesis_root db h of
        Inr res \<Rightarrow> Inr res
      | Inl (KvError _) \<Rightarrow> Inl (Panic ''called Result::unwrap() on an Err value'')
      | Inl (KvPanic m) \<Rightarrow> Inl (Panic m))"

end
