(* ===== verification/Chain_Backend.thy ===== *)
theory Chain_Backend
  imports Kv_Store
begin

text \<open>
  The contract of a persistent store of blocks and transactions, the traits \<open>BlockRepository\<close>,
  \<open>BlockQueries\<close>, \<open>TransactionRepository\<close> and \<open>PayloadQueries\<close> of \<^verbatim>\<open>blockchain/src\<close>: a relation between
  databases and the memory of the node that the writes of a block keep and under which every query
  answers as the memory does. What holds for one block then holds for every chain of blocks.
\<close>

section \<open>Chains\<close>

type_synonym chain_entry = "extended_block \<times> extended_transaction list"

definition memory_write ::
  "(op_tx_envelope \<Rightarrow> b256) \<Rightarrow> chain_entry \<Rightarrow> shared_memory \<Rightarrow> shared_memory" where
  "memory_write th = (\<lambda>(b, txs) mem.
     \<lparr>sm_blocks = repository_add b (sm_blocks mem),
      sm_transactions = transaction_memory_extend th txs (sm_transactions mem)\<rparr>)"

text \<open>A block that can be appended: it has the next number, a new hash, and new transactions.\<close>

definition appendable ::
  "picks \<Rightarrow> (op_tx_envelope \<Rightarrow> b256) \<Rightarrow> chain_entry \<Rightarrow> shared_memory \<Rightarrow> bool" where
  "appendable pk th = (\<lambda>(b, txs) mem.
     unat (number_of b) = em_len (bm_heights (sm_blocks mem)) \<and>
     Suc (em_len (bm_heights (sm_blocks mem))) < 2 ^ 64 \<and>
     by_hash (pk_block pk) (sm_blocks mem) (eb_hash b) = None \<and> length (eb_hash b) = 32 \<and>
     distinct (map (tx_hash th) txs) \<and>
     list_all (\<lambda>t. transaction_by_hash (pk_tx pk) (sm_transactions mem) (tx_hash th t) = None) txs)"

fun appendable_all ::
  "picks \<Rightarrow> (op_tx_envelope \<Rightarrow> b256) \<Rightarrow> chain_entry list \<Rightarrow> shared_memory \<Rightarrow> bool" where
  "appendable_all pk th [] mem = True"
| "appendable_all pk th (e # es) mem =
     (appendable pk th e mem \<and> appendable_all pk th es (memory_write th e mem))"

text \<open>The order of \<open>start_block_build\<close>: the transactions of a block are stored before the block.\<close>

fun write_all ::
  "(extended_transaction list \<Rightarrow> 'db \<Rightarrow> 'db stored) \<Rightarrow> (extended_block \<Rightarrow> 'db \<Rightarrow> 'db stored)
     \<Rightarrow> chain_entry list \<Rightarrow> 'db \<Rightarrow> 'db stored" where
  "write_all store_txs store_block [] db = Inr db"
| "write_all store_txs store_block ((b, txs) # es) db =
     rbind (store_txs txs db) (\<lambda>db. rbind (store_block b db) (write_all store_txs store_block es))"

section \<open>The contract\<close>

locale chain_backend =
  fixes pk :: picks
    and th :: "op_tx_envelope \<Rightarrow> b256"
    and ops :: tx_ops
    and enc :: "op_tx_envelope \<Rightarrow> bytes"
    and storable :: "chain_entry \<Rightarrow> bool"
    and rel :: "'db \<Rightarrow> shared_memory \<Rightarrow> bool"
    and store_txs :: "extended_transaction list \<Rightarrow> 'db \<Rightarrow> 'db stored"
    and store_block :: "extended_block \<Rightarrow> 'db \<Rightarrow> 'db stored"
    and find_by_hash :: "'db \<Rightarrow> b256 \<Rightarrow> bool \<Rightarrow> block_response option stored"
    and find_by_height :: "'db \<Rightarrow> u64 \<Rightarrow> bool \<Rightarrow> block_response option stored"
    and latest_height :: "'db \<Rightarrow> u64 option stored"
    and latest_block :: "'db \<Rightarrow> extended_block option stored"
    and find_payload :: "'db \<Rightarrow> b256 \<Rightarrow> payload_response option stored"
  assumes rel_write: "rel db mem \<Longrightarrow> appendable pk th e mem \<Longrightarrow> storable e \<Longrightarrow>
      \<exists>db' db''. store_txs (snd e) db = Inr db' \<and> store_block (fst e) db' = Inr db'' \<and> rel db'' (memory_write th e mem)"
    and rel_hash: "rel db mem \<Longrightarrow> find_by_hash db h inc = db_unwrap (query_by_hash ops pk mem h inc)"
    and rel_height: "rel db mem \<Longrightarrow> find_by_height db n inc = db_unwrap (query_by_height ops pk mem n inc)"
    and rel_latest: "rel db mem \<Longrightarrow> latest_height db = Inr (query_latest mem)"
    and rel_latest_block: "rel db mem \<Longrightarrow> latest_block db = Inr (repository_latest (pk_block pk) (sm_blocks mem))"
    and rel_payload: "rel db mem \<Longrightarrow> find_payload db h = Inr (payload_by_hash enc pk mem h)"
begin

lemma write_all_rel:
  assumes "rel db mem" "appendable_all pk th es mem" "list_all storable es"
  shows "\<exists>db'. write_all store_txs store_block es db = Inr db' \<and> rel db' (fold (memory_write th) es mem)"
  using assms
proof (induction es arbitrary: db mem)
  case (Cons e es)
  obtain b txs where e: "e = (b, txs)" by fastforce
  obtain db' db'' where "store_txs txs db = Inr db'" "store_block b db' = Inr db''" "rel db'' (memory_write th e mem)"
    using rel_write [OF Cons.prems(1), of e] Cons.prems(2,3) by (auto simp: e)
  moreover then obtain db3 where "write_all store_txs store_block es db'' = Inr db3"
    "rel db3 (fold (memory_write th) es (memory_write th e mem))"
    using Cons.IH Cons.prems(2,3) by fastforce
  ultimately show ?case by (simp add: e)
qed simp

lemmas answers = rel_hash rel_height rel_latest rel_latest_block rel_payload

text \<open>After every chain of writes, every query answers as the memory does.\<close>

lemma serves_the_chain:
  assumes "rel db mem" "appendable_all pk th es mem" "list_all storable es"
    and "mem' = fold (memory_write th) es mem"
  shows "\<exists>db'. write_all store_txs store_block es db = Inr db' \<and>
    (\<forall>h inc. find_by_hash db' h inc = db_unwrap (query_by_hash ops pk mem' h inc)) \<and>
    (\<forall>n inc. find_by_height db' n inc = db_unwrap (query_by_height ops pk mem' n inc)) \<and>
    latest_height db' = Inr (query_latest mem') \<and>
    latest_block db' = Inr (repository_latest (pk_block pk) (sm_blocks mem')) \<and>
    (\<forall>h. find_payload db' h = Inr (payload_by_hash enc pk mem' h))"
  using write_all_rel [OF assms(1-3)] answers by (auto simp: assms(4))

end

end
