(* ===== verification/Rocks_Props.thy ===== *)
theory Rocks_Props
  imports Rocks_Store Chain_Backend
begin

text \<open>
  The persistent stores keep what the stores in memory keep: \<open>represents\<close> relates the contents of a
  database to the blocks and transactions in memory, every write preserves it and every query gives
  the same answer on both sides.
\<close>

section \<open>Representation\<close>

definition represents ::
  "picks \<Rightarrow> codec \<Rightarrow> contents \<Rightarrow> shared_memory \<Rightarrow> bool" where
  "represents pk cd m mem \<longleftrightarrow>
     chain_ok (sm_blocks mem) \<and> em_synced (sm_transactions mem) \<and>
     (\<forall>h. m BLOCK_COLUMN_FAMILY h = map_option (cd_block cd) (by_hash (pk_block pk) (sm_blocks mem) h)) \<and>
     (\<forall>n. m HEIGHT_COLUMN_FAMILY (u64_to_key n) = map_option eb_hash (by_height (pk_block pk) (sm_blocks mem) n)) \<and>
     dom (m HEIGHT_COLUMN_FAMILY) \<subseteq> range u64_to_key \<and>
     (\<forall>h. m TRANSACTION_COLUMN_FAMILY h
        = map_option (cd_transaction cd) (transaction_by_hash (pk_tx pk) (sm_transactions mem) h)) \<and>
     (\<forall>n b. by_height (pk_block pk) (sm_blocks mem) n = Some b \<longrightarrow>
        length (eb_hash b) = 32 \<and> by_hash (pk_block pk) (sm_blocks mem) (eb_hash b) = Some b) \<and>
     (\<forall>h b. by_hash (pk_block pk) (sm_blocks mem) h = Some b \<longrightarrow> cd_block_of cd (cd_block cd b) = Inr b) \<and>
     (\<forall>h t. transaction_by_hash (pk_tx pk) (sm_transactions mem) h = Some t \<longrightarrow>
        cd_transaction_of cd (cd_transaction cd t) = Inr t)"

lemma represents_new: "represents pk cd (\<lambda>_. Map.empty) shared_memory_new"
proof -
  have "by_hash (pk_block pk) block_memory_new h = None" "by_height (pk_block pk) block_memory_new n = None"
    "transaction_by_hash (pk_tx pk) em_new h = None" for h n
    by (simp_all add: by_hash_def by_height_def map_by_height_def transaction_by_hash_def block_memory_new_def)
  then show ?thesis by (simp add: represents_def shared_memory_new_def chain_ok_new)
qed

section \<open>Queries\<close>

text \<open>A value that is stored is read back.\<close>

lemma rocks_get_content:
  assumes "kv_laws kv content" "kv_reliable kv" "content db cf k = map_option enc x" "\<And>y. x = Some y \<Longrightarrow> dec (enc y) = Inr y"
  shows "rocks_get kv (rocks_from_value dec) db cf k = Inr x"
  using assms(3) by (cases x) (simp_all add: rocks_get_def kv_get_content [OF assms(1,2)] db_call_def
      rocks_from_value_def assms(4))

lemma rocks_block_by_hash_eq:
  assumes "kv_laws kv content" "kv_reliable kv" "represents pk cd (content db) mem"
  shows "rocks_block_by_hash kv cd db h = Inr (by_hash (pk_block pk) (sm_blocks mem) h)"
  using assms by (auto simp: rocks_block_by_hash_def represents_def intro!: rocks_get_content)

lemma rocks_height_eq:
  assumes "kv_laws kv content" "kv_reliable kv" "represents pk cd (content db) mem"
  shows "rocks_get kv b256_from db HEIGHT_COLUMN_FAMILY (u64_to_key n)
    = Inr (map_option eb_hash (by_height (pk_block pk) (sm_blocks mem) n))"
  using assms(3)
  by (cases "by_height (pk_block pk) (sm_blocks mem) n")
    (auto simp: rocks_get_def kv_get_content [OF assms(1,2)] db_call_def represents_def try_into_unwrap_def)

lemma rocks_transactions_eq:
  assumes "kv_laws kv content" "kv_reliable kv" "represents pk cd (content db) mem"
  shows "rocks_transactions kv cd db hs = Inr (transactions_by_hashes (pk_tx pk) (sm_transactions mem) hs)"
proof -
  have get: "rocks_get kv (rocks_from_value (cd_transaction_of cd)) db TRANSACTION_COLUMN_FAMILY h
      = Inr (transaction_by_hash (pk_tx pk) (sm_transactions mem) h)" for h
    using assms by (auto simp: represents_def intro!: rocks_get_content)
  have "filter_map (\<lambda>t. t) (map f xs) = filter_map f xs" for f :: "b256 \<Rightarrow> extended_transaction option" and xs
    by (induction xs) (auto simp: map_filter_simps split: option.split)
  moreover have "map (rocks_get kv (rocks_from_value (cd_transaction_of cd)) db TRANSACTION_COLUMN_FAMILY) hs
      = map (\<lambda>h. Inr (transaction_by_hash (pk_tx pk) (sm_transactions mem) h)) hs"
    by (simp add: get)
  ultimately show ?thesis
    by (simp only: rocks_transactions_def collect_result_map_Inr rbind_simps transactions_by_hashes_def)
qed

lemma rocks_query_by_hash_eq:
  assumes "kv_laws kv content" "kv_reliable kv" "represents pk cd (content db) mem"
  shows "rocks_query_by_hash kv cd ops db h include_transactions
    = db_unwrap (query_by_hash ops pk mem h include_transactions)"
  by (cases "by_hash (pk_block pk) (sm_blocks mem) h"; cases include_transactions)
    (simp_all add: rocks_query_by_hash_def rocks_block_by_hash_eq [OF assms] rocks_transactions_eq [OF assms]
      query_by_hash_def respond_def db_unwrap_def rbind_def map_err_def split: sum.split)

lemma rocks_query_by_height_eq:
  assumes "kv_laws kv content" "kv_reliable kv" "represents pk cd (content db) mem"
  shows "rocks_query_by_height kv cd ops db n include_transactions
    = db_unwrap (query_by_height ops pk mem n include_transactions)"
proof (cases "by_height (pk_block pk) (sm_blocks mem) n")
  case None
  then show ?thesis
    by (simp add: rocks_query_by_height_def rocks_height_eq [OF assms] query_by_height_def db_unwrap_def)
next
  case (Some b)
  then have "by_hash (pk_block pk) (sm_blocks mem) (eb_hash b) = Some b"
    using assms(3) by (simp add: represents_def)
  with Some show ?thesis
    by (simp add: rocks_query_by_height_def rocks_height_eq [OF assms] rocks_query_by_hash_eq [OF assms]
        query_by_hash_def query_by_height_def)
qed

lemma rocks_payload_by_hash_eq:
  assumes "kv_laws kv content" "kv_reliable kv" "represents pk cd (content db) mem"
  shows "rocks_payload_by_hash kv cd enc db h = Inr (payload_by_hash enc pk mem h)"
  by (cases "by_hash (pk_block pk) (sm_blocks mem) h")
    (simp_all add: rocks_payload_by_hash_def rocks_block_by_hash_eq [OF assms] rocks_transactions_eq [OF assms]
      payload_by_hash_def block_into_payload_def)

text \<open>The greatest key of the family of heights is the height of the chain.\<close>

lemma heights_in_chain:
  assumes "picks_member (pk_block pk)" "represents pk cd m mem"
  shows "u64_to_key n \<in> dom (m HEIGHT_COLUMN_FAMILY) \<longleftrightarrow> unat n < em_len (bm_heights (sm_blocks mem))"
proof -
  have ok: "chain_ok (sm_blocks mem)" using assms(2) by (simp add: represents_def)
  then have "bags_ok (em_read (bm_heights (sm_blocks mem)))"
    by (simp add: chain_ok_def bm_synced_def em_synced_def)
  then have "u64_to_key n \<in> dom (m HEIGHT_COLUMN_FAMILY) \<longleftrightarrow> n \<in> of_nat ` {..<em_len (bm_heights (sm_blocks mem))}"
    using assms(2) ok
    by (auto simp: represents_def dom_def get_one_by_height get_one_None_iff bag_nonempty_iff chain_ok_def
        simp flip: not_None_eq)
  also have "\<dots> \<longleftrightarrow> unat n < em_len (bm_heights (sm_blocks mem))"
    using ok by (auto simp: chain_ok_def number_unat image_iff intro!: bexI [of _ "unat n"])
  finally show ?thesis .
qed

lemma last_height:
  assumes "picks_member (pk_block pk)" "represents pk cd m mem" "is_last (m HEIGHT_COLUMN_FAMILY) r"
  shows "r = map_option (\<lambda>b. (u64_to_key (number_of b), eb_hash b)) (last_block (pk_block pk) (sm_blocks mem))"
proof (cases r)
  case None
  then have "m HEIGHT_COLUMN_FAMILY = Map.empty" using assms(3) by (simp add: is_last_def)
  then have "em_len (bm_heights (sm_blocks mem)) = 0"
    using heights_in_chain [OF assms(1,2), of 0] by simp
  then show ?thesis by (simp add: None last_block_def height_def checked_sub_def)
next
  case (Some e)
  obtain k v where e: "e = (k, v)" by fastforce
  let ?len = "em_len (bm_heights (sm_blocks mem))"
  have kv: "m HEIGHT_COLUMN_FAMILY k = Some v" "\<And>k'. k' \<in> dom (m HEIGHT_COLUMN_FAMILY) \<Longrightarrow> bytes_le k' k"
    using assms(3) by (simp_all add: is_last_def Some e)
  then obtain n where n: "k = u64_to_key n" using assms(2) by (auto simp: represents_def)
  have ok: "chain_ok (sm_blocks mem)" using assms(2) by (simp add: represents_def)
  have "k \<in> dom (m HEIGHT_COLUMN_FAMILY)" using kv(1) by blast
  then have lt: "unat n < ?len" using heights_in_chain [OF assms(1,2)] by (simp add: n)
  then obtain b where b: "last_block (pk_block pk) (sm_blocks mem) = Some b"
    using last_block_exists [OF ok] by fastforce
  note num = last_block_number [OF assms(1) ok b]
  have "u64_to_key (number_of b) \<in> dom (m HEIGHT_COLUMN_FAMILY)"
    using heights_in_chain [OF assms(1,2)] num(2) by simp
  from kv(2) [OF this] have "number_of b \<le> n" by (simp add: n key_order)
  then have nb: "n = number_of b" using lt num(2) by (simp add: word_le_nat_alt word_unat_eq_iff)
  have "by_height (pk_block pk) (sm_blocks mem) (number_of b) = Some b"
    using b num(1) by (simp add: last_block_def)
  then have "v = eb_hash b" using assms(2) kv(1) by (simp add: represents_def n nb)
  then show ?thesis by (simp add: Some e b n nb)
qed

lemma height_is_last:
  assumes "picks_member pick" "chain_ok m"
  shows "height m = map_option number_of (last_block pick m)"
proof (cases "last_block pick m")
  case None
  then have "em_len (bm_heights m) = 0" using last_block_exists [OF assms(2), of pick] by fastforce
  with None show ?thesis by (simp add: height_def checked_sub_def)
next
  case (Some b)
  with last_block_number(1) [OF assms Some] show ?thesis by simp
qed

lemma rocks_latest_eq:
  assumes "kv_laws kv content" "kv_reliable kv" "represents pk cd (content db) mem"
    and "picks_member (pk_block pk)"
  shows "rocks_block_latest kv cd db = Inr (repository_latest (pk_block pk) (sm_blocks mem))"
    and "rocks_query_latest kv db = Inr (query_latest mem)"
proof -
  obtain r where r: "kv_last kv db HEIGHT_COLUMN_FAMILY = Inr r" "is_last (content db HEIGHT_COLUMN_FAMILY) r"
    using kv_last_content [OF assms(1,2)] .
  note l = last_height [OF assms(4,3) r(2)]
  have ok: "chain_ok (sm_blocks mem)" using assms(3) by (simp add: represents_def)
  show "rocks_block_latest kv cd db = Inr (repository_latest (pk_block pk) (sm_blocks mem))"
  proof (cases "last_block (pk_block pk) (sm_blocks mem)")
    case (Some b)
    then have "by_height (pk_block pk) (sm_blocks mem) (number_of b) = Some b"
      using last_block_number(1) [OF assms(4) ok Some] by (simp add: last_block_def)
    then have "length (eb_hash b) = 32" "by_hash (pk_block pk) (sm_blocks mem) (eb_hash b) = Some b"
      using assms(3) by (auto simp: represents_def)
    with Some show ?thesis
      by (simp add: rocks_block_latest_def r(1) db_call_def l try_into_unwrap_def rocks_block_by_hash_eq [OF assms(1-3)]
          repository_latest_def)
  qed (simp add: rocks_block_latest_def r(1) db_call_def l repository_latest_def)
  show "rocks_query_latest kv db = Inr (query_latest mem)"
    by (cases "last_block (pk_block pk) (sm_blocks mem)")
      (simp_all add: rocks_query_latest_def r(1) db_call_def l query_latest_def height_is_last [OF assms(4) ok])
qed

section \<open>Writes\<close>

lemma families_differ [simp]:
  "BLOCK_COLUMN_FAMILY \<noteq> HEIGHT_COLUMN_FAMILY" "BLOCK_COLUMN_FAMILY \<noteq> TRANSACTION_COLUMN_FAMILY"
  "HEIGHT_COLUMN_FAMILY \<noteq> BLOCK_COLUMN_FAMILY" "HEIGHT_COLUMN_FAMILY \<noteq> TRANSACTION_COLUMN_FAMILY"
  "TRANSACTION_COLUMN_FAMILY \<noteq> BLOCK_COLUMN_FAMILY" "TRANSACTION_COLUMN_FAMILY \<noteq> HEIGHT_COLUMN_FAMILY"
  by (simp_all add: family_defs)

lemma by_hash_add_other:
  "bm_synced m \<Longrightarrow> h \<noteq> eb_hash b \<Longrightarrow> by_hash pick (block_memory_add b m) h = by_hash pick m h"
  by (simp add: by_hash_def get_one_def Let_def bags_after_add)

lemma represents_add:
  assumes "picks_member (pk_block pk)" "represents pk cd m mem"
    and "unat (number_of b) = em_len (bm_heights (sm_blocks mem))" "Suc (em_len (bm_heights (sm_blocks mem))) < 2 ^ 64"
    and "by_hash (pk_block pk) (sm_blocks mem) (eb_hash b) = None" "length (eb_hash b) = 32"
    and "cd_block_of cd (cd_block cd b) = Inr b"
  shows "represents pk cd (fold kv_put (rocks_block_entries cd b) m)
    (mem\<lparr>sm_blocks := block_memory_add b (sm_blocks mem)\<rparr>)"
proof -
  let ?by = "\<lambda>m n. by_height (pk_block pk) m n" and ?at = "\<lambda>m h. by_hash (pk_block pk) m h"
  let ?m = "sm_blocks mem" and ?m' = "block_memory_add b (sm_blocks mem)"
  have ok: "chain_ok ?m" using assms(2) by (simp add: represents_def)
  then have sy: "bm_synced ?m" by (rule chain_ok_synced)
  have at: "?at ?m' h = (if h = eb_hash b then Some b else ?at ?m h)" for h
    using by_hash_add_fresh [OF assms(1) sy assms(5)] by_hash_add_other [OF sy] by simp
  have heights: "?by ?m' n = (if n = number_of b then Some b else ?by ?m n)" for n
    using by_height_add [OF assms(1) ok assms(3)] by simp
  have "length (eb_hash b') = 32 \<and> ?at ?m' (eb_hash b') = Some b'" if "?by ?m' n = Some b'" for n b'
  proof (cases "n = number_of b")
    case False
    then have "length (eb_hash b') = 32" "?at ?m (eb_hash b') = Some b'"
      using that assms(2) by (simp_all add: heights represents_def)
    with assms(5) show ?thesis by (auto simp: at)
  next
    case True
    with that have "b' = b" by (simp add: heights)
    with assms(6) show ?thesis by (simp add: at)
  qed
  then show ?thesis
    using assms(2,7) chain_ok_add(1) [OF ok assms(3,4)]
    by (auto simp: represents_def rocks_block_entries_def kv_put_def at heights split: if_splits)
qed

lemma fold_kv_put:
  "fold kv_put (map (\<lambda>t. (cf, f t, g t)) ts) m = m(cf := m cf ++ map_of (rev (map (\<lambda>t. (f t, g t)) ts)))"
  by (induction ts arbitrary: m) (auto simp: kv_put_def fun_eq_iff map_add_def split: option.split)

lemma represents_extend:
  assumes "picks_member (pk_tx pk)" "represents pk cd m mem" "distinct (map (tx_hash th) txs)"
    and "\<And>t. t \<in> set txs \<Longrightarrow> transaction_by_hash (pk_tx pk) (sm_transactions mem) (tx_hash th t) = None"
    and "\<And>t. t \<in> set txs \<Longrightarrow> cd_transaction_of cd (cd_transaction cd t) = Inr t"
  shows "represents pk cd
    (fold kv_put (map (\<lambda>t. (TRANSACTION_COLUMN_FAMILY, tx_hash th t, cd_transaction cd t)) txs) m)
    (mem\<lparr>sm_transactions := transaction_memory_extend th txs (sm_transactions mem)\<rparr>)"
proof -
  let ?mem = "sm_transactions mem" and ?mem' = "transaction_memory_extend th txs (sm_transactions mem)"
  let ?es = "map (\<lambda>t. (tx_hash th t, cd_transaction cd t)) txs"
  have sy: "em_synced ?mem" using assms(2) by (simp add: represents_def)
  have d: "distinct (map fst ?es)" using assms(3) by (simp add: comp_def)
  have "(m TRANSACTION_COLUMN_FAMILY ++ map_of (rev ?es)) h
      = map_option (cd_transaction cd) (transaction_by_hash (pk_tx pk) ?mem' h) \<and>
    (\<forall>t. transaction_by_hash (pk_tx pk) ?mem' h = Some t \<longrightarrow> cd_transaction_of cd (cd_transaction cd t) = Inr t)" for h
  proof (cases "h \<in> tx_hash th ` set txs")
    case True
    then obtain t where t: "t \<in> set txs" "h = tx_hash th t" by blast
    have "map_of (rev ?es) h = Some (cd_transaction cd t)"
      using d t by (intro map_of_is_SomeI) (auto simp: comp_def simp flip: rev_map)
    moreover have "transaction_by_hash (pk_tx pk) ?mem' h = Some t"
      unfolding t(2) using assms(3,4) t(1)
      by (intro txm.lookup_extend_fresh [OF assms(1) sy]) (auto simp: txm.lookup_None distinct_map inj_on_def)
    ultimately show ?thesis using assms(5) [OF t(1)] by (simp add: map_add_def)
  next
    case False
    then have "map_of (rev ?es) h = None" by (auto simp: map_of_eq_None_iff)
    moreover have "filter (\<lambda>t. tx_hash th t = h) txs = []" using False by (auto simp: filter_empty_conv)
    then have "transaction_by_hash (pk_tx pk) ?mem' h = transaction_by_hash (pk_tx pk) ?mem h"
      using txm.stored_extend [OF sy, of th txs h] by (simp add: transaction_by_hash_def get_one_def Let_def)
    ultimately show ?thesis using assms(2) by (simp add: map_add_def represents_def)
  qed
  then show ?thesis
    using assms(2) txm.ok_extend [OF sy] by (auto simp: represents_def fold_kv_put)
qed

section \<open>The contract of the store\<close>

definition storable_entry :: "codec \<Rightarrow> chain_entry \<Rightarrow> bool" where
  "storable_entry cd = (\<lambda>(b, txs).
     cd_block_of cd (cd_block cd b) = Inr b \<and>
     list_all (\<lambda>t. cd_transaction_of cd (cd_transaction cd t) = Inr t) txs)"

definition rocks_holds ::
  "'db kv_ops \<Rightarrow> ('db \<Rightarrow> contents) \<Rightarrow> codec \<Rightarrow> picks \<Rightarrow> 'db \<Rightarrow> shared_memory \<Rightarrow> bool" where
  "rocks_holds kv content cd pk db mem \<longleftrightarrow>
     kv_laws kv content \<and> kv_reliable kv \<and> picks_member (pk_block pk) \<and> picks_member (pk_tx pk) \<and>
     represents pk cd (content db) mem"

lemma rocks_write:
  assumes "rocks_holds kv content cd pk db mem" "appendable pk th (b, txs) mem" "storable_entry cd (b, txs)"
  shows "\<exists>db' db''. rocks_transaction_extend kv cd th txs db = Inr db' \<and> rocks_block_add kv cd b db' = Inr db'' \<and>
    rocks_holds kv content cd pk db'' (memory_write th (b, txs) mem)"
proof -
  have kv: "kv_laws kv content" "kv_reliable kv" and pk: "picks_member (pk_block pk)" "picks_member (pk_tx pk)"
    and rep: "represents pk cd (content db) mem"
    using assms(1) by (simp_all add: rocks_holds_def)
  have t: "distinct (map (tx_hash th) txs)"
    "\<And>t. t \<in> set txs \<Longrightarrow> transaction_by_hash (pk_tx pk) (sm_transactions mem) (tx_hash th t) = None"
    "\<And>t. t \<in> set txs \<Longrightarrow> cd_transaction_of cd (cd_transaction cd t) = Inr t"
    using assms(2,3) by (simp_all add: appendable_def storable_entry_def list_all_iff)
  obtain db' where db': "rocks_transaction_extend kv cd th txs db = Inr db'"
    and c': "content db' = fold kv_put
      (map (\<lambda>t. (TRANSACTION_COLUMN_FAMILY, tx_hash th t, cd_transaction cd t)) txs) (content db)"
    using kv_write_content [OF kv] by (auto simp: rocks_transaction_extend_def db_call_def)
  obtain db'' where db'': "rocks_block_add kv cd b db' = Inr db''"
    and c'': "content db'' = fold kv_put (rocks_block_entries cd b) (content db')"
    using kv_write_content [OF kv] by (auto simp: rocks_block_add_def db_call_def)
  let ?mid = "mem\<lparr>sm_transactions := transaction_memory_extend th txs (sm_transactions mem)\<rparr>"
  have mem': "memory_write th (b, txs) mem = ?mid\<lparr>sm_blocks := block_memory_add b (sm_blocks ?mid)\<rparr>"
    by (simp add: memory_write_def repository_add_def)
  have "represents pk cd (content db') ?mid"
    unfolding c' by (rule represents_extend [OF pk(2) rep t])
  then have "represents pk cd (content db'') (memory_write th (b, txs) mem)"
    unfolding c'' mem' by (rule represents_add [OF pk(1)])
      (use assms(2,3) in \<open>simp_all add: appendable_def storable_entry_def\<close>)
  with db' db'' kv pk show ?thesis by (simp add: rocks_holds_def)
qed

interpretation rocks: chain_backend pk th ops enc "storable_entry cd" "rocks_holds kv content cd pk"
  "rocks_transaction_extend kv cd th" "rocks_block_add kv cd" "rocks_query_by_hash kv cd ops"
  "rocks_query_by_height kv cd ops" "rocks_query_latest kv" "rocks_block_latest kv cd"
  "rocks_payload_by_hash kv cd enc"
  by unfold_locales
    (use rocks_write in fastforce,
      auto simp: rocks_holds_def rocks_query_by_hash_eq rocks_query_by_height_eq rocks_latest_eq
        rocks_payload_by_hash_eq)

text \<open>The persistent node serves the same chain as the node in memory: from an empty database on,
  writing the transactions and then the block of every entry of a chain succeeds, and afterwards every
  query for blocks and payloads, by hash, by height or for the latest one, gives the answer of the
  memory to which the same chain was written.\<close>

lemma rocksdb_refines_memory:
  assumes "kv_laws kv content" "kv_reliable kv" "content db = (\<lambda>_. Map.empty)"
    and "picks_member (pk_block pk)" "picks_member (pk_tx pk)"
    and "appendable_all pk th es shared_memory_new" "list_all (storable_entry cd) es"
    and "mem' = fold (memory_write th) es shared_memory_new"
  shows "\<exists>db'. write_all (rocks_transaction_extend kv cd th) (rocks_block_add kv cd) es db = Inr db' \<and>
    (\<forall>h inc. rocks_query_by_hash kv cd ops db' h inc = db_unwrap (query_by_hash ops pk mem' h inc)) \<and>
    (\<forall>n inc. rocks_query_by_height kv cd ops db' n inc = db_unwrap (query_by_height ops pk mem' n inc)) \<and>
    rocks_query_latest kv db' = Inr (query_latest mem') \<and>
    rocks_block_latest kv cd db' = Inr (repository_latest (pk_block pk) (sm_blocks mem')) \<and>
    (\<forall>h. rocks_payload_by_hash kv cd enc db' h = Inr (payload_by_hash enc pk mem' h))"
proof -
  have "rocks_holds kv content cd pk db shared_memory_new"
    using assms(1-5) represents_new by (simp add: rocks_holds_def)
  from rocks.serves_the_chain [OF this assms(6-8)] show ?thesis .
qed

section \<open>Tries of accounts\<close>

lemma unique_key_inj:
  "length a = length b \<Longrightarrow> unique_key a k = unique_key b k' \<longleftrightarrow> a = b \<and> k = k'"
  by (simp add: unique_key_def)

text \<open>The storage tries of different accounts do not interfere although they share one family of
  the database: writing a batch of nodes for an account changes what is read for that account, to the
  last value of the batch for every key of it, and nothing that is read for any other account.\<close>

lemma storage_tries_are_separate:
  assumes "kv_laws kv content" "kv_reliable kv" "length a = 20" "length b = 20"
  shows "\<exists>db'. rocks_storage_insert_batch kv a ks vs db = Inr db' \<and>
    rocks_storage_get kv b db' k = Inr (if b = a \<and> map_of (rev (zip ks vs)) k \<noteq> None then map_of (rev (zip ks vs)) k
      else content db STORAGE_TRIE_COLUMN_FAMILY (unique_key b k))"
proof -
  let ?es = "map (\<lambda>e. (STORAGE_TRIE_COLUMN_FAMILY, unique_key a (fst e), snd e)) (zip ks vs)"
  have es: "map (\<lambda>(k, v). (STORAGE_TRIE_COLUMN_FAMILY, unique_key a k, v)) (zip ks vs) = ?es"
    by (simp add: split_beta)
  obtain db' where db': "kv_write kv db ?es = Inr db'" "content db' = fold kv_put ?es (content db)"
    using kv_write_content [OF assms(1,2)] .
  have "map_of (map (\<lambda>e. (unique_key a (fst e), snd e)) xs) (unique_key b k)
      = (if b = a then map_of xs k else None)" for xs
    using assms(3,4) by (induction xs) (auto simp: unique_key_inj)
  from this [of "rev (zip ks vs)"] have "content db' STORAGE_TRIE_COLUMN_FAMILY (unique_key b k)
      = (if b = a \<and> map_of (rev (zip ks vs)) k \<noteq> None then map_of (rev (zip ks vs)) k
         else content db STORAGE_TRIE_COLUMN_FAMILY (unique_key b k))"
    by (simp add: db'(2) fold_kv_put map_add_def rev_map split: option.split)
  then show ?thesis
    by (simp add: rocks_storage_insert_batch_def es db'(1) db_call_def rocks_storage_get_def
        kv_get_content [OF assms(1,2)])
qed

section \<open>The history of roots\<close>

text \<open>The families of the state hold the roots of the heights from one on; \<open>hk\<close> is the key of the height.\<close>

definition holds_roots :: "bytes \<Rightarrow> contents \<Rightarrow> b256 list \<Rightarrow> bool" where
  "holds_roots hk m rs \<longleftrightarrow>
     m STATE_HEIGHT_COLUMN_FAMILY hk = (if rs = [] then None else Some (u64_to_key (of_nat (length rs)))) \<and>
     (\<forall>n. m STATE_COLUMN_FAMILY (u64_to_key n)
        = (if 0 < unat n \<and> unat n \<le> length rs then Some (rs ! (unat n - 1)) else None)) \<and>
     (\<forall>r \<in> set rs. length r = 32)"

lemma rocks_height_holds:
  assumes "kv_laws kv content" "kv_reliable kv" "holds_roots HEIGHT_KEY (content db) rs"
  shows "rocks_height kv db = Inr (of_nat (length rs))"
  using assms(3)
  by (cases "rs = []") (simp_all add: rocks_height_def rocks_get_def kv_get_content [OF assms(1,2)] db_call_def holds_roots_def)

lemma rocks_root_holds:
  assumes "kv_laws kv content" "kv_reliable kv" "holds_roots HEIGHT_KEY (content db) rs"
  shows "rocks_root_by_height kv g db n
    = Inr (if n = 0 then Some g else if unat n \<le> length rs then Some (rs ! (unat n - 1)) else None)"
proof (cases "n = 0")
  case False
  then have "0 < unat n" by (simp add: unat_gt_0)
  moreover from this have "length (rs ! (unat n - 1)) = 32" if "unat n \<le> length rs"
    using that assms(3) by (simp add: holds_roots_def)
  ultimately show ?thesis
    using False assms(3)
    by (simp add: rocks_root_by_height_def rocks_get_def kv_get_content [OF assms(1,2)] db_call_def holds_roots_def
        try_into_unwrap_def)
qed (simp add: rocks_root_by_height_def)

lemma holds_roots_push:
  assumes "holds_roots hk m rs" "Suc (length rs) < 2 ^ 64" "length root = 32"
  shows "holds_roots hk (fold kv_put [(STATE_COLUMN_FAMILY, u64_to_key (of_nat (length rs) + 1), root),
    (STATE_HEIGHT_COLUMN_FAMILY, hk, u64_to_key (of_nat (length rs) + 1))] m) (rs @ [root])"
proof -
  let ?k = "of_nat (Suc (length rs)) :: u64"
  have k: "of_nat (length rs) + 1 = ?k" by simp
  have n: "n = ?k \<longleftrightarrow> unat n = Suc (length rs)" for n
    using number_unat [OF assms(2)] by (simp add: word_unat_eq_iff del: of_nat_Suc)
  have "STATE_COLUMN_FAMILY \<noteq> STATE_HEIGHT_COLUMN_FAMILY" by (simp add: family_defs)
  then show ?thesis
    unfolding k using assms(1,3) by (auto simp: holds_roots_def kv_put_def n nth_append simp del: of_nat_Suc)
qed

text \<open>The history of the state is complete: pushing the root of a new state stores it under the next
  height, every earlier height keeps its root, height zero has the genesis root, and no later height
  has one; but a state query for such a later height reads an empty trie instead of answering that
  there is none.\<close>

lemma state_history:
  assumes "kv_laws kv content" "kv_reliable kv" "holds_roots HEIGHT_KEY (content db) rs"
    and "Suc (length rs) < 2 ^ 64" "length root = 32"
  shows "\<exists>db'. rocks_push_state_root kv root db = Inr db' \<and> holds_roots HEIGHT_KEY (content db') (rs @ [root]) \<and>
    rocks_height kv db' = Inr (of_nat (Suc (length rs))) \<and>
    rocks_root_by_height kv g db' n = Inr (if n = 0 then Some g
      else if unat n \<le> Suc (length rs) then Some ((rs @ [root]) ! (unat n - 1)) else None) \<and>
    (Suc (length rs) < unat n \<longrightarrow> rocks_tree kv so g db' n = map_err KvPanic (so_open so db' None))"
proof -
  let ?h = "of_nat (length rs) + 1 :: u64"
  obtain db' where db': "kv_write kv db [(STATE_COLUMN_FAMILY, u64_to_key ?h, root),
      (STATE_HEIGHT_COLUMN_FAMILY, HEIGHT_KEY, u64_to_key ?h)] = Inr db'"
    and c: "content db' = fold kv_put [(STATE_COLUMN_FAMILY, u64_to_key ?h, root),
      (STATE_HEIGHT_COLUMN_FAMILY, HEIGHT_KEY, u64_to_key ?h)] (content db)"
    using kv_write_content [OF assms(1,2)] .
  have push: "rocks_push_state_root kv root db = Inr db'"
    by (simp add: rocks_push_state_root_def rocks_height_holds [OF assms(1-3)] db' db_call_def)
  have rep: "holds_roots HEIGHT_KEY (content db') (rs @ [root])" unfolding c by (rule holds_roots_push [OF assms(3-5)])
  have "rocks_tree kv so g db' n = map_err KvPanic (so_open so db' None)" if "Suc (length rs) < unat n"
  proof -
    have "n \<noteq> 0" using that by auto
    with that show ?thesis by (simp add: rocks_tree_def rocks_root_holds [OF assms(1,2) rep])
  qed
  with push rep show ?thesis
    using rocks_height_holds [OF assms(1,2) rep] rocks_root_holds [OF assms(1,2) rep, of g n]
    by (intro exI [of _ db']) simp
qed

section \<open>Witnesses\<close>

definition example_codec :: codec where
  "example_codec =
     \<lparr>cd_block = (\<lambda>_. [1]), cd_block_of = (\<lambda>bs. if bs = [1] then Inr (example_block 0 (replicate 32 7)) else Inl ''malformed''),
      cd_transaction = (\<lambda>_. [2]), cd_transaction_of = (\<lambda>bs. if bs = [2] then Inr example_et else Inl ''malformed''),
      cd_receipt = (\<lambda>_. []), cd_receipt_of = (\<lambda>_. Inl ''malformed'')\<rparr>"

abbreviation example_picks :: picks where
  "example_picks \<equiv> \<lparr>pk_block = hd, pk_tx = hd\<rparr>"

lemma example_represents: "represents example_picks example_codec (example_content []) shared_memory_new"
  using represents_new by (simp add: example_content_def)

lemma example_appendable:
  "appendable_all example_picks (\<lambda>_. [3]) [(example_block 0 (replicate 32 7), [example_et])] shared_memory_new"
  by (simp add: appendable_def shared_memory_new_def by_hash_def block_memory_new_def transaction_by_hash_def
      example_block_defs) (simp add: em_new_def em_len_def)

end
