(* ===== verification/Heed_Store.thy ===== *)
theory Heed_Store
  imports Rocks_Props
begin

text \<open>
  The persistent stores on LMDB: \<^verbatim>\<open>storage/heed/src/block.rs\<close>, \<^verbatim>\<open>transaction.rs\<close>, \<^verbatim>\<open>receipt.rs\<close>, \<^verbatim>\<open>payload.rs\<close>,
  \<^verbatim>\<open>state.rs\<close>, \<^verbatim>\<open>trie.rs\<close>, \<^verbatim>\<open>evm_storage_trie.rs\<close>, \<^verbatim>\<open>generic.rs\<close> and \<^verbatim>\<open>all.rs\<close>. Reads run in a transaction that
  is opened and committed around them, both of which can fail; the puts of a write transaction reach
  the database with its commit, as one write. A key or value that does not decode is an error, where
  the stores on RocksDB panic. The databases have the names of the column families.
\<close>

record 'db heed_ops =
  he_kv :: "'db kv_ops"
  he_read_txn :: "'db \<Rightarrow> string + unit"
  he_commit :: "'db \<Rightarrow> string + unit"

definition heed_reliable :: "'db heed_ops \<Rightarrow> bool" where
  "heed_reliable he \<longleftrightarrow> kv_reliable (he_kv he) \<and> (\<forall>db. he_read_txn he db = Inr ()) \<and> (\<forall>db. he_commit he db = Inr ())"

section \<open>Encodings\<close>

definition encodable_b256_decode :: "bytes \<Rightarrow> string + b256" where
  "encodable_b256_decode bs = (if length bs = 32 then Inr bs else Inl ''could not convert slice to array'')"

definition encodable_u64_decode :: "bytes \<Rightarrow> string + u64" where
  "encodable_u64_decode bs = (if length bs = 8 then Inr (from_be_bytes bs) else Inl ''invalid length'')"

section \<open>Databases\<close>

definition heed_get ::
  "'db heed_ops \<Rightarrow> (bytes \<Rightarrow> string + 'a) \<Rightarrow> 'db \<Rightarrow> string \<Rightarrow> bytes \<Rightarrow> 'a option stored" where
  "heed_get he dec db name k =
     rbind (db_call (kv_get (he_kv he) db name k)) (\<lambda>v.
     case v of None \<Rightarrow> Inr None | Some bs \<Rightarrow> rbind (db_call (dec bs)) (\<lambda>x. Inr (Some x)))"

definition heed_last ::
  "'db heed_ops \<Rightarrow> (bytes \<Rightarrow> string + 'a) \<Rightarrow> (bytes \<Rightarrow> string + 'b) \<Rightarrow> 'db \<Rightarrow> string \<Rightarrow> ('a \<times> 'b) option stored" where
  "heed_last he dec_key dec_value db name =
     rbind (db_call (kv_last (he_kv he) db name)) (\<lambda>e.
     case e of
       None \<Rightarrow> Inr None
     | Some (k, v) \<Rightarrow>
         rbind (db_call (dec_key k)) (\<lambda>x. rbind (db_call (dec_value v)) (\<lambda>y. Inr (Some (x, y)))))"

text \<open>A read in a transaction: its result is kept until the transaction is committed.\<close>

definition heed_read :: "'db heed_ops \<Rightarrow> 'db \<Rightarrow> 'a stored \<Rightarrow> 'a stored" where
  "heed_read he db response =
     rbind (db_call (he_read_txn he db)) (\<lambda>_. rbind (db_call (he_commit he db)) (\<lambda>_. response))"

text \<open>A read whose error ends the function before the commit.\<close>

definition heed_read_early :: "'db heed_ops \<Rightarrow> 'db \<Rightarrow> 'a stored \<Rightarrow> 'a stored" where
  "heed_read_early he db response =
     rbind (db_call (he_read_txn he db)) (\<lambda>_.
     rbind response (\<lambda>x. rbind (db_call (he_commit he db)) (\<lambda>_. Inr x)))"

definition heed_write :: "'db heed_ops \<Rightarrow> (string \<times> bytes \<times> bytes) list \<Rightarrow> 'db \<Rightarrow> 'db stored" where
  "heed_write he es db = db_call (kv_write (he_kv he) db es)"

section \<open>Blocks\<close>

definition heed_block_add :: "'db heed_ops \<Rightarrow> codec \<Rightarrow> extended_block \<Rightarrow> 'db \<Rightarrow> 'db stored" where
  "heed_block_add he cd b db =
     heed_write he
       [(BLOCK_COLUMN_FAMILY, eb_hash b, cd_block cd b),
        (HEIGHT_COLUMN_FAMILY, u64_to_key (number_of b), eb_hash b)] db"

definition heed_block_by_hash :: "'db heed_ops \<Rightarrow> codec \<Rightarrow> 'db \<Rightarrow> b256 \<Rightarrow> extended_block option stored" where
  "heed_block_by_hash he cd db h = heed_read he db (heed_get he (cd_block_of cd) db BLOCK_COLUMN_FAMILY h)"

definition heed_block_latest :: "'db heed_ops \<Rightarrow> codec \<Rightarrow> 'db \<Rightarrow> extended_block option stored" where
  "heed_block_latest he cd db =
     rbind (heed_read_early he db (heed_last he encodable_u64_decode encodable_b256_decode db HEIGHT_COLUMN_FAMILY))
       (\<lambda>e. case e of None \<Rightarrow> Inr None | Some (_, h) \<Rightarrow> heed_get he (cd_block_of cd) db BLOCK_COLUMN_FAMILY h)"

definition heed_transactions ::
  "'db heed_ops \<Rightarrow> codec \<Rightarrow> 'db \<Rightarrow> b256 list \<Rightarrow> extended_transaction list stored" where
  "heed_transactions he cd db hs =
     rbind (collect_result (map (heed_get he (cd_transaction_of cd) db TRANSACTION_COLUMN_FAMILY) hs))
       (\<lambda>ts. Inr (filter_map (\<lambda>t. t) ts))"

definition heed_query_by_hash ::
  "'db heed_ops \<Rightarrow> codec \<Rightarrow> tx_ops \<Rightarrow> 'db \<Rightarrow> b256 \<Rightarrow> bool \<Rightarrow> block_response option stored" where
  "heed_query_by_hash he cd ops db h include_transactions =
     rbind (db_call (he_read_txn he db)) (\<lambda>_.
     rbind (heed_get he (cd_block_of cd) db BLOCK_COLUMN_FAMILY h) (\<lambda>r.
     case r of
       Some b \<Rightarrow>
         if include_transactions
         then rbind (heed_transactions he cd db (transaction_hashes b)) (\<lambda>txs.
              rbind (db_call (he_commit he db)) (\<lambda>_.
              rbind (db_unwrap (from_block_with_transactions ops b txs)) (\<lambda>x. Inr (Some x))))
         else rbind (db_call (he_commit he db)) (\<lambda>_. Inr (Some (from_block_with_transaction_hashes b)))
     | None \<Rightarrow> rbind (db_call (he_commit he db)) (\<lambda>_. Inr None)))"

definition heed_query_by_height ::
  "'db heed_ops \<Rightarrow> codec \<Rightarrow> tx_ops \<Rightarrow> 'db \<Rightarrow> u64 \<Rightarrow> bool \<Rightarrow> block_response option stored" where
  "heed_query_by_height he cd ops db n include_transactions =
     rbind (db_call (he_read_txn he db)) (\<lambda>_.
     rbind (heed_get he encodable_b256_decode db HEIGHT_COLUMN_FAMILY (u64_to_key n)) (\<lambda>r.
     case r of
       Some h \<Rightarrow>
         rbind (db_call (he_commit he db)) (\<lambda>_. heed_query_by_hash he cd ops db h include_transactions)
     | None \<Rightarrow> Inr None))"

definition heed_query_latest :: "'db heed_ops \<Rightarrow> 'db \<Rightarrow> u64 option stored" where
  "heed_query_latest he db =
     rbind (heed_read_early he db (heed_last he encodable_u64_decode encodable_b256_decode db HEIGHT_COLUMN_FAMILY))
       (\<lambda>e. Inr (map_option fst e))"

section \<open>Transactions and receipts\<close>

definition heed_transaction_extend ::
  "'db heed_ops \<Rightarrow> codec \<Rightarrow> (op_tx_envelope \<Rightarrow> b256) \<Rightarrow> extended_transaction list \<Rightarrow> 'db \<Rightarrow> 'db stored" where
  "heed_transaction_extend he cd trie_hash txs db =
     heed_write he (map (\<lambda>t. (TRANSACTION_COLUMN_FAMILY, tx_hash trie_hash t, cd_transaction cd t)) txs) db"

definition heed_transaction_by_hash ::
  "'db heed_ops \<Rightarrow> codec \<Rightarrow> tx_ops \<Rightarrow> 'db \<Rightarrow> b256 \<Rightarrow> transaction_response option stored" where
  "heed_transaction_by_hash he cd ops db h =
     heed_read_early he db (rbind (heed_get he (cd_transaction_of cd) db TRANSACTION_COLUMN_FAMILY h) (\<lambda>r.
       case r of
         None \<Rightarrow> Inr None
       | Some t \<Rightarrow> rbind (db_unwrap (transaction_response_from ops t)) (\<lambda>x. Inr (Some x))))"

text \<open>The value of a receipt is not decoded to see whether it is there.\<close>

definition heed_receipt_contains :: "'db heed_ops \<Rightarrow> 'db \<Rightarrow> b256 \<Rightarrow> bool stored" where
  "heed_receipt_contains he db h =
     heed_read he db (rbind (heed_get he Inr db RECEIPT_COLUMN_FAMILY h) (\<lambda>v. Inr (v \<noteq> None)))"

definition heed_receipt_extend ::
  "'db heed_ops \<Rightarrow> codec \<Rightarrow> extended_receipt list \<Rightarrow> 'db \<Rightarrow> 'db stored" where
  "heed_receipt_extend he cd rs db =
     heed_write he (map (\<lambda>r. (RECEIPT_COLUMN_FAMILY, er_transaction_hash r, cd_receipt cd r)) rs) db"

definition heed_receipt_by_transaction_hash ::
  "'db heed_ops \<Rightarrow> codec \<Rightarrow> 'db \<Rightarrow> b256 \<Rightarrow> transaction_receipt option stored" where
  "heed_receipt_by_transaction_hash he cd db h =
     rbind (heed_read he db (heed_get he (cd_receipt_of cd) db RECEIPT_COLUMN_FAMILY h)) (\<lambda>r.
     case r of
       None \<Rightarrow> Inr None
     | Some x \<Rightarrow> rbind (db_unwrap (transaction_receipt_from x)) (\<lambda>y. Inr (Some y)))"

section \<open>Payloads\<close>

definition heed_add_block_hash :: "'db heed_ops \<Rightarrow> payload_id \<Rightarrow> b256 \<Rightarrow> 'db \<Rightarrow> 'db stored" where
  "heed_add_block_hash he i h db = heed_write he [(PAYLOAD_COLUMN_FAMILY, u64_to_key (to_u64 i), h)] db"

definition heed_payload_by_hash ::
  "'db heed_ops \<Rightarrow> codec \<Rightarrow> (op_tx_envelope \<Rightarrow> bytes) \<Rightarrow> 'db \<Rightarrow> b256 \<Rightarrow> payload_response option stored" where
  "heed_payload_by_hash he cd encode_2718 db h =
     heed_read he db (rbind (heed_get he (cd_block_of cd) db BLOCK_COLUMN_FAMILY h) (\<lambda>r.
       case r of
         None \<Rightarrow> Inr None
       | Some b \<Rightarrow>
           rbind (heed_transactions he cd db (transaction_hashes b)) (\<lambda>txs.
           Inr (Some (payload_response_from encode_2718 b (map et_inner txs))))))"

definition heed_payload_by_id ::
  "'db heed_ops \<Rightarrow> codec \<Rightarrow> (op_tx_envelope \<Rightarrow> bytes) \<Rightarrow> 'db \<Rightarrow> payload_id \<Rightarrow> payload_response option stored" where
  "heed_payload_by_id he cd encode_2718 db i =
     rbind (db_call (he_read_txn he db)) (\<lambda>_.
     rbind (heed_get he encodable_b256_decode db PAYLOAD_COLUMN_FAMILY (u64_to_key (to_u64 i))) (\<lambda>r.
     case r of
       Some h \<Rightarrow> rbind (db_call (he_commit he db)) (\<lambda>_. heed_payload_by_hash he cd encode_2718 db h)
     | None \<Rightarrow> Inr None))"

section \<open>Trie nodes\<close>

definition HEED_ROOT_KEY :: u64 where
  "HEED_ROOT_KEY = 0"

definition heed_trie_root :: "'db heed_ops \<Rightarrow> 'db \<Rightarrow> b256 option stored" where
  "heed_trie_root he db =
     heed_read_early he db (heed_get he encodable_b256_decode db TRIE_ROOT_COLUMN_FAMILY (u64_to_key HEED_ROOT_KEY))"

definition heed_trie_put_root :: "'db heed_ops \<Rightarrow> b256 \<Rightarrow> 'db \<Rightarrow> 'db stored" where
  "heed_trie_put_root he root db = heed_write he [(TRIE_ROOT_COLUMN_FAMILY, u64_to_key HEED_ROOT_KEY, root)] db"

definition heed_trie_get :: "'db heed_ops \<Rightarrow> 'db \<Rightarrow> bytes \<Rightarrow> bytes option stored" where
  "heed_trie_get he db k = heed_read_early he db (heed_get he Inr db TRIE_COLUMN_FAMILY k)"

definition heed_trie_insert :: "'db heed_ops \<Rightarrow> bytes \<Rightarrow> bytes \<Rightarrow> 'db \<Rightarrow> 'db stored" where
  "heed_trie_insert he k v db = heed_write he [(TRIE_COLUMN_FAMILY, k, v)] db"

definition heed_trie_insert_batch :: "'db heed_ops \<Rightarrow> bytes list \<Rightarrow> bytes list \<Rightarrow> 'db \<Rightarrow> 'db stored" where
  "heed_trie_insert_batch he ks vs db =
     heed_write he (map (\<lambda>(k, v). (TRIE_COLUMN_FAMILY, k, v)) (zip ks vs)) db"

definition heed_trie_remove :: "bytes \<Rightarrow> 'db \<Rightarrow> 'db stored" where
  "heed_trie_remove k db = Inr db"

definition heed_storage_root :: "'db heed_ops \<Rightarrow> address \<Rightarrow> 'db \<Rightarrow> b256 option stored" where
  "heed_storage_root he account db =
     heed_read_early he db (heed_get he encodable_b256_decode db STORAGE_ROOT_COLUMN_FAMILY account)"

definition heed_storage_put_root :: "'db heed_ops \<Rightarrow> address \<Rightarrow> b256 \<Rightarrow> 'db \<Rightarrow> 'db stored" where
  "heed_storage_put_root he account root db = heed_write he [(STORAGE_ROOT_COLUMN_FAMILY, account, root)] db"

definition heed_storage_get :: "'db heed_ops \<Rightarrow> address \<Rightarrow> 'db \<Rightarrow> bytes \<Rightarrow> bytes option stored" where
  "heed_storage_get he account db k =
     heed_read_early he db (heed_get he Inr db STORAGE_TRIE_COLUMN_FAMILY (unique_key account k))"

definition heed_storage_insert :: "'db heed_ops \<Rightarrow> address \<Rightarrow> bytes \<Rightarrow> bytes \<Rightarrow> 'db \<Rightarrow> 'db stored" where
  "heed_storage_insert he account k v db =
     heed_write he [(STORAGE_TRIE_COLUMN_FAMILY, unique_key account k, v)] db"

definition heed_storage_insert_batch ::
  "'db heed_ops \<Rightarrow> address \<Rightarrow> bytes list \<Rightarrow> bytes list \<Rightarrow> 'db \<Rightarrow> 'db stored" where
  "heed_storage_insert_batch he account ks vs db =
     heed_write he (map (\<lambda>(k, v). (STORAGE_TRIE_COLUMN_FAMILY, unique_key account k, v)) (zip ks vs)) db"

definition heed_storage_remove :: "address \<Rightarrow> bytes \<Rightarrow> 'db \<Rightarrow> 'db stored" where
  "heed_storage_remove account k db = Inr db"

section \<open>The state and its history\<close>

record 'db heed_state =
  hs_db :: 'db
  hs_resolver :: resolver
  hs_state_root :: "b256 option"

definition heed_state_new ::
  "'db heed_ops \<Rightarrow> ('k, 'db, 't, 'r, 'tc) state_ops \<Rightarrow> 'db \<Rightarrow> 'db heed_state stored" where
  "heed_state_new he so db =
     rbind (db_expect ''Database should be able to fetch state root'' (heed_trie_root he db)) (\<lambda>root.
     rbind (from_opt_root so db root) (\<lambda>t.
     Inr \<lparr>hs_db = db, hs_resolver = eth_trie_resolver so db t, hs_state_root = root\<rparr>))"

definition heed_persist_state_root :: "'db heed_ops \<Rightarrow> 'db heed_state \<Rightarrow> 'db heed_state stored" where
  "heed_persist_state_root he st =
     (case hs_state_root st of
        None \<Rightarrow> Inr st
      | Some root \<Rightarrow> rbind (heed_trie_put_root he root (hs_db st)) (\<lambda>db. Inr (st\<lparr>hs_db := db\<rparr>)))"

definition heed_state_apply ::
  "'db heed_ops \<Rightarrow> ('k, 'db, 't, 'r, 'tc) state_ops \<Rightarrow> change_set \<Rightarrow> 'db heed_state \<Rightarrow> 'db heed_state stored" where
  "heed_state_apply he so cs st =
     rbind (from_opt_root so (hs_db st) (hs_state_root st)) (\<lambda>t.
     rbind (db_unwrap (to_tree_values so cs)) (\<lambda>vals.
     rbind (db_call (insert_all so (hs_db st) (so_order so vals) t)) (\<lambda>t'.
     rbind (db_call (so_root_hash so (hs_db st) t')) (\<lambda>(root, db).
     db_expect ''called Result::unwrap() on an Err value''
       (heed_persist_state_root he \<lparr>hs_db = db, hs_resolver = eth_trie_resolver so db t', hs_state_root = Some root\<rparr>)))))"

definition heed_state_root :: "'db heed_state \<Rightarrow> b256" where
  "heed_state_root st = unwrap_or (hs_state_root st) (replicate 32 0)"

definition HEED_HEIGHT_KEY :: u64 where
  "HEED_HEIGHT_KEY = 0"

definition heed_height :: "'db heed_ops \<Rightarrow> 'db \<Rightarrow> u64 stored" where
  "heed_height he db =
     rbind (heed_read he db (heed_get he encodable_u64_decode db STATE_HEIGHT_COLUMN_FAMILY (u64_to_key HEED_HEIGHT_KEY)))
       (\<lambda>h. Inr (unwrap_or h 0))"

definition heed_push_state_root :: "'db heed_ops \<Rightarrow> b256 \<Rightarrow> 'db \<Rightarrow> 'db stored" where
  "heed_push_state_root he root db =
     rbind (heed_height he db) (\<lambda>h.
     heed_write he
       [(STATE_COLUMN_FAMILY, u64_to_key (h + 1), root),
        (STATE_HEIGHT_COLUMN_FAMILY, u64_to_key HEED_HEIGHT_KEY, u64_to_key (h + 1))] db)"

definition heed_root_by_height :: "'db heed_ops \<Rightarrow> b256 \<Rightarrow> 'db \<Rightarrow> u64 \<Rightarrow> b256 option stored" where
  "heed_root_by_height he genesis_root db h =
     (if h = 0 then Inr (Some genesis_root)
      else heed_read he db (heed_get he encodable_b256_decode db STATE_COLUMN_FAMILY (u64_to_key h)))"

definition heed_tree ::
  "'db heed_ops \<Rightarrow> ('k, 'db, 't, 'r, 'tc) state_ops \<Rightarrow> b256 \<Rightarrow> 'db \<Rightarrow> u64 \<Rightarrow> 't stored" where
  "heed_tree he so genesis_root db h =
     rbind (heed_root_by_height he genesis_root db h) (\<lambda>r.
     case r of
       Some root \<Rightarrow> map_err (\<lambda>_. KvPanic ''State root should be valid'') (so_open so db (Some root))
     | None \<Rightarrow> map_err KvPanic (so_open so db None))"

definition heed_resolver ::
  "'db heed_ops \<Rightarrow> ('k, 'db, 't, 'r, 'tc) state_ops \<Rightarrow> b256 \<Rightarrow> 'db \<Rightarrow> u64 \<Rightarrow> resolver stored" where
  "heed_resolver he so genesis_root db h =
     rbind (heed_tree he so genesis_root db h) (\<lambda>t. Inr (eth_trie_resolver so db t))"

definition heed_balance_at ::
  "'db heed_ops \<Rightarrow> ('k, 'db, 't, 'r, 'tc) state_ops \<Rightarrow> b256 \<Rightarrow> 's vm_ops \<Rightarrow> (resolver \<Rightarrow> 'es \<Rightarrow> 's) \<Rightarrow> 'db
     \<Rightarrow> 'es \<Rightarrow> account_address \<Rightarrow> u64 \<Rightarrow> panic + u256 option" where
  "heed_balance_at he so genesis_root vm new_session db evm_storage account h =
     rbind (stored_ok (heed_resolver he so genesis_root db h)) (\<lambda>r.
     case r of
       None \<Rightarrow> Inr None
     | Some res \<Rightarrow> rbind (quick_get_eth_balance vm (new_session res evm_storage) account) (\<lambda>b. Inr (Some b)))"

definition heed_nonce_at ::
  "'db heed_ops \<Rightarrow> ('k, 'db, 't, 'r, 'tc) state_ops \<Rightarrow> b256 \<Rightarrow> 's vm_ops \<Rightarrow> (resolver \<Rightarrow> 'es \<Rightarrow> 's) \<Rightarrow> 'db
     \<Rightarrow> 'es \<Rightarrow> account_address \<Rightarrow> u64 \<Rightarrow> panic + u64 option" where
  "heed_nonce_at he so genesis_root vm new_session db evm_storage account h =
     rbind (stored_ok (heed_resolver he so genesis_root db h)) (\<lambda>r.
     case r of
       None \<Rightarrow> Inr None
     | Some res \<Rightarrow> rbind (quick_get_nonce vm (new_session res evm_storage) account) (\<lambda>n. Inr (Some n)))"

definition heed_proof_at ::
  "'db heed_ops \<Rightarrow> ('k, 'db, 't, 'r, 'tc) state_ops \<Rightarrow> b256 \<Rightarrow> 'u evm_ops \<Rightarrow> ('db \<Rightarrow> 't \<Rightarrow> bytes \<Rightarrow> string + bytes list)
     \<Rightarrow> (nodes \<Rightarrow> 'u \<Rightarrow> bytes \<Rightarrow> string + bytes list) \<Rightarrow> 'db \<Rightarrow> repository \<Rightarrow> account_address
     \<Rightarrow> u256 list \<Rightarrow> u64 \<Rightarrow> panic + proof_response option" where
  "heed_proof_at he so genesis_root eo tree_proof slot_proof db repo account slots h =
     (let a = to_eth_address account
      in if \<not> is_l2_contract a then Inr None
         else
           rbind (stored_ok (heed_tree he so genesis_root db h)) (\<lambda>t.
           case t of
             None \<Rightarrow> Inr None
           | Some t \<Rightarrow>
               rbind (stored_ok (heed_resolver he so genesis_root db h)) (\<lambda>r.
               case r of
                 None \<Rightarrow> Inr None
               | Some res \<Rightarrow>
                   proof_from_trie_and_resolver eo slot_proof a slots
                     (tree_proof db t (key_hash so (EvmKey a))) res repo)))"

definition heed_resolver_at ::
  "'db heed_ops \<Rightarrow> ('k, 'db, 't, 'r, 'tc) state_ops \<Rightarrow> b256 \<Rightarrow> 'db \<Rightarrow> u64 \<Rightarrow> panic + resolver" where
  "heed_resolver_at he so genesis_root db h =
     (case heed_resolver he so genesis_root db h of
        Inr res \<Rightarrow> Inr res
      | Inl (KvError _) \<Rightarrow> Inl (Panic ''called Result::unwrap() on an Err value'')
      | Inl (KvPanic m) \<Rightarrow> Inl (Panic m))"

section \<open>Agreement of the two databases\<close>

lemma heed_get_content:
  assumes "kv_laws (he_kv he) content" "heed_reliable he" "content db cf k = map_option enc x"
    and "\<And>y. x = Some y \<Longrightarrow> dec (enc y) = Inr y"
  shows "heed_get he dec db cf k = Inr x"
  using assms(2-4)
  by (cases x) (auto simp: heed_get_def heed_reliable_def kv_get_content [OF assms(1)] db_call_def)

lemma heed_block_get:
  assumes "kv_laws (he_kv he) content" "heed_reliable he" "represents pk cd (content db) mem"
  shows "heed_get he (cd_block_of cd) db BLOCK_COLUMN_FAMILY h = Inr (by_hash (pk_block pk) (sm_blocks mem) h)"
  using assms(3) by (intro heed_get_content [OF assms(1,2)]) (auto simp: represents_def)

lemma heed_height_get:
  assumes "kv_laws (he_kv he) content" "heed_reliable he" "represents pk cd (content db) mem"
  shows "heed_get he encodable_b256_decode db HEIGHT_COLUMN_FAMILY (u64_to_key n)
    = Inr (map_option eb_hash (by_height (pk_block pk) (sm_blocks mem) n))"
  using assms(2,3)
  by (cases "by_height (pk_block pk) (sm_blocks mem) n")
    (auto simp: heed_get_def heed_reliable_def kv_get_content [OF assms(1)] db_call_def represents_def
      encodable_b256_decode_def)

lemma heed_transactions_eq:
  assumes "kv_laws (he_kv he) content" "heed_reliable he" "represents pk cd (content db) mem"
  shows "heed_transactions he cd db hs = Inr (transactions_by_hashes (pk_tx pk) (sm_transactions mem) hs)"
proof -
  have kv: "kv_reliable (he_kv he)" using assms(2) by (simp add: heed_reliable_def)
  have "heed_get he (cd_transaction_of cd) db TRANSACTION_COLUMN_FAMILY h
      = rocks_get (he_kv he) (rocks_from_value (cd_transaction_of cd)) db TRANSACTION_COLUMN_FAMILY h" for h
  proof -
    have c: "content db TRANSACTION_COLUMN_FAMILY h
        = map_option (cd_transaction cd) (transaction_by_hash (pk_tx pk) (sm_transactions mem) h)"
      and d: "\<And>t. transaction_by_hash (pk_tx pk) (sm_transactions mem) h = Some t \<Longrightarrow>
        cd_transaction_of cd (cd_transaction cd t) = Inr t"
      using assms(3) by (simp_all add: represents_def)
    show ?thesis using heed_get_content [OF assms(1,2) c d] rocks_get_content [OF assms(1) kv c d] by simp
  qed
  then have "heed_transactions he cd db hs = rocks_transactions (he_kv he) cd db hs"
    by (simp add: heed_transactions_def rocks_transactions_def cong: map_cong)
  then show ?thesis by (simp add: rocks_transactions_eq [OF assms(1) kv assms(3)])
qed

lemma heed_last_eq:
  assumes "kv_laws (he_kv he) content" "heed_reliable he" "represents pk cd (content db) mem"
    and "picks_member (pk_block pk)"
  shows "heed_last he encodable_u64_decode encodable_b256_decode db HEIGHT_COLUMN_FAMILY
    = Inr (map_option (\<lambda>b. (number_of b, eb_hash b)) (last_block (pk_block pk) (sm_blocks mem)))"
proof -
  have kv: "kv_reliable (he_kv he)" using assms(2) by (simp add: heed_reliable_def)
  obtain r where r: "kv_last (he_kv he) db HEIGHT_COLUMN_FAMILY = Inr r" "is_last (content db HEIGHT_COLUMN_FAMILY) r"
    using kv_last_content [OF assms(1) kv] .
  note l = last_height [OF assms(4,3) r(2)]
  have key: "encodable_u64_decode (u64_to_key n) = Inr n" for n
    using key_roundtrip [of n]
    by (simp add: u64_from_key_def encodable_u64_decode_def u64_to_key_def try_into_unwrap_def)
  show ?thesis
  proof (cases "last_block (pk_block pk) (sm_blocks mem)")
    case (Some b)
    have ok: "chain_ok (sm_blocks mem)" using assms(3) by (simp add: represents_def)
    have "by_height (pk_block pk) (sm_blocks mem) (number_of b) = Some b"
      using last_block_number(1) [OF assms(4) ok Some] Some by (simp add: last_block_def)
    then have "length (eb_hash b) = 32" using assms(3) by (auto simp: represents_def)
    with Some show ?thesis
      by (simp add: heed_last_def r(1) l db_call_def key encodable_b256_decode_def)
  qed (simp add: heed_last_def r(1) l db_call_def)
qed

text \<open>On a database that holds a chain, the store on LMDB does what the store on RocksDB does.\<close>

lemma heed_as_rocks:
  assumes "kv_laws (he_kv he) content" "heed_reliable he" "represents pk cd (content db) mem"
    and "picks_member (pk_block pk)"
  shows "heed_block_add he cd b db = rocks_block_add (he_kv he) cd b db \<and>
    heed_transaction_extend he cd th txs db = rocks_transaction_extend (he_kv he) cd th txs db \<and>
    heed_query_by_hash he cd ops db h inc = rocks_query_by_hash (he_kv he) cd ops db h inc \<and>
    heed_query_by_height he cd ops db n inc = rocks_query_by_height (he_kv he) cd ops db n inc \<and>
    heed_query_latest he db = rocks_query_latest (he_kv he) db \<and>
    heed_block_latest he cd db = rocks_block_latest (he_kv he) cd db \<and>
    heed_payload_by_hash he cd enc db h = rocks_payload_by_hash (he_kv he) cd enc db h"
proof -
  have kv: "kv_reliable (he_kv he)" and txn: "\<And>db. he_read_txn he db = Inr ()" "\<And>db. he_commit he db = Inr ()"
    using assms(2) by (simp_all add: heed_reliable_def)
  note facts = assms(1) kv assms(3)
  have ok: "chain_ok (sm_blocks mem)" using assms(3) by (simp add: represents_def)
  have writes: "heed_block_add he cd b db = rocks_block_add (he_kv he) cd b db"
    "heed_transaction_extend he cd th txs db = rocks_transaction_extend (he_kv he) cd th txs db"
    by (simp_all add: heed_block_add_def rocks_block_add_def heed_write_def rocks_block_entries_def
        heed_transaction_extend_def rocks_transaction_extend_def)
  have by_hash: "heed_query_by_hash he cd ops db h inc = rocks_query_by_hash (he_kv he) cd ops db h inc" for h inc
    by (cases "by_hash (pk_block pk) (sm_blocks mem) h")
      (simp_all add: heed_query_by_hash_def rocks_query_by_hash_def txn db_call_def heed_block_get [OF assms(1-3)]
        rocks_block_by_hash_eq [OF facts] heed_transactions_eq [OF assms(1-3)] rocks_transactions_eq [OF facts])
  have height: "heed_query_by_height he cd ops db n inc = rocks_query_by_height (he_kv he) cd ops db n inc"
    by (cases "by_height (pk_block pk) (sm_blocks mem) n")
      (simp_all add: heed_query_by_height_def rocks_query_by_height_def txn db_call_def
        heed_height_get [OF assms(1-3)] rocks_height_eq [OF assms(1) kv assms(3)] by_hash)
  have latest: "heed_query_latest he db = rocks_query_latest (he_kv he) db"
    by (simp add: heed_query_latest_def heed_read_early_def txn db_call_def heed_last_eq [OF assms(1-4)]
        rocks_latest_eq(2) [OF facts assms(4)] query_latest_def height_is_last [OF assms(4) ok] comp_def
        option.map_comp)
  have block: "heed_block_latest he cd db = rocks_block_latest (he_kv he) cd db"
  proof (cases "last_block (pk_block pk) (sm_blocks mem)")
    case (Some b)
    have "by_height (pk_block pk) (sm_blocks mem) (number_of b) = Some b"
      using last_block_number(1) [OF assms(4) ok Some] Some by (simp add: last_block_def)
    then have "by_hash (pk_block pk) (sm_blocks mem) (eb_hash b) = Some b"
      using assms(3) by (simp add: represents_def)
    with Some show ?thesis
      by (simp add: heed_block_latest_def heed_read_early_def txn db_call_def heed_last_eq [OF assms(1-4)]
          rocks_latest_eq(1) [OF facts assms(4)] repository_latest_def heed_block_get [OF assms(1-3)])
  qed (simp add: heed_block_latest_def heed_read_early_def txn db_call_def heed_last_eq [OF assms(1-4)]
      rocks_latest_eq(1) [OF facts assms(4)] repository_latest_def)
  have payload: "heed_payload_by_hash he cd enc db h = rocks_payload_by_hash (he_kv he) cd enc db h"
    by (cases "by_hash (pk_block pk) (sm_blocks mem) h")
      (simp_all add: heed_payload_by_hash_def heed_read_def rocks_payload_by_hash_def txn db_call_def
        heed_block_get [OF assms(1-3)] rocks_block_by_hash_eq [OF facts] heed_transactions_eq [OF assms(1-3)]
        rocks_transactions_eq [OF facts])
  from writes by_hash height latest block payload show ?thesis by simp
qed

section \<open>The contract of the store\<close>

definition heed_holds ::
  "'db heed_ops \<Rightarrow> ('db \<Rightarrow> contents) \<Rightarrow> codec \<Rightarrow> picks \<Rightarrow> 'db \<Rightarrow> shared_memory \<Rightarrow> bool" where
  "heed_holds he content cd pk db mem \<longleftrightarrow> heed_reliable he \<and> rocks_holds (he_kv he) content cd pk db mem"

lemma heed_holds_facts:
  assumes "heed_holds he content cd pk db mem"
  shows "kv_laws (he_kv he) content" "heed_reliable he" "represents pk cd (content db) mem"
    "picks_member (pk_block pk)" "rocks_holds (he_kv he) content cd pk db mem"
  using assms by (simp_all add: heed_holds_def rocks_holds_def)

lemma heed_answers:
  assumes "heed_holds he content cd pk db mem"
  shows "heed_query_by_hash he cd ops db h inc = db_unwrap (query_by_hash ops pk mem h inc)"
    "heed_query_by_height he cd ops db n inc = db_unwrap (query_by_height ops pk mem n inc)"
    "heed_query_latest he db = Inr (query_latest mem)"
    "heed_block_latest he cd db = Inr (repository_latest (pk_block pk) (sm_blocks mem))"
    "heed_payload_by_hash he cd enc db h = Inr (payload_by_hash enc pk mem h)"
  using heed_as_rocks [OF heed_holds_facts(1-4) [OF assms]] rocks.answers [OF heed_holds_facts(5) [OF assms]]
  by simp_all

lemma heed_writes:
  "heed_block_add he cd b db = rocks_block_add (he_kv he) cd b db"
  "heed_transaction_extend he cd th txs db = rocks_transaction_extend (he_kv he) cd th txs db"
  by (simp_all add: heed_block_add_def rocks_block_add_def heed_write_def rocks_block_entries_def
      heed_transaction_extend_def rocks_transaction_extend_def)

lemma heed_write_entry:
  assumes "heed_holds he content cd pk db mem" "appendable pk th e mem" "storable_entry cd e"
  shows "\<exists>db' db''. heed_transaction_extend he cd th (snd e) db = Inr db' \<and> heed_block_add he cd (fst e) db' = Inr db'' \<and>
    heed_holds he content cd pk db'' (memory_write th e mem)"
  using rocks.rel_write [OF heed_holds_facts(5) [OF assms(1)] assms(2,3)] assms(1)
  by (simp add: heed_writes heed_holds_def)

interpretation lmdb: chain_backend pk th ops enc "storable_entry cd" "heed_holds he content cd pk"
  "heed_transaction_extend he cd th" "heed_block_add he cd" "heed_query_by_hash he cd ops"
  "heed_query_by_height he cd ops" "heed_query_latest he" "heed_block_latest he cd"
  "heed_payload_by_hash he cd enc"
  by unfold_locales (fact heed_write_entry heed_answers)+

text \<open>The two persistent backends are interchangeable: from empty databases on, the store on LMDB
  and the store on RocksDB, each over its own database, accept every chain of blocks, and then answer
  every query for blocks and payloads the same way.\<close>

lemma backends_agree:
  assumes "kv_laws kv content" "kv_reliable kv" "content db = (\<lambda>_. Map.empty)"
    and "kv_laws (he_kv he) content'" "heed_reliable he" "content' hdb = (\<lambda>_. Map.empty)"
    and "picks_member (pk_block pk)" "picks_member (pk_tx pk)"
    and "appendable_all pk th es shared_memory_new" "list_all (storable_entry cd) es"
  shows "\<exists>db' hdb'.
    write_all (rocks_transaction_extend kv cd th) (rocks_block_add kv cd) es db = Inr db' \<and>
    write_all (heed_transaction_extend he cd th) (heed_block_add he cd) es hdb = Inr hdb' \<and>
    (\<forall>h inc. heed_query_by_hash he cd ops hdb' h inc = rocks_query_by_hash kv cd ops db' h inc) \<and>
    (\<forall>n inc. heed_query_by_height he cd ops hdb' n inc = rocks_query_by_height kv cd ops db' n inc) \<and>
    heed_query_latest he hdb' = rocks_query_latest kv db' \<and>
    heed_block_latest he cd hdb' = rocks_block_latest kv cd db' \<and>
    (\<forall>h. heed_payload_by_hash he cd enc hdb' h = rocks_payload_by_hash kv cd enc db' h)"
proof -
  have kv: "kv_reliable (he_kv he)" using assms(5) by (simp add: heed_reliable_def)
  have "rocks_holds kv content cd pk db shared_memory_new" "heed_holds he content' cd pk hdb shared_memory_new"
    using assms kv represents_new by (simp_all add: rocks_holds_def heed_holds_def)
  from rocks.write_all_rel [OF this(1) assms(9,10)] lmdb.write_all_rel [OF this(2) assms(9,10)]
  show ?thesis using rocks.answers lmdb.answers by fastforce
qed

end
