(* ===== verification/Persistent_Node.thy ===== *)
theory Persistent_Node
  imports Ledger Heed_Store
begin

text \<open>
  The node over a database: \<^verbatim>\<open>server/src/dependency/rocksdb.rs\<close>, \<^verbatim>\<open>heed.rs\<close> and \<^verbatim>\<open>shared.rs\<close> choose the
  stores, \<^verbatim>\<open>app/src/dependency.rs\<close> puts them into the application, and the commands of
  \<^verbatim>\<open>app/src/command.rs\<close> run over them, with the two callbacks that do nothing in memory: the root of the
  state is pushed to its history after the transactions of a block, and the identifier of a payload is
  stored with the hash of its block at the end. The code is one and the same for every backend; the
  contract \<open>node_backend\<close> says when a node over a backend does what the node in memory does, and holds
  for both databases. The tries of the state and of EVM accounts have families of their own and are
  kept apart here, as in memory.
\<close>

section \<open>The stores of a node\<close>

record 'db persistent_stores =
  ps_payload_by_id :: "'db \<Rightarrow> payload_id \<Rightarrow> payload_response option stored"
  ps_receipt_contains :: "'db \<Rightarrow> b256 \<Rightarrow> bool stored"
  ps_block_latest :: "'db \<Rightarrow> extended_block option stored"
  ps_query_by_hash :: "'db \<Rightarrow> b256 \<Rightarrow> bool \<Rightarrow> block_response option stored"
  ps_query_latest :: "'db \<Rightarrow> u64 option stored"
  ps_query_by_height :: "'db \<Rightarrow> u64 \<Rightarrow> bool \<Rightarrow> block_response option stored"
  ps_root_by_height :: "b256 \<Rightarrow> 'db \<Rightarrow> u64 \<Rightarrow> b256 option stored"
  ps_receipt_extend :: "extended_receipt list \<Rightarrow> 'db \<Rightarrow> 'db stored"
  ps_transaction_extend :: "extended_transaction list \<Rightarrow> 'db \<Rightarrow> 'db stored"
  ps_block_add :: "extended_block \<Rightarrow> 'db \<Rightarrow> 'db stored"
  ps_on_payload :: "payload_id \<Rightarrow> b256 \<Rightarrow> 'db \<Rightarrow> 'db stored"
  ps_on_tx_batch :: "b256 \<Rightarrow> 'db \<Rightarrow> 'db stored"

definition rocks_dependencies ::
  "'db kv_ops \<Rightarrow> codec \<Rightarrow> tx_ops \<Rightarrow> (op_tx_envelope \<Rightarrow> bytes) \<Rightarrow> 'db persistent_stores" where
  "rocks_dependencies kv cd ops encode_2718 =
     \<lparr>ps_payload_by_id = rocks_payload_by_id kv cd encode_2718,
      ps_receipt_contains = rocks_receipt_contains kv,
      ps_block_latest = rocks_block_latest kv cd,
      ps_query_by_hash = rocks_query_by_hash kv cd ops,
      ps_query_latest = rocks_query_latest kv,
      ps_query_by_height = rocks_query_by_height kv cd ops,
      ps_root_by_height = rocks_root_by_height kv,
      ps_receipt_extend = rocks_receipt_extend kv cd,
      ps_transaction_extend = rocks_transaction_extend kv cd (op_trie_hash ops),
      ps_block_add = rocks_block_add kv cd,
      ps_on_payload = rocks_add_block_hash kv,
      ps_on_tx_batch = rocks_push_state_root kv\<rparr>"

definition heed_dependencies ::
  "'db heed_ops \<Rightarrow> codec \<Rightarrow> tx_ops \<Rightarrow> (op_tx_envelope \<Rightarrow> bytes) \<Rightarrow> 'db persistent_stores" where
  "heed_dependencies he cd ops encode_2718 =
     \<lparr>ps_payload_by_id = heed_payload_by_id he cd encode_2718,
      ps_receipt_contains = heed_receipt_contains he,
      ps_block_latest = heed_block_latest he cd,
      ps_query_by_hash = heed_query_by_hash he cd ops,
      ps_query_latest = heed_query_latest he,
      ps_query_by_height = heed_query_by_height he cd ops,
      ps_root_by_height = heed_root_by_height he,
      ps_receipt_extend = heed_receipt_extend he cd,
      ps_transaction_extend = heed_transaction_extend he cd (op_trie_hash ops),
      ps_block_add = heed_block_add he cd,
      ps_on_payload = heed_add_block_hash he,
      ps_on_tx_batch = heed_push_state_root he\<rparr>"

record ('st, 'es, 'db) persistent_application =
  pn_genesis_config :: genesis_config
  pn_mem_pool :: "(b256 \<times> pooled) list"
  pn_gas_fee :: eip1559_gas_fee
  pn_db :: 'db
  pn_state :: 'st
  pn_evm_storage :: 'es

definition persistent_application_new ::
  "genesis_config \<Rightarrow> eip1559_gas_fee \<Rightarrow> 'st \<Rightarrow> 'es \<Rightarrow> 'db \<Rightarrow> ('st, 'es, 'db) persistent_application" where
  "persistent_application_new cfg fee st es db =
     \<lparr>pn_genesis_config = cfg, pn_mem_pool = [], pn_gas_fee = fee, pn_db = db, pn_state = st,
      pn_evm_storage = es\<rparr>"

section \<open>The stores in memory\<close>

text \<open>The dependencies of the node in memory hand out each writer once; the reader's have none.\<close>

record in_memory_dependencies =
  im_memory :: "shared_memory option"
  im_receipt_memory :: "receipt_memory option"

definition in_memory_dependencies_new :: in_memory_dependencies where
  "in_memory_dependencies_new = \<lparr>im_memory = Some shared_memory_new, im_receipt_memory = Some em_new\<rparr>"

definition in_memory_reader :: "in_memory_dependencies \<Rightarrow> in_memory_dependencies" where
  "in_memory_reader deps = \<lparr>im_memory = None, im_receipt_memory = None\<rparr>"

definition take_receipt_memory ::
  "in_memory_dependencies \<Rightarrow> panic + receipt_memory \<times> in_memory_dependencies" where
  "take_receipt_memory deps =
     rbind (ok_or (im_receipt_memory deps) (Panic ''Writer cannot be taken more than once'')) (\<lambda>rm.
     Inr (rm, deps\<lparr>im_receipt_memory := None\<rparr>))"

definition take_shared_storage ::
  "in_memory_dependencies \<Rightarrow> panic + shared_memory \<times> in_memory_dependencies" where
  "take_shared_storage deps =
     rbind (ok_or (im_memory deps) (Panic ''Writer cannot be taken more than once'')) (\<lambda>mem.
     Inr (mem, deps\<lparr>im_memory := None\<rparr>))"

definition EIP1559_ELASTICITY_MULTIPLIER :: u64 where
  "EIP1559_ELASTICITY_MULTIPLIER = 6"

definition EIP1559_BASE_FEE_MAX_CHANGE_DENOMINATOR :: u256 where
  "EIP1559_BASE_FEE_MAX_CHANGE_DENOMINATOR = 250"

definition base_gas_fee :: "panic + eip1559_gas_fee" where
  "base_gas_fee = eip1559_new EIP1559_ELASTICITY_MULTIPLIER EIP1559_BASE_FEE_MAX_CHANGE_DENOMINATOR"

definition in_memory_application ::
  "in_memory_dependencies \<Rightarrow> genesis_config \<Rightarrow> 'st \<Rightarrow> 'es \<Rightarrow> panic + ('st, 'es) application" where
  "in_memory_application deps cfg st es =
     rbind base_gas_fee (\<lambda>fee.
     rbind (take_receipt_memory deps) (\<lambda>(rm, deps).
     rbind (take_shared_storage deps) (\<lambda>(mem, deps).
     Inr \<lparr>ap_genesis_config = cfg, ap_mem_pool = [], ap_gas_fee = fee, ap_receipt_memory = rm,
          ap_storage = mem, ap_state = st, ap_evm_storage = es\<rparr>)))"

lemma in_memory_node:
  "in_memory_application in_memory_dependencies_new cfg st es
     = Inr (application_new cfg \<lparr>elasticity_multiplier = 6, base_fee_max_change_denominator = 250\<rparr> st es)"
  "\<exists>e. in_memory_application (in_memory_reader deps) cfg st es = Inl e"
  by (simp_all add: in_memory_application_def in_memory_dependencies_new_def in_memory_reader_def base_gas_fee_def
      eip1559_new_def EIP1559_ELASTICITY_MULTIPLIER_def EIP1559_BASE_FEE_MAX_CHANGE_DENOMINATOR_def
      take_receipt_memory_def take_shared_storage_def application_new_def)

section \<open>Commands\<close>

definition stored_unwrap :: "'a stored \<Rightarrow> panic + 'a" where
  "stored_unwrap r =
     map_err (\<lambda>f. case f of
        KvError _ \<Rightarrow> Panic ''called Result::unwrap() on an Err value'' | KvPanic m \<Rightarrow> Panic m) r"

definition persistent_hash_by_number :: "'db persistent_stores \<Rightarrow> 'db \<Rightarrow> hash_lookup" where
  "persistent_hash_by_number s db number =
     (case ok (ps_query_by_height s db number False) of
        Some (Some b) \<Rightarrow> Some (br_hash b)
      | _ \<Rightarrow> None)"

text \<open>The root is pushed when the transactions are done, before the outcome is put together.\<close>

definition persistent_execute_transactions ::
  "('st, 'es, 's, 'c, 'e) dependencies \<Rightarrow> 'db persistent_stores
     \<Rightarrow> ('st, 'es, 'db) persistent_application \<Rightarrow> (b256 \<times> pooled) list \<Rightarrow> u256 \<Rightarrow> header_for_execution
     \<Rightarrow> panic + execution_outcome \<times> extended_receipt list \<times> ('st, 'es, 'db) persistent_application" where
  "persistent_execute_transactions d s app ts base_fee hdr =
     rbind (block_l1_fee ts) (\<lambda>l1.
     rbind (execute_loop d (pn_genesis_config app) (persistent_hash_by_number s (pn_db app)) l1 base_fee hdr
       ts (building_new (pn_state app) (pn_evm_storage app))) (\<lambda>bu.
     rbind (stored_unwrap (ps_on_tx_batch s (d_state_root d (bu_state bu)) (pn_db app))) (\<lambda>db.
     rbind (u64_from (bu_gas bu)) (\<lambda>gas.
     Inr (\<lparr>eo_receipts_root = d_receipts_root d (map er_receipt (bu_receipts bu)),
           eo_state_root = d_state_root d (bu_state bu), eo_logs_bloom = bu_bloom bu,
           eo_gas_used = gas, eo_total_tip = bu_total_tip bu\<rparr>,
          bu_receipts bu,
          app\<lparr>pn_state := bu_state bu, pn_evm_storage := bu_evm bu, pn_db := db\<rparr>)))))"

definition persistent_candidates ::
  "('st, 'es, 's, 'c, 'e) dependencies \<Rightarrow> 'db persistent_stores
     \<Rightarrow> ('st, 'es, 'db) persistent_application \<Rightarrow> payload \<Rightarrow> panic + (b256 \<times> pooled) list" where
  "persistent_candidates d s app p =
     (let ts = filter_map (decode_payload_tx d) (pa_transactions p) @ d_drain d (pn_mem_pool app)
      in rbind (collect_result (map (\<lambda>t. stored_unwrap (ps_receipt_contains s (pn_db app) (fst t))) ts))
           (\<lambda>known. Inr (map fst (filter (\<lambda>(_, c). \<not> c) (zip ts known)))))"

definition persistent_build_block ::
  "('st, 'es, 's, 'c, 'e) dependencies \<Rightarrow> 'db persistent_stores
     \<Rightarrow> ('st, 'es, 'db) persistent_application \<Rightarrow> payload \<Rightarrow> payload_id \<Rightarrow> (b256 \<times> pooled) list
     \<Rightarrow> panic + extended_block \<times> extended_receipt list \<times> ('st, 'es, 'db) persistent_application" where
  "persistent_build_block d s app p i ts =
     rbind (stored_unwrap (ps_block_latest s (pn_db app))) (\<lambda>latest.
     rbind (ok_or latest (Panic ''Parent block should exist'')) (\<lambda>parent.
     let ph = bl_header (eb_block parent)
     in rbind (base_fee_per_gas (pn_gas_fee app) (hd_gas_limit ph) (hd_gas_used ph)
          (ucast (unwrap_or (hd_base_fee_per_gas ph) 0))) (\<lambda>base_fee.
        let hdr = \<lparr>hx_number = hd_number ph + 1, hx_timestamp = pa_timestamp p,
                   hx_prev_randao = pa_prev_randao p\<rparr>;
            txs = map (fst \<circ> snd) ts
        in rbind (persistent_execute_transactions d s app ts base_fee hdr) (\<lambda>(out, rs, app').
           let h = block_header d p parent hdr base_fee txs out
           in Inr (with_payload_id i (with_value (eo_total_tip out)
                (with_hash (d_block_hash d h)
                  (block_new h (map (op_trie_hash (d_tx_ops d)) txs)))), rs, app')))))"

definition persistent_publish ::
  "'db persistent_stores \<Rightarrow> extended_receipt list \<Rightarrow> extended_transaction list \<Rightarrow> extended_block \<Rightarrow> 'db
     \<Rightarrow> 'db stored" where
  "persistent_publish s rs txs b db =
     rbind (ps_receipt_extend s (map (with_block_hash (eb_hash b)) rs) db) (\<lambda>db.
     rbind (ps_transaction_extend s txs db) (\<lambda>db.
     rbind (ps_block_add s b db) (\<lambda>db.
     ps_on_payload s (eb_payload_id b) (eb_hash b) db)))"

definition persistent_start_block_build ::
  "('st, 'es, 's, 'c, 'e) dependencies \<Rightarrow> 'db persistent_stores
     \<Rightarrow> ('st, 'es, 'db) persistent_application \<Rightarrow> payload \<Rightarrow> payload_id
     \<Rightarrow> panic + ('st, 'es, 'db) persistent_application" where
  "persistent_start_block_build d s app p i =
     rbind (stored_unwrap (ps_payload_by_id s (pn_db app) i)) (\<lambda>known.
     if known \<noteq> None then Inr app
     else
       rbind (persistent_candidates d s app p) (\<lambda>ts.
       rbind (persistent_build_block d s (app\<lparr>pn_mem_pool := []\<rparr>) p i ts) (\<lambda>(b, rs, app').
       rbind (stored_unwrap
           (persistent_publish s rs (stored_transactions d b (map (fst \<circ> snd) ts)) b (pn_db app'))) (\<lambda>db.
       Inr (app'\<lparr>pn_db := db\<rparr>)))))"

definition persistent_add_transaction ::
  "('st, 'es, 's, 'c, 'e) dependencies \<Rightarrow> ('st, 'es, 'db) persistent_application \<Rightarrow> tx_envelope
     \<Rightarrow> panic + ('st, 'es, 'db) persistent_application" where
  "persistent_add_transaction d app tx =
     rbind (ok_or (try_from_eth_envelope tx) (Panic ''EIP-4844 not supported'')) (\<lambda>op_tx.
     Inr (app\<lparr>pn_mem_pool := pool_insert (d_eth_tx_hash d tx)
       (op_tx, l1_input_of_bytes (d_encode_tx d tx)) (pn_mem_pool app)\<rparr>))"

definition persistent_genesis_update ::
  "'db persistent_stores \<Rightarrow> ('st, 'es, 'db) persistent_application \<Rightarrow> extended_block
     \<Rightarrow> panic + ('st, 'es, 'db) persistent_application" where
  "persistent_genesis_update s app b =
     rbind (stored_unwrap (ps_block_add s b (pn_db app))) (\<lambda>db. Inr (app\<lparr>pn_db := db\<rparr>))"

fun persistent_handle_command ::
  "('st, 'es, 's, 'c, 'e) dependencies \<Rightarrow> 'db persistent_stores
     \<Rightarrow> ('st, 'es, 'db) persistent_application \<Rightarrow> command
     \<Rightarrow> panic + ('st, 'es, 'db) persistent_application" where
  "persistent_handle_command d s app (StartBlockBuild p i) = persistent_start_block_build d s app p i"
| "persistent_handle_command d s app (AddTransaction tx) = persistent_add_transaction d app tx"
| "persistent_handle_command d s app (GenesisUpdate b) = persistent_genesis_update s app b"

fun persistent_work ::
  "('st, 'es, 's, 'c, 'e) dependencies \<Rightarrow> 'db persistent_stores
     \<Rightarrow> ('st, 'es, 'db) persistent_application \<Rightarrow> command list
     \<Rightarrow> panic + ('st, 'es, 'db) persistent_application" where
  "persistent_work d s app [] = Inr app"
| "persistent_work d s app (msg # rx) =
     rbind (persistent_handle_command d s app msg) (\<lambda>app'. persistent_work d s app' rx)"

section \<open>The contract\<close>

text \<open>The node over \<open>db\<close> that has everything else of a node in memory.\<close>

definition over :: "'db \<Rightarrow> ('st, 'es) application \<Rightarrow> ('st, 'es, 'db) persistent_application" where
  "over db app =
     \<lparr>pn_genesis_config = ap_genesis_config app, pn_mem_pool = ap_mem_pool app, pn_gas_fee = ap_gas_fee app,
      pn_db = db, pn_state = ap_state app, pn_evm_storage = ap_evm_storage app\<rparr>"

lemma over_simps [simp]:
  "pn_genesis_config (over db app) = ap_genesis_config app" "pn_mem_pool (over db app) = ap_mem_pool app"
  "pn_gas_fee (over db app) = ap_gas_fee app" "pn_db (over db app) = db" "pn_state (over db app) = ap_state app"
  "pn_evm_storage (over db app) = ap_evm_storage app"
  by (simp_all add: over_def)

text \<open>A block the stores can take: it can be appended, its encoding can be read back, its state root has
  the length of a hash, and its payload identifier is not that of the genesis block.\<close>

definition publishable ::
  "('st, 'es, 's, 'c, 'e) dependencies \<Rightarrow> (chain_entry \<Rightarrow> bool) \<Rightarrow> extended_block \<Rightarrow> chain_entry
     \<Rightarrow> shared_memory \<Rightarrow> bool" where
  "publishable d storable g e mem \<longleftrightarrow>
     appendable (d_picks d) (op_trie_hash (d_tx_ops d)) e mem \<and> storable e \<and>
     length (hd_state_root (header_of (fst e))) = 32 \<and> eb_payload_id (fst e) \<noteq> eb_payload_id g"

text \<open>Every block that handling a command builds can be stored. The genesis block \<open>g\<close> may be adopted again; the
  stores would differ on another one.\<close>

fun publishable_command ::
  "('st, 'es, 's, 'c, 'e) dependencies \<Rightarrow> (chain_entry \<Rightarrow> bool) \<Rightarrow> extended_block
     \<Rightarrow> ('st, 'es) application \<Rightarrow> command \<Rightarrow> bool" where
  "publishable_command d storable g app (StartBlockBuild p i) =
     (i \<noteq> eb_payload_id g \<and>
      (case build_block d (app\<lparr>ap_mem_pool := []\<rparr>) p i (candidates d app p) of
         Inl _ \<Rightarrow> True
       | Inr (b, rs, app') \<Rightarrow>
           payload_by_id (d_encode_2718 d) (d_picks d) (ap_storage app) i = None \<longrightarrow>
           publishable d storable g
             (b, stored_transactions d b (map (fst \<circ> snd) (candidates d app p))) (ap_storage app)))"
| "publishable_command d storable g app (AddTransaction tx) = True"
| "publishable_command d storable g app (GenesisUpdate b) = (b = g)"

fun publishable_all ::
  "('st, 'es, 's, 'c, 'e) dependencies \<Rightarrow> (chain_entry \<Rightarrow> bool) \<Rightarrow> extended_block
     \<Rightarrow> ('st, 'es) application \<Rightarrow> command list \<Rightarrow> bool" where
  "publishable_all d storable g app [] = True"
| "publishable_all d storable g app (c # cs) =
     (publishable_command d storable g app c \<and>
      (case handle_command d app c of Inl _ \<Rightarrow> True | Inr app' \<Rightarrow> publishable_all d storable g app' cs))"

text \<open>The answers of the two nodes are the same.\<close>

definition same_answers ::
  "('st, 'es, 's, 'c, 'e) dependencies \<Rightarrow> 'db persistent_stores \<Rightarrow> extended_block \<Rightarrow> 'db
     \<Rightarrow> ('st, 'es) application \<Rightarrow> bool" where
  "same_answers d s g db app \<longleftrightarrow>
    (\<forall>h inc. ps_query_by_hash s db h inc = db_unwrap (query_by_hash (d_tx_ops d) (d_picks d) (ap_storage app) h inc)) \<and>
    ps_query_latest s db = Inr (query_latest (ap_storage app)) \<and>
    (\<forall>n inc. ps_query_by_height s db n inc = db_unwrap (query_by_height (d_tx_ops d) (d_picks d) (ap_storage app) n inc)) \<and>
    (\<forall>i. i \<noteq> eb_payload_id g \<longrightarrow>
       ps_payload_by_id s db i = Inr (payload_by_id (d_encode_2718 d) (d_picks d) (ap_storage app) i)) \<and>
    (\<forall>h. ps_receipt_contains s db h = Inr (receipt_contains (ap_receipt_memory app) h))"

text \<open>The history of the state: some roots, and then those of the blocks from a height on.\<close>

definition roots_from :: "block_pick \<Rightarrow> b256 list \<Rightarrow> nat \<Rightarrow> ('st, 'es) application \<Rightarrow> b256 list" where
  "roots_from pick rs k app = rs @ map (hd_state_root \<circ> header_of) (drop k (chain_of pick (blocks_of app)))"

text \<open>The two nodes in step, in terms of what a database holds: the history of the state grows with the
  chain from the genesis block on.\<close>

definition tracks ::
  "('db \<Rightarrow> shared_memory \<Rightarrow> receipt_memory \<Rightarrow> b256 list \<Rightarrow> bool) \<Rightarrow> block_pick \<Rightarrow> extended_block
     \<Rightarrow> b256 list \<Rightarrow> nat \<Rightarrow> 'db \<Rightarrow> ('st, 'es) application \<Rightarrow> bool" where
  "tracks holds pick g rs k db app \<longleftrightarrow>
     holds db (ap_storage app) (ap_receipt_memory app) (roots_from pick rs k app) \<and>
     length rs \<le> k \<and> k \<le> em_len (bm_heights (blocks_of app)) \<and>
     (\<exists>bs. chain_of pick (blocks_of app) = g # bs)"

text \<open>The roots of the heights are those of the blocks.\<close>

lemma root_of_height:
  assumes "picks_member pick" "chain_ok m" "chain_of pick m = g # bs"
  shows "(if n = 0 then Some (f g) else if unat n \<le> length (map f bs) then Some (map f bs ! (unat n - 1)) else None)
    = map_option f (by_height pick m n)"
proof (cases "unat n < em_len (bm_heights m)")
  case True
  then have "by_height pick m n = Some ((g # bs) ! unat n)"
    using chain_by_height [OF assms(1,2) True] by (simp add: assms(3))
  moreover have "length bs = em_len (bm_heights m) - 1" using arg_cong [OF assms(3), of length] by simp
  ultimately show ?thesis using True by (cases "unat n") (auto simp: unat_eq_zero)
next
  case False
  have "bags_ok (em_read (bm_heights m))"
    using assms(2) by (simp add: chain_ok_def bm_synced_def em_synced_def)
  moreover have "fst ` set (em_read (bm_heights m)) = of_nat ` {..<em_len (bm_heights m)}"
    using assms(2) by (simp add: chain_ok_def)
  moreover have "n \<notin> of_nat ` {..<em_len (bm_heights m)}"
    using False assms(2) by (auto simp: chain_ok_def number_unat)
  ultimately have "by_height pick m n = None"
    using bag_nonempty_iff [of "em_read (bm_heights m)" n] by (simp add: get_one_by_height get_one_None_iff)
  moreover have "Suc (length bs) = em_len (bm_heights m)" using arg_cong [OF assms(3), of length] by simp
  ultimately show ?thesis using False by (auto simp: unat_eq_zero)
qed

lemma published_config:
  "ap_genesis_config (published d rs txs b app) = ap_genesis_config app"
  "ap_state (published d rs txs b app) = ap_state app"
  "ap_evm_storage (published d rs txs b app) = ap_evm_storage app"
  by (simp_all add: publish_steps_def fold_on_blocks publish_receipts_def publish_transactions_def on_blocks_def)

locale node_backend =
  fixes d :: "('st, 'es, 's, 'c, 'e) dependencies"
    and s :: "'db persistent_stores"
    and storable :: "chain_entry \<Rightarrow> bool"
    and g :: extended_block
    and holds :: "'db \<Rightarrow> shared_memory \<Rightarrow> receipt_memory \<Rightarrow> b256 list \<Rightarrow> bool"
  assumes holds_payload: "holds db mem rm roots \<Longrightarrow> i \<noteq> eb_payload_id g \<Longrightarrow>
      ps_payload_by_id s db i = Inr (payload_by_id (d_encode_2718 d) (d_picks d) mem i)"
    and holds_receipt: "holds db mem rm roots \<Longrightarrow> ps_receipt_contains s db h = Inr (receipt_contains rm h)"
    and holds_latest: "holds db mem rm roots \<Longrightarrow>
      ps_block_latest s db = Inr (repository_latest (pk_block (d_picks d)) (sm_blocks mem))"
    and holds_hash: "holds db mem rm roots \<Longrightarrow>
      ps_query_by_hash s db h inc = db_unwrap (query_by_hash (d_tx_ops d) (d_picks d) mem h inc)"
    and holds_query_latest: "holds db mem rm roots \<Longrightarrow> ps_query_latest s db = Inr (query_latest mem)"
    and holds_height: "holds db mem rm roots \<Longrightarrow>
      ps_query_by_height s db n inc = db_unwrap (query_by_height (d_tx_ops d) (d_picks d) mem n inc)"
    and holds_root: "holds db mem rm roots \<Longrightarrow> ps_root_by_height s groot db n
      = Inr (if n = 0 then Some groot else if unat n \<le> length roots then Some (roots ! (unat n - 1)) else None)"
    and holds_chain: "holds db mem rm roots \<Longrightarrow> chain_ok (sm_blocks mem) \<and> picks_member (pk_block (d_picks d))"
    and holds_push: "holds db mem rm roots \<Longrightarrow> \<exists>db'. ps_on_tx_batch s root db = Inr db'"
    and holds_pushed: "holds db mem rm roots \<Longrightarrow> length root = 32 \<Longrightarrow> Suc (length roots) < 2 ^ 64 \<Longrightarrow>
      ps_on_tx_batch s root db = Inr db1 \<Longrightarrow> holds db1 mem rm (roots @ [root])"
    and holds_publish: "holds db mem rm roots \<Longrightarrow> publishable d storable g (b, txs) mem \<Longrightarrow>
      payload_by_id (d_encode_2718 d) (d_picks d) mem (eb_payload_id b) = None \<Longrightarrow>
      Suc (length roots) < 2 ^ 64 \<Longrightarrow> ps_on_tx_batch s (hd_state_root (header_of b)) db = Inr db1 \<Longrightarrow>
      \<exists>db'. persistent_publish s rs txs b db1 = Inr db' \<and>
        holds db' (memory_write (op_trie_hash (d_tx_ops d)) (b, txs) mem)
          (receipt_memory_extend (map (with_block_hash (eb_hash b)) rs) rm)
          (roots @ [hd_state_root (header_of b)])"
    and holds_genesis: "holds db mem rm roots \<Longrightarrow>
      chain_of (pk_block (d_picks d)) (repository_add g (sm_blocks mem)) = chain_of (pk_block (d_picks d)) (sm_blocks mem) \<and>
      (\<exists>db'. ps_block_add s g db = Inr db' \<and> holds db' (mem\<lparr>sm_blocks := repository_add g (sm_blocks mem)\<rparr>) rm roots)"
begin

lemma hash_by_number_eq:
  assumes "holds db mem rm roots"
  shows "persistent_hash_by_number s db = hash_by_number d mem"
proof
  fix n
  have "ok (ps_query_by_height s db n False) = ok (query_by_height (d_tx_ops d) (d_picks d) mem n False)"
    using holds_height [OF assms]
    by (cases "query_by_height (d_tx_ops d) (d_picks d) mem n False") (simp_all add: db_unwrap_def)
  then show "persistent_hash_by_number s db n = hash_by_number d mem n"
    by (simp add: persistent_hash_by_number_def hash_by_number_def)
qed

lemma candidates_eq:
  assumes "holds db (ap_storage app) (ap_receipt_memory app) roots"
  shows "persistent_candidates d s (over db app) p = Inr (candidates d app p)"
proof -
  have "map fst (filter (\<lambda>(_, c). \<not> c) (zip ts (map P ts))) = filter (\<lambda>t. \<not> P t) ts"
    for P and ts :: "(b256 \<times> pooled) list"
    by (induction ts) simp_all
  then show ?thesis
    by (simp add: persistent_candidates_def candidates_def Let_def holds_receipt [OF assms] stored_unwrap_def
        case_prod_unfold)
qed

text \<open>Execution only differs in the root that is pushed.\<close>

lemma execute_transactions_eq:
  assumes "holds db (ap_storage app) (ap_receipt_memory app) roots"
  shows "case execute_transactions d app ts fee hdr of
      Inl e \<Rightarrow> persistent_execute_transactions d s (over db app) ts fee hdr = Inl e
    | Inr (out, rs, app') \<Rightarrow> \<exists>db'. ps_on_tx_batch s (eo_state_root out) db = Inr db' \<and>
        persistent_execute_transactions d s (over db app) ts fee hdr = Inr (out, rs, over db' app')"
proof -
  have lookup: "persistent_hash_by_number s db = hash_by_number d (ap_storage app)"
    by (rule hash_by_number_eq [OF assms])
  have push: "\<exists>db'. ps_on_tx_batch s root db = Inr db'" for root by (rule holds_push [OF assms])
  show ?thesis
  proof (cases "block_l1_fee ts")
    case l1: (Inr l1)
    let ?run = "execute_loop d (ap_genesis_config app) (hash_by_number d (ap_storage app)) l1 fee hdr ts
      (building_new (ap_state app) (ap_evm_storage app))"
    show ?thesis
    proof (cases ?run)
      case (Inr bu)
      obtain db' where "ps_on_tx_batch s (d_state_root d (bu_state bu)) db = Inr db'" using push by blast
      with Inr l1 show ?thesis
        by (cases "u64_from (bu_gas bu)")
          (simp_all add: execute_transactions_def persistent_execute_transactions_def lookup stored_unwrap_def over_def)
    qed (simp add: l1 execute_transactions_def persistent_execute_transactions_def lookup)
  qed (simp add: execute_transactions_def persistent_execute_transactions_def)
qed

lemma build_block_eq:
  assumes "holds db (ap_storage app) (ap_receipt_memory app) roots"
  shows "case build_block d app p i ts of
      Inl e \<Rightarrow> persistent_build_block d s (over db app) p i ts = Inl e
    | Inr (b, rs, app') \<Rightarrow> \<exists>db'. ps_on_tx_batch s (hd_state_root (header_of b)) db = Inr db' \<and>
        persistent_build_block d s (over db app) p i ts = Inr (b, rs, over db' app')"
proof (cases "repository_latest (pk_block (d_picks d)) (sm_blocks (ap_storage app))")
  case latest: (Some parent)
  let ?ph = "bl_header (eb_block parent)"
  let ?hdr = "\<lparr>hx_number = hd_number ?ph + 1, hx_timestamp = pa_timestamp p, hx_prev_randao = pa_prev_randao p\<rparr>"
  show ?thesis
  proof (cases "base_fee_per_gas (ap_gas_fee app) (hd_gas_limit ?ph) (hd_gas_used ?ph)
      (ucast (unwrap_or (hd_base_fee_per_gas ?ph) 0))")
    case (Inr fee)
    then show ?thesis
      using execute_transactions_eq [OF assms, of ts fee ?hdr]
      by (cases "execute_transactions d app ts fee ?hdr")
        (auto simp: build_block_def persistent_build_block_def holds_latest [OF assms] latest stored_unwrap_def
          Let_def block_header_def with_execution_outcome_def with_payload_attributes_def with_payload_id_def
          with_value_def with_hash_def extended_block_new_def block_new_def)
  qed (simp add: build_block_def persistent_build_block_def holds_latest [OF assms] latest stored_unwrap_def Let_def)
qed (simp add: build_block_def persistent_build_block_def holds_latest [OF assms] stored_unwrap_def)

abbreviation follows :: "b256 list \<Rightarrow> nat \<Rightarrow> 'db \<Rightarrow> ('st, 'es) application \<Rightarrow> bool" where
  "follows \<equiv> tracks holds (pk_block (d_picks d)) g"

lemma tracks_published:
  assumes "follows rs0 k db app" "publishable d storable g (b, txs) (ap_storage app)"
    and "payload_by_id (d_encode_2718 d) (d_picks d) (ap_storage app) (eb_payload_id b) = None"
    and "ps_on_tx_batch s (hd_state_root (header_of b)) db = Inr db1"
    and "ap_storage app' = memory_write (op_trie_hash (d_tx_ops d)) (b, txs) (ap_storage app)"
    and "ap_receipt_memory app' = receipt_memory_extend (map (with_block_hash (eb_hash b)) rs) (ap_receipt_memory app)"
  shows "\<exists>db'. persistent_publish s rs txs b db1 = Inr db' \<and> follows rs0 k db' app'"
proof -
  let ?pick = "pk_block (d_picks d)" and ?len = "em_len (bm_heights (blocks_of app))"
  let ?roots = "roots_from ?pick rs0 k app"
  have holds: "holds db (ap_storage app) (ap_receipt_memory app) ?roots" and k: "length rs0 \<le> k" "k \<le> ?len"
    using assms(1) by (simp_all add: tracks_def)
  have ok: "chain_ok (blocks_of app)" "picks_member ?pick" using holds_chain [OF holds] by simp_all
  have num: "unat (number_of b) = ?len" "Suc ?len < 2 ^ 64" using assms(2) by (simp_all add: publishable_def appendable_def)
  have blocks: "blocks_of app' = block_memory_add b (blocks_of app)"
    by (simp add: assms(5) memory_write_def repository_add_def)
  have chain: "chain_of ?pick (blocks_of app') = chain_of ?pick (blocks_of app) @ [b]"
    unfolding blocks by (rule chain_of_add [OF ok(2,1) num])
  have "Suc (length ?roots) < 2 ^ 64" using k num(2) by (simp add: roots_from_def)
  from holds_publish [OF holds assms(2,3) this assms(4), of rs] obtain db' where
    "persistent_publish s rs txs b db1 = Inr db'"
    "holds db' (ap_storage app') (ap_receipt_memory app') (?roots @ [hd_state_root (header_of b)])"
    by (auto simp: assms(5,6))
  moreover have "?roots @ [hd_state_root (header_of b)] = roots_from ?pick rs0 k app'"
    using k(2) by (simp add: roots_from_def chain)
  moreover have "k \<le> em_len (bm_heights (blocks_of app'))"
    using k(2) arg_cong [OF chain, of length] by simp
  moreover have "\<exists>bs. chain_of ?pick (blocks_of app') = g # bs" using assms(1) by (auto simp: tracks_def chain)
  ultimately show ?thesis using k(1) by (auto simp: tracks_def)
qed

text \<open>A command keeps the node over the database in step with the node in memory; it panics on both
  sides or on none.\<close>

lemma start_block_build_eq:
  assumes "follows rs0 k db app"
    and "publishable_command d storable g app (StartBlockBuild p i)"
  shows "case start_block_build d app p i of
      Inl e \<Rightarrow> persistent_start_block_build d s (over db app) p i = Inl e
    | Inr app' \<Rightarrow> \<exists>db'. persistent_start_block_build d s (over db app) p i = Inr (over db' app') \<and>
        follows rs0 k db' app'"
proof -
  let ?known = "payload_by_id (d_encode_2718 d) (d_picks d) (ap_storage app) i"
  let ?app = "app\<lparr>ap_mem_pool := []\<rparr>" and ?ts = "candidates d app p"
  have holds: "holds db (ap_storage app) (ap_receipt_memory app) (roots_from (pk_block (d_picks d)) rs0 k app)"
    using assms(1) by (simp add: tracks_def)
  have known: "ps_payload_by_id s db i = Inr ?known"
    using assms(2) by (intro holds_payload [OF holds]) simp
  have empty: "(over db app)\<lparr>pn_mem_pool := []\<rparr> = over db ?app" by (simp add: over_def)
  show ?thesis
  proof (cases ?known)
    case None
    note start = start_block_build_def persistent_start_block_build_def known stored_unwrap_def None Let_def
      candidates_eq [OF holds] empty
    have built: "holds db (ap_storage ?app) (ap_receipt_memory ?app) (roots_from (pk_block (d_picks d)) rs0 k app)"
      using holds by simp
    show ?thesis
    proof (cases "build_block d ?app p i ?ts")
      case (Inl e)
      then show ?thesis using build_block_eq [OF built, of p i ?ts] by (simp add: start)
    next
      case (Inr r)
      obtain b rs app1 where r: "build_block d ?app p i ?ts = Inr (b, rs, app1)" using Inr by (cases r) simp
      let ?txs = "stored_transactions d b (map (fst \<circ> snd) ?ts)"
      obtain db1 where db1: "ps_on_tx_batch s (hd_state_root (header_of b)) db = Inr db1"
        "persistent_build_block d s (over db ?app) p i ?ts = Inr (b, rs, over db1 app1)"
        using build_block_eq [OF built, of p i ?ts] by (auto simp: r)
      have same: "ap_storage app1 = ap_storage app" "ap_receipt_memory app1 = ap_receipt_memory app"
        "eb_payload_id b = i"
        using r by (auto elim!: build_block_Inr)
      have pub: "publishable d storable g (b, ?txs) (ap_storage app)" using assms(2) by (simp add: r None)
      let ?app' = "published d rs (map (fst \<circ> snd) ?ts) b app1"
      have "ap_storage ?app' = memory_write (op_trie_hash (d_tx_ops d)) (b, ?txs) (ap_storage app)"
        using published_simps [of d rs "map (fst \<circ> snd) ?ts" b app1] same
        by (simp add: memory_write_def repository_add_def del: fold_map)
      from tracks_published [OF assms(1) pub _ db1(1) this] obtain db' where
        db': "persistent_publish s rs ?txs b db1 = Inr db'" "follows rs0 k db' ?app'"
        using published_simps(3) [of d rs "map (fst \<circ> snd) ?ts" b app1] by (auto simp: same None)
      have "(over db1 app1)\<lparr>pn_db := db'\<rparr> = over db' ?app'"
        by (simp add: over_def published_config del: fold_map) (simp add: published_simps)
      then show ?thesis
        using db' db1(2) by (auto simp: start r)
    qed
  qed (use assms(1) in \<open>auto simp: start_block_build_def persistent_start_block_build_def known stored_unwrap_def\<close>)
qed

lemma genesis_again_eq:
  assumes "follows rs0 k db app"
  shows "\<exists>db'. persistent_genesis_update s (over db app) g = Inr (over db' (genesis_update app g)) \<and>
    follows rs0 k db' (genesis_update app g)"
proof -
  let ?pick = "pk_block (d_picks d)" and ?app' = "genesis_update app g"
  let ?mem' = "(ap_storage app)\<lparr>sm_blocks := repository_add g (blocks_of app)\<rparr>"
  have "holds db (ap_storage app) (ap_receipt_memory app) (roots_from ?pick rs0 k app)"
    using assms by (simp add: tracks_def)
  from holds_genesis [OF this] obtain db' where
    chain: "chain_of ?pick (repository_add g (blocks_of app)) = chain_of ?pick (blocks_of app)"
    and db': "ps_block_add s g db = Inr db'" "holds db' ?mem' (ap_receipt_memory app) (roots_from ?pick rs0 k app)"
    by blast
  have app': "ap_storage ?app' = ?mem'" "blocks_of ?app' = repository_add g (blocks_of app)"
    "ap_receipt_memory ?app' = ap_receipt_memory app"
    by (simp_all add: genesis_update_def on_blocks_def)
  have len: "em_len (bm_heights (blocks_of ?app')) = em_len (bm_heights (blocks_of app))"
    using arg_cong [OF chain, of length] by (simp add: app'(2))
  have "follows rs0 k db' ?app'"
    using assms db'(2) by (simp add: tracks_def roots_from_def app' chain len [unfolded app'(2)])
  moreover have "persistent_genesis_update s (over db app) g = Inr (over db' ?app')"
    by (simp add: persistent_genesis_update_def stored_unwrap_def db'(1))
      (simp add: over_def genesis_update_def on_blocks_def)
  ultimately show ?thesis by blast
qed

lemma handle_command_eq:
  assumes "follows rs0 k db app" "publishable_command d storable g app c"
  shows "case handle_command d app c of
      Inl e \<Rightarrow> persistent_handle_command d s (over db app) c = Inl e
    | Inr app' \<Rightarrow> \<exists>db'. persistent_handle_command d s (over db app) c = Inr (over db' app') \<and>
        follows rs0 k db' app'"
proof (cases c)
  case (StartBlockBuild p i)
  then show ?thesis
    using start_block_build_eq [OF assms(1), of p i] assms(2) by (simp split: sum.split_asm)
next
  case (AddTransaction tx)
  with assms(1) show ?thesis
    by (cases "try_from_eth_envelope tx")
      (auto simp: add_transaction_def persistent_add_transaction_def over_def tracks_def roots_from_def)
next
  case (GenesisUpdate b)
  with assms(2) show ?thesis using genesis_again_eq [OF assms(1)] by simp
qed

lemma work_eq:
  assumes "follows rs0 k db app" "publishable_all d storable g app cs"
  shows "case work d app cs of
      Inl e \<Rightarrow> persistent_work d s (over db app) cs = Inl e
    | Inr app' \<Rightarrow> \<exists>db'. persistent_work d s (over db app) cs = Inr (over db' app') \<and>
        follows rs0 k db' app'"
  using assms
proof (induction cs arbitrary: db app)
  case (Cons c cs)
  have one: "case handle_command d app c of
      Inl e \<Rightarrow> persistent_handle_command d s (over db app) c = Inl e
    | Inr app' \<Rightarrow> \<exists>db'. persistent_handle_command d s (over db app) c = Inr (over db' app') \<and>
        follows rs0 k db' app'"
    using Cons.prems by (intro handle_command_eq) simp_all
  show ?case
  proof (cases "handle_command d app c")
    case (Inr app1)
    then obtain db1 where "persistent_handle_command d s (over db app) c = Inr (over db1 app1)"
      "follows rs0 k db1 app1"
      using one by auto
    moreover from this(2) have "case work d app1 cs of
        Inl e \<Rightarrow> persistent_work d s (over db1 app1) cs = Inl e
      | Inr app' \<Rightarrow> \<exists>db'. persistent_work d s (over db1 app1) cs = Inr (over db' app') \<and>
          follows rs0 k db' app'"
      using Cons.prems(2) Inr by (intro Cons.IH) simp_all
    ultimately show ?thesis by (cases "work d app1 cs") (simp_all add: Inr)
  qed (use one in simp)
qed auto

lemma work_from_genesis:
  assumes "ps_block_add s g db = Inr db1" "app = genesis_update (application_new cfg fee st es) g"
    and "follows [] 1 db1 app" "publishable_all d storable g app cs"
  shows "case work d (application_new cfg fee st es) (GenesisUpdate g # cs) of
      Inl e \<Rightarrow> persistent_work d s (persistent_application_new cfg fee st es db) (GenesisUpdate g # cs) = Inl e
    | Inr app' \<Rightarrow> \<exists>db'. follows [] 1 db' app' \<and>
        persistent_work d s (persistent_application_new cfg fee st es db) (GenesisUpdate g # cs) = Inr (over db' app')"
proof -
  have "persistent_genesis_update s (persistent_application_new cfg fee st es db) g = Inr (over db1 app)"
    by (simp add: persistent_genesis_update_def assms(1,2) stored_unwrap_def over_def persistent_application_new_def
        genesis_update_def application_new_def on_blocks_def)
  then show ?thesis
    using work_eq [OF assms(3,4)] by (cases "work d app cs") (auto simp: assms(2))
qed

lemma tracks_answers:
  assumes "follows rs0 k db app"
  shows "same_answers d s g db app"
proof -
  have "holds db (ap_storage app) (ap_receipt_memory app) (roots_from (pk_block (d_picks d)) rs0 k app)"
    using assms by (simp add: tracks_def)
  then show ?thesis
    by (simp add: same_answers_def holds_hash holds_query_latest holds_height holds_payload holds_receipt)
qed

text \<open>In step from the genesis block on, the root of every height is the one of its block.\<close>

lemma tracks_roots:
  assumes "follows [] 1 db app"
  shows "ps_root_by_height s (hd_state_root (header_of g)) db n
    = Inr (map_option (hd_state_root \<circ> header_of) (by_height (pk_block (d_picks d)) (blocks_of app) n))"
proof -
  let ?pick = "pk_block (d_picks d)" and ?root = "hd_state_root \<circ> header_of"
  obtain bs where bs: "chain_of ?pick (blocks_of app) = g # bs" using assms by (auto simp: tracks_def)
  have holds: "holds db (ap_storage app) (ap_receipt_memory app) (map ?root bs)"
    using assms by (simp add: tracks_def roots_from_def bs)
  show ?thesis
    using holds_chain [OF holds] root_of_height [of ?pick "blocks_of app" g bs n ?root] bs
    by (simp only: holds_root [OF holds] comp_apply)
qed

text \<open>A node that is stopped after the push has a root too many.\<close>

lemma tracks_stopped:
  assumes "follows [] 1 db app" "chain_of (pk_block (d_picks d)) (blocks_of app) = g # bs"
    and "persistent_build_block d s (over db app) p i ts = Inr (b, rs, stopped)"
    and "length (hd_state_root (header_of b)) = 32" "Suc (length bs) < 2 ^ 64"
  shows "follows (map (hd_state_root \<circ> header_of) (bs @ [b])) (Suc (length bs)) (pn_db stopped) app"
proof -
  let ?root = "hd_state_root \<circ> header_of"
  have holds: "holds db (ap_storage app) (ap_receipt_memory app) (map ?root bs)"
    using assms(1,2) by (simp add: tracks_def roots_from_def)
  have "ps_on_tx_batch s (hd_state_root (header_of b)) db = Inr (pn_db stopped)"
    using build_block_eq [OF holds, of p i ts] assms(3)
    by (cases "build_block d app p i ts") auto
  from holds_pushed [OF holds assms(4) _ this] assms(5) have
    "holds (pn_db stopped) (ap_storage app) (ap_receipt_memory app) (map ?root bs @ [?root b])" by simp
  moreover have "em_len (bm_heights (blocks_of app)) = Suc (length bs)"
    using arg_cong [OF assms(2), of length] by simp
  ultimately show ?thesis using assms(2) by (simp add: tracks_def roots_from_def)
qed

lemma tracks_shifted:
  assumes "follows (map (hd_state_root \<circ> header_of) (bs @ [b])) (Suc (length bs)) db app"
    and "chain_of (pk_block (d_picks d)) (blocks_of app) = g # bs @ bs'" "k < length bs'"
  shows "ps_root_by_height s groot db (of_nat (Suc (length bs + k)))
    = Inr (Some (hd_state_root (header_of ((b # bs') ! k))))"
proof -
  let ?root = "hd_state_root \<circ> header_of"
  let ?roots = "map ?root (bs @ b # bs')" and ?n = "Suc (length bs + k)"
  have holds: "holds db (ap_storage app) (ap_receipt_memory app) ?roots"
    using assms(1,2) by (simp add: tracks_def roots_from_def)
  have "em_len (bm_heights (blocks_of app)) < 2 ^ 64" using holds_chain [OF holds] by (simp add: chain_ok_def)
  then have "?n < 2 ^ 64" using arg_cong [OF assms(2), of length] assms(3) by simp
  then have n: "unat (of_nat ?n :: u64) = ?n" by (rule number_unat)
  then have "(of_nat ?n :: u64) \<noteq> 0" by (metis unat_0 nat.distinct(1))
  then show ?thesis
    using assms(3) by (simp add: holds_root [OF holds] n nth_append nth_Cons' del: of_nat_Suc)
qed

end

end
