(* ===== verification/Persistent_Backends.thy ===== *)
theory Persistent_Backends
  imports Persistent_Node
begin

text \<open>
  The contract of \<open>node_backend\<close> for the stores on RocksDB and on LMDB, and what follows for a node that
  starts from an empty database, and for one that is stopped while it builds a block.
\<close>

section \<open>The contents of the database of a node\<close>

text \<open>The block of every payload is found by its hash.\<close>

definition payloads_found :: "block_pick \<Rightarrow> block_memory \<Rightarrow> bool" where
  "payloads_found pick m \<longleftrightarrow>
     (\<forall>i b. by_payload_id pick m i = Some b \<longrightarrow> length (eb_hash b) = 32 \<and> by_hash pick m (eb_hash b) = Some b)"

text \<open>The genesis block is the only one under its hash, its number and its payload identifier, however often it
  was adopted.\<close>

definition genesis_only :: "extended_block \<Rightarrow> block_memory \<Rightarrow> bool" where
  "genesis_only g m \<longleftrightarrow>
     set (bag (em_read (bm_hashes m)) (eb_hash g)) = {g} \<and> set (bag (em_read (bm_heights m)) (number_of g)) = {g} \<and>
     set (bag (em_read (bm_payload_ids m)) (eb_payload_id g)) = {g}"

text \<open>Blocks and transactions as in memory, a receipt for every hash with a receipt in memory, the hash of
  the block of every payload but that of the genesis block, and the roots of the history.\<close>

definition holds_node ::
  "bytes \<Rightarrow> picks \<Rightarrow> codec \<Rightarrow> extended_block \<Rightarrow> contents \<Rightarrow> shared_memory \<Rightarrow> receipt_memory
     \<Rightarrow> b256 list \<Rightarrow> bool" where
  "holds_node hk pk cd g m mem rm roots \<longleftrightarrow>
     represents pk cd m mem \<and> rxm.keyed rm \<and>
     (\<forall>h. m RECEIPT_COLUMN_FAMILY h \<noteq> None \<longleftrightarrow> receipt_contains rm h) \<and>
     (\<forall>i. i \<noteq> eb_payload_id g \<longrightarrow> m PAYLOAD_COLUMN_FAMILY (u64_to_key i)
        = map_option eb_hash (by_payload_id (pk_block pk) (sm_blocks mem) i)) \<and>
     payloads_found (pk_block pk) (sm_blocks mem) \<and> holds_roots hk m roots \<and> genesis_only g (sm_blocks mem)"

text \<open>Each part looks at its own families.\<close>

lemma represents_families:
  "m BLOCK_COLUMN_FAMILY = m' BLOCK_COLUMN_FAMILY \<Longrightarrow> m HEIGHT_COLUMN_FAMILY = m' HEIGHT_COLUMN_FAMILY \<Longrightarrow>
   m TRANSACTION_COLUMN_FAMILY = m' TRANSACTION_COLUMN_FAMILY \<Longrightarrow> represents pk cd m mem = represents pk cd m' mem"
  by (simp add: represents_def)

lemma holds_roots_families:
  "m STATE_COLUMN_FAMILY = m' STATE_COLUMN_FAMILY \<Longrightarrow>
   m STATE_HEIGHT_COLUMN_FAMILY = m' STATE_HEIGHT_COLUMN_FAMILY \<Longrightarrow> holds_roots hk m rs = holds_roots hk m' rs"
  by (simp add: holds_roots_def)

lemma by_id_add:
  assumes "picks_member pick" "bm_synced m" "by_payload_id pick m (eb_payload_id b) = None"
  shows "by_payload_id pick (block_memory_add b m) i = (if i = eb_payload_id b then Some b else by_payload_id pick m i)"
  using by_id_add_fresh [OF assms] by (simp add: by_payload_id_def get_one_def Let_def bags_after_add [OF assms(2)])

definition push_entries :: "bytes \<Rightarrow> nat \<Rightarrow> b256 \<Rightarrow> (string \<times> bytes \<times> bytes) list" where
  "push_entries hk n root =
     [(STATE_COLUMN_FAMILY, u64_to_key (of_nat n + 1), root),
      (STATE_HEIGHT_COLUMN_FAMILY, hk, u64_to_key (of_nat n + 1))]"

definition publish_entries ::
  "codec \<Rightarrow> (op_tx_envelope \<Rightarrow> b256) \<Rightarrow> extended_receipt list \<Rightarrow> extended_transaction list \<Rightarrow> extended_block
     \<Rightarrow> (string \<times> bytes \<times> bytes) list list" where
  "publish_entries cd th rs txs b =
     [map (\<lambda>r. (RECEIPT_COLUMN_FAMILY, er_transaction_hash r, cd_receipt cd r)) rs,
      map (\<lambda>t. (TRANSACTION_COLUMN_FAMILY, tx_hash th t, cd_transaction cd t)) txs,
      rocks_block_entries cd b, [(PAYLOAD_COLUMN_FAMILY, u64_to_key (eb_payload_id b), eb_hash b)]]"

text \<open>Adopting the genesis block again changes no answer of the memory, and writes to a database what is there
  already.\<close>

lemma get_one_again:
  assumes "picks_member pick" "em_synced m" "set (bag (em_read m) k) = {v}"
  shows "get_one pick (em_refresh (em_insert k v m)) k' = get_one pick m k'"
proof -
  have "bag (em_read m) k \<noteq> []" using assms(3) by (metis empty_set insert_not_empty)
  have "pick vs = v" if "vs \<noteq> []" "set vs = {v}" for vs
    using assms(1) that unfolding picks_member_def by blast
  then have "pick (bag (em_read m) k @ [v]) = v" "pick (bag (em_read m) k) = v"
    using assms(3) \<open>bag (em_read m) k \<noteq> []\<close> by simp_all
  with \<open>bag (em_read m) k \<noteq> []\<close> show ?thesis by (auto simp: get_one_def bag_insert_read [OF assms(2)] Let_def)
qed

lemma genesis_again_reads:
  assumes "picks_member pick" "chain_ok m" "genesis_only g m"
  shows "by_hash pick (block_memory_add g m) h = by_hash pick m h"
    "by_payload_id pick (block_memory_add g m) i = by_payload_id pick m i"
    "by_height pick (block_memory_add g m) n = by_height pick m n"
    "chain_ok (block_memory_add g m)" "genesis_only g (block_memory_add g m)"
    "chain_of pick (block_memory_add g m) = chain_of pick m"
proof -
  have sy: "bm_synced m" "em_synced (bm_hashes m)" "em_synced (bm_payload_ids m)"
    using assms(2) by (simp_all add: chain_ok_def bm_synced_def)
  have g: "set (bag (em_read (bm_hashes m)) (eb_hash g)) = {g}" "set (bag (em_read (bm_heights m)) (number_of g)) = {g}"
    "set (bag (em_read (bm_payload_ids m)) (eb_payload_id g)) = {g}"
    using assms(3) by (simp_all add: genesis_only_def)
  note again = add_again [OF assms(1,2) g(2)]
  show "by_hash pick (block_memory_add g m) h = by_hash pick m h"
    "by_payload_id pick (block_memory_add g m) i = by_payload_id pick m i"
    using get_one_again [OF assms(1) sy(2) g(1)] get_one_again [OF assms(1) sy(3) g(3)]
    by (simp_all add: by_hash_def by_payload_id_def block_memory_add_eq)
  show "by_height pick (block_memory_add g m) n = by_height pick m n" "chain_ok (block_memory_add g m)"
    by (fact again)+
  show "genesis_only g (block_memory_add g m)" using g by (simp add: genesis_only_def bags_after_add [OF sy(1)])
  show "chain_of pick (block_memory_add g m) = chain_of pick m" by (simp add: chain_of_def again)
qed

lemma genesis_only_new: "genesis_only g (block_memory_add g block_memory_new)"
  by (simp add: genesis_only_def bags_after_add [OF chain_ok_synced [OF chain_ok_new]]) (simp add: block_memory_new_def)

lemma genesis_only_add:
  assumes "genesis_only g m" "chain_ok m" "unat (number_of b) = em_len (bm_heights m)"
    and "by_hash pick m (eb_hash b) = None" "by_payload_id pick m (eb_payload_id b) = None"
  shows "genesis_only g (block_memory_add b m)"
proof -
  have sy: "bm_synced m" "bags_ok (em_read (bm_heights m))"
    using assms(2) by (simp_all add: chain_ok_def bm_synced_def em_synced_def)
  have "eb_hash b \<noteq> eb_hash g" "eb_payload_id b \<noteq> eb_payload_id g"
    using assms(1,4,5) by (auto simp: genesis_only_def by_hash_def by_payload_id_def get_one_None_iff)
  moreover have "bag (em_read (bm_heights m)) (number_of b) = []"
    using next_number_fresh [OF assms(2,3)] bag_nonempty_iff [OF sy(2), of "number_of b"] by blast
  then have "number_of b \<noteq> number_of g" using assms(1) by (auto simp: genesis_only_def)
  ultimately show ?thesis using assms(1) by (simp add: genesis_only_def bags_after_add [OF sy(1)])
qed

lemma holds_node_genesis:
  assumes "picks_member (pk_block pk)" "holds_node hk pk cd g m mem rm roots"
  shows "fold kv_put (rocks_block_entries cd g) m = m"
    and "holds_node hk pk cd g m (mem\<lparr>sm_blocks := block_memory_add g (sm_blocks mem)\<rparr>) rm roots"
    and "chain_of (pk_block pk) (block_memory_add g (sm_blocks mem)) = chain_of (pk_block pk) (sm_blocks mem)"
proof -
  have rep: "represents pk cd m mem" and ok: "chain_ok (sm_blocks mem)" and g: "genesis_only g (sm_blocks mem)"
    using assms(2) by (simp_all add: holds_node_def represents_def)
  have only: "get_one (pk_block pk) em k = Some g" if "set (bag (em_read em) k) = {g}"
    for em :: "('k, extended_block) evmap" and k
    using that assms(1) unfolding get_one_def picks_member_def by (auto simp: Let_def)
  have "by_hash (pk_block pk) (sm_blocks mem) (eb_hash g) = Some g"
    "by_height (pk_block pk) (sm_blocks mem) (number_of g) = Some g"
    using g by (simp_all add: genesis_only_def by_hash_def get_one_by_height only)
  then have "m BLOCK_COLUMN_FAMILY (eb_hash g) = Some (cd_block cd g)"
    "m HEIGHT_COLUMN_FAMILY (u64_to_key (number_of g)) = Some (eb_hash g)"
    using rep by (simp_all add: represents_def)
  then show "fold kv_put (rocks_block_entries cd g) m = m"
    by (simp add: rocks_block_entries_def kv_put_def map_upd_triv fun_upd_idem)
  note reads = genesis_again_reads [OF assms(1) ok g]
  show "holds_node hk pk cd g m (mem\<lparr>sm_blocks := block_memory_add g (sm_blocks mem)\<rparr>) rm roots"
    using assms(2) by (simp add: holds_node_def represents_def payloads_found_def reads)
  show "chain_of (pk_block pk) (block_memory_add g (sm_blocks mem)) = chain_of (pk_block pk) (sm_blocks mem)"
    by (rule reads)
qed

lemma payloads_found_add:
  assumes "picks_member pick" "bm_synced m" "payloads_found pick m" "by_payload_id pick m (eb_payload_id b) = None"
    and "by_hash pick m (eb_hash b) = None" "length (eb_hash b) = 32"
  shows "payloads_found pick (block_memory_add b m)"
  unfolding payloads_found_def
proof (intro allI impI)
  fix i b'
  assume b': "by_payload_id pick (block_memory_add b m) i = Some b'"
  have at: "by_hash pick (block_memory_add b m) h = (if h = eb_hash b then Some b else by_hash pick m h)" for h
    using by_hash_add_fresh [OF assms(1,2,5)] by_hash_add_other [OF assms(2)] by simp
  show "length (eb_hash b') = 32 \<and> by_hash pick (block_memory_add b m) (eb_hash b') = Some b'"
  proof (cases "i = eb_payload_id b")
    case False
    then have "length (eb_hash b') = 32" "by_hash pick m (eb_hash b') = Some b'"
      using b' assms(3) by (simp_all add: by_id_add [OF assms(1,2,4)] payloads_found_def)
    with assms(5) show ?thesis by (auto simp: at)
  next
    case True
    then have "b' = b" using b' by (simp add: by_id_add [OF assms(1,2,4)])
    with assms(6) show ?thesis by (simp add: at)
  qed
qed

lemma represents_publish:
  assumes "picks_member (pk_block pk)" "picks_member (pk_tx pk)" "represents pk cd m mem"
    and "appendable pk th (b, txs) mem" "storable_entry cd (b, txs)"
  shows "represents pk cd (fold kv_put (rocks_block_entries cd b)
    (fold kv_put (map (\<lambda>t. (TRANSACTION_COLUMN_FAMILY, tx_hash th t, cd_transaction cd t)) txs) m))
    (memory_write th (b, txs) mem)"
proof -
  let ?mid = "mem\<lparr>sm_transactions := transaction_memory_extend th txs (sm_transactions mem)\<rparr>"
  have mem': "memory_write th (b, txs) mem = ?mid\<lparr>sm_blocks := block_memory_add b (sm_blocks ?mid)\<rparr>"
    by (simp add: memory_write_def repository_add_def)
  have t: "distinct (map (tx_hash th) txs)"
    "\<And>t. t \<in> set txs \<Longrightarrow> transaction_by_hash (pk_tx pk) (sm_transactions mem) (tx_hash th t) = None"
    "\<And>t. t \<in> set txs \<Longrightarrow> cd_transaction_of cd (cd_transaction cd t) = Inr t"
    using assms(4,5) by (simp_all add: appendable_def storable_entry_def list_all_iff)
  from represents_extend [OF assms(2,3) t] show ?thesis
    unfolding mem' by (rule represents_add [OF assms(1)])
      (use assms(4,5) in \<open>simp_all add: appendable_def storable_entry_def\<close>)
qed

lemma holds_node_publish:
  assumes pk: "picks_member (pk_block pk)" "picks_member (pk_tx pk)" and node: "holds_node hk pk cd g m mem rm roots"
    and fits: "appendable pk th (b, txs) mem" "storable_entry cd (b, txs)" "length (hd_state_root (header_of b)) = 32"
      "by_payload_id (pk_block pk) (sm_blocks mem) (eb_payload_id b) = None" "eb_payload_id b \<noteq> eb_payload_id g"
    and room: "Suc (length roots) < 2 ^ 64"
  shows "holds_node hk pk cd g
    (fold (fold kv_put) (push_entries hk (length roots) (hd_state_root (header_of b)) # publish_entries cd th rs txs b) m)
    (memory_write th (b, txs) mem) (receipt_memory_extend rs rm) (roots @ [hd_state_root (header_of b)])"
proof -
  let ?m1 = "fold kv_put (push_entries hk (length roots) (hd_state_root (header_of b))) m"
  let ?m2 = "fold kv_put (map (\<lambda>r. (RECEIPT_COLUMN_FAMILY, er_transaction_hash r, cd_receipt cd r)) rs) ?m1"
  let ?m3 = "fold kv_put (map (\<lambda>t. (TRANSACTION_COLUMN_FAMILY, tx_hash th t, cd_transaction cd t)) txs) ?m2"
  let ?m4 = "fold kv_put (rocks_block_entries cd b) ?m3"
  let ?m5 = "fold kv_put [(PAYLOAD_COLUMN_FAMILY, u64_to_key (eb_payload_id b), eb_hash b)] ?m4"
  let ?mem' = "memory_write th (b, txs) mem"
  note other = fold_kv_put kv_put_def push_entries_def rocks_block_entries_def family_defs
  have rep: "represents pk cd m mem" and ok: "chain_ok (sm_blocks mem)" and sy: "bm_synced (sm_blocks mem)"
    using node chain_ok_synced by (auto simp: holds_node_def represents_def)
  have mem': "sm_blocks ?mem' = block_memory_add b (sm_blocks mem)"
    by (simp add: memory_write_def repository_add_def)
  have "represents pk cd ?m2 mem"
    using rep by (subst represents_families [where m' = m]) (auto simp: other)
  then have "represents pk cd ?m4 ?mem'" by (rule represents_publish [OF pk _ fits(1,2)])
  then have rep': "represents pk cd ?m5 ?mem'"
    by (subst represents_families [where m' = ?m4]) (auto simp: other)
  have "holds_roots hk ?m1 (roots @ [hd_state_root (header_of b)])"
    using holds_roots_push [of hk m roots, OF _ room fits(3)] node by (simp add: holds_node_def push_entries_def)
  then have roots: "holds_roots hk ?m5 (roots @ [hd_state_root (header_of b)])"
    by (subst holds_roots_families [where m' = ?m1]) (auto simp: other)
  have "rxm.keyed rm" using node by (simp add: holds_node_def)
  note rm = receipt_extend_contains [OF picks_member_hd this refl, of rs]
  have "(m RECEIPT_COLUMN_FAMILY ++ map_of (rev (map (\<lambda>r. (er_transaction_hash r, cd_receipt cd r)) rs))) h \<noteq> None
      \<longleftrightarrow> h \<in> er_transaction_hash ` set rs \<or> m RECEIPT_COLUMN_FAMILY h \<noteq> None" for h
    by (auto simp: map_add_def map_of_eq_None_iff image_image simp flip: not_None_eq split: option.splits)
  then have receipts: "?m5 RECEIPT_COLUMN_FAMILY h \<noteq> None \<longleftrightarrow> receipt_contains (receipt_memory_extend rs rm) h" for h
    using node rm by (simp add: other holds_node_def)
  have payloads: "?m5 PAYLOAD_COLUMN_FAMILY (u64_to_key i)
      = map_option eb_hash (by_payload_id (pk_block pk) (sm_blocks ?mem') i)" if "i \<noteq> eb_payload_id g" for i
    using node that by (simp add: mem' by_id_add [OF pk(1) sy fits(4)] other holds_node_def)
  have "payloads_found (pk_block pk) (sm_blocks ?mem')"
    using payloads_found_add [OF pk(1) sy _ fits(4)] node fits(1) by (simp add: mem' holds_node_def appendable_def)
  moreover have "genesis_only g (sm_blocks ?mem')"
    using genesis_only_add [OF _ ok _ _ fits(4)] node fits(1) by (simp add: mem' holds_node_def appendable_def)
  ultimately show ?thesis
    using rep' roots receipts payloads rm unfolding holds_node_def publish_entries_def by simp
qed

section \<open>Both databases\<close>

text \<open>The batches of a publication, one write after the other.\<close>

fun write_batches :: "'db kv_ops \<Rightarrow> (string \<times> bytes \<times> bytes) list list \<Rightarrow> 'db \<Rightarrow> 'db stored" where
  "write_batches kv [] db = Inr db"
| "write_batches kv (es # ess) db = rbind (db_call (kv_write kv db es)) (write_batches kv ess)"

lemma write_batches_content:
  assumes "kv_laws kv content" "kv_reliable kv"
  shows "\<exists>db'. write_batches kv ess db = Inr db' \<and> content db' = fold (fold kv_put) ess (content db)"
proof (induction ess arbitrary: db)
  case (Cons es ess)
  obtain db1 where "kv_write kv db es = Inr db1" "content db1 = fold kv_put es (content db)"
    using kv_write_content [OF assms] .
  with Cons [of db1] show ?case by (simp add: db_call_def)
qed simp

lemma publish_batches:
  "persistent_publish (rocks_dependencies kv cd ops enc) rs txs b db
     = write_batches kv (publish_entries cd (op_trie_hash ops) (map (with_block_hash (eb_hash b)) rs) txs b) db"
  "persistent_publish (heed_dependencies he cd ops enc) rs txs b db
     = write_batches (he_kv he) (publish_entries cd (op_trie_hash ops) (map (with_block_hash (eb_hash b)) rs) txs b) db"
  by (simp_all add: persistent_publish_def rocks_dependencies_def heed_dependencies_def publish_entries_def
      rocks_receipt_extend_def rocks_transaction_extend_def rocks_block_add_def rocks_add_block_hash_def
      heed_receipt_extend_def heed_writes heed_add_block_hash_def heed_write_def to_u64_def rbind_def split: sum.split)

lemma heed_height_holds:
  assumes "kv_laws (he_kv he) content" "heed_reliable he" "holds_roots (u64_to_key HEED_HEIGHT_KEY) (content db) rs"
  shows "heed_height he db = Inr (of_nat (length rs))"
proof -
  have "encodable_u64_decode (u64_to_key n) = Inr n" for n
    using key_roundtrip [of n]
    by (simp add: u64_from_key_def encodable_u64_decode_def u64_to_key_def try_into_unwrap_def)
  then show ?thesis
    using assms(2,3)
    by (cases "rs = []")
      (simp_all add: heed_height_def heed_read_def heed_get_def kv_get_content [OF assms(1)] heed_reliable_def
        db_call_def holds_roots_def)
qed

lemma heed_root_holds:
  assumes "kv_laws (he_kv he) content" "heed_reliable he" "holds_roots hk (content db) rs"
  shows "heed_root_by_height he g db n
    = Inr (if n = 0 then Some g else if unat n \<le> length rs then Some (rs ! (unat n - 1)) else None)"
proof (cases "n = 0")
  case False
  then have "0 < unat n" by (simp add: unat_gt_0)
  moreover from this have "length (rs ! (unat n - 1)) = 32" if "unat n \<le> length rs"
    using that assms(3) by (simp add: holds_roots_def)
  ultimately show ?thesis
    using False assms(2,3)
    by (simp add: heed_root_by_height_def heed_read_def heed_get_def kv_get_content [OF assms(1)] heed_reliable_def
        db_call_def holds_roots_def encodable_b256_decode_def)
qed (simp add: heed_root_by_height_def)

definition rocks_node_holds ::
  "'db kv_ops \<Rightarrow> ('db \<Rightarrow> contents) \<Rightarrow> codec \<Rightarrow> picks \<Rightarrow> extended_block \<Rightarrow> 'db \<Rightarrow> shared_memory
     \<Rightarrow> receipt_memory \<Rightarrow> b256 list \<Rightarrow> bool" where
  "rocks_node_holds kv content cd pk g db mem rm roots \<longleftrightarrow>
     kv_laws kv content \<and> kv_reliable kv \<and> picks_member (pk_block pk) \<and> picks_member (pk_tx pk) \<and>
     holds_node HEIGHT_KEY pk cd g (content db) mem rm roots"

definition heed_node_holds ::
  "'db heed_ops \<Rightarrow> ('db \<Rightarrow> contents) \<Rightarrow> codec \<Rightarrow> picks \<Rightarrow> extended_block \<Rightarrow> 'db \<Rightarrow> shared_memory
     \<Rightarrow> receipt_memory \<Rightarrow> b256 list \<Rightarrow> bool" where
  "heed_node_holds he content cd pk g db mem rm roots \<longleftrightarrow>
     kv_laws (he_kv he) content \<and> heed_reliable he \<and> picks_member (pk_block pk) \<and> picks_member (pk_tx pk) \<and>
     holds_node (u64_to_key HEED_HEIGHT_KEY) pk cd g (content db) mem rm roots"

text \<open>Payloads are found over the hash of their block.\<close>

lemma payload_over_hash:
  assumes "payloads_found (pk_block pk) (sm_blocks mem)" "by_payload_id (pk_block pk) (sm_blocks mem) i = Some b"
  shows "payload_by_hash enc pk mem (eb_hash b) = payload_by_id enc pk mem i" "length (eb_hash b) = 32"
  using assms by (simp_all add: payloads_found_def payload_by_hash_def payload_by_id_def)

lemma rocks_node_payload:
  assumes "rocks_node_holds kv content cd pk g db mem rm roots" "i \<noteq> eb_payload_id g"
  shows "rocks_payload_by_id kv cd enc db i = Inr (payload_by_id enc pk mem i)"
proof -
  have kv: "kv_laws kv content" "kv_reliable kv" and rep: "represents pk cd (content db) mem"
    and found: "payloads_found (pk_block pk) (sm_blocks mem)"
    and at: "content db PAYLOAD_COLUMN_FAMILY (u64_to_key i)
      = map_option eb_hash (by_payload_id (pk_block pk) (sm_blocks mem) i)"
    using assms by (simp_all add: rocks_node_holds_def holds_node_def)
  show ?thesis
    by (cases "by_payload_id (pk_block pk) (sm_blocks mem) i")
      (simp_all add: rocks_payload_by_id_def rocks_get_def kv_get_content [OF kv] db_call_def at
        try_into_unwrap_def payload_over_hash [OF found] rocks_payload_by_hash_eq [OF kv rep],
       simp add: payload_by_id_def)
qed

lemma heed_node_payload:
  assumes "heed_node_holds he content cd pk g db mem rm roots" "i \<noteq> eb_payload_id g"
  shows "heed_payload_by_id he cd enc db i = Inr (payload_by_id enc pk mem i)"
proof -
  have he: "heed_reliable he" "kv_laws (he_kv he) content" and rep: "heed_holds he content cd pk db mem"
    and found: "payloads_found (pk_block pk) (sm_blocks mem)"
    and at: "content db PAYLOAD_COLUMN_FAMILY (u64_to_key i)
      = map_option eb_hash (by_payload_id (pk_block pk) (sm_blocks mem) i)"
    using assms by (simp_all add: heed_node_holds_def holds_node_def heed_holds_def rocks_holds_def heed_reliable_def)
  have kv: "kv_reliable (he_kv he)" "he_read_txn he db = Inr ()" "he_commit he db = Inr ()"
    using he(1) by (simp_all add: heed_reliable_def)
  show ?thesis
    by (cases "by_payload_id (pk_block pk) (sm_blocks mem) i")
      (simp_all add: heed_payload_by_id_def heed_get_def kv_get_content [OF he(2) kv(1)] kv db_call_def at to_u64_def
        encodable_b256_decode_def payload_over_hash [OF found] heed_answers [OF rep],
       simp add: payload_by_id_def)
qed

text \<open>The batch that pushes the next root.\<close>

lemma node_push:
  "rocks_node_holds kv content cd pk g db mem rm roots \<Longrightarrow> rocks_push_state_root kv root db
     = db_call (kv_write kv db (push_entries HEIGHT_KEY (length roots) root))"
  "heed_node_holds he content cd pk g db mem rm roots \<Longrightarrow> heed_push_state_root he root db
     = db_call (kv_write (he_kv he) db (push_entries (u64_to_key HEED_HEIGHT_KEY) (length roots) root))"
  using rocks_height_holds [of kv content db roots] heed_height_holds [of he content db roots]
  by (simp_all add: rocks_node_holds_def heed_node_holds_def holds_node_def rocks_push_state_root_def
      heed_push_state_root_def heed_write_def push_entries_def)

text \<open>The push and the publication of a block, over any database that documents its contents.\<close>

lemma node_publish:
  assumes kv: "kv_laws kv content" "kv_reliable kv" and pk: "picks_member (pk_block (d_picks d))" "picks_member (pk_tx (d_picks d))"
    and node: "holds_node hk (d_picks d) cd g (content db) mem rm roots"
    and fits: "publishable d (storable_entry cd) g (b, txs) mem"
      "payload_by_id (d_encode_2718 d) (d_picks d) mem (eb_payload_id b) = None"
      "Suc (length roots) < 2 ^ 64"
    and push: "db_call (kv_write kv db (push_entries hk (length roots) (hd_state_root (header_of b)))) = Inr db1"
  shows "\<exists>db'. write_batches kv (publish_entries cd (op_trie_hash (d_tx_ops d)) rs txs b) db1 = Inr db' \<and>
    holds_node hk (d_picks d) cd g (content db') (memory_write (op_trie_hash (d_tx_ops d)) (b, txs) mem)
      (receipt_memory_extend rs rm) (roots @ [hd_state_root (header_of b)])"
proof -
  let ?n = "length roots" and ?root = "hd_state_root (header_of b)"
  obtain db' where db': "write_batches kv (publish_entries cd (op_trie_hash (d_tx_ops d)) rs txs b) db1 = Inr db'"
    "content db' = fold (fold kv_put) (publish_entries cd (op_trie_hash (d_tx_ops d)) rs txs b) (content db1)"
    using write_batches_content [OF kv] by blast
  have "content db1 = fold kv_put (push_entries hk ?n ?root) (content db)"
    using push kv_write_content [OF kv, of db "push_entries hk ?n ?root"] by (auto simp: db_call_def)
  then show ?thesis
    using holds_node_publish [OF pk node, of "op_trie_hash (d_tx_ops d)" b txs rs] fits db'
    by (simp add: publishable_def payload_by_id_def)
qed

lemma holds_node_push:
  assumes "kv_laws kv content" "kv_reliable kv" "holds_node hk pk cd g (content db) mem rm roots"
    and "length root = 32" "Suc (length roots) < 2 ^ 64"
    and "db_call (kv_write kv db (push_entries hk (length roots) root)) = Inr db1"
  shows "holds_node hk pk cd g (content db1) mem rm (roots @ [root])"
proof -
  have c: "content db1 = fold kv_put (push_entries hk (length roots) root) (content db)"
    using assms(6) kv_write_content [OF assms(1,2), of db "push_entries hk (length roots) root"]
    by (auto simp: db_call_def)
  have "holds_roots hk (content db1) (roots @ [root])"
    using holds_roots_push [OF _ assms(5,4), of hk "content db"] assms(3)
    by (simp add: c holds_node_def push_entries_def)
  moreover have "represents pk cd (content db1) mem"
    using assms(3) by (subst represents_families [where m' = "content db"])
      (auto simp: c push_entries_def kv_put_def family_defs holds_node_def)
  ultimately show ?thesis
    using assms(3) by (simp add: holds_node_def c push_entries_def kv_put_def family_defs)
qed

interpretation rocks_node: node_backend d "rocks_dependencies kv cd (d_tx_ops d) (d_encode_2718 d)"
  "storable_entry cd" g "rocks_node_holds kv content cd (d_picks d) g"
proof
  fix db mem rm roots
  assume holds: "rocks_node_holds kv content cd (d_picks d) g db mem rm roots"
  let ?s = "rocks_dependencies kv cd (d_tx_ops d) (d_encode_2718 d)"
  have kv: "kv_laws kv content" "kv_reliable kv" "picks_member (pk_block (d_picks d))" "picks_member (pk_tx (d_picks d))"
    and node: "holds_node HEIGHT_KEY (d_picks d) cd g (content db) mem rm roots"
    using holds by (simp_all add: rocks_node_holds_def)
  have rep: "represents (d_picks d) cd (content db) mem" and roots: "holds_roots HEIGHT_KEY (content db) roots"
    and contains: "\<And>h. content db RECEIPT_COLUMN_FAMILY h \<noteq> None \<longleftrightarrow> receipt_contains rm h"
    using node by (simp_all add: holds_node_def)
  show "ps_payload_by_id ?s db i = Inr (payload_by_id (d_encode_2718 d) (d_picks d) mem i)" if "i \<noteq> eb_payload_id g" for i
    using rocks_node_payload [OF holds that] by (simp add: rocks_dependencies_def)
  show "ps_receipt_contains ?s db h = Inr (receipt_contains rm h)" for h
    using contains [of h]
    by (simp add: rocks_dependencies_def rocks_receipt_contains_def kv_get_content [OF kv(1,2)] db_call_def)
  show "ps_block_latest ?s db = Inr (repository_latest (pk_block (d_picks d)) (sm_blocks mem))"
    by (simp add: rocks_dependencies_def rocks_latest_eq [OF kv(1,2) rep kv(3)])
  show "ps_query_by_hash ?s db h inc = db_unwrap (query_by_hash (d_tx_ops d) (d_picks d) mem h inc)" for h inc
    by (simp add: rocks_dependencies_def rocks_query_by_hash_eq [OF kv(1,2) rep])
  show "ps_query_latest ?s db = Inr (query_latest mem)"
    by (simp add: rocks_dependencies_def rocks_latest_eq [OF kv(1,2) rep kv(3)])
  show "ps_query_by_height ?s db n inc = db_unwrap (query_by_height (d_tx_ops d) (d_picks d) mem n inc)" for n inc
    by (simp add: rocks_dependencies_def rocks_query_by_height_eq [OF kv(1,2) rep])
  show "ps_root_by_height ?s groot db n
      = Inr (if n = 0 then Some groot else if unat n \<le> length roots then Some (roots ! (unat n - 1)) else None)" for groot n
    by (simp add: rocks_dependencies_def rocks_root_holds [OF kv(1,2) roots])
  show "chain_ok (sm_blocks mem) \<and> picks_member (pk_block (d_picks d))"
    using rep kv(3) by (simp add: represents_def)
  show "\<exists>db'. ps_on_tx_batch ?s root db = Inr db'" for root
    using kv_write_content [OF kv(1,2)] by (simp add: rocks_dependencies_def node_push(1) [OF holds] db_call_def) blast
  show "rocks_node_holds kv content cd (d_picks d) g db1 mem rm (roots @ [root])"
    if "length root = 32" "Suc (length roots) < 2 ^ 64" "ps_on_tx_batch ?s root db = Inr db1" for root db1
    using holds_node_push [OF kv(1,2) node that(1,2)] that(3) kv
    by (simp add: rocks_dependencies_def node_push(1) [OF holds] rocks_node_holds_def)
  show "\<exists>db'. persistent_publish ?s rs txs b db1 = Inr db' \<and>
      rocks_node_holds kv content cd (d_picks d) g db' (memory_write (op_trie_hash (d_tx_ops d)) (b, txs) mem)
        (receipt_memory_extend (map (with_block_hash (eb_hash b)) rs) rm) (roots @ [hd_state_root (header_of b)])"
    if "publishable d (storable_entry cd) g (b, txs) mem" "payload_by_id (d_encode_2718 d) (d_picks d) mem (eb_payload_id b) = None"
      "Suc (length roots) < 2 ^ 64" "ps_on_tx_batch ?s (hd_state_root (header_of b)) db = Inr db1" for b txs db1 rs
    using node_publish [OF kv node that(1-3)] that(4) kv
    by (simp add: publish_batches rocks_node_holds_def) (simp add: rocks_dependencies_def node_push(1) [OF holds])
  show "chain_of (pk_block (d_picks d)) (repository_add g (sm_blocks mem)) = chain_of (pk_block (d_picks d)) (sm_blocks mem) \<and>
      (\<exists>db'. ps_block_add ?s g db = Inr db' \<and>
        rocks_node_holds kv content cd (d_picks d) g db' (mem\<lparr>sm_blocks := repository_add g (sm_blocks mem)\<rparr>) rm roots)"
  proof (intro conjI)
    obtain db' where db': "kv_write kv db (rocks_block_entries cd g) = Inr db'" "content db' = content db"
      using kv_write_content [OF kv(1,2), of db "rocks_block_entries cd g"] holds_node_genesis(1) [OF kv(3) node] by metis
    have "rocks_node_holds kv content cd (d_picks d) g db' (mem\<lparr>sm_blocks := repository_add g (sm_blocks mem)\<rparr>) rm roots"
      using holds_node_genesis(2) [OF kv(3) node] kv by (simp add: rocks_node_holds_def repository_add_def db'(2))
    then show "\<exists>db'. ps_block_add ?s g db = Inr db' \<and>
        rocks_node_holds kv content cd (d_picks d) g db' (mem\<lparr>sm_blocks := repository_add g (sm_blocks mem)\<rparr>) rm roots"
      using db'(1) by (simp add: rocks_dependencies_def rocks_block_add_def db_call_def)
  qed (simp add: repository_add_def holds_node_genesis(3) [OF kv(3) node])
qed

interpretation heed_node: node_backend d "heed_dependencies he cd (d_tx_ops d) (d_encode_2718 d)"
  "storable_entry cd" g "heed_node_holds he content cd (d_picks d) g"
proof
  fix db mem rm roots
  assume holds: "heed_node_holds he content cd (d_picks d) g db mem rm roots"
  let ?s = "heed_dependencies he cd (d_tx_ops d) (d_encode_2718 d)"
  have he: "kv_laws (he_kv he) content" "heed_reliable he" "picks_member (pk_block (d_picks d))"
      "picks_member (pk_tx (d_picks d))" "kv_reliable (he_kv he)"
    and node: "holds_node (u64_to_key HEED_HEIGHT_KEY) (d_picks d) cd g (content db) mem rm roots"
    using holds by (simp_all add: heed_node_holds_def heed_reliable_def)
  have rep: "heed_holds he content cd (d_picks d) db mem"
    and roots: "holds_roots (u64_to_key HEED_HEIGHT_KEY) (content db) roots"
    and contains: "\<And>h. content db RECEIPT_COLUMN_FAMILY h \<noteq> None \<longleftrightarrow> receipt_contains rm h"
    using node he by (simp_all add: holds_node_def heed_holds_def rocks_holds_def)
  show "ps_payload_by_id ?s db i = Inr (payload_by_id (d_encode_2718 d) (d_picks d) mem i)" if "i \<noteq> eb_payload_id g" for i
    using heed_node_payload [OF holds that] by (simp add: heed_dependencies_def)
  show "ps_receipt_contains ?s db h = Inr (receipt_contains rm h)" for h
    using contains [of h] he(2)
    by (cases "content db RECEIPT_COLUMN_FAMILY h")
      (simp_all add: heed_dependencies_def heed_receipt_contains_def heed_read_def heed_get_def heed_reliable_def
        kv_get_content [OF he(1,5)] db_call_def)
  show "ps_block_latest ?s db = Inr (repository_latest (pk_block (d_picks d)) (sm_blocks mem))"
    by (simp add: heed_dependencies_def heed_answers [OF rep])
  show "ps_query_by_hash ?s db h inc = db_unwrap (query_by_hash (d_tx_ops d) (d_picks d) mem h inc)" for h inc
    by (simp add: heed_dependencies_def heed_answers [OF rep])
  show "ps_query_latest ?s db = Inr (query_latest mem)"
    by (simp add: heed_dependencies_def heed_answers [OF rep])
  show "ps_query_by_height ?s db n inc = db_unwrap (query_by_height (d_tx_ops d) (d_picks d) mem n inc)" for n inc
    by (simp add: heed_dependencies_def heed_answers [OF rep])
  show "ps_root_by_height ?s groot db n
      = Inr (if n = 0 then Some groot else if unat n \<le> length roots then Some (roots ! (unat n - 1)) else None)" for groot n
    by (simp add: heed_dependencies_def heed_root_holds [OF he(1,2) roots])
  show "chain_ok (sm_blocks mem) \<and> picks_member (pk_block (d_picks d))"
    using node he(3) by (simp add: holds_node_def represents_def)
  show "\<exists>db'. ps_on_tx_batch ?s root db = Inr db'" for root
    using kv_write_content [OF he(1,5)] by (simp add: heed_dependencies_def node_push(2) [OF holds] db_call_def) blast
  show "heed_node_holds he content cd (d_picks d) g db1 mem rm (roots @ [root])"
    if "length root = 32" "Suc (length roots) < 2 ^ 64" "ps_on_tx_batch ?s root db = Inr db1" for root db1
    using holds_node_push [OF he(1,5) node that(1,2)] that(3) he
    by (simp add: heed_dependencies_def node_push(2) [OF holds] heed_node_holds_def)
  show "\<exists>db'. persistent_publish ?s rs txs b db1 = Inr db' \<and>
      heed_node_holds he content cd (d_picks d) g db' (memory_write (op_trie_hash (d_tx_ops d)) (b, txs) mem)
        (receipt_memory_extend (map (with_block_hash (eb_hash b)) rs) rm) (roots @ [hd_state_root (header_of b)])"
    if "publishable d (storable_entry cd) g (b, txs) mem" "payload_by_id (d_encode_2718 d) (d_picks d) mem (eb_payload_id b) = None"
      "Suc (length roots) < 2 ^ 64" "ps_on_tx_batch ?s (hd_state_root (header_of b)) db = Inr db1" for b txs db1 rs
    using node_publish [OF he(1,5,3,4) node that(1-3)] that(4) he
    by (simp add: publish_batches heed_node_holds_def) (simp add: heed_dependencies_def node_push(2) [OF holds])
  show "chain_of (pk_block (d_picks d)) (repository_add g (sm_blocks mem)) = chain_of (pk_block (d_picks d)) (sm_blocks mem) \<and>
      (\<exists>db'. ps_block_add ?s g db = Inr db' \<and>
        heed_node_holds he content cd (d_picks d) g db' (mem\<lparr>sm_blocks := repository_add g (sm_blocks mem)\<rparr>) rm roots)"
  proof (intro conjI)
    obtain db' where db': "kv_write (he_kv he) db (rocks_block_entries cd g) = Inr db'" "content db' = content db"
      using kv_write_content [OF he(1,5), of db "rocks_block_entries cd g"] holds_node_genesis(1) [OF he(3) node] by metis
    have "heed_node_holds he content cd (d_picks d) g db' (mem\<lparr>sm_blocks := repository_add g (sm_blocks mem)\<rparr>) rm roots"
      using holds_node_genesis(2) [OF he(3) node] he by (simp add: heed_node_holds_def repository_add_def db'(2))
    then show "\<exists>db'. ps_block_add ?s g db = Inr db' \<and>
        heed_node_holds he content cd (d_picks d) g db' (mem\<lparr>sm_blocks := repository_add g (sm_blocks mem)\<rparr>) rm roots"
      using db'(1) by (simp add: heed_dependencies_def heed_writes rocks_block_add_def db_call_def)
  qed (simp add: repository_add_def holds_node_genesis(3) [OF he(3) node])
qed

section \<open>From the empty database\<close>

definition genesis_storable :: "codec \<Rightarrow> extended_block \<Rightarrow> bool" where
  "genesis_storable cd g \<longleftrightarrow>
     number_of g = 0 \<and> length (eb_hash g) = 32 \<and> cd_block_of cd (cd_block cd g) = Inr g"

lemma genesis_holds:
  assumes "picks_member (pk_block pk)" "genesis_storable cd g"
    and "app = genesis_update (application_new cfg fee st es) g"
  shows "holds_node hk pk cd g (fold kv_put (rocks_block_entries cd g) (\<lambda>_. Map.empty)) (ap_storage app) (ap_receipt_memory app) []"
proof -
  let ?m = "block_memory_new"
  have len: "em_len (bm_heights ?m) = 0" by (simp add: block_memory_new_def em_new_def em_len_def)
  have ok: "chain_ok ?m" by (rule chain_ok_new)
  have g: "unat (number_of g) = em_len (bm_heights ?m)" "Suc (em_len (bm_heights ?m)) < 2 ^ 64"
    using assms(2) by (simp_all add: len genesis_storable_def)
  have none: "by_payload_id (pk_block pk) ?m i = None" "by_hash (pk_block pk) ?m h = None" for i h
    by (simp_all add: by_hash_def by_payload_id_def block_memory_new_def)
  have app: "ap_storage app = shared_memory_new\<lparr>sm_blocks := block_memory_add g ?m\<rparr>" "ap_receipt_memory app = em_new"
    by (simp_all add: assms(3) genesis_update_def application_new_def repository_add_def shared_memory_new_def on_blocks_def)
  have rep: "represents pk cd (fold kv_put (rocks_block_entries cd g) (\<lambda>_. Map.empty)) (ap_storage app)"
    unfolding app using represents_add [OF assms(1) represents_new] g none assms(2)
    by (simp add: genesis_storable_def shared_memory_new_def)
  have "payloads_found (pk_block pk) (block_memory_add g ?m)"
    by (rule payloads_found_add [OF assms(1) chain_ok_synced [OF ok] _ none])
      (use assms(2) in \<open>simp_all add: payloads_found_def none genesis_storable_def\<close>)
  moreover have "holds_roots hk (fold kv_put (rocks_block_entries cd g) (\<lambda>_. Map.empty)) []"
    by (auto simp: holds_roots_def rocks_block_entries_def kv_put_def family_defs)
  moreover have "rxm.keyed em_new" "\<not> receipt_contains em_new h" for h
    by (simp_all add: rxm.keyed_def receipt_contains_def contains_key_def) (simp add: em_new_def)
  ultimately show ?thesis
    using rep by_id_add [OF assms(1) chain_ok_synced [OF ok] none(1)] genesis_only_new [of g]
    by (auto simp: holds_node_def app rocks_block_entries_def kv_put_def family_defs none)
qed

lemma genesis_tracks:
  fixes st :: 'st and es :: 'es
  assumes "picks_member (pk_block pk)" "genesis_storable cd g"
    and "app = genesis_update (application_new cfg fee st es) g"
    and "holds db (ap_storage app) (ap_receipt_memory app) []"
  shows "tracks holds (pk_block pk) g [] 1 db app"
proof -
  have len: "em_len (bm_heights block_memory_new) = 0" by (simp add: block_memory_new_def em_new_def em_len_def)
  have "blocks_of app = block_memory_add g block_memory_new"
    by (simp add: assms(3) genesis_update_def application_new_def repository_add_def shared_memory_new_def)
  then have ch: "chain_of (pk_block pk) (blocks_of app) = [g]"
    using chain_of_add [OF assms(1) chain_ok_new, of g] assms(2) by (simp add: len chain_of_def genesis_storable_def)
  from arg_cong [OF this, of length] have "em_len (bm_heights (blocks_of app)) = 1" by simp
  with assms(4) ch show ?thesis by (simp add: tracks_def roots_from_def)
qed

lemma rocks_node_runs:
  assumes "kv_laws kv content" "kv_reliable kv" "content db = (\<lambda>_. Map.empty)"
    and "picks_member (pk_block (d_picks d))" "picks_member (pk_tx (d_picks d))" "genesis_storable cd g"
    and "s = rocks_dependencies kv cd (d_tx_ops d) (d_encode_2718 d)"
    and "publishable_all d (storable_entry cd) g (genesis_update (application_new cfg fee st es) g) cs"
  shows "case work d (application_new cfg fee st es) (GenesisUpdate g # cs) of
      Inl e \<Rightarrow> persistent_work d s (persistent_application_new cfg fee st es db) (GenesisUpdate g # cs) = Inl e
    | Inr app \<Rightarrow> \<exists>db'. tracks (rocks_node_holds kv content cd (d_picks d) g) (pk_block (d_picks d)) g [] 1 db' app \<and>
        persistent_work d s (persistent_application_new cfg fee st es db) (GenesisUpdate g # cs) = Inr (over db' app)"
proof -
  let ?app = "genesis_update (application_new cfg fee st es) g"
  obtain db1 where db1: "rocks_block_add kv cd g db = Inr db1"
    "content db1 = fold kv_put (rocks_block_entries cd g) (\<lambda>_. Map.empty)"
    using kv_write_content [OF assms(1,2), of db] by (auto simp: rocks_block_add_def db_call_def assms(3))
  have "rocks_node_holds kv content cd (d_picks d) g db1 (ap_storage ?app) (ap_receipt_memory ?app) []"
    using genesis_holds [OF assms(4,6) refl] assms(1,2,4,5) by (simp add: rocks_node_holds_def db1(2))
  from genesis_tracks [where holds = "rocks_node_holds kv content cd (d_picks d) g", OF assms(4,6) refl this]
  show ?thesis
    unfolding assms(7) by (intro rocks_node.work_from_genesis [OF _ refl _ assms(8)])
      (simp_all add: rocks_dependencies_def db1(1))
qed

lemma heed_node_runs:
  assumes "kv_laws (he_kv he) content" "heed_reliable he" "content db = (\<lambda>_. Map.empty)"
    and "picks_member (pk_block (d_picks d))" "picks_member (pk_tx (d_picks d))" "genesis_storable cd g"
    and "s = heed_dependencies he cd (d_tx_ops d) (d_encode_2718 d)"
    and "publishable_all d (storable_entry cd) g (genesis_update (application_new cfg fee st es) g) cs"
  shows "case work d (application_new cfg fee st es) (GenesisUpdate g # cs) of
      Inl e \<Rightarrow> persistent_work d s (persistent_application_new cfg fee st es db) (GenesisUpdate g # cs) = Inl e
    | Inr app \<Rightarrow> \<exists>db'. tracks (heed_node_holds he content cd (d_picks d) g) (pk_block (d_picks d)) g [] 1 db' app \<and>
        persistent_work d s (persistent_application_new cfg fee st es db) (GenesisUpdate g # cs) = Inr (over db' app)"
proof -
  let ?app = "genesis_update (application_new cfg fee st es) g"
  have kv: "kv_reliable (he_kv he)" using assms(2) by (simp add: heed_reliable_def)
  obtain db1 where db1: "heed_block_add he cd g db = Inr db1"
    "content db1 = fold kv_put (rocks_block_entries cd g) (\<lambda>_. Map.empty)"
    using kv_write_content [OF assms(1) kv, of db]
    by (auto simp: heed_writes rocks_block_add_def db_call_def assms(3))
  have "heed_node_holds he content cd (d_picks d) g db1 (ap_storage ?app) (ap_receipt_memory ?app) []"
    using genesis_holds [OF assms(4,6) refl] assms(1,2,4,5) by (simp add: heed_node_holds_def db1(2))
  from genesis_tracks [where holds = "heed_node_holds he content cd (d_picks d) g", OF assms(4,6) refl this]
  show ?thesis
    unfolding assms(7) by (intro heed_node.work_from_genesis [OF _ refl _ assms(8)])
      (simp_all add: heed_dependencies_def db1(1))
qed

text \<open>C6. A node over RocksDB refines the node in memory, from an empty database on, as long as what it builds fits
  the database: storing the genesis block and handling payloads, transactions and that genesis block again
  has the same outcome, it panics with the same panic or leaves the same mem pool, state and EVM storage,
  and then the database answers for blocks, payloads (but that of the genesis block) and receipts as the
  memory does, and has for every height the state root its block commits to. A block fits when its hash
  is new, its transactions have different hashes that are not stored yet, and its encoding can be read
  back. So a transaction that was skipped and comes again is excluded, for which the memory would keep both
  records and the database the second one, and so is adopting a different genesis block.\<close>

theorem rocksdb_node_refines_memory_node:
  assumes "kv_laws kv content" "kv_reliable kv" "content db = (\<lambda>_. Map.empty)"
    and "picks_member (pk_block (d_picks d))" "picks_member (pk_tx (d_picks d))" "genesis_storable cd g"
    and "s = rocks_dependencies kv cd (d_tx_ops d) (d_encode_2718 d)"
    and "publishable_all d (storable_entry cd) g (genesis_update (application_new cfg fee st es) g) cs"
  shows "case work d (application_new cfg fee st es) (GenesisUpdate g # cs) of
      Inl e \<Rightarrow> persistent_work d s (persistent_application_new cfg fee st es db) (GenesisUpdate g # cs) = Inl e
    | Inr app \<Rightarrow> \<exists>db'.
        persistent_work d s (persistent_application_new cfg fee st es db) (GenesisUpdate g # cs) = Inr (over db' app) \<and>
        same_answers d s g db' app \<and>
        (\<forall>n. rocks_root_by_height kv (hd_state_root (header_of g)) db' n
           = Inr (map_option (hd_state_root \<circ> header_of) (by_height (pk_block (d_picks d)) (blocks_of app) n)))"
proof -
  have root: "rocks_root_by_height kv = ps_root_by_height s" by (simp add: assms(7) rocks_dependencies_def)
  from rocks_node_runs [OF assms] show ?thesis
    unfolding root unfolding assms(7) using rocks_node.tracks_answers rocks_node.tracks_roots
    by (cases "work d (application_new cfg fee st es) (GenesisUpdate g # cs)") (fastforce simp del: work.simps persistent_work.simps)+
qed

text \<open>C14. A node over LMDB refines the node in memory in the same way and under the same conditions (new block
  and transaction hashes, no genesis block but the one it started with), although its reads run in
  transactions of their own and it keeps the height of the state under another key: the two databases are
  interchangeable.\<close>

theorem lmdb_node_refines_memory_node:
  assumes "kv_laws (he_kv he) content" "heed_reliable he" "content db = (\<lambda>_. Map.empty)"
    and "picks_member (pk_block (d_picks d))" "picks_member (pk_tx (d_picks d))" "genesis_storable cd g"
    and "s = heed_dependencies he cd (d_tx_ops d) (d_encode_2718 d)"
    and "publishable_all d (storable_entry cd) g (genesis_update (application_new cfg fee st es) g) cs"
  shows "case work d (application_new cfg fee st es) (GenesisUpdate g # cs) of
      Inl e \<Rightarrow> persistent_work d s (persistent_application_new cfg fee st es db) (GenesisUpdate g # cs) = Inl e
    | Inr app \<Rightarrow> \<exists>db'.
        persistent_work d s (persistent_application_new cfg fee st es db) (GenesisUpdate g # cs) = Inr (over db' app) \<and>
        same_answers d s g db' app \<and>
        (\<forall>n. heed_root_by_height he (hd_state_root (header_of g)) db' n
           = Inr (map_option (hd_state_root \<circ> header_of) (by_height (pk_block (d_picks d)) (blocks_of app) n)))"
proof -
  have root: "heed_root_by_height he = ps_root_by_height s" by (simp add: assms(7) heed_dependencies_def)
  from heed_node_runs [OF assms] show ?thesis
    unfolding root unfolding assms(7) using heed_node.tracks_answers heed_node.tracks_roots
    by (cases "work d (application_new cfg fee st es) (GenesisUpdate g # cs)") (fastforce simp del: work.simps persistent_work.simps)+
qed

text \<open>C15. Building a block is not atomic. A node is stopped after the transactions of a block, when the root
  of the new state has been pushed, and before the block is stored; it is restarted on its database.
  From then on the blocks it builds are stored as before, but the history of the state is one block
  late: the height of the first new block has the root of the lost block, and the height of every later
  block the root of the block before it.\<close>

theorem crash_shifts_state_history:
  assumes kv: "kv_laws kv content" "kv_reliable kv" "content db = (\<lambda>_. Map.empty)"
    and picks: "picks_member (pk_block (d_picks d))" "picks_member (pk_tx (d_picks d))" "genesis_storable cd g"
    and s: "s = rocks_dependencies kv cd (d_tx_ops d) (d_encode_2718 d)"
    and fits: "publishable_all d (storable_entry cd) g (genesis_update (application_new cfg fee st es) g) cs"
    and run: "work d (application_new cfg fee st es) (GenesisUpdate g # cs) = Inr app"
      "persistent_work d s (persistent_application_new cfg fee st es db) (GenesisUpdate g # cs) = Inr node"
      "chain_of (pk_block (d_picks d)) (blocks_of app) = g # bs"
    and stopped: "persistent_build_block d s node p i ts = Inr (b, rs, stopped)"
      "length (hd_state_root (header_of b)) = 32" "Suc (length bs) < 2 ^ 64"
    and restarted: "app0 = app\<lparr>ap_mem_pool := [], ap_state := st', ap_evm_storage := es'\<rparr>"
      "publishable_all d (storable_entry cd) g app0 cs'" "work d app0 cs' = Inr app'"
      "chain_of (pk_block (d_picks d)) (blocks_of app') = g # bs @ bs'" "k < length bs'"
  shows "\<exists>db'. persistent_work d s
      (persistent_application_new (ap_genesis_config app) (ap_gas_fee app) st' es' (pn_db stopped)) cs' = Inr (over db' app') \<and>
    same_answers d s g db' app' \<and>
    rocks_root_by_height kv (hd_state_root (header_of g)) db' (of_nat (Suc (length bs + k)))
      = Inr (Some (hd_state_root (header_of ((b # bs') ! k))))"
proof -
  let ?holds = "rocks_node_holds kv content cd (d_picks d) g" and ?pick = "pk_block (d_picks d)"
  let ?late = "map (hd_state_root \<circ> header_of) (bs @ [b])"
  have root: "rocks_root_by_height kv = ps_root_by_height s" by (simp add: s rocks_dependencies_def)
  obtain db1 where db1: "tracks ?holds ?pick g [] 1 db1 app" "node = over db1 app"
    using rocks_node_runs [OF kv picks s fits] run(1,2) by auto
  have "tracks ?holds ?pick g ?late (Suc (length bs)) (pn_db stopped) app"
    using rocks_node.tracks_stopped [OF db1(1) run(3) _ stopped(2,3)] stopped(1) by (simp add: s db1(2))
  then have "tracks ?holds ?pick g ?late (Suc (length bs)) (pn_db stopped) app0"
    by (simp add: tracks_def roots_from_def restarted(1))
  from rocks_node.work_eq [OF this restarted(2)] obtain db' where
    db': "persistent_work d s (over (pn_db stopped) app0) cs' = Inr (over db' app')"
      "tracks ?holds ?pick g ?late (Suc (length bs)) db' app'"
    by (auto simp: restarted(3) s)
  have "over (pn_db stopped) app0
      = persistent_application_new (ap_genesis_config app) (ap_gas_fee app) st' es' (pn_db stopped)"
    by (simp add: restarted(1) over_def persistent_application_new_def)
  then show ?thesis
    using db' rocks_node.tracks_answers [OF db'(2)] rocks_node.tracks_shifted [OF db'(2) restarted(4,5)]
    by (auto simp: root s)
qed

section \<open>Witnesses\<close>

text \<open>The example node with hashes and roots of 32 bytes, over the example database, and the block it builds
  on a payload without transactions.\<close>

definition stored_dependencies :: "(ledger, unit, ledger, ledger option, unit) dependencies" where
  "stored_dependencies = example_dependencies
     \<lparr>d_block_hash := (\<lambda>h. replicate 24 1 @ be_bytes 8 (hd_number h)),
      d_state_root := (\<lambda>st. replicate 32 (ucast (ld_nonces st [])))\<rparr>"

definition stored_genesis :: extended_block where
  "stored_genesis = example_block 0 (replicate 32 7)"

abbreviation stored_app :: "ledger \<Rightarrow> (ledger, unit) application" where
  "stored_app st \<equiv> genesis_update (application_new example_config example_fee st ()) stored_genesis"

definition stored_block :: "ledger \<Rightarrow> extended_block" where
  "stored_block st =
     (case build_block stored_dependencies (stored_app st) example_payload 5 [] of
        Inr (b, _) \<Rightarrow> b | Inl _ \<Rightarrow> stored_genesis)"

definition stored_codec :: "ledger \<Rightarrow> codec" where
  "stored_codec st =
     \<lparr>cd_block = (\<lambda>b. if b = stored_genesis then [1] else [2]),
      cd_block_of = (\<lambda>bs. Inr (if bs = [1] then stored_genesis else stored_block st)),
      cd_transaction = (\<lambda>_. []), cd_transaction_of = (\<lambda>_. Inl ''malformed''),
      cd_receipt = (\<lambda>_. []), cd_receipt_of = (\<lambda>_. Inl ''malformed'')\<rparr>"

lemma stored_picks:
  "picks_member (pk_block (d_picks stored_dependencies))" "picks_member (pk_tx (d_picks stored_dependencies))"
  by (simp_all add: stored_dependencies_def example_dependencies_def picks_member_hd)

lemma stored_genesis_simps:
  "number_of stored_genesis = 0" "eb_hash stored_genesis = replicate 32 7" "eb_payload_id stored_genesis = 0"
  "transaction_hashes stored_genesis = []"
  by (simp_all add: stored_genesis_def example_block_defs transaction_hashes_def)

lemma stored_genesis_storable: "genesis_storable (stored_codec st) stored_genesis"
  by (simp add: genesis_storable_def stored_genesis_simps stored_codec_def)

lemma stored_started:
  "blocks_of (stored_app st) = block_memory_add stored_genesis block_memory_new"
  "txs_of (stored_app st) = em_new" "ap_gas_fee (stored_app st) = example_fee"
  "ap_mem_pool (stored_app st) = []" "ap_receipt_memory (stored_app st) = em_new" "ap_state (stored_app st) = st"
  by (simp_all add: genesis_update_def application_new_def repository_add_def shared_memory_new_def)
    (simp add: on_blocks_def)

lemma stored_latest:
  "repository_latest (pk_block (d_picks stored_dependencies)) (blocks_of (stored_app st)) = Some stored_genesis"
  unfolding stored_started repository_latest_def
  by (rule last_block_add(2) [OF stored_picks(1) chain_ok_new])
    (simp_all add: stored_genesis_simps block_memory_new_def em_new_def em_len_def)

lemma stored_no_payload:
  "payload_by_id (d_encode_2718 stored_dependencies) (d_picks stored_dependencies) (ap_storage (stored_app st)) 5 = None"
  by (simp add: payload_by_id_def stored_started by_payload_id_def get_one_None_iff bags_after_add
      chain_ok_synced [OF chain_ok_new] stored_genesis_simps) (simp add: block_memory_new_def)

lemma stored_candidates: "candidates stored_dependencies (stored_app st) example_payload = []"
  by (simp add: candidates_def example_payload_def stored_started stored_dependencies_def example_dependencies_def
      map_filter_simps)

lemma stored_build:
  obtains app1 where "build_block stored_dependencies (stored_app st) example_payload 5 [] = Inr (stored_block st, [], app1)"
    "hd_state_root (header_of (stored_block st)) = replicate 32 (ucast (ld_nonces st []))"
proof -
  have "\<not> hd_gas_limit (header_of stored_genesis) < 6"
    by (simp add: stored_genesis_def example_block_defs)
  then obtain f where "base_fee_per_gas example_fee (hd_gas_limit (header_of stored_genesis))
     (hd_gas_used (header_of stored_genesis))
     (ucast (unwrap_or (hd_base_fee_per_gas (header_of stored_genesis)) 0)) = Inr f"
    using base_fee_panics [OF example_fee_new] by (metis obj_sumE)
  then have "\<exists>b app1. build_block stored_dependencies (stored_app st) example_payload 5 [] = Inr (b, [], app1) \<and>
      hd_state_root (header_of b) = replicate 32 (ucast (ld_nonces st []))"
    by (simp add: build_block_def stored_latest [unfolded stored_started] stored_started execute_transactions_def
        block_l1_fee_def u64_from_def building_new_def Let_def block_header_def with_execution_outcome_def
        with_payload_attributes_def with_payload_id_def with_value_def with_hash_def extended_block_new_def
        block_new_def) (simp add: stored_dependencies_def)
  with that show ?thesis by (auto simp: stored_block_def)
qed

lemma stored_block_simps:
  "number_of (stored_block st) = 1" "eb_hash (stored_block st) = replicate 24 1 @ be_bytes 8 (1 :: u64)"
  "eb_payload_id (stored_block st) = 5" "length (hd_state_root (header_of (stored_block st))) = 32"
proof -
  obtain app1 where built: "build_block stored_dependencies (stored_app st) example_payload 5 [] = Inr (stored_block st, [], app1)"
    and root: "hd_state_root (header_of (stored_block st)) = replicate 32 (ucast (ld_nonces st []))"
    using stored_build .
  from built obtain parent where
    latest: "repository_latest (pk_block (d_picks stored_dependencies)) (blocks_of (stored_app st)) = Some parent"
    and child: "valid_child (d_block_hash stored_dependencies) (ap_gas_fee (stored_app st)) parent (stored_block st)"
    and i: "eb_payload_id (stored_block st) = 5"
    by (elim build_block_Inr) simp
  have "parent = stored_genesis" using latest stored_latest by simp
  with child show n: "number_of (stored_block st) = 1" "eb_hash (stored_block st) = replicate 24 1 @ be_bytes 8 (1 :: u64)"
    by (simp_all add: valid_child_def stored_genesis_simps) (simp add: stored_dependencies_def)
  show "eb_payload_id (stored_block st) = 5" "length (hd_state_root (header_of (stored_block st))) = 32"
    using i root by simp_all
qed

lemma stored_publishable:
  "publishable_all stored_dependencies (storable_entry (stored_codec st)) stored_genesis (stored_app st)
     [StartBlockBuild example_payload 5]"
proof -
  obtain app1 where built: "build_block stored_dependencies (stored_app st) example_payload 5 [] = Inr (stored_block st, [], app1)"
    using stored_build by blast
  have same: "(stored_app st)\<lparr>ap_mem_pool := []\<rparr> = stored_app st"
    by (simp add: genesis_update_def application_new_def on_blocks_def)
  have new: "by_hash (pk_block (d_picks stored_dependencies)) (blocks_of (stored_app st)) (eb_hash (stored_block st)) = None"
  proof -
    have "eb_hash (stored_block st) \<noteq> eb_hash stored_genesis"
      by (simp add: stored_block_simps stored_genesis_simps list_eq_iff_nth_eq nth_append) (auto intro!: exI [of _ 0])
    then show ?thesis
      using by_hash_add_other [OF chain_ok_synced [OF chain_ok_new]]
      by (simp add: stored_started) (simp add: by_hash_def block_memory_new_def)
  qed
  have len: "em_len (bm_heights (blocks_of (stored_app st))) = 1"
    using chain_ok_add(2) [OF chain_ok_new, of stored_genesis]
    by (simp add: stored_started stored_genesis_simps) (simp add: block_memory_new_def em_new_def em_len_def)
  have "storable_entry (stored_codec st) (stored_block st, [])"
    using stored_block_simps(1) [of st] stored_genesis_simps(1)
    by (auto simp: storable_entry_def stored_codec_def)
  then have "publishable stored_dependencies (storable_entry (stored_codec st)) stored_genesis (stored_block st, [])
      (ap_storage (stored_app st))"
    using new len by (simp add: publishable_def appendable_def stored_block_simps stored_genesis_simps be_bytes_def)
  then show ?thesis
    by (simp add: stored_genesis_simps same stored_candidates built stored_transactions_def split: sum.split)
qed

lemma stored_work:
  obtains app where "work stored_dependencies (stored_app st) [StartBlockBuild example_payload 5] = Inr app"
    "by_height (pk_block (d_picks stored_dependencies)) (blocks_of app) 1 = Some (stored_block st)"
    "chain_of (pk_block (d_picks stored_dependencies)) (blocks_of app) = [stored_genesis, stored_block st]"
proof -
  let ?pick = "pk_block (d_picks stored_dependencies)"
  obtain app1 where built: "build_block stored_dependencies (stored_app st) example_payload 5 [] = Inr (stored_block st, [], app1)"
    using stored_build by blast
  have same: "(stored_app st)\<lparr>ap_mem_pool := []\<rparr> = stored_app st"
    by (simp add: genesis_update_def application_new_def on_blocks_def)
  define app where "app = published stored_dependencies [] [] (stored_block st) app1"
  have run: "work stored_dependencies (stored_app st) [StartBlockBuild example_payload 5] = Inr app"
    by (simp add: start_block_build_def stored_no_payload stored_candidates same built app_def)
  have "ap_storage app1 = ap_storage (stored_app st)" using built by (elim build_block_Inr) simp
  then have blocks: "blocks_of app = block_memory_add (stored_block st) (blocks_of (stored_app st))"
    by (simp add: app_def published_simps)
  have ok: "chain_ok (blocks_of (stored_app st))" and gen: "chain_of ?pick (blocks_of (stored_app st)) = [stored_genesis]"
    using genesis_inv [OF stored_picks(1) stored_genesis_simps(1,4) refl, of example_config example_fee st "()"]
    by (simp_all add: app_inv_def)
  have len: "unat (number_of (stored_block st)) = em_len (bm_heights (blocks_of (stored_app st)))"
    using arg_cong [OF gen, of length] by (simp add: stored_block_simps)
  have "by_height ?pick (blocks_of app) 1 = Some (stored_block st)"
    using by_height_add(1) [OF stored_picks(1) ok len] by (simp add: blocks stored_block_simps)
  moreover have "chain_of ?pick (blocks_of app) = [stored_genesis, stored_block st]"
    using chain_of_add [OF stored_picks(1) ok len] len by (simp add: blocks gen stored_block_simps)
  ultimately show ?thesis using run that by blast
qed

text \<open>The same, and the genesis block adopted again.\<close>

abbreviation stored_commands :: "command list" where
  "stored_commands \<equiv> [StartBlockBuild example_payload 5, GenesisUpdate stored_genesis]"

lemma stored_publishable_again:
  "publishable_all stored_dependencies (storable_entry (stored_codec st)) stored_genesis (stored_app st) stored_commands"
  using stored_publishable [of st] by (simp split: sum.splits)

lemma stored_work_again:
  obtains app where "work stored_dependencies (stored_app st) stored_commands = Inr app"
    "by_height (pk_block (d_picks stored_dependencies)) (blocks_of app) 1 = Some (stored_block st)"
proof -
  obtain app where run: "work stored_dependencies (stored_app st) [StartBlockBuild example_payload 5] = Inr app"
    and at: "by_height (pk_block (d_picks stored_dependencies)) (blocks_of app) 1 = Some (stored_block st)"
    using stored_work by blast
  have "reachable stored_dependencies (application_new example_config example_fee st ()) stored_genesis 1 app"
    using reachable_work [OF reachable.genesis run] by simp
  from reachable_inv [OF this stored_picks(1) stored_genesis_simps(1,4)] have
    "bm_synced (blocks_of app)" by (simp add: app_inv_def chain_ok_def)
  then have "by_height (pk_block (d_picks stored_dependencies)) (blocks_of (genesis_update app stored_genesis)) 1
      = Some (stored_block st)"
    using at by (simp add: genesis_update_simps get_one_by_height get_one_def bags_after_add stored_genesis_simps(1))
  moreover have "work stored_dependencies (stored_app st) stored_commands = Inr (genesis_update app stored_genesis)"
    using run by (auto simp: rbind_Inr_iff)
  ultimately show ?thesis using that by blast
qed

abbreviation stored_rocks :: "ledger \<Rightarrow> (string \<times> bytes \<times> bytes) list persistent_stores" where
  "stored_rocks st \<equiv> rocks_dependencies example_kv (stored_codec st) (d_tx_ops stored_dependencies)
     (d_encode_2718 stored_dependencies)"

theorem rocksdb_node_refines_memory_node_witness:
  "\<exists>db' app. persistent_work stored_dependencies (stored_rocks example_ledger)
      (persistent_application_new example_config example_fee example_ledger () [])
      (GenesisUpdate stored_genesis # stored_commands) = Inr (over db' app) \<and>
    rocks_root_by_height example_kv (hd_state_root (header_of stored_genesis)) db' 1 = Inr (Some (replicate 32 7))"
proof -
  have empty: "example_content [] = (\<lambda>_. Map.empty)" by (simp add: example_content_def)
  obtain app where app: "work stored_dependencies (stored_app example_ledger) stored_commands = Inr app"
    "by_height (pk_block (d_picks stored_dependencies)) (blocks_of app) 1 = Some (stored_block example_ledger)"
    using stored_work_again by blast
  have run: "work stored_dependencies (application_new example_config example_fee example_ledger ())
      (GenesisUpdate stored_genesis # stored_commands) = Inr app" using app(1) by simp
  have root: "hd_state_root (header_of (stored_block example_ledger)) = replicate 32 7"
    using stored_build [of example_ledger] by (auto simp: example_ledger_def)
  from rocksdb_node_refines_memory_node [OF example_kv_laws empty stored_picks stored_genesis_storable refl
      stored_publishable_again [of example_ledger], unfolded run sum.case] obtain db' where
    "persistent_work stored_dependencies (stored_rocks example_ledger)
      (persistent_application_new example_config example_fee example_ledger () [])
      (GenesisUpdate stored_genesis # stored_commands) = Inr (over db' app)"
    "\<And>n. rocks_root_by_height example_kv (hd_state_root (header_of stored_genesis)) db' n
       = Inr (map_option (hd_state_root \<circ> header_of) (by_height (pk_block (d_picks stored_dependencies)) (blocks_of app) n))"
    by blast
  then show ?thesis by (intro exI [of _ db'] exI [of _ app]) (simp add: app(2) root del: persistent_work.simps)
qed

text \<open>The example database with transactions that never fail.\<close>

definition example_heed :: "(string \<times> bytes \<times> bytes) list heed_ops" where
  "example_heed = \<lparr>he_kv = example_kv, he_read_txn = (\<lambda>_. Inr ()), he_commit = (\<lambda>_. Inr ())\<rparr>"

theorem lmdb_node_refines_memory_node_witness:
  "\<exists>db' app. persistent_work stored_dependencies
      (heed_dependencies example_heed (stored_codec example_ledger) (d_tx_ops stored_dependencies)
        (d_encode_2718 stored_dependencies))
      (persistent_application_new example_config example_fee example_ledger () [])
      (GenesisUpdate stored_genesis # stored_commands) = Inr (over db' app) \<and>
    heed_root_by_height example_heed (hd_state_root (header_of stored_genesis)) db' 1 = Inr (Some (replicate 32 7))"
proof -
  let ?s = "heed_dependencies example_heed (stored_codec example_ledger) (d_tx_ops stored_dependencies)
    (d_encode_2718 stored_dependencies)"
  have empty: "example_content [] = (\<lambda>_. Map.empty)" by (simp add: example_content_def)
  have he: "kv_laws (he_kv example_heed) example_content" "heed_reliable example_heed"
    using example_kv_laws by (simp_all add: example_heed_def heed_reliable_def)
  obtain app where app: "work stored_dependencies (stored_app example_ledger) stored_commands = Inr app"
    "by_height (pk_block (d_picks stored_dependencies)) (blocks_of app) 1 = Some (stored_block example_ledger)"
    using stored_work_again by blast
  have run: "work stored_dependencies (application_new example_config example_fee example_ledger ())
      (GenesisUpdate stored_genesis # stored_commands) = Inr app" using app(1) by simp
  have root: "hd_state_root (header_of (stored_block example_ledger)) = replicate 32 7"
    using stored_build [of example_ledger] by (auto simp: example_ledger_def)
  from lmdb_node_refines_memory_node [OF he empty stored_picks stored_genesis_storable refl
      stored_publishable_again [of example_ledger], unfolded run sum.case] obtain db' where
    "persistent_work stored_dependencies ?s
      (persistent_application_new example_config example_fee example_ledger () [])
      (GenesisUpdate stored_genesis # stored_commands) = Inr (over db' app)"
    "\<And>n. heed_root_by_height example_heed (hd_state_root (header_of stored_genesis)) db' n
       = Inr (map_option (hd_state_root \<circ> header_of) (by_height (pk_block (d_picks stored_dependencies)) (blocks_of app) n))"
    by blast
  then show ?thesis by (intro exI [of _ db'] exI [of _ app]) (simp add: app(2) root del: persistent_work.simps)
qed

text \<open>The node is stopped while it builds its first block, and comes back with the state of that block.\<close>

definition later_ledger :: ledger where
  "later_ledger = example_ledger\<lparr>ld_nonces := (\<lambda>_. 8)\<rparr>"

theorem crash_shifts_state_history_witness:
  "\<exists>node b rs stopped db' app'.
     persistent_work stored_dependencies (stored_rocks later_ledger)
       (persistent_application_new example_config example_fee example_ledger () []) [GenesisUpdate stored_genesis] = Inr node \<and>
     persistent_build_block stored_dependencies (stored_rocks later_ledger) node example_payload 5 [] = Inr (b, rs, stopped) \<and>
     persistent_work stored_dependencies (stored_rocks later_ledger)
       (persistent_application_new example_config example_fee later_ledger () (pn_db stopped))
       [StartBlockBuild example_payload 5] = Inr (over db' app') \<and>
     by_height (pk_block (d_picks stored_dependencies)) (blocks_of app') 1 = Some (stored_block later_ledger) \<and>
     hd_state_root (header_of (stored_block later_ledger)) = replicate 32 8 \<and>
     rocks_root_by_height example_kv (hd_state_root (header_of stored_genesis)) db' 1 = Inr (Some (replicate 32 7))"
proof -
  let ?d = stored_dependencies and ?s = "stored_rocks later_ledger" and ?g = stored_genesis
  let ?pick = "pk_block (d_picks stored_dependencies)" and ?app = "stored_app example_ledger"
  have empty: "example_content [] = (\<lambda>_. Map.empty)" by (simp add: example_content_def)
  have fits: "publishable_all ?d (storable_entry (stored_codec later_ledger)) ?g ?app []" by simp
  have run: "work ?d (application_new example_config example_fee example_ledger ()) [GenesisUpdate ?g] = Inr ?app" by simp
  obtain db1 where db1: "tracks (rocks_node_holds example_kv example_content (stored_codec later_ledger) (d_picks ?d) ?g) ?pick ?g [] 1 db1 ?app"
    "persistent_work ?d ?s (persistent_application_new example_config example_fee example_ledger () []) [GenesisUpdate ?g]
       = Inr (over db1 ?app)"
    using rocks_node_runs [OF example_kv_laws empty stored_picks stored_genesis_storable refl fits, unfolded run sum.case]
    by blast
  obtain app1 where built: "build_block ?d ?app example_payload 5 [] = Inr (stored_block example_ledger, [], app1)"
    using stored_build by blast
  have "rocks_node_holds example_kv example_content (stored_codec later_ledger) (d_picks ?d) ?g db1
      (ap_storage ?app) (ap_receipt_memory ?app) (roots_from ?pick [] 1 ?app)"
    using db1(1) by (simp add: tracks_def)
  from rocks_node.build_block_eq [OF this, of example_payload 5 "[]", unfolded built] obtain stopped where
    stop: "persistent_build_block ?d ?s (over db1 ?app) example_payload 5 [] = Inr (stored_block example_ledger, [], stopped)"
    by auto
  have gen: "chain_of ?pick (blocks_of ?app) = ?g # []"
    using genesis_inv(2) [OF stored_picks(1) stored_genesis_simps(1,4) refl] by simp
  have restart: "stored_app later_ledger = ?app\<lparr>ap_mem_pool := [], ap_state := later_ledger, ap_evm_storage := ()\<rparr>"
    by (simp add: genesis_update_def application_new_def on_blocks_def)
  obtain app' where app': "work ?d (stored_app later_ledger) [StartBlockBuild example_payload 5] = Inr app'"
    "chain_of ?pick (blocks_of app') = ?g # [] @ [stored_block later_ledger]"
    "by_height ?pick (blocks_of app') 1 = Some (stored_block later_ledger)"
    using stored_work by auto
  have cfg: "ap_genesis_config ?app = example_config" "ap_gas_fee ?app = example_fee"
    by (simp_all add: genesis_update_def application_new_def on_blocks_def)
  have roots: "hd_state_root (header_of (stored_block example_ledger)) = replicate 32 7"
    "hd_state_root (header_of (stored_block later_ledger)) = replicate 32 8"
    using stored_build [of example_ledger] stored_build [of later_ledger]
    by (auto simp: example_ledger_def later_ledger_def)
  obtain db' where db': "persistent_work ?d ?s (persistent_application_new example_config example_fee later_ledger () (pn_db stopped))
      [StartBlockBuild example_payload 5] = Inr (over db' app')"
    "rocks_root_by_height example_kv (hd_state_root (header_of ?g)) db' 1 = Inr (Some (replicate 32 7))"
    using crash_shifts_state_history [OF example_kv_laws empty stored_picks stored_genesis_storable refl fits run db1(2)
        gen stop _ _ restart stored_publishable app'(1,2), of 0] roots
    by (auto simp: cfg stored_block_simps)
  with db1(2) stop app'(3) roots(2) show ?thesis by blast
qed

end
