(* ===== verification/Command_Queue.thy ===== *)
theory Command_Queue
  imports Ledger
begin

text \<open>
  The queue in front of the application: \<^verbatim>\<open>app/src/queue.rs\<close>, \<^verbatim>\<open>factory.rs\<close> and the loop and \<open>run\<close> of
  \<^verbatim>\<open>actor.rs\<close>. Commands go through a bounded channel to the one actor that owns the application. The
  channels are those of the runtime, third-party code: their operations are fields of \<open>tokio_ops\<close>, and
  \<open>mpsc_laws\<close> states what the runtime documents of them over a view of a channel. The step relation
  interleaves the actor with the users of the queue: the future that is joined with the actor runs in the
  same task and only while no command is being handled, other tasks run at any time.
\<close>

section \<open>The channels of the runtime\<close>

text \<open>What polling a future gives.\<close>

datatype 'a poll =
  Pending
| Ready 'a

text \<open>The channel of commands \<open>'ch\<close> and the signal \<open>'k\<close> with its receivers \<open>'rx\<close>. A send says whether the
  command was taken; \<open>reserve_many\<close> says whether there are permits, which are given back at once.\<close>

record ('ch, 'k, 'rx) tokio_ops =
  tk_channel :: "nat \<Rightarrow> panic + 'ch"
  tk_max_capacity :: "'ch \<Rightarrow> nat"
  tk_send :: "command \<Rightarrow> 'ch \<Rightarrow> (bool \<times> 'ch) poll"
  tk_reserve_many :: "nat \<Rightarrow> 'ch \<Rightarrow> bool poll"
  tk_recv :: "'ch \<Rightarrow> (command option \<times> 'ch) poll"
  tk_clone_sender :: "'ch \<Rightarrow> 'ch"
  tk_drop_sender :: "'ch \<Rightarrow> 'ch"
  tk_drop_receiver :: "'ch \<Rightarrow> 'ch"
  tk_broadcast :: "nat \<Rightarrow> 'k"
  tk_signal :: "'k \<Rightarrow> 'k"
  tk_subscribe :: "'k \<Rightarrow> 'rx"
  tk_signalled :: "'rx \<Rightarrow> 'k \<Rightarrow> bool poll"

text \<open>The view of a channel in which the runtime documents it: the commands sent and not yet received, the
  number of senders, and whether the receiver is there.\<close>

record 'ch channel_view =
  cv_buffer :: "'ch \<Rightarrow> command list"
  cv_senders :: "'ch \<Rightarrow> nat"
  cv_open :: "'ch \<Rightarrow> bool"

definition same_ends :: "('ch, 'k, 'rx) tokio_ops \<Rightarrow> 'ch channel_view \<Rightarrow> 'ch \<Rightarrow> 'ch \<Rightarrow> bool" where
  "same_ends tk v ch ch' \<longleftrightarrow>
     cv_senders v ch' = cv_senders v ch \<and> cv_open v ch' = cv_open v ch \<and>
     tk_max_capacity tk ch' = tk_max_capacity tk ch"

text \<open>A channel is empty at first and cannot be made without room. A send that returns has put its command
  last into a channel with room, or found the receiver gone. Permits are there when there is room for
  them. A receive takes the first command, and ends when there is none and no sender is left. Dropping
  the receiver drops the commands.\<close>

definition mpsc_laws :: "('ch, 'k, 'rx) tokio_ops \<Rightarrow> 'ch channel_view \<Rightarrow> bool" where
  "mpsc_laws tk v \<longleftrightarrow>
     (\<forall>n ch. tk_channel tk n = Inr ch \<longrightarrow> 0 < n \<and>
        cv_buffer v ch = [] \<and> cv_senders v ch = 1 \<and> cv_open v ch \<and> tk_max_capacity tk ch = n) \<and>
     (\<forall>c ch ch'. tk_send tk c ch = Ready (True, ch') \<longrightarrow> cv_open v ch \<and>
        length (cv_buffer v ch) < tk_max_capacity tk ch \<and> cv_buffer v ch' = cv_buffer v ch @ [c] \<and> same_ends tk v ch ch') \<and>
     (\<forall>c ch ch'. tk_send tk c ch = Ready (False, ch') \<longrightarrow> \<not> cv_open v ch \<and> ch' = ch) \<and>
     (\<forall>n ch. tk_reserve_many tk n ch = Ready True \<longrightarrow> cv_open v ch \<and> length (cv_buffer v ch) + n \<le> tk_max_capacity tk ch) \<and>
     (\<forall>n ch. tk_reserve_many tk n ch = Ready False \<longrightarrow> \<not> cv_open v ch \<or> tk_max_capacity tk ch < n) \<and>
     (\<forall>ch c cs. cv_buffer v ch = c # cs \<longrightarrow>
        (\<exists>ch'. tk_recv tk ch = Ready (Some c, ch') \<and> cv_buffer v ch' = cs \<and> same_ends tk v ch ch')) \<and>
     (\<forall>ch r ch'. cv_buffer v ch = [] \<and> tk_recv tk ch = Ready (r, ch') \<longrightarrow> r = None \<and> cv_senders v ch = 0 \<and> ch' = ch) \<and>
     (\<forall>ch. cv_buffer v (tk_clone_sender tk ch) = cv_buffer v ch \<and> cv_senders v (tk_clone_sender tk ch) = Suc (cv_senders v ch) \<and>
        cv_open v (tk_clone_sender tk ch) = cv_open v ch \<and> tk_max_capacity tk (tk_clone_sender tk ch) = tk_max_capacity tk ch) \<and>
     (\<forall>ch. cv_buffer v (tk_drop_sender tk ch) = cv_buffer v ch \<and> cv_senders v (tk_drop_sender tk ch) = cv_senders v ch - 1 \<and>
        cv_open v (tk_drop_sender tk ch) = cv_open v ch \<and> tk_max_capacity tk (tk_drop_sender tk ch) = tk_max_capacity tk ch) \<and>
     (\<forall>ch. cv_buffer v (tk_drop_receiver tk ch) = [] \<and> \<not> cv_open v (tk_drop_receiver tk ch) \<and>
        tk_max_capacity tk (tk_drop_receiver tk ch) = tk_max_capacity tk ch)"

section \<open>The queue\<close>

text \<open>What the actor does, which owns the receiver and the application.\<close>

datatype actor =
  Idle
| Handling command
| Gone

record ('ch, 'k, 'st, 'es) command_queue =
  q_sender :: 'ch
  q_killshot :: 'k
  q_users :: nat
  q_actor :: actor
  q_app :: "('st, 'es) application"

definition shutdown :: "('ch, 'k, 'rx) tokio_ops \<Rightarrow> ('ch, 'k, 'st, 'es) command_queue \<Rightarrow> ('ch, 'k, 'st, 'es) command_queue" where
  "shutdown tk q = q\<lparr>q_killshot := tk_signal tk (q_killshot q)\<rparr>"

definition shutdown_listener :: "('ch, 'k, 'rx) tokio_ops \<Rightarrow> ('ch, 'k, 'st, 'es) command_queue \<Rightarrow> 'rx" where
  "shutdown_listener tk q = tk_subscribe tk (q_killshot q)"

text \<open>The listener is done whether it gets the signal or an error.\<close>

definition listener_poll :: "('ch, 'k, 'rx) tokio_ops \<Rightarrow> 'rx \<Rightarrow> ('ch, 'k, 'st, 'es) command_queue \<Rightarrow> unit poll" where
  "listener_poll tk rx q = (case tk_signalled tk rx (q_killshot q) of Pending \<Rightarrow> Pending | Ready _ \<Rightarrow> Ready ())"

definition queue_send ::
  "('ch, 'k, 'rx) tokio_ops \<Rightarrow> command \<Rightarrow> ('ch, 'k, 'st, 'es) command_queue
     \<Rightarrow> ('ch, 'k, 'st, 'es) command_queue poll" where
  "queue_send tk msg q =
     (case tk_send tk msg (q_sender q) of
        Pending \<Rightarrow> Pending
      | Ready (True, ch) \<Rightarrow> Ready (q\<lparr>q_sender := ch\<rparr>)
      | Ready (False, ch) \<Rightarrow> Ready (shutdown tk (q\<lparr>q_sender := ch\<rparr>)))"

definition wait_for_pending_commands ::
  "('ch, 'k, 'rx) tokio_ops \<Rightarrow> ('ch, 'k, 'st, 'es) command_queue \<Rightarrow> ('ch, 'k, 'st, 'es) command_queue poll" where
  "wait_for_pending_commands tk q =
     (case tk_reserve_many tk (tk_max_capacity tk (q_sender q)) (q_sender q) of
        Pending \<Rightarrow> Pending
      | Ready True \<Rightarrow> Ready q
      | Ready False \<Rightarrow> Ready (shutdown tk q))"

definition create_queue ::
  "('ch, 'k, 'rx) tokio_ops \<Rightarrow> ('st, 'es) application \<Rightarrow> u32 \<Rightarrow> panic + ('ch, 'k, 'st, 'es) command_queue" where
  "create_queue tk app buffer =
     (let ktx = tk_broadcast tk 1
      in rbind (tk_channel tk (unat buffer)) (\<lambda>tx.
         Inr \<lparr>q_sender = tx, q_killshot = ktx, q_users = 1, q_actor = Idle, q_app = app\<rparr>))"

section \<open>The actor and the users of the queue\<close>

text \<open>A user is the future joined with the actor or a task of its own; \<open>q_users\<close> counts their queues.\<close>

datatype user =
  JoinedFuture
| OtherTask

definition may_run :: "user \<Rightarrow> ('ch, 'k, 'st, 'es) command_queue \<Rightarrow> bool" where
  "may_run u q \<longleftrightarrow> 0 < q_users q \<and> (u = JoinedFuture \<longrightarrow> (\<forall>c. q_actor q \<noteq> Handling c))"

datatype event =
  Sent user command
| Waited user
| Cloned user
| Dropped user
| Received
| Handled
| Panicked
| Stopped

text \<open>The actor receives a command, handles it, and receives the next one; it ends when nothing can come any
  more, and a panic unwinds it. Either way the receiver is dropped.\<close>

inductive queue_step ::
  "('ch, 'k, 'rx) tokio_ops \<Rightarrow> ('st, 'es, 's, 'c, 'e) dependencies \<Rightarrow> event
     \<Rightarrow> ('ch, 'k, 'st, 'es) command_queue \<Rightarrow> ('ch, 'k, 'st, 'es) command_queue \<Rightarrow> bool"
  for tk d where
  sent: "may_run u q \<Longrightarrow> queue_send tk c q = Ready q' \<Longrightarrow> queue_step tk d (Sent u c) q q'"
| waited: "may_run u q \<Longrightarrow> wait_for_pending_commands tk q = Ready q' \<Longrightarrow> queue_step tk d (Waited u) q q'"
| cloned: "may_run u q \<Longrightarrow> queue_step tk d (Cloned u) q
    (q\<lparr>q_sender := tk_clone_sender tk (q_sender q), q_users := Suc (q_users q)\<rparr>)"
| dropped: "may_run u q \<Longrightarrow> queue_step tk d (Dropped u) q
    (q\<lparr>q_sender := tk_drop_sender tk (q_sender q), q_users := q_users q - 1\<rparr>)"
| received: "q_actor q = Idle \<Longrightarrow> tk_recv tk (q_sender q) = Ready (Some c, ch) \<Longrightarrow>
    queue_step tk d Received q (q\<lparr>q_sender := ch, q_actor := Handling c\<rparr>)"
| handled: "q_actor q = Handling c \<Longrightarrow> handle_command d (q_app q) c = Inr app \<Longrightarrow>
    queue_step tk d Handled q (q\<lparr>q_actor := Idle, q_app := app\<rparr>)"
| panicked: "q_actor q = Handling c \<Longrightarrow> handle_command d (q_app q) c = Inl e \<Longrightarrow>
    queue_step tk d Panicked q (q\<lparr>q_sender := tk_drop_receiver tk (q_sender q), q_actor := Gone\<rparr>)"
| stopped: "q_actor q = Idle \<Longrightarrow> tk_recv tk (q_sender q) = Ready (None, ch) \<Longrightarrow>
    queue_step tk d Stopped q (q\<lparr>q_sender := tk_drop_receiver tk ch, q_actor := Gone\<rparr>)"


text \<open>The commands that a step puts into the channel.\<close>

fun accepted_by ::
  "('ch, 'k, 'rx) tokio_ops \<Rightarrow> event \<Rightarrow> ('ch, 'k, 'st, 'es) command_queue \<Rightarrow> command list" where
  "accepted_by tk (Sent u c) q = (case tk_send tk c (q_sender q) of Ready (True, _) \<Rightarrow> [c] | _ \<Rightarrow> [])"
| "accepted_by tk _ q = []"

inductive execution ::
  "('ch, 'k, 'rx) tokio_ops \<Rightarrow> ('st, 'es, 's, 'c, 'e) dependencies \<Rightarrow> ('ch, 'k, 'st, 'es) command_queue
     \<Rightarrow> command list \<Rightarrow> ('ch, 'k, 'st, 'es) command_queue \<Rightarrow> bool"
  for tk d q0 where
  start: "execution tk d q0 [] q0"
| more: "execution tk d q0 cs q \<Longrightarrow> queue_step tk d ev q q' \<Longrightarrow> execution tk d q0 (cs @ accepted_by tk ev q) q'"

section \<open>First in, first out\<close>

text \<open>The commands received and not yet handled.\<close>

fun in_progress :: "actor \<Rightarrow> command list" where
  "in_progress (Handling c) = [c]"
| "in_progress _ = []"

text \<open>The accepted commands \<open>cs\<close> are the handled ones, then those in progress and in the channel, until the
  actor ends with the last one or with a panic.\<close>

definition history ::
  "('st, 'es, 's, 'c, 'e) dependencies \<Rightarrow> ('st, 'es) application \<Rightarrow> command list \<Rightarrow> actor \<Rightarrow> command list
     \<Rightarrow> ('st, 'es) application \<Rightarrow> bool" where
  "history d app0 cs a waiting app \<longleftrightarrow>
     (\<exists>past. work d app0 past = Inr app \<and>
        (if a \<noteq> Gone then cs = past @ in_progress a @ waiting
         else past = cs \<or> (\<exists>c rest e. cs = past @ c # rest \<and> work d app0 (past @ [c]) = Inl e)))"

definition fifo ::
  "('ch, 'k, 'rx) tokio_ops \<Rightarrow> 'ch channel_view \<Rightarrow> ('st, 'es, 's, 'c, 'e) dependencies \<Rightarrow> nat
     \<Rightarrow> ('st, 'es) application \<Rightarrow> command list \<Rightarrow> ('ch, 'k, 'st, 'es) command_queue \<Rightarrow> bool" where
  "fifo tk v d room app0 cs q \<longleftrightarrow>
     tk_max_capacity tk (q_sender q) = room \<and> 0 < room \<and> length (cv_buffer v (q_sender q)) \<le> room \<and>
     (q_actor q \<noteq> Gone \<longleftrightarrow> cv_open v (q_sender q)) \<and>
     history d app0 cs (q_actor q) (cv_buffer v (q_sender q)) (q_app q)"

lemma work_append: "work d app (xs @ ys) = rbind (work d app xs) (\<lambda>app'. work d app' ys)"
  by (induction xs arbitrary: app) (simp_all add: rbind_def split: sum.split)

text \<open>The laws, one by one.\<close>

lemma mpsc_channel:
  "mpsc_laws tk v \<Longrightarrow> tk_channel tk n = Inr ch \<Longrightarrow>
     0 < n \<and> cv_buffer v ch = [] \<and> cv_senders v ch = 1 \<and> cv_open v ch \<and> tk_max_capacity tk ch = n"
  by (simp add: mpsc_laws_def)

lemma mpsc_send:
  "mpsc_laws tk v \<Longrightarrow> tk_send tk c ch = Ready (True, ch') \<Longrightarrow> cv_open v ch \<and>
     length (cv_buffer v ch) < tk_max_capacity tk ch \<and> cv_buffer v ch' = cv_buffer v ch @ [c] \<and> same_ends tk v ch ch'"
  "mpsc_laws tk v \<Longrightarrow> tk_send tk c ch = Ready (False, ch') \<Longrightarrow> \<not> cv_open v ch \<and> ch' = ch"
  by (simp_all add: mpsc_laws_def)


lemma mpsc_recv_first:
  assumes "mpsc_laws tk v" "cv_buffer v ch = c # cs"
  obtains ch' where "tk_recv tk ch = Ready (Some c, ch')" "cv_buffer v ch' = cs" "same_ends tk v ch ch'"
proof -
  have "\<exists>ch'. tk_recv tk ch = Ready (Some c, ch') \<and> cv_buffer v ch' = cs \<and> same_ends tk v ch ch'"
    using assms by (simp add: mpsc_laws_def)
  with that show thesis by blast
qed

lemma mpsc_recv:
  assumes "mpsc_laws tk v"
  shows "tk_recv tk ch = Ready (Some c, ch') \<Longrightarrow> cv_buffer v ch = c # cv_buffer v ch' \<and> same_ends tk v ch ch'"
    and "tk_recv tk ch = Ready (None, ch') \<Longrightarrow> cv_buffer v ch = [] \<and> ch' = ch"
proof -
  have none: "r = None \<and> ch' = ch" if "cv_buffer v ch = []" "tk_recv tk ch = Ready (r, ch')" for r ch'
    using assms that by (simp add: mpsc_laws_def)
  show "cv_buffer v ch = c # cv_buffer v ch' \<and> same_ends tk v ch ch'" if "tk_recv tk ch = Ready (Some c, ch')"
  proof (cases "cv_buffer v ch")
    case Nil
    with none that show ?thesis by blast
  next
    case (Cons c1 cs)
    from mpsc_recv_first [OF assms this] that Cons show ?thesis by auto
  qed
  show "cv_buffer v ch = [] \<and> ch' = ch" if "tk_recv tk ch = Ready (None, ch')"
  proof (cases "cv_buffer v ch")
    case Nil
    with none that show ?thesis by blast
  next
    case (Cons c1 cs)
    from mpsc_recv_first [OF assms this] that show ?thesis by auto
  qed
qed

lemma mpsc_ends:
  assumes "mpsc_laws tk v"
  shows "cv_buffer v (tk_clone_sender tk ch) = cv_buffer v ch" "cv_open v (tk_clone_sender tk ch) = cv_open v ch"
    "tk_max_capacity tk (tk_clone_sender tk ch) = tk_max_capacity tk ch"
    "cv_buffer v (tk_drop_sender tk ch) = cv_buffer v ch" "cv_open v (tk_drop_sender tk ch) = cv_open v ch"
    "tk_max_capacity tk (tk_drop_sender tk ch) = tk_max_capacity tk ch"
    "cv_buffer v (tk_drop_receiver tk ch) = []" "\<not> cv_open v (tk_drop_receiver tk ch)"
    "tk_max_capacity tk (tk_drop_receiver tk ch) = tk_max_capacity tk ch"
  using assms by (simp_all add: mpsc_laws_def)

lemma fifo_killshot [simp]: "fifo tk v d room app0 cs (q\<lparr>q_killshot := k\<rparr>) = fifo tk v d room app0 cs q"
  by (simp add: fifo_def)

lemma fifo_step:
  assumes laws: "mpsc_laws tk v" and inv: "fifo tk v d room app0 cs q" and step: "queue_step tk d ev q q'"
  shows "fifo tk v d room app0 (cs @ accepted_by tk ev q) q'"
  using step
proof (cases rule: queue_step.cases)
  case (sent u c)
  then obtain b ch where ch: "tk_send tk c (q_sender q) = Ready (b, ch)"
    by (auto simp: queue_send_def split: poll.splits)
  show ?thesis
  proof (cases b)
    case True
    then show ?thesis
      using mpsc_send(1) [OF laws, of c "q_sender q" ch] inv sent ch
      by (auto simp: fifo_def history_def queue_send_def same_ends_def)
  next
    case False
    with mpsc_send(2) [OF laws] ch have "ch = q_sender q" by simp
    then have "q' = q\<lparr>q_killshot := tk_signal tk (q_killshot q)\<rparr>"
      using False sent ch by (auto simp: queue_send_def shutdown_def)
    then show ?thesis using inv False sent ch by simp
  qed
next
  case (waited u)
  then have "q' = q \<or> q' = q\<lparr>q_killshot := tk_signal tk (q_killshot q)\<rparr>"
    by (auto simp: wait_for_pending_commands_def shutdown_def split: poll.splits bool.splits)
  then show ?thesis using inv waited(1) by auto
next
  case (received c ch)
  with mpsc_recv(1) [OF laws received(4)] inv show ?thesis by (auto simp: fifo_def history_def same_ends_def)
next
  case (handled c app)
  with inv obtain past where "cs = past @ c # cv_buffer v (q_sender q)" "work d app0 past = Inr (q_app q)"
    by (auto simp: fifo_def history_def)
  with handled have "cs = (past @ [c]) @ cv_buffer v (q_sender q)" "work d app0 (past @ [c]) = Inr app"
    by (simp_all add: work_append)
  with inv handled show ?thesis by (simp add: fifo_def history_def)
next
  case (panicked c e)
  with inv obtain past where "cs = past @ c # cv_buffer v (q_sender q)" "work d app0 past = Inr (q_app q)"
    by (auto simp: fifo_def history_def)
  with panicked have "history d app0 cs Gone [] (q_app q)"
    by (auto simp: history_def work_append intro!: exI [of _ past])
  with inv panicked show ?thesis by (simp add: fifo_def mpsc_ends [OF laws])
next
  case (stopped ch)
  with mpsc_recv(2) [OF laws stopped(4)] inv have "history d app0 cs Gone [] (q_app q)"
    by (auto simp: fifo_def history_def)
  with inv stopped mpsc_recv(2) [OF laws stopped(4)] show ?thesis by (simp add: fifo_def mpsc_ends [OF laws])
qed (use inv in \<open>simp_all add: fifo_def mpsc_ends [OF laws]\<close>)

lemma fifo_execution:
  assumes "mpsc_laws tk v" "create_queue tk app buffer = Inr q0" "execution tk d q0 cs q"
  shows "fifo tk v d (unat buffer) app cs q"
  using assms(3)
proof (induction rule: execution.induct)
  case start
  show ?case
    using mpsc_channel [OF assms(1)] assms(2) by (auto simp: create_queue_def fifo_def history_def rbind_Inr_iff)
next
  case (more cs q ev q')
  then show ?case by (intro fifo_step [OF assms(1)])
qed

text \<open>C7. The concurrent node is a sequential one: however the users of the queue and the actor are
  interleaved, the channel never holds more commands than it has room for, and while the actor lives the
  application is in the state that \<open>work\<close> reaches on the commands accepted so far, in their order, without
  the one being handled and those still in the channel. When the actor is gone, either everything was
  handled or a command panicked, and no command after it is ever handled. The runtime's channel of
  commands behaves as documented, \<open>mpsc_laws\<close>.\<close>

theorem queue_refines_work:
  assumes "mpsc_laws tk v" "create_queue tk app buffer = Inr q0" "execution tk d q0 cs q"
  shows "length (cv_buffer v (q_sender q)) \<le> unat buffer \<and>
    (\<exists>past. work d app past = Inr (q_app q) \<and>
       (if q_actor q \<noteq> Gone then cs = past @ in_progress (q_actor q) @ cv_buffer v (q_sender q)
        else past = cs \<or> (\<exists>c rest e. cs = past @ c # rest \<and> work d app (past @ [c]) = Inl e)))"
  using fifo_execution [OF assms] unfolding fifo_def history_def by (elim conjE) (intro conjI)


section \<open>The actor empties the channel\<close>

text \<open>The steps of the actor alone.\<close>

inductive actor_run ::
  "('ch, 'k, 'rx) tokio_ops \<Rightarrow> ('st, 'es, 's, 'c, 'e) dependencies \<Rightarrow> ('ch, 'k, 'st, 'es) command_queue
     \<Rightarrow> ('ch, 'k, 'st, 'es) command_queue \<Rightarrow> bool" for tk d where
  idle: "actor_run tk d q q"
| acts: "queue_step tk d ev q q1 \<Longrightarrow> ev \<in> {Received, Handled, Panicked} \<Longrightarrow> actor_run tk d q1 q' \<Longrightarrow> actor_run tk d q q'"

lemma actor_acts:
  "queue_step tk d Received q q1 \<Longrightarrow> actor_run tk d q1 q' \<Longrightarrow> actor_run tk d q q'"
  "queue_step tk d Handled q q1 \<Longrightarrow> actor_run tk d q1 q' \<Longrightarrow> actor_run tk d q q'"
  "queue_step tk d Panicked q q1 \<Longrightarrow> actor_run tk d q q1"
  by (auto intro: acts idle)

text \<open>Where the actor ends on the commands \<open>waiting\<close>.\<close>

definition drained ::
  "('ch, 'k, 'rx) tokio_ops \<Rightarrow> 'ch channel_view \<Rightarrow> ('st, 'es, 's, 'c, 'e) dependencies
     \<Rightarrow> ('ch, 'k, 'st, 'es) command_queue \<Rightarrow> panic + ('st, 'es) application \<Rightarrow> bool" where
  "drained tk v d q outcome \<longleftrightarrow>
     (\<exists>q'. actor_run tk d q q' \<and>
        (case outcome of
           Inr app \<Rightarrow> q_actor q' = Idle \<and> q_app q' = app \<and> cv_buffer v (q_sender q') = []
         | Inl e \<Rightarrow> q_actor q' = Gone))"

lemma drained_first:
  assumes "\<And>q'. actor_run tk d q1 q' \<Longrightarrow> actor_run tk d q q'" "drained tk v d q1 outcome"
  shows "drained tk v d q outcome"
  using assms unfolding drained_def by blast

text \<open>Handling the command in progress, and then the others.\<close>

lemma drained_handling:
  assumes "q_actor q = Handling c"
    and "\<And>app. handle_command d (q_app q) c = Inr app \<Longrightarrow>
      drained tk v d (q\<lparr>q_actor := Idle, q_app := app\<rparr>) (work d app waiting)"
  shows "drained tk v d q (work d (q_app q) (c # waiting))"
proof (cases "handle_command d (q_app q) c")
  case (Inl e)
  from panicked [OF assms(1) this] have "actor_run tk d q (q\<lparr>q_sender := tk_drop_receiver tk (q_sender q), q_actor := Gone\<rparr>)"
    by (rule actor_acts(3))
  with Inl show ?thesis by (auto simp: drained_def)
next
  case (Inr app)
  have "drained tk v d q (work d app waiting)"
    by (rule drained_first [OF actor_acts(2) [OF handled [OF assms(1) Inr]] assms(2) [OF Inr]])
  with Inr show ?thesis by simp
qed

lemma actor_empties:
  assumes "mpsc_laws tk v" "q_actor q = Idle" "cv_buffer v (q_sender q) = waiting"
  shows "drained tk v d q (work d (q_app q) waiting)"
  using assms(2,3)
proof (induction waiting arbitrary: q)
  case Nil
  then show ?case by (auto simp: drained_def intro: idle)
next
  case (Cons c waiting)
  from mpsc_recv_first [OF assms(1) Cons.prems(2)] obtain ch where
    ch: "tk_recv tk (q_sender q) = Ready (Some c, ch)" "cv_buffer v ch = waiting" by blast
  let ?q1 = "q\<lparr>q_sender := ch, q_actor := Handling c\<rparr>"
  have rest: "drained tk v d (?q1\<lparr>q_actor := Idle, q_app := app\<rparr>) (work d app waiting)" for app
    using Cons.IH [of "?q1\<lparr>q_actor := Idle, q_app := app\<rparr>"] ch(2) by simp
  have "q_actor ?q1 = Handling c" by simp
  from drained_handling [OF this rest] have "drained tk v d ?q1 (work d (q_app ?q1) (c # waiting))" .
  then have "drained tk v d ?q1 (work d (q_app q) (c # waiting))" by simp
  from drained_first [OF actor_acts(1) [OF received [OF Cons.prems(1) ch(1)]] this] show ?case .
qed

text \<open>C8. Accepted commands are handled: as long as the actor lives, its own steps lead from every state to
  the one in which everything accepted so far has been handled, in order, or, when that panics, to the end
  of the actor. The runtime's channel behaves as documented; in particular a receive returns when there
  is a command.\<close>

theorem accepted_commands_are_handled:
  assumes "mpsc_laws tk v" "create_queue tk app buffer = Inr q0" "execution tk d q0 cs q" "q_actor q \<noteq> Gone"
  shows "\<exists>q'. actor_run tk d q q' \<and>
    (case work d app cs of
       Inr app' \<Rightarrow> q_actor q' = Idle \<and> q_app q' = app' \<and> cv_buffer v (q_sender q') = []
     | Inl e \<Rightarrow> q_actor q' = Gone)"
proof -
  obtain past where past: "work d app past = Inr (q_app q)"
    "cs = past @ in_progress (q_actor q) @ cv_buffer v (q_sender q)"
    using fifo_execution [OF assms(1-3)] assms(4) by (auto simp: fifo_def history_def)
  have "drained tk v d q (work d (q_app q) (in_progress (q_actor q) @ cv_buffer v (q_sender q)))"
  proof (cases "q_actor q")
    case Idle
    then show ?thesis using actor_empties [OF assms(1) Idle refl] by simp
  next
    case (Handling c)
    have "drained tk v d q (work d (q_app q) (c # cv_buffer v (q_sender q)))"
    proof (rule drained_handling [OF Handling])
      fix app1
      show "drained tk v d (q\<lparr>q_actor := Idle, q_app := app1\<rparr>) (work d app1 (cv_buffer v (q_sender q)))"
        using actor_empties [OF assms(1), of "q\<lparr>q_actor := Idle, q_app := app1\<rparr>" "cv_buffer v (q_sender q)" d] by simp
    qed
    then show ?thesis by (simp only: Handling in_progress.simps append_Cons append_Nil)
  qed (use assms(4) in simp)
  then show ?thesis by (simp add: past work_append drained_def)
qed

section \<open>Witnesses\<close>

text \<open>A channel as a list, and a signal as a counter.\<close>

record list_channel =
  lc_max :: nat
  lc_buffer :: "command list"
  lc_senders :: nat
  lc_open :: bool

definition example_tokio :: "(list_channel, nat, nat) tokio_ops" where
  "example_tokio =
     \<lparr>tk_channel = (\<lambda>n. if n = 0 then Inl (Panic ''mpsc bounded channel requires buffer > 0'')
        else Inr \<lparr>lc_max = n, lc_buffer = [], lc_senders = 1, lc_open = True\<rparr>),
      tk_max_capacity = lc_max,
      tk_send = (\<lambda>c ch. if \<not> lc_open ch then Ready (False, ch)
        else if length (lc_buffer ch) < lc_max ch then Ready (True, ch\<lparr>lc_buffer := lc_buffer ch @ [c]\<rparr>) else Pending),
      tk_reserve_many = (\<lambda>n ch. if \<not> lc_open ch then Ready False
        else if length (lc_buffer ch) + n \<le> lc_max ch then Ready True else Pending),
      tk_recv = (\<lambda>ch. case lc_buffer ch of c # cs \<Rightarrow> Ready (Some c, ch\<lparr>lc_buffer := cs\<rparr>)
        | [] \<Rightarrow> if lc_senders ch = 0 then Ready (None, ch) else Pending),
      tk_clone_sender = (\<lambda>ch. ch\<lparr>lc_senders := Suc (lc_senders ch)\<rparr>),
      tk_drop_sender = (\<lambda>ch. ch\<lparr>lc_senders := lc_senders ch - 1\<rparr>),
      tk_drop_receiver = (\<lambda>ch. ch\<lparr>lc_buffer := [], lc_open := False\<rparr>),
      tk_broadcast = (\<lambda>_. 0), tk_signal = Suc, tk_subscribe = id,
      tk_signalled = (\<lambda>rx k. if rx < k then Ready True else Pending)\<rparr>"

definition example_view :: "list_channel channel_view" where
  "example_view = \<lparr>cv_buffer = lc_buffer, cv_senders = lc_senders, cv_open = lc_open\<rparr>"

lemma example_mpsc_laws: "mpsc_laws example_tokio example_view"
  by (auto simp: mpsc_laws_def example_tokio_def example_view_def same_ends_def split: if_splits list.splits)

abbreviation example_start :: "(ledger, unit) application" where
  "example_start \<equiv> genesis_update example_app example_genesis"

definition example_queue :: "(list_channel, nat, ledger, unit) command_queue" where
  "example_queue = \<lparr>q_sender = \<lparr>lc_max = 1, lc_buffer = [], lc_senders = 1, lc_open = True\<rparr>, q_killshot = 0,
     q_users = 1, q_actor = Idle, q_app = example_start\<rparr>"

lemma example_queue_new: "create_queue example_tokio example_start 1 = Inr example_queue"
  by (simp add: create_queue_def example_queue_def example_tokio_def)

abbreviation example_command :: command where
  "example_command \<equiv> StartBlockBuild example_payload 5"

text \<open>A command is sent, received and handled.\<close>

lemma example_received:
  "execution example_tokio example_dependencies example_queue [example_command]
     (example_queue\<lparr>q_actor := Handling example_command\<rparr>)"
proof -
  let ?full = "example_queue\<lparr>q_sender := (q_sender example_queue)\<lparr>lc_buffer := [example_command]\<rparr>\<rparr>"
  have "queue_step example_tokio example_dependencies (Sent OtherTask example_command) example_queue ?full"
    by (rule sent) (simp_all add: may_run_def queue_send_def example_tokio_def example_queue_def)
  from more [OF start this] have one: "execution example_tokio example_dependencies example_queue [example_command] ?full"
    by (simp add: example_queue_def example_tokio_def)
  have "queue_step example_tokio example_dependencies Received ?full (example_queue\<lparr>q_actor := Handling example_command\<rparr>)"
    using received [of ?full example_tokio example_command "q_sender example_queue" example_dependencies]
    by (simp add: example_tokio_def example_queue_def)
  from more [OF one this] show ?thesis by simp
qed

lemma example_handled:
  obtains app where "handle_command example_dependencies example_start example_command = Inr app"
    "execution example_tokio example_dependencies example_queue [example_command] (example_queue\<lparr>q_app := app\<rparr>)"
proof -
  obtain app where app: "handle_command example_dependencies example_start example_command = Inr app"
    using example_built by blast
  let ?q = "example_queue\<lparr>q_actor := Handling example_command\<rparr>"
  have q: "q_app ?q = example_start" by (simp add: example_queue_def)
  have "queue_step example_tokio example_dependencies Handled ?q (?q\<lparr>q_actor := Idle, q_app := app\<rparr>)"
    by (rule handled [of _ example_command]) (simp_all only: q app, simp)
  moreover have "?q\<lparr>q_actor := Idle, q_app := app\<rparr> = example_queue\<lparr>q_app := app\<rparr>" by (simp add: example_queue_def)
  ultimately have "queue_step example_tokio example_dependencies Handled ?q (example_queue\<lparr>q_app := app\<rparr>)" by simp
  from more [OF example_received this] that [OF app] show thesis by simp
qed

theorem queue_refines_work_witness:
  "\<exists>q. execution example_tokio example_dependencies example_queue [example_command] q \<and> q_actor q = Idle \<and>
     work example_dependencies example_start [example_command] = Inr (q_app q)"
proof -
  obtain app where run: "execution example_tokio example_dependencies example_queue [example_command] (example_queue\<lparr>q_app := app\<rparr>)"
    using example_handled .
  from queue_refines_work [OF example_mpsc_laws example_queue_new run] obtain past where
    "work example_dependencies example_start past = Inr app" "past = [example_command]"
    by (auto simp: example_queue_def example_view_def simp del: work.simps)
  with run show ?thesis by (intro exI [of _ "example_queue\<lparr>q_app := app\<rparr>"]) (simp add: example_queue_def del: work.simps)
qed


theorem accepted_commands_are_handled_witness:
  "\<exists>q q'. execution example_tokio example_dependencies example_queue [example_command] q \<and>
     q_actor q = Handling example_command \<and> actor_run example_tokio example_dependencies q q' \<and> q_actor q' = Idle \<and>
     work example_dependencies example_start [example_command] = Inr (q_app q')"
proof -
  let ?q = "example_queue\<lparr>q_actor := Handling example_command\<rparr>"
  obtain app' where "handle_command example_dependencies example_start example_command = Inr app'"
    using example_built by blast
  then have run: "work example_dependencies example_start [example_command] = Inr app'" by simp
  have "q_actor ?q \<noteq> Gone" by simp
  from accepted_commands_are_handled [OF example_mpsc_laws example_queue_new example_received this, unfolded run] obtain q' where
    "actor_run example_tokio example_dependencies ?q q'" "q_actor q' = Idle" "q_app q' = app'" by auto
  with example_received run show ?thesis by (intro exI [of _ ?q] exI [of _ q']) (simp del: work.simps)
qed

end
