(* ===== verification/Storage_Adapters.thy ===== *)
theory Storage_Adapters
  imports Heed_Store
begin

text \<open>
  The storage of EVM accounts in a database: \<^verbatim>\<open>storage/rocksdb/src/evm.rs\<close>, \<^verbatim>\<open>storage/heed/src/evm.rs\<close>, and the
  database traits and adapters of \<^verbatim>\<open>evm-ext/src/state/storage.rs\<close>. A repository gives every account its part of
  one database, behind adapters that turn errors of the database into errors of tries; applying changes
  writes the new nodes of every account and then its root. The contract \<open>account_store\<close> says when such a
  store does to the part of every account what the repository in memory does to the database of the
  account, and holds for RocksDB and LMDB.
\<close>

section \<open>Adapters\<close>

datatype storage_fault =
  StorageFailure storage_error
| StoragePanic string

definition with_local_error :: "'a stored \<Rightarrow> storage_fault + 'a" where
  "with_local_error r =
     map_err (\<lambda>f. case f of KvError e \<Rightarrow> StorageFailure (EthTrie e) | KvPanic m \<Rightarrow> StoragePanic m) r"

text \<open>The database of an account as a trie sees it.\<close>

record 'db trie_db =
  td_root :: "address \<Rightarrow> 'db \<Rightarrow> storage_fault + b256 option"
  td_put_root :: "address \<Rightarrow> b256 \<Rightarrow> 'db \<Rightarrow> storage_fault + 'db"
  td_get :: "address \<Rightarrow> 'db \<Rightarrow> bytes \<Rightarrow> storage_fault + bytes option"
  td_insert :: "address \<Rightarrow> bytes \<Rightarrow> bytes \<Rightarrow> 'db \<Rightarrow> storage_fault + 'db"
  td_insert_batch :: "address \<Rightarrow> bytes list \<Rightarrow> bytes list \<Rightarrow> 'db \<Rightarrow> storage_fault + 'db"
  td_remove :: "address \<Rightarrow> bytes \<Rightarrow> 'db \<Rightarrow> storage_fault + 'db"

definition rocks_trie_db :: "'db kv_ops \<Rightarrow> 'db trie_db" where
  "rocks_trie_db kv =
     \<lparr>td_root = (\<lambda>a db. with_local_error (rocks_storage_root kv a db)),
      td_put_root = (\<lambda>a root db. with_local_error (rocks_storage_put_root kv a root db)),
      td_get = (\<lambda>a db k. with_local_error (rocks_storage_get kv a db k)),
      td_insert = (\<lambda>a k v db. with_local_error (rocks_storage_insert kv a k v db)),
      td_insert_batch = (\<lambda>a ks vs db. with_local_error (rocks_storage_insert_batch kv a ks vs db)),
      td_remove = (\<lambda>a k db. with_local_error (rocks_storage_remove a k db))\<rparr>"

definition heed_trie_db :: "'db heed_ops \<Rightarrow> 'db trie_db" where
  "heed_trie_db he =
     \<lparr>td_root = (\<lambda>a db. with_local_error (heed_storage_root he a db)),
      td_put_root = (\<lambda>a root db. with_local_error (heed_storage_put_root he a root db)),
      td_get = (\<lambda>a db k. with_local_error (heed_storage_get he a db k)),
      td_insert = (\<lambda>a k v db. with_local_error (heed_storage_insert he a k v db)),
      td_insert_batch = (\<lambda>a ks vs db. with_local_error (heed_storage_insert_batch he a ks vs db)),
      td_remove = (\<lambda>a k db. with_local_error (heed_storage_remove a k db))\<rparr>"

section \<open>The repository over a database\<close>

text \<open>Opening a trie at a root is third-party code that reads nodes through the adapters; the staging area
  above them is new and empty. An account without a root gets a new trie, \<open>None\<close>.\<close>

type_synonym 't opener = "(bytes \<Rightarrow> storage_fault + bytes option) \<Rightarrow> b256 \<Rightarrow> string + 't"

definition persistent_for_account ::
  "'db trie_db \<Rightarrow> 't opener \<Rightarrow> address \<Rightarrow> 'db \<Rightarrow> storage_fault + 't option" where
  "persistent_for_account td open_trie a db =
     rbind (td_root td a db) (\<lambda>r.
     case r of
       Some root \<Rightarrow>
         rbind (map_err (StorageFailure \<circ> EthTrie) (open_trie (td_get td a db) root)) (\<lambda>t. Inr (Some t))
     | None \<Rightarrow> Inr None)"

text \<open>\<open>entries\<close> is the iteration of a hash map of nodes.\<close>

definition persistent_trie_apply ::
  "'db trie_db \<Rightarrow> (nodes \<Rightarrow> (bytes \<times> bytes) list) \<Rightarrow> address \<Rightarrow> storage_trie_changes \<Rightarrow> 'db
     \<Rightarrow> storage_fault + 'db" where
  "persistent_trie_apply td entries a c db =
     (let diff = entries (tc_trie_diff c)
      in rbind (td_insert_batch td a (map fst diff) (map snd diff) db) (\<lambda>db. td_put_root td a (tc_root c) db))"

fun persistent_apply_tries ::
  "'db trie_db \<Rightarrow> 't opener \<Rightarrow> (nodes \<Rightarrow> (bytes \<times> bytes) list)
     \<Rightarrow> storage_tries_changes \<Rightarrow> 'db \<Rightarrow> storage_fault + 'db" where
  "persistent_apply_tries td open_trie entries [] db = Inr db"
| "persistent_apply_tries td open_trie entries ((a, c) # cs) db =
     rbind (persistent_for_account td open_trie a db) (\<lambda>_.
     rbind (persistent_trie_apply td entries a c db) (persistent_apply_tries td open_trie entries cs))"

section \<open>The contract\<close>

text \<open>A trie opens at a root over these nodes.\<close>

definition opens :: "'t opener \<Rightarrow> nodes \<Rightarrow> b256 \<Rightarrow> bool" where
  "opens open_trie nodes root \<longleftrightarrow> (\<exists>t. open_trie (\<lambda>k. Inr (nodes k)) root = Inr t)"

text \<open>The database and the repository in memory agree on what has been applied, and tries open at the roots.\<close>

definition agrees :: "'t opener \<Rightarrow> ('db \<Rightarrow> address \<Rightarrow> in_memory_db) \<Rightarrow> 'db \<Rightarrow> repository \<Rightarrow> bool" where
  "agrees open_trie part db repo \<longleftrightarrow>
     (\<forall>a. length a = 20 \<longrightarrow> part db a = sg_inner (db_of repo a) \<and>
        (\<forall>r. idb_root (part db a) = Some r \<longrightarrow> length r = 32 \<and> opens open_trie (idb_nodes (part db a)) r))"

text \<open>Changes of accounts, with roots of 32 bytes: \<open>entries\<close> lists their nodes, among which is the one
  a trie reads when it opens at the root.\<close>

definition applicable :: "'t opener \<Rightarrow> (nodes \<Rightarrow> (bytes \<times> bytes) list) \<Rightarrow> storage_tries_changes \<Rightarrow> bool" where
  "applicable open_trie entries cs \<longleftrightarrow>
     (\<forall>(a, c) \<in> set cs. length a = 20 \<and> length (tc_root c) = 32 \<and>
        distinct (map fst (entries (tc_trie_diff c))) \<and> map_of (entries (tc_trie_diff c)) = tc_trie_diff c \<and>
        (\<forall>nodes. tc_trie_diff c \<subseteq>\<^sub>m nodes \<longrightarrow> opens open_trie nodes (tc_root c)))"

lemma agreesD:
  assumes "agrees open_trie part db repo" "length a = 20"
  shows "part db a = sg_inner (db_of repo a)"
    and "idb_root (part db a) = Some r \<Longrightarrow> length r = 32 \<and> opens open_trie (idb_nodes (part db a)) r"
  using assms unfolding agrees_def by blast+

lemma map_of_rev_distinct: "distinct (map fst xs) \<Longrightarrow> map_of (rev xs) = map_of xs"
  by (intro map_of_eqI) (auto simp: map_of_eq_Some_iff distinct_map simp flip: rev_map)

lemma apply_tries_Cons:
  assumes "fst (apply_tries ss ((a, c) # cs) repo) = Inr ()"
  shows "apply_tries ss ((a, c) # cs) repo = apply_tries ss cs (update_db a (apply_nodes c) (repo(a \<mapsto> db_of repo a)))"
  using assms
  by (auto simp: sbind_def trie_apply_def for_account_def for_account_with_root_def repository_db_def
      split: option.splits sum.splits)

text \<open>\<open>part db a\<close> is the part of an account, as a database in memory.\<close>

locale account_store =
  fixes td :: "'db trie_db"
    and valid :: bool
    and part :: "'db \<Rightarrow> address \<Rightarrow> in_memory_db"
  assumes part_root: "valid \<Longrightarrow> length a = 20 \<Longrightarrow> (\<forall>r. idb_root (part db a) = Some r \<longrightarrow> length r = 32) \<Longrightarrow>
      td_root td a db = Inr (idb_root (part db a))"
    and part_get: "valid \<Longrightarrow> length a = 20 \<Longrightarrow> td_get td a db k = Inr (idb_get (part db a) k)"
    and part_put_root: "valid \<Longrightarrow> length a = 20 \<Longrightarrow> \<exists>db'. td_put_root td a root db = Inr db' \<and>
      (\<forall>b. length b = 20 \<longrightarrow> part db' b = (if b = a then put_root root (part db b) else part db b))"
    and part_insert_batch: "valid \<Longrightarrow> length a = 20 \<Longrightarrow> \<exists>db'. td_insert_batch td a ks vs db = Inr db' \<and>
      (\<forall>b. length b = 20 \<longrightarrow> part db' b = (if b = a
         then (part db b)\<lparr>idb_nodes := idb_nodes (part db b) ++ map_of (rev (zip ks vs))\<rparr> else part db b))"
begin

lemma part_trie_apply:
  assumes "valid" "agrees open_trie part db repo" "applicable open_trie entries [(a, c)]"
  shows "\<exists>db'. persistent_trie_apply td entries a c db = Inr db' \<and> agrees open_trie part db' (update_db a (apply_nodes c) repo)"
proof -
  let ?diff = "entries (tc_trie_diff c)"
  have a: "length a = 20" "length (tc_root c) = 32" "map_of (rev ?diff) = tc_trie_diff c"
      "\<And>nodes. tc_trie_diff c \<subseteq>\<^sub>m nodes \<Longrightarrow> opens open_trie nodes (tc_root c)"
    using assms(3) by (auto simp: applicable_def map_of_rev_distinct)
  obtain db1 where db1: "td_insert_batch td a (map fst ?diff) (map snd ?diff) db = Inr db1"
    "\<And>b. length b = 20 \<Longrightarrow> part db1 b = (if b = a
       then (part db b)\<lparr>idb_nodes := idb_nodes (part db b) ++ tc_trie_diff c\<rparr> else part db b)"
    using part_insert_batch [OF assms(1) a(1), of "map fst ?diff" "map snd ?diff" db] by (auto simp: zip_map_fst_snd a(3))
  obtain db' where db': "td_put_root td a (tc_root c) db1 = Inr db'"
    "\<And>b. length b = 20 \<Longrightarrow> part db' b = (if b = a then put_root (tc_root c) (part db1 b) else part db1 b)"
    using part_put_root [OF assms(1) a(1)] by blast
  have "agrees open_trie part db' (update_db a (apply_nodes c) repo)"
    unfolding agrees_def
  proof (intro allI impI)
    fix b :: address
    assume b: "length b = 20"
    then have "part db b = sg_inner (db_of repo b)" "\<And>r. idb_root (part db b) = Some r \<Longrightarrow>
        length r = 32 \<and> opens open_trie (idb_nodes (part db b)) r"
      using agreesD [OF assms(2)] by blast+
    then show "part db' b = sg_inner (db_of (update_db a (apply_nodes c) repo) b) \<and>
        (\<forall>r. idb_root (part db' b) = Some r \<longrightarrow> length r = 32 \<and> opens open_trie (idb_nodes (part db' b)) r)"
      using a(2) a(4) [OF map_le_map_add] by (cases "b = a") (simp_all add: db'(2) [OF b] db1(2) [OF b] db'(2) [OF a(1)] db1(2) [OF a(1)]
          apply_nodes_def put_root_def)
  qed
  with db1(1) db'(1) show ?thesis by (simp add: persistent_trie_apply_def Let_def)
qed

lemma apply_tries_agrees:
  assumes "valid" "agrees open_trie part db repo" "applicable open_trie entries cs" "fst (apply_tries ss cs repo) = Inr ()"
  shows "\<exists>db'. persistent_apply_tries td open_trie entries cs db = Inr db' \<and>
    agrees open_trie part db' (snd (apply_tries ss cs repo))"
  using assms(2-4)
proof (induction cs arbitrary: db repo)
  case (Cons x cs)
  obtain a c where x: "x = (a, c)" by fastforce
  let ?repo = "repo(a \<mapsto> db_of repo a)"
  have a: "length a = 20" "applicable open_trie entries [(a, c)]" "applicable open_trie entries cs"
    using Cons.prems(2) by (auto simp: applicable_def x)
  have "db_of ?repo = db_of repo" by (auto simp: db_of_def)
  with Cons.prems(1) have "agrees open_trie part db ?repo" by (simp only: agrees_def)
  from part_trie_apply [OF assms(1) this a(2)] obtain db1 where
    db1: "persistent_trie_apply td entries a c db = Inr db1" "agrees open_trie part db1 (update_db a (apply_nodes c) ?repo)"
    by blast
  have "td_root td a db = Inr (idb_root (part db a))"
    using Cons.prems(1) a(1) by (intro part_root [OF assms(1)]) (auto simp: agrees_def)
  moreover have "td_get td a db = (\<lambda>k. Inr (idb_nodes (part db a) k))"
    by (simp add: fun_eq_iff part_get [OF assms(1) a(1)] idb_get_def)
  moreover have "\<forall>r. idb_root (part db a) = Some r \<longrightarrow> opens open_trie (idb_nodes (part db a)) r"
    using agreesD [OF Cons.prems(1) a(1)] by blast
  ultimately have "\<exists>t. persistent_for_account td open_trie a db = Inr t"
    by (auto simp: persistent_for_account_def opens_def split: option.split)
  moreover note step = apply_tries_Cons [of ss a c cs repo]
  ultimately show ?case
    using Cons.IH [OF db1(2) a(3)] Cons.prems(3) db1(1) by (auto simp: x step simp del: apply_tries.simps)
qed simp

end

section \<open>Both databases\<close>

definition storage_part :: "('db \<Rightarrow> contents) \<Rightarrow> 'db \<Rightarrow> address \<Rightarrow> in_memory_db" where
  "storage_part content db a =
     \<lparr>idb_root = content db STORAGE_ROOT_COLUMN_FAMILY a,
      idb_nodes = (\<lambda>k. content db STORAGE_TRIE_COLUMN_FAMILY (unique_key a k))\<rparr>"

text \<open>The two writes, over any database that documents its contents.\<close>

lemma part_writes_root:
  assumes "kv_laws kv content" "kv_reliable kv"
  shows "\<exists>db'. with_local_error (db_call (kv_write kv db [(STORAGE_ROOT_COLUMN_FAMILY, a, root)])) = Inr db' \<and>
    (\<forall>b. length b = 20 \<longrightarrow> storage_part content db' b
       = (if b = a then put_root root (storage_part content db b) else storage_part content db b))"
proof -
  obtain db' where "kv_write kv db [(STORAGE_ROOT_COLUMN_FAMILY, a, root)] = Inr db'"
    "content db' = fold kv_put [(STORAGE_ROOT_COLUMN_FAMILY, a, root)] (content db)"
    using kv_write_content [OF assms] .
  then show ?thesis
    by (intro exI [of _ db']) (simp add: with_local_error_def db_call_def storage_part_def kv_put_def put_root_def family_defs)
qed

lemma part_writes_nodes:
  assumes "kv_laws kv content" "kv_reliable kv" "length a = 20"
  shows "\<exists>db'. with_local_error (db_call (kv_write kv db
      (map (\<lambda>(k, v). (STORAGE_TRIE_COLUMN_FAMILY, unique_key a k, v)) (zip ks vs)))) = Inr db' \<and>
    (\<forall>b. length b = 20 \<longrightarrow> storage_part content db' b = (if b = a
       then (storage_part content db b)\<lparr>idb_nodes := idb_nodes (storage_part content db b) ++ map_of (rev (zip ks vs))\<rparr>
       else storage_part content db b))"
proof -
  let ?es = "map (\<lambda>e. (STORAGE_TRIE_COLUMN_FAMILY, unique_key a (fst e), snd e)) (zip ks vs)"
  have es: "map (\<lambda>(k, v). (STORAGE_TRIE_COLUMN_FAMILY, unique_key a k, v)) (zip ks vs) = ?es"
    by (simp add: split_beta)
  obtain db' where db': "kv_write kv db ?es = Inr db'" "content db' = fold kv_put ?es (content db)"
    using kv_write_content [OF assms(1,2)] .
  have at: "map_of (map (\<lambda>e. (unique_key a (fst e), snd e)) xs) (unique_key b k)
      = (if b = a then map_of xs k else None)" if "length b = 20" for xs b k
    using assms(3) that by (induction xs) (auto simp: unique_key_inj)
  have "storage_part content db' b = (if b = a
       then (storage_part content db b)\<lparr>idb_nodes := idb_nodes (storage_part content db b) ++ map_of (rev (zip ks vs))\<rparr>
       else storage_part content db b)" if "length b = 20" for b
    using at [OF that, of "rev (zip ks vs)"]
    by (auto simp: storage_part_def db'(2) fold_kv_put family_defs map_add_def fun_eq_iff rev_map split: option.splits)
  then show ?thesis
    unfolding es by (intro exI [of _ db']) (simp add: db'(1) with_local_error_def db_call_def)
qed

interpretation rocks_accounts: account_store "rocks_trie_db kv" "kv_laws kv content \<and> kv_reliable kv" "storage_part content"
proof
  fix a :: address and db
  assume valid: "kv_laws kv content \<and> kv_reliable kv" and a: "length a = 20"
  have kv: "kv_laws kv content" "kv_reliable kv" using valid by simp_all
  show "td_root (rocks_trie_db kv) a db = Inr (idb_root (storage_part content db a))"
    if "\<forall>r. idb_root (storage_part content db a) = Some r \<longrightarrow> length r = 32"
    using that by (cases "content db STORAGE_ROOT_COLUMN_FAMILY a")
      (simp_all add: rocks_trie_db_def rocks_storage_root_def rocks_get_def kv_get_content [OF kv] db_call_def
        storage_part_def try_into_unwrap_def with_local_error_def)
  show "td_get (rocks_trie_db kv) a db k = Inr (idb_get (storage_part content db a) k)" for k
    by (simp add: rocks_trie_db_def rocks_storage_get_def kv_get_content [OF kv] db_call_def storage_part_def
        idb_get_def with_local_error_def)
  show "\<exists>db'. td_put_root (rocks_trie_db kv) a root db = Inr db' \<and> (\<forall>b. length b = 20 \<longrightarrow>
      storage_part content db' b = (if b = a then put_root root (storage_part content db b) else storage_part content db b))" for root
    using part_writes_root [OF kv] by (simp add: rocks_trie_db_def rocks_storage_put_root_def)
  show "\<exists>db'. td_insert_batch (rocks_trie_db kv) a ks vs db = Inr db' \<and> (\<forall>b. length b = 20 \<longrightarrow>
      storage_part content db' b = (if b = a
        then (storage_part content db b)\<lparr>idb_nodes := idb_nodes (storage_part content db b) ++ map_of (rev (zip ks vs))\<rparr>
        else storage_part content db b))" for ks vs
    using part_writes_nodes [OF kv a] by (simp add: rocks_trie_db_def rocks_storage_insert_batch_def)
qed

interpretation heed_accounts: account_store "heed_trie_db he" "kv_laws (he_kv he) content \<and> heed_reliable he" "storage_part content"
proof
  fix a :: address and db
  assume valid: "kv_laws (he_kv he) content \<and> heed_reliable he" and a: "length a = 20"
  have kv: "kv_laws (he_kv he) content" "kv_reliable (he_kv he)"
    and txn: "he_read_txn he db = Inr ()" "he_commit he db = Inr ()"
    using valid by (simp_all add: heed_reliable_def)
  note reads = heed_trie_db_def heed_read_early_def heed_get_def kv_get_content [OF kv] txn db_call_def storage_part_def
    with_local_error_def
  show "td_root (heed_trie_db he) a db = Inr (idb_root (storage_part content db a))"
    if "\<forall>r. idb_root (storage_part content db a) = Some r \<longrightarrow> length r = 32"
    using that by (cases "content db STORAGE_ROOT_COLUMN_FAMILY a")
      (simp_all add: reads heed_storage_root_def encodable_b256_decode_def)
  show "td_get (heed_trie_db he) a db k = Inr (idb_get (storage_part content db a) k)" for k
    by (cases "content db STORAGE_TRIE_COLUMN_FAMILY (unique_key a k)")
      (simp_all add: reads heed_storage_get_def idb_get_def)
  show "\<exists>db'. td_put_root (heed_trie_db he) a root db = Inr db' \<and> (\<forall>b. length b = 20 \<longrightarrow>
      storage_part content db' b = (if b = a then put_root root (storage_part content db b) else storage_part content db b))" for root
    using part_writes_root [OF kv] by (simp add: heed_trie_db_def heed_storage_put_root_def heed_write_def)
  show "\<exists>db'. td_insert_batch (heed_trie_db he) a ks vs db = Inr db' \<and> (\<forall>b. length b = 20 \<longrightarrow>
      storage_part content db' b = (if b = a
        then (storage_part content db b)\<lparr>idb_nodes := idb_nodes (storage_part content db b) ++ map_of (rev (zip ks vs))\<rparr>
        else storage_part content db b))" for ks vs
    using part_writes_nodes [OF kv a] by (simp add: heed_trie_db_def heed_storage_insert_batch_def heed_write_def)
qed

text \<open>C16. The storage of EVM accounts is kept in a database as it is in memory, although all accounts share
  two families of it: when the changes of a block are applied, every account, changed or not, has in
  RocksDB the root and the nodes that it has in the repository in memory, and so does LMDB. The tries open
  again at the new roots, so that the next block can be applied.\<close>

theorem persistent_storage_refines_memory:
  assumes "kv_laws kv content" "kv_reliable kv" "kv_laws (he_kv he) content'" "heed_reliable he"
    and "agrees open_trie (storage_part content) db repo" "agrees open_trie (storage_part content') hdb repo"
    and "applicable open_trie entries cs" "apply_tries ss cs repo = (Inr (), repo')"
  shows "\<exists>db' hdb'. persistent_apply_tries (rocks_trie_db kv) open_trie entries cs db = Inr db' \<and>
    persistent_apply_tries (heed_trie_db he) open_trie entries cs hdb = Inr hdb' \<and>
    agrees open_trie (storage_part content) db' repo' \<and> agrees open_trie (storage_part content') hdb' repo'"
proof -
  have run: "fst (apply_tries ss cs repo) = Inr ()" "snd (apply_tries ss cs repo) = repo'" using assms(8) by simp_all
  obtain db' where "persistent_apply_tries (rocks_trie_db kv) open_trie entries cs db = Inr db'"
    "agrees open_trie (storage_part content) db' repo'"
    using rocks_accounts.apply_tries_agrees [OF conjI [OF assms(1,2)] assms(5,7) run(1)] run(2) by blast
  moreover obtain hdb' where "persistent_apply_tries (heed_trie_db he) open_trie entries cs hdb = Inr hdb'"
    "agrees open_trie (storage_part content') hdb' repo'"
    using heed_accounts.apply_tries_agrees [OF conjI [OF assms(3,4)] assms(6,7) run(1)] run(2) by blast
  ultimately show ?thesis by blast
qed

text \<open>Two accounts get the same root over different nodes, in databases that are empty before.\<close>

definition example_opening :: "unit opener" where
  "example_opening get root = (case get root of Inr (Some _) \<Rightarrow> Inr () | _ \<Rightarrow> Inl ''no such root'')"

definition example_node_entries :: "nodes \<Rightarrow> (bytes \<times> bytes) list" where
  "example_node_entries nodes = filter (\<lambda>(k, v). nodes k = Some v) [(replicate 32 1, [7]), (replicate 32 1, [8])]"

definition example_tries_changes :: storage_tries_changes where
  "example_tries_changes =
     [(replicate 20 1, \<lparr>tc_root = replicate 32 1, tc_trie_diff = [replicate 32 1 \<mapsto> [7]]\<rparr>),
      (replicate 20 2, \<lparr>tc_root = replicate 32 1, tc_trie_diff = [replicate 32 1 \<mapsto> [8]]\<rparr>)]"

theorem persistent_storage_refines_memory_witness:
  "\<exists>db' hdb'. persistent_apply_tries (rocks_trie_db example_kv) example_opening example_node_entries example_tries_changes [] = Inr db' \<and>
    persistent_apply_tries (heed_trie_db \<lparr>he_kv = example_kv, he_read_txn = (\<lambda>_. Inr ()), he_commit = (\<lambda>_. Inr ())\<rparr>)
      example_opening example_node_entries example_tries_changes [] = Inr hdb' \<and>
    idb_nodes (storage_part example_content db' (replicate 20 1)) (replicate 32 1) = Some [7] \<and>
    idb_nodes (storage_part example_content hdb' (replicate 20 2)) (replicate 32 1) = Some [8]"
proof -
  let ?he = "\<lparr>he_kv = example_kv, he_read_txn = (\<lambda>_. Inr ()), he_commit = (\<lambda>_. Inr ())\<rparr>"
  let ?repo = "snd (apply_tries example_storage_ops example_tries_changes repository_new)"
  have he: "kv_laws (he_kv ?he) example_content" "heed_reliable ?he"
    using example_kv_laws by (simp_all add: heed_reliable_def)
  have start: "agrees example_opening (storage_part example_content) [] repository_new"
    by (simp add: agrees_def storage_part_def example_content_def repository_new_def db_of_def create_def
        staging_new_def in_memory_db_empty_def)
  have changes: "applicable example_opening example_node_entries example_tries_changes"
    by (auto simp: applicable_def example_tries_changes_def example_node_entries_def opens_def example_opening_def map_le_def
        split: option.split)
  have run: "apply_tries example_storage_ops example_tries_changes repository_new = (Inr (), ?repo)"
    by (simp add: example_tries_changes_def sbind_def for_account_def repository_db_def repository_new_def db_of_def
        create_def staging_new_def in_memory_db_empty_def staging_root_def trie_apply_def update_db_def)
  from persistent_storage_refines_memory [OF example_kv_laws he start start changes run]
  obtain db' hdb' where db': "persistent_apply_tries (rocks_trie_db example_kv) example_opening example_node_entries
        example_tries_changes [] = Inr db'" "agrees example_opening (storage_part example_content) db' ?repo"
    and hdb': "persistent_apply_tries (heed_trie_db ?he) example_opening example_node_entries
        example_tries_changes [] = Inr hdb'" "agrees example_opening (storage_part example_content) hdb' ?repo"
    by blast
  have "idb_nodes (sg_inner (db_of ?repo (replicate 20 1))) (replicate 32 1) = Some [7]"
    "idb_nodes (sg_inner (db_of ?repo (replicate 20 2))) (replicate 32 1) = Some [8]"
    by (simp_all add: example_tries_changes_def sbind_def for_account_def repository_db_def repository_new_def db_of_def
        create_def staging_new_def in_memory_db_empty_def staging_root_def trie_apply_def update_db_def apply_nodes_def put_root_def)
  with db' hdb' show ?thesis by (intro exI [of _ db'] exI [of _ hdb']) (simp add: agrees_def)
qed

end
