(* ===== verification/Genesis_Image.thy ===== *)
theory Genesis_Image
  imports State Evm_Storage
begin

text \<open>
  The image of genesis: \<^verbatim>\<open>genesis/src/serde.rs\<close> and \<^verbatim>\<open>genesis-image\<close>. The changes that make up genesis are
  computed when the node is compiled, converted into types that can be encoded, and converted back
  when the node starts. The map operations of \<open>ChangeSet\<close> are third-party code, fields of
  \<open>change_set_ops\<close>; \<open>change_set_laws\<close> states what they document. A \<open>BTreeMap\<close> is the list of its entries.
\<close>

section \<open>Third-party change sets\<close>

definition module_of :: "change_set \<Rightarrow> module_id \<Rightarrow> bytes change_op option" where
  "module_of cs i = Option.bind (map_of cs (mid_address i)) (\<lambda>c. map_of (ac_modules c) (mid_name i))"

definition resource_of :: "change_set \<Rightarrow> account_address \<Rightarrow> struct_tag \<Rightarrow> bytes change_op option" where
  "resource_of cs a tag = Option.bind (map_of cs a) (\<lambda>c. map_of (ac_resources c) tag)"

record change_set_ops =
  co_add_module_op :: "module_id \<Rightarrow> bytes change_op \<Rightarrow> change_set \<Rightarrow> change_set option"
  co_add_resource_op :: "account_address \<Rightarrow> struct_tag \<Rightarrow> bytes change_op \<Rightarrow> change_set \<Rightarrow> change_set option"
  co_squash :: "change_set \<Rightarrow> change_set \<Rightarrow> change_set option"

text \<open>Adding an operation for something that has none succeeds and changes nothing else, and fails for
  something that has one; squashing keeps the operations of both sides for what only one of them
  mentions.\<close>

definition change_set_laws :: "change_set_ops \<Rightarrow> bool" where
  "change_set_laws co \<longleftrightarrow>
     (\<forall>i op cs. module_of cs i = None \<longrightarrow>
        (\<exists>cs'. co_add_module_op co i op cs = Some cs' \<and>
           (\<forall>j. module_of cs' j = (if j = i then Some op else module_of cs j)) \<and>
           resource_of cs' = resource_of cs)) \<and>
     (\<forall>i op cs. module_of cs i \<noteq> None \<longrightarrow> co_add_module_op co i op cs = None) \<and>
     (\<forall>a tag op cs. resource_of cs a tag = None \<longrightarrow>
        (\<exists>cs'. co_add_resource_op co a tag op cs = Some cs' \<and> module_of cs' = module_of cs \<and>
           (\<forall>b t. resource_of cs' b t = (if b = a \<and> t = tag then Some op else resource_of cs b t)))) \<and>
     (\<forall>cs ds es. co_squash co cs ds = Some es \<longrightarrow>
        (\<forall>i. module_of ds i = None \<longrightarrow> module_of es i = module_of cs i) \<and>
        (\<forall>i. module_of cs i = None \<longrightarrow> module_of es i = module_of ds i))"

record table_info =
  ti_key_type :: type_tag
  ti_value_type :: type_tag

datatype table_handle = TableHandle (handle_address: account_address)

record table_change =
  tb_entries :: "(bytes \<times> bytes change_op) list"

record table_change_set =
  ts_new_tables :: "(table_handle \<times> table_info) list"
  ts_removed_tables :: "table_handle set"
  ts_changes :: "(table_handle \<times> table_change) list"

text \<open>\<open>collect\<close> of pairs into a map: later entries replace earlier ones.\<close>

definition collect_map :: "('k \<times> 'v) list \<Rightarrow> ('k \<times> 'v) list" where
  "collect_map xs = fold (\<lambda>(k, v). AList.update k v) xs []"

section \<open>Types of the image\<close>

datatype 'a serde_op = SerdeNew 'a | SerdeModify 'a | SerdeDelete

record serde_account_changes =
  sac_modules :: "(string \<times> bytes serde_op) list"
  sac_resources :: "(struct_tag \<times> bytes serde_op) list"

record serde_changes =
  sch_accounts :: "(account_address \<times> serde_account_changes) list"

record serde_table_change =
  stb_entries :: "(bytes \<times> bytes serde_op) list"

record serde_table_info =
  sti_key_type :: type_tag
  sti_value_type :: type_tag

record serde_table_change_set =
  sts_new_tables :: "(account_address \<times> serde_table_info) list"
  sts_removed_tables :: "account_address set"
  sts_changes :: "(account_address \<times> serde_table_change) list"

record serde_evm_storage_trie_changes =
  set_root :: b256
  set_trie_diff :: nodes

record serde_evm_storage_tries_changes =
  set_tries :: "(address \<times> serde_evm_storage_trie_changes) list"

record serde_all_changes =
  sa_changes :: serde_changes
  sa_tables :: serde_table_change_set
  sa_evm_storage :: serde_evm_storage_tries_changes

definition serde_all_changes_new ::
  "serde_changes \<Rightarrow> serde_table_change_set \<Rightarrow> serde_evm_storage_tries_changes \<Rightarrow> serde_all_changes" where
  "serde_all_changes_new changes tables evm_storage =
     \<lparr>sa_changes = changes, sa_tables = tables, sa_evm_storage = evm_storage\<rparr>"

section \<open>Conversions\<close>

fun serde_op_from :: "'a change_op \<Rightarrow> 'a serde_op" where
  "serde_op_from (New v) = SerdeNew v"
| "serde_op_from (Modify v) = SerdeModify v"
| "serde_op_from Delete = SerdeDelete"

fun op_from_serde :: "'a serde_op \<Rightarrow> 'a change_op" where
  "op_from_serde (SerdeNew v) = New v"
| "op_from_serde (SerdeModify v) = Modify v"
| "op_from_serde SerdeDelete = Delete"

definition serde_account_changes_from :: "account_changes \<Rightarrow> serde_account_changes" where
  "serde_account_changes_from c =
     \<lparr>sac_modules = collect_map (map (\<lambda>(k, v). (k, serde_op_from v)) (ac_modules c)),
      sac_resources = collect_map (map (\<lambda>(k, v). (k, serde_op_from v)) (ac_resources c))\<rparr>"

definition serde_changes_from :: "change_set \<Rightarrow> serde_changes" where
  "serde_changes_from cs =
     \<lparr>sch_accounts = collect_map (map (\<lambda>(k, v). (k, serde_account_changes_from v)) cs)\<rparr>"

abbreviation op_unwrap :: "'a option \<Rightarrow> panic + 'a" where
  "op_unwrap x \<equiv> ok_or x (Panic ''called Result::unwrap() on an Err value'')"

fun add_module_ops ::
  "change_set_ops \<Rightarrow> account_address \<Rightarrow> (string \<times> bytes serde_op) list \<Rightarrow> change_set \<Rightarrow> panic + change_set" where
  "add_module_ops co acc [] cs = Inr cs"
| "add_module_ops co acc ((i, op) # ops) cs =
     rbind (op_unwrap (co_add_module_op co \<lparr>mid_address = acc, mid_name = i\<rparr> (op_from_serde op) cs))
       (add_module_ops co acc ops)"

fun add_resource_ops ::
  "change_set_ops \<Rightarrow> account_address \<Rightarrow> (struct_tag \<times> bytes serde_op) list \<Rightarrow> change_set \<Rightarrow> panic + change_set"
where
  "add_resource_ops co acc [] cs = Inr cs"
| "add_resource_ops co acc ((i, op) # ops) cs =
     rbind (op_unwrap (co_add_resource_op co acc i (op_from_serde op) cs)) (add_resource_ops co acc ops)"

fun add_accounts ::
  "change_set_ops \<Rightarrow> (account_address \<times> serde_account_changes) list \<Rightarrow> change_set \<Rightarrow> panic + change_set" where
  "add_accounts co [] cs = Inr cs"
| "add_accounts co ((acc, changes) # accounts) cs =
     rbind (add_module_ops co acc (sac_modules changes) cs) (\<lambda>cs.
     rbind (add_resource_ops co acc (sac_resources changes) cs) (add_accounts co accounts))"

definition change_set_from_serde :: "change_set_ops \<Rightarrow> serde_changes \<Rightarrow> panic + change_set" where
  "change_set_from_serde co value = add_accounts co (sch_accounts value) []"

definition serde_table_change_from :: "table_change \<Rightarrow> serde_table_change" where
  "serde_table_change_from c =
     \<lparr>stb_entries = collect_map (map (\<lambda>(k, v). (k, serde_op_from v)) (tb_entries c))\<rparr>"

definition table_change_from_serde :: "serde_table_change \<Rightarrow> table_change" where
  "table_change_from_serde c =
     \<lparr>tb_entries = collect_map (map (\<lambda>(k, v). (k, op_from_serde v)) (stb_entries c))\<rparr>"

definition serde_table_info_from :: "table_info \<Rightarrow> serde_table_info" where
  "serde_table_info_from t = \<lparr>sti_key_type = ti_key_type t, sti_value_type = ti_value_type t\<rparr>"

definition table_info_from_serde :: "serde_table_info \<Rightarrow> table_info" where
  "table_info_from_serde t = \<lparr>ti_key_type = sti_key_type t, ti_value_type = sti_value_type t\<rparr>"

definition serde_table_change_set_from :: "table_change_set \<Rightarrow> serde_table_change_set" where
  "serde_table_change_set_from t =
     \<lparr>sts_new_tables = collect_map (map (\<lambda>(k, v). (handle_address k, serde_table_info_from v)) (ts_new_tables t)),
      sts_removed_tables = handle_address ` ts_removed_tables t,
      sts_changes = collect_map (map (\<lambda>(k, v). (handle_address k, serde_table_change_from v)) (ts_changes t))\<rparr>"

definition table_change_set_from_serde :: "serde_table_change_set \<Rightarrow> table_change_set" where
  "table_change_set_from_serde t =
     \<lparr>ts_new_tables = collect_map (map (\<lambda>(k, v). (TableHandle k, table_info_from_serde v)) (sts_new_tables t)),
      ts_removed_tables = TableHandle ` sts_removed_tables t,
      ts_changes = collect_map (map (\<lambda>(k, v). (TableHandle k, table_change_from_serde v)) (sts_changes t))\<rparr>"

definition serde_trie_changes_from :: "storage_trie_changes \<Rightarrow> serde_evm_storage_trie_changes" where
  "serde_trie_changes_from c = \<lparr>set_root = tc_root c, set_trie_diff = tc_trie_diff c\<rparr>"

definition trie_changes_from_serde :: "serde_evm_storage_trie_changes \<Rightarrow> storage_trie_changes" where
  "trie_changes_from_serde c = \<lparr>tc_root = set_root c, tc_trie_diff = set_trie_diff c\<rparr>"

definition serde_tries_changes_from :: "storage_tries_changes \<Rightarrow> serde_evm_storage_tries_changes" where
  "serde_tries_changes_from ts =
     \<lparr>set_tries = collect_map (map (\<lambda>(k, v). (k, serde_trie_changes_from v)) ts)\<rparr>"

definition tries_changes_from_serde :: "serde_evm_storage_tries_changes \<Rightarrow> storage_tries_changes" where
  "tries_changes_from_serde s = collect_map (map (\<lambda>(k, v). (k, trie_changes_from_serde v)) (set_tries s))"

section \<open>Saving and loading\<close>

text \<open>The contents of the file that \<open>save\<close> writes; BCS is third-party code.\<close>

definition image_save ::
  "(serde_all_changes \<Rightarrow> bytes option) \<Rightarrow> change_set \<times> table_change_set \<times> storage_tries_changes
     \<Rightarrow> panic + bytes" where
  "image_save to_bytes = (\<lambda>(changes, tables, evm_storage).
     op_unwrap (to_bytes (serde_all_changes_new (serde_changes_from changes) (serde_table_change_set_from tables)
       (serde_tries_changes_from evm_storage))))"

definition image_load ::
  "change_set_ops \<Rightarrow> (bytes \<Rightarrow> serde_all_changes option) \<Rightarrow> bytes
     \<Rightarrow> panic + change_set \<times> table_change_set \<times> storage_tries_changes" where
  "image_load co from_bytes contents =
     rbind (ok_or (from_bytes contents) (Panic ''File should be bcs encoded'')) (\<lambda>all.
     rbind (change_set_from_serde co (sa_changes all)) (\<lambda>changes.
     Inr (changes, table_change_set_from_serde (sa_tables all), tries_changes_from_serde (sa_evm_storage all))))"

section \<open>Round trip\<close>

text \<open>The keys of a map are distinct.\<close>

definition wf_changes :: "change_set \<Rightarrow> bool" where
  "wf_changes cs \<longleftrightarrow> distinct (map fst cs) \<and>
     list_all (\<lambda>(_, c). distinct (map fst (ac_modules c)) \<and> distinct (map fst (ac_resources c))) cs"

definition wf_tables :: "table_change_set \<Rightarrow> bool" where
  "wf_tables t \<longleftrightarrow> distinct (map fst (ts_new_tables t)) \<and> distinct (map fst (ts_changes t)) \<and>
     list_all (\<lambda>(_, c). distinct (map fst (tb_entries c))) (ts_changes t)"

lemma update_new: "k \<notin> fst ` set xs \<Longrightarrow> AList.update k v xs = xs @ [(k, v)]"
  by (induction xs) auto

lemma collect_map_append:
  "distinct (map fst (xs @ ys)) \<Longrightarrow> fold (\<lambda>(k, v). AList.update k v) ys xs = xs @ ys"
proof (induction ys arbitrary: xs)
  case (Cons y ys)
  obtain k v where y: "y = (k, v)" by fastforce
  have "AList.update k v xs = xs @ [(k, v)]"
    using Cons.prems by (intro update_new) (auto simp: y)
  then show ?case using Cons.IH [of "xs @ [(k, v)]"] Cons.prems by (simp add: y)
qed simp

lemma collect_map_distinct: "distinct (map fst xs) \<Longrightarrow> collect_map xs = xs"
  using collect_map_append [of "[]" xs] by (simp add: collect_map_def)

lemma map_fst_keyed: "map fst (map (\<lambda>(k, v). (f k, g v)) xs) = map f (map fst xs)"
  by (induction xs) auto

lemma distinct_keyed: "distinct (map fst xs) \<Longrightarrow> inj f \<Longrightarrow> distinct (map fst (map (\<lambda>(k, v). (f k, g v)) xs))"
  unfolding map_fst_keyed by (metis distinct_map inj_on_subset subset_UNIV)

lemma collect_map_keyed:
  assumes "distinct (map fst xs)" "inj f"
  shows "collect_map (map (\<lambda>(k, v). (f k, g v)) xs) = map (\<lambda>(k, v). (f k, g v)) xs"
  using collect_map_distinct [OF distinct_keyed [OF assms]] .

lemma collect_map_inverse:
  assumes "distinct (map fst xs)" "inj f" "inj f'"
    and "\<And>k v. (k, v) \<in> set xs \<Longrightarrow> f' (f k) = k \<and> g' (g v) = v"
  shows "collect_map (map (\<lambda>(k, v). (f' k, g' v)) (collect_map (map (\<lambda>(k, v). (f k, g v)) xs))) = xs"
proof -
  have "collect_map (map (\<lambda>(k, v). (f' k, g' v)) (collect_map (map (\<lambda>(k, v). (f k, g v)) xs)))
      = map (\<lambda>(k, v). (f' k, g' v)) (map (\<lambda>(k, v). (f k, g v)) xs)"
    unfolding collect_map_keyed [OF assms(1,2)] by (rule collect_map_keyed [OF distinct_keyed [OF assms(1,2)] assms(3)])
  also have "\<dots> = xs" using assms(4) by (auto intro!: map_idI)
  finally show ?thesis .
qed

lemma serde_op_inverse [simp]: "op_from_serde (serde_op_from op) = op"
  by (cases op) auto

lemma table_change_inverse:
  "distinct (map fst (tb_entries c)) \<Longrightarrow> table_change_from_serde (serde_table_change_from c) = c"
  by (simp add: table_change_from_serde_def serde_table_change_from_def
      collect_map_inverse [of _ "\<lambda>x. x" "\<lambda>x. x", OF _ inj_on_id2 inj_on_id2])

lemma table_info_inverse: "table_info_from_serde (serde_table_info_from t) = t"
  by (simp add: table_info_from_serde_def serde_table_info_from_def)

lemma inj_handles: "inj handle_address" "inj TableHandle"
  by (auto simp: inj_def handle_address_def intro: table_handle.expand)

lemma tables_inverse:
  assumes "wf_tables t"
  shows "table_change_set_from_serde (serde_table_change_set_from t) = t"
proof -
  have d: "distinct (map fst (ts_new_tables t))" "distinct (map fst (ts_changes t))"
    and c: "\<And>k c. (k, c) \<in> set (ts_changes t) \<Longrightarrow> distinct (map fst (tb_entries c))"
    using assms by (auto simp: wf_tables_def list_all_iff)
  have "TableHandle ` handle_address ` S = S" for S by (simp add: image_image)
  moreover have "collect_map (map (\<lambda>(k, v). (TableHandle k, table_info_from_serde v))
      (collect_map (map (\<lambda>(k, v). (handle_address k, serde_table_info_from v)) (ts_new_tables t)))) = ts_new_tables t"
    by (rule collect_map_inverse [OF d(1) inj_handles]) (simp add: table_info_inverse)
  moreover have "collect_map (map (\<lambda>(k, v). (TableHandle k, table_change_from_serde v))
      (collect_map (map (\<lambda>(k, v). (handle_address k, serde_table_change_from v)) (ts_changes t)))) = ts_changes t"
    by (rule collect_map_inverse [OF d(2) inj_handles]) (simp add: table_change_inverse [OF c])
  ultimately show ?thesis
    by (simp add: table_change_set_from_serde_def serde_table_change_set_from_def)
qed

lemma tries_inverse:
  "distinct (map fst ts) \<Longrightarrow> tries_changes_from_serde (serde_tries_changes_from ts) = ts"
  by (simp add: tries_changes_from_serde_def serde_tries_changes_from_def trie_changes_from_serde_def
      serde_trie_changes_from_def collect_map_inverse [of _ "\<lambda>x. x" "\<lambda>x. x", OF _ inj_on_id2 inj_on_id2])

subsection \<open>Change sets\<close>

lemma add_module_op_new:
  assumes "change_set_laws co" "module_of cs i = None"
  obtains cs' where "co_add_module_op co i op cs = Some cs'" "resource_of cs' = resource_of cs"
    "\<And>j. module_of cs' j = (if j = i then Some op else module_of cs j)"
proof -
  have "\<exists>cs'. co_add_module_op co i op cs = Some cs' \<and>
      (\<forall>j. module_of cs' j = (if j = i then Some op else module_of cs j)) \<and> resource_of cs' = resource_of cs"
    using assms unfolding change_set_laws_def by blast
  then show thesis using that by blast
qed

lemma add_resource_op_new:
  assumes "change_set_laws co" "resource_of cs a t = None"
  obtains cs' where "co_add_resource_op co a t op cs = Some cs'" "module_of cs' = module_of cs"
    "\<And>b u. resource_of cs' b u = (if b = a \<and> u = t then Some op else resource_of cs b u)"
proof -
  have "\<exists>cs'. co_add_resource_op co a t op cs = Some cs' \<and> module_of cs' = module_of cs \<and>
      (\<forall>b u. resource_of cs' b u = (if b = a \<and> u = t then Some op else resource_of cs b u))"
    using assms unfolding change_set_laws_def by blast
  then show thesis using that by blast
qed

lemma add_module_ops_rebuild:
  assumes "change_set_laws co" "distinct (map fst ops)"
    and "\<And>n. n \<in> fst ` set ops \<Longrightarrow> module_of cs \<lparr>mid_address = a, mid_name = n\<rparr> = None"
  shows "\<exists>cs'. add_module_ops co a ops cs = Inr cs' \<and> resource_of cs' = resource_of cs \<and>
    (\<forall>i. module_of cs' i = (case if mid_address i = a then map_of ops (mid_name i) else None of
       Some op \<Rightarrow> Some (op_from_serde op) | None \<Rightarrow> module_of cs i))"
  using assms(2,3)
proof (induction ops arbitrary: cs)
  case (Cons x ops)
  obtain n op where x: "x = (n, op)" by fastforce
  let ?i = "\<lparr>mid_address = a, mid_name = n\<rparr>"
  obtain cs1 where cs1: "co_add_module_op co ?i (op_from_serde op) cs = Some cs1" "resource_of cs1 = resource_of cs"
    and m1: "\<And>j. module_of cs1 j = (if j = ?i then Some (op_from_serde op) else module_of cs j)"
    using add_module_op_new [OF assms(1), of cs ?i "op_from_serde op"] Cons.prems(2) [of n] by (auto simp: x)
  have fresh: "module_of cs1 \<lparr>mid_address = a, mid_name = m\<rparr> = None" if "m \<in> fst ` set ops" for m
    using that Cons.prems by (auto simp: m1 x)
  obtain cs' where "add_module_ops co a ops cs1 = Inr cs'" "resource_of cs' = resource_of cs1"
    and m': "\<And>i. module_of cs' i = (case if mid_address i = a then map_of ops (mid_name i) else None of
       Some op \<Rightarrow> Some (op_from_serde op) | None \<Rightarrow> module_of cs1 i)"
    using Cons.IH [of cs1] fresh Cons.prems(1) by auto
  moreover have "map_of ops n = None" using Cons.prems(1) by (simp add: x map_of_eq_None_iff)
  ultimately show ?case
    by (auto simp: x cs1 m1 split: option.split if_splits intro: module_id.equality)
qed (auto split: option.split)

lemma add_resource_ops_rebuild:
  assumes "change_set_laws co" "distinct (map fst ops)"
    and "\<And>t. t \<in> fst ` set ops \<Longrightarrow> resource_of cs a t = None"
  shows "\<exists>cs'. add_resource_ops co a ops cs = Inr cs' \<and> module_of cs' = module_of cs \<and>
    (\<forall>b t. resource_of cs' b t = (case if b = a then map_of ops t else None of
       Some op \<Rightarrow> Some (op_from_serde op) | None \<Rightarrow> resource_of cs b t))"
  using assms(2,3)
proof (induction ops arbitrary: cs)
  case (Cons x ops)
  obtain t op where x: "x = (t, op)" by fastforce
  obtain cs1 where cs1: "co_add_resource_op co a t (op_from_serde op) cs = Some cs1" "module_of cs1 = module_of cs"
    and r1: "\<And>b u. resource_of cs1 b u = (if b = a \<and> u = t then Some (op_from_serde op) else resource_of cs b u)"
    using add_resource_op_new [OF assms(1), of cs a t "op_from_serde op"] Cons.prems(2) [of t] by (auto simp: x)
  have fresh: "resource_of cs1 a u = None" if "u \<in> fst ` set ops" for u
    using that Cons.prems by (auto simp: r1 x)
  obtain cs' where "add_resource_ops co a ops cs1 = Inr cs'" "module_of cs' = module_of cs1"
    and r': "\<And>b t. resource_of cs' b t = (case if b = a then map_of ops t else None of
       Some op \<Rightarrow> Some (op_from_serde op) | None \<Rightarrow> resource_of cs1 b t)"
    using Cons.IH [of cs1] fresh Cons.prems(1) by auto
  moreover have "map_of ops t = None" using Cons.prems(1) by (simp add: x map_of_eq_None_iff)
  ultimately show ?case by (auto simp: x cs1 r1 split: option.split if_splits)
qed (auto split: option.split)

lemma add_accounts_rebuild:
  assumes "change_set_laws co" "distinct (map fst accs)"
    and "list_all (\<lambda>(_, c). distinct (map fst (sac_modules c)) \<and> distinct (map fst (sac_resources c))) accs"
    and "\<And>i. mid_address i \<in> fst ` set accs \<Longrightarrow> module_of cs i = None"
    and "\<And>a t. a \<in> fst ` set accs \<Longrightarrow> resource_of cs a t = None"
  shows "\<exists>cs'. add_accounts co accs cs = Inr cs' \<and>
    (\<forall>i. module_of cs' i = (case map_of accs (mid_address i) of
       Some c \<Rightarrow> map_option op_from_serde (map_of (sac_modules c) (mid_name i)) | None \<Rightarrow> module_of cs i)) \<and>
    (\<forall>a t. resource_of cs' a t = (case map_of accs a of
       Some c \<Rightarrow> map_option op_from_serde (map_of (sac_resources c) t) | None \<Rightarrow> resource_of cs a t))"
  using assms(2-5)
proof (induction accs arbitrary: cs)
  case (Cons x accs)
  obtain a c where x: "x = (a, c)" by fastforce
  have new: "mid_address i = a \<Longrightarrow> module_of cs i = None" "resource_of cs a t = None" for i t
    using Cons.prems(3,4) by (auto simp: x)
  obtain cs1 where cs1: "add_module_ops co a (sac_modules c) cs = Inr cs1" "resource_of cs1 = resource_of cs"
    and m1: "\<And>i. module_of cs1 i = (case if mid_address i = a then map_of (sac_modules c) (mid_name i) else None of
       Some op \<Rightarrow> Some (op_from_serde op) | None \<Rightarrow> module_of cs i)"
    using add_module_ops_rebuild [OF assms(1), of "sac_modules c" cs a] Cons.prems(2) new(1) by (auto simp: x)
  obtain cs2 where cs2: "add_resource_ops co a (sac_resources c) cs1 = Inr cs2" "module_of cs2 = module_of cs1"
    and r2: "\<And>b t. resource_of cs2 b t = (case if b = a then map_of (sac_resources c) t else None of
       Some op \<Rightarrow> Some (op_from_serde op) | None \<Rightarrow> resource_of cs1 b t)"
    using add_resource_ops_rebuild [OF assms(1), of "sac_resources c" cs1 a] Cons.prems(2) new(2)
    by (auto simp: x cs1(2))
  have notin: "map_of accs a = None" using Cons.prems(1) by (simp add: x map_of_eq_None_iff)
  have "module_of cs2 i = None" if "mid_address i \<in> fst ` set accs" for i
    using that Cons.prems(1,3) by (auto simp: x cs2(2) m1)
  moreover have "resource_of cs2 b t = None" if "b \<in> fst ` set accs" for b t
    using that Cons.prems(1,4) by (auto simp: x cs1(2) r2)
  ultimately obtain cs' where "add_accounts co accs cs2 = Inr cs'"
    and "\<And>i. module_of cs' i = (case map_of accs (mid_address i) of
       Some c \<Rightarrow> map_option op_from_serde (map_of (sac_modules c) (mid_name i)) | None \<Rightarrow> module_of cs2 i)"
    and "\<And>a t. resource_of cs' a t = (case map_of accs a of
       Some c \<Rightarrow> map_option op_from_serde (map_of (sac_resources c) t) | None \<Rightarrow> resource_of cs2 a t)"
    using Cons.IH [of cs2] Cons.prems(1,2) by auto
  then show ?case
    using notin by (auto simp: x cs1 cs2 m1 r2 new split: option.split)
qed simp

lemma map_of_values: "map_of (map (\<lambda>(k, v). (k, f v)) xs) k = map_option f (map_of xs k)"
  by (induction xs) auto

lemma change_set_inverse:
  assumes "change_set_laws co" "wf_changes cs"
  shows "\<exists>cs'. change_set_from_serde co (serde_changes_from cs) = Inr cs' \<and>
    module_of cs' = module_of cs \<and> resource_of cs' = resource_of cs"
proof -
  have d: "distinct (map fst cs)"
    and e: "\<And>a c. (a, c) \<in> set cs \<Longrightarrow> distinct (map fst (ac_modules c))"
      "\<And>a c. (a, c) \<in> set cs \<Longrightarrow> distinct (map fst (ac_resources c))"
    using assms(2) by (auto simp: wf_changes_def list_all_iff)
  let ?accs = "map (\<lambda>(k, v). (k, serde_account_changes_from v)) cs"
  have accs: "sch_accounts (serde_changes_from cs) = ?accs"
    using collect_map_keyed [OF d inj_on_id2] by (simp add: serde_changes_from_def)
  have ops_of: "sac_modules (serde_account_changes_from c) = map (\<lambda>(k, v). (k, serde_op_from v)) (ac_modules c)"
    "sac_resources (serde_account_changes_from c) = map (\<lambda>(k, v). (k, serde_op_from v)) (ac_resources c)"
    if "(a, c) \<in> set cs" for a c
    using collect_map_keyed [OF e(1) [OF that] inj_on_id2] collect_map_keyed [OF e(2) [OF that] inj_on_id2]
    by (simp_all add: serde_account_changes_from_def)
  have found: "map_of cs a = Some c \<Longrightarrow> (a, c) \<in> set cs" for a c by (rule map_of_SomeD)
  have "\<exists>cs'. add_accounts co ?accs [] = Inr cs' \<and>
    (\<forall>i. module_of cs' i = (case map_of ?accs (mid_address i) of
       Some c \<Rightarrow> map_option op_from_serde (map_of (sac_modules c) (mid_name i)) | None \<Rightarrow> module_of [] i)) \<and>
    (\<forall>a t. resource_of cs' a t = (case map_of ?accs a of
       Some c \<Rightarrow> map_option op_from_serde (map_of (sac_resources c) t) | None \<Rightarrow> resource_of [] a t))"
  proof (rule add_accounts_rebuild [OF assms(1)])
    show "distinct (map fst ?accs)" using distinct_keyed [OF d inj_on_id2] .
    show "list_all (\<lambda>(_, c). distinct (map fst (sac_modules c)) \<and> distinct (map fst (sac_resources c))) ?accs"
      using distinct_keyed [OF e(1) inj_on_id2] distinct_keyed [OF e(2) inj_on_id2]
      by (auto simp: list_all_iff ops_of)
  qed (simp_all add: module_of_def resource_of_def)
  then show ?thesis
    by (auto simp: change_set_from_serde_def accs map_of_values module_of_def [of cs] resource_of_def [of cs] fun_eq_iff
        module_of_def [of "[]"] resource_of_def [of "[]"] ops_of [OF found] option.map_comp comp_def option.map_ident
        split: option.split)
qed

text \<open>C39. The image of genesis is faithful: what the node loads when it starts is what was built when it
  was compiled, namely the same operation on every module and every resource, the same table changes
  and the same changes of every storage trie. Loading an image that was saved does not panic.\<close>

theorem image_round_trip:
  assumes "change_set_laws co" "\<And>x bs. to_bytes x = Some bs \<Longrightarrow> from_bytes bs = Some x"
    and "image_save to_bytes (cs, tables, tries) = Inr contents"
    and "wf_changes cs" "wf_tables tables" "distinct (map fst tries)"
  shows "\<exists>cs' tries'. image_load co from_bytes contents = Inr (cs', tables, tries') \<and>
    module_of cs' = module_of cs \<and> resource_of cs' = resource_of cs \<and> map_of tries' = map_of tries"
proof -
  let ?image = "serde_all_changes_new (serde_changes_from cs) (serde_table_change_set_from tables)
    (serde_tries_changes_from tries)"
  have "to_bytes ?image = Some contents"
    using assms(3) by (auto simp: image_save_def split: option.splits)
  then have "from_bytes contents = Some ?image" by (rule assms(2))
  then show ?thesis
    using change_set_inverse [OF assms(1,4)] tables_inverse [OF assms(5)] tries_inverse [OF assms(6)]
    by (auto simp: image_load_def serde_all_changes_new_def)
qed

section \<open>Witness\<close>

definition changes_at :: "change_set \<Rightarrow> account_address \<Rightarrow> account_changes" where
  "changes_at cs a = unwrap_or (map_of cs a) \<lparr>ac_modules = [], ac_resources = []\<rparr>"

definition squashed :: "change_set \<Rightarrow> change_set \<Rightarrow> account_address \<Rightarrow> account_changes" where
  "squashed cs ds a =
     \<lparr>ac_modules = ac_modules (changes_at ds a) @ ac_modules (changes_at cs a),
      ac_resources = ac_resources (changes_at ds a) @ ac_resources (changes_at cs a)\<rparr>"

definition example_merge :: "change_set \<Rightarrow> change_set \<Rightarrow> change_set" where
  "example_merge cs ds = map (\<lambda>a. (a, squashed cs ds a)) (map fst cs @ map fst ds)"

definition example_change_set_ops :: change_set_ops where
  "example_change_set_ops =
     \<lparr>co_add_module_op = (\<lambda>i op cs. let c = changes_at cs (mid_address i)
        in if module_of cs i \<noteq> None then None
           else Some ((mid_address i, c\<lparr>ac_modules := (mid_name i, op) # ac_modules c\<rparr>) # cs)),
      co_add_resource_op = (\<lambda>a t op cs. let c = changes_at cs a
        in if resource_of cs a t \<noteq> None then None
           else Some ((a, c\<lparr>ac_resources := (t, op) # ac_resources c\<rparr>) # cs)),
      co_squash = (\<lambda>cs ds. Some (example_merge cs ds))\<rparr>"

lemma of_changes_at:
  "module_of cs i = map_of (ac_modules (changes_at cs (mid_address i))) (mid_name i)"
  "resource_of cs a t = map_of (ac_resources (changes_at cs a)) t"
  by (simp_all add: module_of_def resource_of_def changes_at_def split: option.split)

lemma changes_at_Cons: "changes_at ((a, c) # cs) b = (if b = a then c else changes_at cs b)"
  by (simp add: changes_at_def)

lemma map_of_graph: "map_of (map (\<lambda>a. (a, f a)) ks) b = (if b \<in> set ks then Some (f b) else None)"
  by (induction ks) auto

lemma changes_at_squash: "changes_at (example_merge cs ds) b = squashed cs ds b"
proof (cases "b \<in> set (map fst cs @ map fst ds)")
  case True
  then show ?thesis unfolding example_merge_def changes_at_def [of "map _ _"] map_of_graph by simp
next
  case False
  then have "map_of cs b = None" "map_of ds b = None" by (simp_all add: map_of_eq_None_iff)
  with False show ?thesis
    unfolding example_merge_def changes_at_def [of "map _ _"] map_of_graph by (simp add: squashed_def changes_at_def)
qed

lemma example_change_set_laws: "change_set_laws example_change_set_ops"
  by (auto simp: change_set_laws_def example_change_set_ops_def of_changes_at Let_def changes_at_Cons fun_eq_iff
      changes_at_squash squashed_def map_add_def split: option.splits)

abbreviation example_genesis_changes :: change_set where
  "example_genesis_changes \<equiv>
     [(FRAMEWORK_ADDRESS, \<lparr>ac_modules = [(''account'', New [1]), (''code'', Modify [2])], ac_resources = []\<rparr>)]"

theorem image_round_trip_witness:
  "\<exists>cs'. image_load example_change_set_ops
       (\<lambda>_. Some (serde_all_changes_new (serde_changes_from example_genesis_changes)
          (serde_table_change_set_from \<lparr>ts_new_tables = [], ts_removed_tables = {}, ts_changes = []\<rparr>)
          (serde_tries_changes_from []))) [] = Inr (cs', \<lparr>ts_new_tables = [], ts_removed_tables = {}, ts_changes = []\<rparr>, [])
     \<and> module_of cs' \<lparr>mid_address = FRAMEWORK_ADDRESS, mid_name = ''code''\<rparr> = Some (Modify [2])"
proof -
  let ?tables = "\<lparr>ts_new_tables = [], ts_removed_tables = {}, ts_changes = []\<rparr>"
  let ?x = "serde_all_changes_new (serde_changes_from example_genesis_changes)
    (serde_table_change_set_from ?tables) (serde_tries_changes_from [])"
  have "\<exists>cs' tries'. image_load example_change_set_ops (\<lambda>_. Some ?x) [] = Inr (cs', ?tables, tries') \<and>
    module_of cs' = module_of example_genesis_changes \<and> resource_of cs' = resource_of example_genesis_changes \<and>
    map_of tries' = map_of []"
    by (rule image_round_trip [OF example_change_set_laws, where to_bytes = "\<lambda>x. if x = ?x then Some [] else None"])
      (auto simp: image_save_def wf_changes_def wf_tables_def split: if_splits)
  then show ?thesis by (auto simp: module_of_def [of example_genesis_changes])
qed

end
