(* ===== verification/Genesis_Tokens.thy ===== *)
theory Genesis_Tokens
  imports Genesis_Image Json_Rpc Evm_Native Solidity_Abi
begin

text \<open>
  Bridged tokens of genesis: \<^verbatim>\<open>genesis/src/bridged_tokens.rs\<close>. The entries of the token list of the
  Superchain are parsed, those that do not use the standard bridge are skipped, and the others are
  deployed by calls to the factory contract over the changes that the L2 contracts made. The file
  system, JSON text, the parsing of addresses, ABI encoding and the EVM are third-party code; errors of
  \<open>anyhow\<close> are their messages.
\<close>

definition FACTORY_ADDRESS :: address where
  "FACTORY_ADDRESS = 0x42 # replicate 18 0 @ [0x12]"

definition FACTORY_SELECTOR :: bytes where
  "FACTORY_SELECTOR = [0x8c, 0xf0, 0x62, 0x9c]"

record bridged_token =
  bt_name :: string
  bt_symbol :: string
  bt_decimals :: u8
  bt_ethereum_address :: address

section \<open>Parsing\<close>

fun as_bool :: "json \<Rightarrow> bool option" where
  "as_bool (JBool b) = Some b"
| "as_bool x = None"

fun as_u64 :: "json \<Rightarrow> u64 option" where
  "as_u64 (JNumber n) = (if 0 \<le> n \<and> n < 2 ^ 64 then Some (of_int n) else None)"
| "as_u64 x = None"

abbreviation option_and_then :: "'a option \<Rightarrow> ('a \<Rightarrow> 'b option) \<Rightarrow> 'b option" where
  "option_and_then \<equiv> Option.bind"

definition bool_or_true :: "json \<Rightarrow> bool" where
  "bool_or_true v = unwrap_or (as_bool v) True"

definition has_ethereum_bridge_override :: "(string \<times> json) list \<Rightarrow> bool option" where
  "has_ethereum_bridge_override ethereum =
     option_and_then (map_of ethereum ''overrides'') (\<lambda>v. option_and_then (as_object v) (\<lambda>overrides.
     option_and_then (map_of overrides ''bridge'') (\<lambda>v. option_and_then (as_object v) (\<lambda>bridge.
     Some (map_of bridge ''optimism'' \<noteq> None)))))"

definition has_optimism_bridge_override :: "(string \<times> json) list \<Rightarrow> bool option" where
  "has_optimism_bridge_override optimism =
     option_and_then (map_of optimism ''overrides'') (\<lambda>v. option_and_then (as_object v) (\<lambda>overrides.
     Some (map_of overrides ''bridge'' \<noteq> None)))"

definition flagged :: "(string \<times> json) list \<Rightarrow> string \<Rightarrow> bool" where
  "flagged object field = unwrap_or (map_option bool_or_true (map_of object field)) False"

text \<open>A field of the overrides replaces a value when it is present and has the right type.\<close>

definition overridden :: "(string \<times> json) list \<Rightarrow> string \<Rightarrow> (json \<Rightarrow> 'a option) \<Rightarrow> 'a \<Rightarrow> 'a" where
  "overridden optimism field as value =
     (case option_and_then (map_of optimism ''overrides'') as_object of
        None \<Rightarrow> value
      | Some overrides \<Rightarrow> unwrap_or (option_and_then (map_of overrides field) as) value)"

definition parse_json :: "(string \<Rightarrow> string + address) \<Rightarrow> json \<Rightarrow> string + bridged_token option" where
  "parse_json parse_address x =
     rbind (ok_or (as_object x) ''Must be object'') (\<lambda>object.
     if flagged object ''nonstandard'' \<or> flagged object ''nobridge'' then Inr None
     else
     rbind (ok_or (option_and_then (map_of object ''name'') as_str) ''Name must be a string'') (\<lambda>name.
     rbind (ok_or (option_and_then (map_of object ''symbol'') as_str) ''Symbol must be a string'') (\<lambda>symbol.
     rbind (ok_or (option_and_then (map_of object ''decimals'') as_u64) ''Decimals must be a number'') (\<lambda>decimals.
     rbind (ok_or (option_and_then (map_of object ''tokens'') as_object) ''Tokens must be an object'') (\<lambda>tokens.
     case option_and_then (map_of tokens ''ethereum'') as_object of None \<Rightarrow> Inr None | Some ethereum \<Rightarrow>
     case option_and_then (map_of tokens ''optimism'') as_object of None \<Rightarrow> Inr None | Some optimism \<Rightarrow>
     if unwrap_or (has_ethereum_bridge_override ethereum) False \<or>
        unwrap_or (has_optimism_bridge_override optimism) False then Inr None
     else
     rbind (ok_or (option_and_then (map_of ethereum ''address'') as_str) ''Ethereum address must be a string'') (\<lambda>s.
     rbind (parse_address s) (\<lambda>ethereum_address.
     if ethereum_address = replicate 20 0 then Inr None
     else
     let name = overridden optimism ''name'' as_str name;
         symbol = overridden optimism ''symbol'' as_str symbol;
         decimals = overridden optimism ''decimals'' as_u64 decimals
     in if decimals > 255 then Inl ''Invalid value for token decimals''
        else Inr (Some \<lparr>bt_name = name, bt_symbol = symbol, bt_decimals = ucast decimals,
                        bt_ethereum_address = ethereum_address\<rparr>))))))))"

text \<open>Entries of a directory are given by their path and whether they are directories themselves.\<close>

record token_files =
  tk_is_dir :: "string \<Rightarrow> bool"
  tk_read_to_string :: "string \<Rightarrow> string + string"
  tk_read_dir :: "string \<Rightarrow> string + (string + string \<times> (string + bool)) list"
  tk_join :: "string \<Rightarrow> string \<Rightarrow> string"
  tk_from_str :: "string \<Rightarrow> string + json"
  tk_parse_address :: "string \<Rightarrow> string + address"

definition parse_single_data_file :: "token_files \<Rightarrow> string \<Rightarrow> string + bridged_token option" where
  "parse_single_data_file tk path =
     rbind (tk_read_to_string tk path) (\<lambda>data.
     rbind (tk_from_str tk data) (parse_json (tk_parse_address tk)))"

fun parse_values :: "token_files \<Rightarrow> json list \<Rightarrow> string + bridged_token list" where
  "parse_values tk [] = Inr []"
| "parse_values tk (v # vs) =
     rbind (parse_json (tk_parse_address tk) v) (\<lambda>t.
     rbind (parse_values tk vs) (\<lambda>ts. Inr (case t of None \<Rightarrow> ts | Some token \<Rightarrow> token # ts)))"

fun parse_entries :: "token_files \<Rightarrow> (string + string \<times> (string + bool)) list \<Rightarrow> string + bridged_token list" where
  "parse_entries tk [] = Inr []"
| "parse_entries tk (maybe_entry # es) =
     rbind maybe_entry (\<lambda>(path, metadata).
     rbind metadata (\<lambda>is_dir.
     rbind (if is_dir then parse_single_data_file tk (tk_join tk path ''data.json'') else Inr None) (\<lambda>t.
     rbind (parse_entries tk es) (\<lambda>ts. Inr (case t of None \<Rightarrow> ts | Some token \<Rightarrow> token # ts)))))"

definition parse_token_list :: "token_files \<Rightarrow> string \<Rightarrow> string + bridged_token list" where
  "parse_token_list tk path =
     (if \<not> tk_is_dir tk path then
        rbind (map_err (\<lambda>_. ''Path: '' @ path) (tk_read_to_string tk path)) (\<lambda>data.
        rbind (tk_from_str tk data) (\<lambda>x.
        rbind (ok_or (as_array x) ''Single file must contain an array'') (parse_values tk)))
      else rbind (tk_read_dir tk path) (parse_entries tk))"

section \<open>Deployment\<close>

text \<open>Errors that \<open>?\<close> wraps into an \<open>anyhow\<close> error, and messages of the function itself.\<close>

datatype deploy_error = DeployMessage string | DeployStorage storage_error | DeploySquash

definition encode_params :: "(sol_value \<Rightarrow> bytes) \<Rightarrow> (string \<Rightarrow> bytes) \<Rightarrow> bridged_token \<Rightarrow> bytes" where
  "encode_params abi_encode_params utf8 token =
     FACTORY_SELECTOR @ abi_encode_params (STuple
       [SAddress (bt_ethereum_address token), SString (utf8 (bt_name token)), SString (utf8 (bt_symbol token)),
        SUint (ucast (bt_decimals token)) 8])"

definition changes_based_resolver :: "change_set \<Rightarrow> resolver" where
  "changes_based_resolver changes =
     \<lparr>rs_module = (\<lambda>i. Inr (Inr (option_and_then (module_of changes i) op_ok))),
      rs_resource = (\<lambda>a tag. let bs = option_and_then (resource_of changes a tag) op_ok
        in Inr (Inr (bs, case bs of None \<Rightarrow> 0 | Some b \<Rightarrow> length b)))\<rparr>"

fun deploy_tokens ::
  "('m, 'x) evm_machine \<Rightarrow> 't evm_ops \<Rightarrow> (bridged_token \<Rightarrow> bytes) \<Rightarrow> bridged_token list
     \<Rightarrow> 'm native_evm_context \<Rightarrow> deploy_error + 'm native_evm_context" where
  "deploy_tokens ev eo encode [] ctx = Inr ctx"
| "deploy_tokens ev eo encode (token # tokens) ctx =
     (case evm_transact_with_native ev eo (replicate 20 0) (Call FACTORY_ADDRESS) 0 (encode token) max_of ctx of
        (Inl _, _) \<Rightarrow> Inl (DeployMessage ''Bridged token deployment failed: evm_transact_with_native'')
      | (Inr outcome, ctx') \<Rightarrow>
          if \<not> xr_is_success (ras_result outcome) then Inl (DeployMessage ''Bridged token deployment failed: EVM outcome'')
          else deploy_tokens ev eo encode tokens ctx')"

text \<open>
  The context gets the logger and the block hashes of the unit type, which keep and return nothing;
  nobody reads the log of the context here. \<open>cache\<close> is the empty cache of the EVM and \<open>hdr\<close> the default
  header.
\<close>

definition deploy_bridged_tokens ::
  "('m, 'x) evm_machine \<Rightarrow> 't evm_ops \<Rightarrow> change_set_ops \<Rightarrow> (bridged_token \<Rightarrow> bytes)
     \<Rightarrow> 'm \<Rightarrow> header_for_execution \<Rightarrow> evm_changes \<Rightarrow> bridged_token list \<Rightarrow> panic + (deploy_error + evm_changes)" where
  "deploy_bridged_tokens ev eo co encode cache hdr l2_changes tokens =
     (case repository_apply (en_storage eo) (ec_storage l2_changes) repository_new of
        (Inl e, _) \<Rightarrow> Inr (Inl (DeployStorage e))
      | (Inr _, trie_storage) \<Rightarrow>
          let ctx = native_evm_context_new (changes_based_resolver (ec_accounts l2_changes)) trie_storage
                eth_transfers_logger_default hdr (\<lambda>_. None) cache
          in (case deploy_tokens ev eo encode tokens ctx of
                Inl e \<Rightarrow> Inr (Inl e)
              | Inr ctx' \<Rightarrow>
                  rbind (extract_evm_changes_from_native eo ctx') (\<lambda>(new_changes, _).
                  case co_squash co (ec_accounts l2_changes) (ec_accounts new_changes) of
                    None \<Rightarrow> Inr (Inl DeploySquash)
                  | Some accounts \<Rightarrow>
                      Inr (Inr \<lparr>ec_accounts = accounts,
                        ec_storage = fold (\<lambda>(a, c). with_trie_changes a c)
                          (ss_order (en_storage eo) (ec_storage new_changes)) (ec_storage l2_changes)\<rparr>))))"

section \<open>Which tokens are bridged\<close>

text \<open>A token that is bridged is not marked as non-standard, does not use another bridge on either
  side, is not the base token, and its decimals fit their width.\<close>

lemma skip_Some_iff:
  "(case x of None \<Rightarrow> Inr None | Some y \<Rightarrow> f y) = Inr (Some z) \<longleftrightarrow> (\<exists>y. x = Some y \<and> f y = Inr (Some z))"
  "(if b then Inr None else r) = Inr (Some z) \<longleftrightarrow> \<not> b \<and> r = Inr (Some z)"
  "(if b then Inl e else r) = Inr v \<longleftrightarrow> \<not> b \<and> r = Inr v"
  by (simp_all split: option.split)

lemma as_Some_iff [simp]:
  "as_object x = Some kvs \<longleftrightarrow> x = JObject kvs" "as_str x = Some s \<longleftrightarrow> x = JString s"
  by (cases x; auto)+

lemma parse_json_standard:
  assumes "parse_json pa (JObject object) = Inr (Some t)"
  shows "\<not> flagged object ''nonstandard''" "\<not> flagged object ''nobridge''" "bt_ethereum_address t \<noteq> replicate 20 0"
    "\<exists>ts eth opt s. map_of object ''tokens'' = Some (JObject ts) \<and>
      map_of ts ''ethereum'' = Some (JObject eth) \<and> map_of ts ''optimism'' = Some (JObject opt) \<and>
      has_ethereum_bridge_override eth \<noteq> Some True \<and> has_optimism_bridge_override opt \<noteq> Some True \<and>
      map_of eth ''address'' = Some (JString s) \<and> pa s = Inr (bt_ethereum_address t)"
  using assms unfolding parse_json_def Let_def
  by (auto simp: rbind_Inr_iff skip_Some_iff bind_eq_Some_conv)

section \<open>Storage of the tokens\<close>

lemma map_of_with_trie_changes:
  "map_of (with_trie_changes a c ts) = (map_of ts)
     (a \<mapsto> (case map_of ts a of Some old \<Rightarrow> storage_trie_changes_add old c | None \<Rightarrow> c))"
  by (auto simp: with_trie_changes_def update_conv' delete_conv' fun_eq_iff)

lemma map_of_merged:
  assumes "distinct (map fst cs)"
  shows "map_of (fold (\<lambda>(a, c). with_trie_changes a c) cs ts) a =
    (case map_of cs a of
       None \<Rightarrow> map_of ts a
     | Some c \<Rightarrow> Some (case map_of ts a of Some old \<Rightarrow> storage_trie_changes_add old c | None \<Rightarrow> c))"
  using assms
proof (induction cs arbitrary: ts)
  case (Cons x cs)
  obtain b c where x: "x = (b, c)" by fastforce
  have "map_of cs b = None" using Cons.prems by (simp add: x map_of_eq_None_iff)
  with Cons show ?case by (auto simp: x map_of_with_trie_changes split: option.splits)
qed simp

lemma distinct_with_trie_changes: "distinct (map fst ts) \<Longrightarrow> distinct (map fst (with_trie_changes a c ts))"
  by (simp add: with_trie_changes_def distinct_update distinct_delete)

end
