(* ===== verification/Genesis.thy ===== *)
theory Genesis
  imports Genesis_Tokens App_Queries
begin

text \<open>
  Genesis: \<^verbatim>\<open>genesis/src/framework.rs\<close>, \<^verbatim>\<open>l2_contracts.rs\<close> and \<^verbatim>\<open>lib.rs\<close>, and the start of the node in
  \<^verbatim>\<open>server/src/lib.rs\<close>. The packages of the Aptos framework are published one after the other, each on
  top of the ones before, and initialised; the base token and the Sui framework follow, then the L2
  contracts and the bridged tokens. Compiled packages, the staging and verification of modules and the
  sessions of the virtual machine are third-party code, the fields of \<open>framework_ops\<close>.
\<close>

section \<open>Addresses\<close>

definition genesis_eth_address :: "bytes \<Rightarrow> account_address" where
  "genesis_eth_address value = fold (\<lambda>i buf. buf[i + 12 := value ! i]) [0..<20] (replicate 32 0)"

definition small_account_address :: "u8 \<Rightarrow> account_address" where
  "small_account_address value = (replicate 32 0)[31 := value]"

definition GENESIS_L2_LOWEST_ADDRESS :: account_address where
  "GENESIS_L2_LOWEST_ADDRESS = genesis_eth_address (0x42 # replicate 19 0)"

definition GENESIS_L2_HIGHEST_ADDRESS :: account_address where
  "GENESIS_L2_HIGHEST_ADDRESS = genesis_eth_address (0x42 # replicate 18 0 @ [0xff])"

definition TOKEN_ADDRESS :: account_address where
  "TOKEN_ADDRESS = small_account_address 0x13"

definition TOKEN_OBJECT_ADDRESS :: account_address where
  "TOKEN_OBJECT_ADDRESS = small_account_address 0x14"

definition SUI_STDLIB_ADDRESS :: account_address where
  "SUI_STDLIB_ADDRESS = small_account_address 0x21"

definition SUI_FRAMEWORK_ADDRESS :: account_address where
  "SUI_FRAMEWORK_ADDRESS = small_account_address 0x22"

definition L2_PACKAGE_NAME :: string where
  "L2_PACKAGE_NAME = ''L2''"

section \<open>Third-party packages and sessions\<close>

text \<open>\<open>rp_modules\<close> are the code and the identifiers of the modules of a package in dependency order,
  \<open>rp_metadata\<close> is the BCS encoding of its metadata. The Sui packages are keyed by the byte of their
  identifier.\<close>

record release_package =
  rp_name :: string
  rp_modules :: "(bytes \<times> module_id) list"
  rp_metadata :: "bytes option"

record ('r, 's) framework_ops =
  fo_aptos :: "release_package list"
  fo_sui :: "u8 \<Rightarrow> bytes list option"
  fo_stage :: "'r \<Rightarrow> account_address \<Rightarrow> bytes list \<Rightarrow> vm_error + (module_id \<times> bytes) list"
  fo_create_vm :: "vm_error + unit"
  fo_new_session :: "'r \<Rightarrow> 's"
  fo_vm :: "'s vm_ops"
  fo_finish :: "'s \<Rightarrow> vm_error + change_set"
  fo_resolver :: "'r \<Rightarrow> resolver"

datatype genesis_fault = GenesisVm vm_error | GenesisPanic string

type_synonym 'a genesis = "genesis_fault + 'a"

definition lift_panic :: "panic + 'a \<Rightarrow> 'a genesis" where
  "lift_panic r = map_err (\<lambda>p. case p of Panic m \<Rightarrow> GenesisPanic m) r"

definition lift_vm :: "vm_error + 'a \<Rightarrow> 'a genesis" where
  "lift_vm r = map_err GenesisVm r"

definition or_panic :: "'a option \<Rightarrow> string \<Rightarrow> 'a genesis" where
  "or_panic x m = ok_or x (GenesisPanic m)"

definition UNWRAP_ERR :: string where
  "UNWRAP_ERR = ''called Result::unwrap() on an Err value''"

section \<open>Publishing packages\<close>

fun bundle_ops :: "change_set_ops \<Rightarrow> (module_id \<times> bytes) list \<Rightarrow> change_set \<Rightarrow> change_set genesis" where
  "bundle_ops co [] writes = Inr writes"
| "bundle_ops co ((i, code) # bundle) writes =
     rbind (or_panic (co_add_module_op co i (New code) writes) UNWRAP_ERR) (bundle_ops co bundle)"

definition convert_bundle_into_module_ops ::
  "change_set_ops \<Rightarrow> (module_id \<times> bytes) list \<Rightarrow> change_set genesis" where
  "convert_bundle_into_module_ops co bundle = bundle_ops co bundle []"

definition stage_modules ::
  "('r, 's) framework_ops \<Rightarrow> change_set_ops \<Rightarrow> 'r \<Rightarrow> account_address \<Rightarrow> bytes list \<Rightarrow> change_set genesis" where
  "stage_modules fo co r sender code =
     rbind (lift_vm (fo_stage fo r sender code)) (convert_bundle_into_module_ops co)"

fun l2_package_writes ::
  "('r, 's) framework_ops \<Rightarrow> change_set_ops \<Rightarrow> 'r \<Rightarrow> (bytes \<times> module_id) list \<Rightarrow> change_set \<Rightarrow> change_set genesis"
where
  "l2_package_writes fo co r [] writes = Inr writes"
| "l2_package_writes fo co r ((code, i) # modules) writes =
     (let sender = mid_address i
      in if \<not> (bytes_le GENESIS_L2_LOWEST_ADDRESS sender \<and> bytes_le sender GENESIS_L2_HIGHEST_ADDRESS)
         then Inl (GenesisPanic ''L2 module should be within the allowed address range.'')
         else rbind (stage_modules fo co r sender [code]) (\<lambda>single.
              rbind (or_panic (co_squash co writes single) UNWRAP_ERR) (l2_package_writes fo co r modules)))"

definition package_sender :: "release_package \<Rightarrow> account_address option" where
  "package_sender p = (case rp_modules p of [] \<Rightarrow> None | (_, i) # _ \<Rightarrow> Some (mid_address i))"

definition package_writes ::
  "('r, 's) framework_ops \<Rightarrow> change_set_ops \<Rightarrow> 'r \<Rightarrow> release_package \<Rightarrow> change_set genesis" where
  "package_writes fo co r p =
     (if rp_name p = L2_PACKAGE_NAME then l2_package_writes fo co r (rp_modules p) []
      else rbind (or_panic (package_sender p) ''Package has at least one module'') (\<lambda>sender.
        if \<not> (sender = FRAMEWORK_ADDRESS \<or> sender = TOKEN_ADDRESS \<or> sender = TOKEN_OBJECT_ADDRESS)
        then Inl (GenesisPanic ''The framework should be deployed to a statically known address.'')
        else stage_modules fo co r sender (map fst (rp_modules p))))"

definition apply_unwrap ::
  "('k, 'db, 't, 'r, 'tc) state_ops \<Rightarrow> change_set \<Rightarrow> ('db, 'r) in_memory_state
     \<Rightarrow> ('db, 'r) in_memory_state genesis" where
  "apply_unwrap so writes st =
     rbind (lift_panic (state_apply so writes st)) (\<lambda>(r, st').
     case r of Inl _ \<Rightarrow> Inl (GenesisPanic UNWRAP_ERR) | Inr _ \<Rightarrow> Inr st')"

fun publish_packages ::
  "('r, 's) framework_ops \<Rightarrow> change_set_ops \<Rightarrow> ('k, 'db, 't, 'r, 'tc) state_ops \<Rightarrow> release_package list
     \<Rightarrow> change_set \<Rightarrow> ('db, 'r) in_memory_state \<Rightarrow> (change_set \<times> ('db, 'r) in_memory_state) genesis" where
  "publish_packages fo co so [] framework_writes st = Inr (framework_writes, st)"
| "publish_packages fo co so (p # ps) framework_writes st =
     rbind (package_writes fo co (im_resolver st) p) (\<lambda>writes.
     rbind (apply_unwrap so writes st) (\<lambda>st'.
     rbind (or_panic (co_squash co framework_writes writes)
         ''Packages in framework should not conflict with each other'') (\<lambda>framework_writes'.
     publish_packages fo co so ps framework_writes' st')))"

definition initialize_package ::
  "('r, 's) framework_ops \<Rightarrow> account_address \<Rightarrow> release_package \<Rightarrow> 's \<Rightarrow> 's genesis" where
  "initialize_package fo addr package s =
     rbind (or_panic (simple_serialize (fo_vm fo) (VSigner FRAMEWORK_ADDRESS)) UNWRAP_ERR) (\<lambda>framework.
     rbind (or_panic (simple_serialize (fo_vm fo) (VSigner addr)) UNWRAP_ERR) (\<lambda>signer.
     rbind (or_panic (rp_metadata package) UNWRAP_ERR) (\<lambda>metadata.
     case execute_function_bypass_visibility (fo_vm fo) \<lparr>mid_address = FRAMEWORK_ADDRESS, mid_name = ''code''\<rparr>
            ''initialize'' [] [framework, signer, metadata] Unmetered s of
       (Inl _, _) \<Rightarrow> Inl (GenesisPanic UNWRAP_ERR)
     | (Inr _, s') \<Rightarrow> Inr s')))"

fun initialize_packages :: "('r, 's) framework_ops \<Rightarrow> release_package list \<Rightarrow> 's \<Rightarrow> 's genesis" where
  "initialize_packages fo [] s = Inr s"
| "initialize_packages fo (p # ps) s =
     rbind (or_panic (package_sender p) ''called Option::unwrap() on a None value'') (\<lambda>addr.
     rbind (initialize_package fo addr p s) (initialize_packages fo ps))"

definition deploy_aptos_framework ::
  "('r, 's) framework_ops \<Rightarrow> change_set_ops \<Rightarrow> ('k, 'db, 't, 'r, 'tc) state_ops \<Rightarrow> ('db, 'r) in_memory_state
     \<Rightarrow> (change_set \<times> ('db, 'r) in_memory_state) genesis" where
  "deploy_aptos_framework fo co so st =
     rbind (publish_packages fo co so (fo_aptos fo) [] st) (\<lambda>(framework_writes, st').
     rbind (lift_vm (fo_create_vm fo)) (\<lambda>_.
     rbind (initialize_packages fo (fo_aptos fo) (fo_new_session fo (im_resolver st'))) (\<lambda>s.
     rbind (lift_vm (fo_finish fo s)) (\<lambda>session_changes.
     rbind (or_panic (co_squash co framework_writes session_changes)
         ''Initialization logic should not conflict with module writes'') (\<lambda>cs.
     Inr (cs, st'))))))"

definition initialize_eth_token ::
  "('r, 's) framework_ops \<Rightarrow> ('db, 'r) in_memory_state \<Rightarrow> change_set genesis" where
  "initialize_eth_token fo st =
     rbind (lift_vm (fo_create_vm fo)) (\<lambda>_.
     rbind (or_panic (bcs_to_bytes (fo_vm fo) (VSigner FRAMEWORK_ADDRESS))
         ''Serialization of constant must succeed'') (\<lambda>args.
     case execute_function_bypass_visibility (fo_vm fo) \<lparr>mid_address = FRAMEWORK_ADDRESS, mid_name = ''eth_token''\<rparr>
            ''init_module'' [] [args] Unmetered (fo_new_session fo (im_resolver st)) of
       (Inl e, _) \<Rightarrow> Inl (GenesisVm e)
     | (Inr _, s) \<Rightarrow> lift_vm (fo_finish fo s)))"

text \<open>One of the two Sui packages: staged over the current state, applied, and added to the writes.\<close>

definition deploy_sui_package ::
  "('r, 's) framework_ops \<Rightarrow> change_set_ops \<Rightarrow> ('k, 'db, 't, 'r, 'tc) state_ops \<Rightarrow> u8 \<Rightarrow> account_address
     \<Rightarrow> string \<Rightarrow> string \<Rightarrow> change_set \<Rightarrow> ('db, 'r) in_memory_state
     \<Rightarrow> (change_set \<times> ('db, 'r) in_memory_state) genesis" where
  "deploy_sui_package fo co so package_id sender missing conflict total_writes st =
     rbind (or_panic (fo_sui fo package_id) missing) (\<lambda>code.
     rbind (stage_modules fo co (im_resolver st) sender code) (\<lambda>writes.
     rbind (apply_unwrap so writes st) (\<lambda>st'.
     rbind (or_panic (co_squash co total_writes writes) conflict) (\<lambda>total_writes'.
     Inr (total_writes', st')))))"

definition deploy_sui_framework ::
  "('r, 's) framework_ops \<Rightarrow> change_set_ops \<Rightarrow> ('k, 'db, 't, 'r, 'tc) state_ops \<Rightarrow> ('db, 'r) in_memory_state
     \<Rightarrow> (change_set \<times> ('db, 'r) in_memory_state) genesis" where
  "deploy_sui_framework fo co so st =
     rbind (deploy_sui_package fo co so 0x21 SUI_STDLIB_ADDRESS ''Sui Move Stdlib package should exist in snapshot''
         ''Sui stdlib can be squashed with empty change set'' [] st) (\<lambda>(total_writes, st').
     deploy_sui_package fo co so 0x22 SUI_FRAMEWORK_ADDRESS ''Sui Framework package should exist in snapshot''
       ''Sui framework can be squashed with stdlib'' total_writes st')"

definition deploy_framework ::
  "('r, 's) framework_ops \<Rightarrow> change_set_ops \<Rightarrow> ('k, 'db, 't, 'r, 'tc) state_ops \<Rightarrow> ('db, 'r) in_memory_state
     \<Rightarrow> (change_set \<times> ('db, 'r) in_memory_state) genesis" where
  "deploy_framework fo co so st =
     rbind (deploy_aptos_framework fo co so st) (\<lambda>(aptos, st1).
     rbind (initialize_eth_token fo st1) (\<lambda>eth.
     rbind (deploy_sui_framework fo co so st1) (\<lambda>(sui, st2).
     rbind (or_panic (co_squash co aptos eth) ''Aptos and EthToken changes should not conflict'') (\<lambda>aptos'.
     rbind (or_panic (co_squash co aptos' sui) ''Aptos and Sui changes should not conflict'') (\<lambda>aptos''.
     Inr (aptos'', st2))))))"

definition framework_init_state ::
  "('r, 's) framework_ops \<Rightarrow> change_set_ops \<Rightarrow> ('k, 'db, 't, 'r, 'tc) state_ops \<Rightarrow> ('db, 'r) in_memory_state
     \<Rightarrow> (change_set \<times> ('db, 'r) in_memory_state) genesis" where
  "framework_init_state fo co so st =
     (case deploy_framework fo co so st of
        Inl (GenesisVm _) \<Rightarrow> Inl (GenesisPanic ''All bundle modules should be valid'')
      | r \<Rightarrow> r)"

section \<open>Building and applying genesis\<close>

record genesis_build_config = genesis_config +
  gb_l2_contract_genesis :: "(address \<times> genesis_account) list"
  gb_token_list :: "bridged_token list"

definition l2_init_state ::
  "'u evm_ops \<Rightarrow> ('r, 's) framework_ops \<Rightarrow> (address \<times> genesis_account) list \<Rightarrow> ('db, 'r) in_memory_state
     \<Rightarrow> repository \<Rightarrow> panic + evm_changes \<times> repository" where
  "l2_init_state eo fo genesis st repo = genesis_state_changes eo (fo_resolver fo (im_resolver st)) genesis repo"

definition table_change_set_default :: table_change_set where
  "table_change_set_default = \<lparr>ts_new_tables = [], ts_removed_tables = {}, ts_changes = []\<rparr>"

text \<open>\<open>deploy\<close> stands for \<open>deploy_bridged_tokens\<close> with the EVM it runs on; \<open>st0\<close> is the empty
  in-memory state.\<close>

definition genesis_build ::
  "('r, 's) framework_ops \<Rightarrow> change_set_ops \<Rightarrow> ('k, 'db, 't, 'r, table_change_set) state_ops \<Rightarrow> 'u evm_ops
     \<Rightarrow> (evm_changes \<Rightarrow> bridged_token list \<Rightarrow> panic + (deploy_error + evm_changes)) \<Rightarrow> ('db, 'r) in_memory_state
     \<Rightarrow> genesis_build_config \<Rightarrow> repository
     \<Rightarrow> (change_set \<times> table_change_set \<times> storage_tries_changes \<times> repository) genesis" where
  "genesis_build fo co so eo deploy st0 cfg repo =
     rbind (framework_init_state fo co so st0) (\<lambda>(changes_framework, st).
     rbind (lift_panic (l2_init_state eo fo (gb_l2_contract_genesis cfg) st repo)) (\<lambda>(changes_l2, repo').
     rbind (if gb_token_list cfg = [] then Inr changes_l2
            else rbind (lift_panic (deploy changes_l2 (gb_token_list cfg))) (\<lambda>r.
              map_err (\<lambda>_. GenesisPanic ''Bridged tokens must deploy'') r)) (\<lambda>changes_l2.
     rbind (or_panic (co_squash co [] changes_framework) ''Framework changes should not be in conflict'') (\<lambda>changes.
     rbind (or_panic (co_squash co changes (ec_accounts changes_l2)) ''L2 contract changes should not be in conflict'')
       (\<lambda>changes. Inr (changes, table_change_set_default, ec_storage changes_l2, repo'))))))"

definition genesis_apply ::
  "('k, 'db, 't, 'r, 'tc) state_ops \<Rightarrow> 'u storage_ops \<Rightarrow> change_set \<Rightarrow> 'tc
     \<Rightarrow> storage_tries_changes \<Rightarrow> genesis_build_config \<Rightarrow> ('db, 'r) in_memory_state \<Rightarrow> repository
     \<Rightarrow> (('db, 'r) in_memory_state \<times> repository) genesis" where
  "genesis_apply so ss changes tables evm_storage cfg st repo =
     rbind (lift_panic (apply_with_tables so changes tables st)) (\<lambda>(r, st').
     rbind (map_err (\<lambda>_. GenesisPanic ''Changes should be applicable'') r) (\<lambda>_.
     case repository_apply ss evm_storage repo of
       (Inl _, _) \<Rightarrow> Inl (GenesisPanic ''EVM storage changes should be applicable'')
     | (Inr _, repo') \<Rightarrow>
         if state_root st' \<noteq> gc_initial_state_root cfg
         then Inl (GenesisPanic ''Fatal Error: Genesis state root mismatch'')
         else Inr (st', repo')))"

definition build_and_apply ::
  "('r, 's) framework_ops \<Rightarrow> change_set_ops \<Rightarrow> ('k, 'db, 't, 'r, table_change_set) state_ops \<Rightarrow> 'u evm_ops
     \<Rightarrow> (evm_changes \<Rightarrow> bridged_token list \<Rightarrow> panic + (deploy_error + evm_changes)) \<Rightarrow> ('db, 'r) in_memory_state
     \<Rightarrow> genesis_build_config \<Rightarrow> ('db, 'r) in_memory_state \<Rightarrow> repository
     \<Rightarrow> (('db, 'r) in_memory_state \<times> repository) genesis" where
  "build_and_apply fo co so eo deploy st0 cfg st repo =
     rbind (genesis_build fo co so eo deploy st0 cfg repo) (\<lambda>(changes, tables, evm_storage, repo').
     genesis_apply so (en_storage eo) changes tables evm_storage cfg st repo')"

section \<open>Start of the node\<close>

definition initialize_app ::
  "('r, 's) framework_ops \<Rightarrow> change_set_ops \<Rightarrow> ('k, 'db, 't, 'r, table_change_set) state_ops \<Rightarrow> 'u evm_ops
     \<Rightarrow> (evm_changes \<Rightarrow> bridged_token list \<Rightarrow> panic + (deploy_error + evm_changes)) \<Rightarrow> ('db, 'r) in_memory_state
     \<Rightarrow> genesis_build_config \<Rightarrow> (('db, 'r) in_memory_state, repository) application
     \<Rightarrow> (('db, 'r) in_memory_state, repository) application genesis" where
  "initialize_app fo co so eo deploy st0 cfg app =
     (if query_latest (ap_storage app) \<noteq> None then Inr app
      else rbind (genesis_build fo co so eo deploy st0 cfg (ap_evm_storage app))
        (\<lambda>(changes, tables, evm_storage, repo).
         rbind (genesis_apply so (en_storage eo) changes tables evm_storage cfg (ap_state app) repo) (\<lambda>(st, repo').
         Inr (app\<lparr>ap_state := st, ap_evm_storage := repo'\<rparr>))))"

section \<open>Where genesis publishes modules\<close>

lemma genesis_eth_address_eq: "length v = 20 \<Longrightarrow> genesis_eth_address v = to_move_address v"
proof -
  assume len: "length v = 20"
  have "fold (\<lambda>i buf. buf[i + 12 := v ! i]) [0..<n] (replicate 32 0) = replicate 12 0 @ take n v @ replicate (20 - n) 0"
    if "n \<le> 20" for n
    using that
  proof (induction n)
    case (Suc n)
    have "replicate (20 - n) (0 :: u8) = 0 # replicate (20 - Suc n) 0"
      using Suc.prems by (metis Suc_diff_Suc Suc_le_lessD replicate_Suc)
    then show ?case using Suc len by (simp add: list_update_append take_Suc_conv_app_nth)
  qed (simp flip: replicate_add)
  from this [of 20] len show ?thesis by (simp add: genesis_eth_address_def to_move_address_def)
qed

definition reserved_address :: "account_address \<Rightarrow> bool" where
  "reserved_address a \<longleftrightarrow>
     a \<in> {FRAMEWORK_ADDRESS, TOKEN_ADDRESS, TOKEN_OBJECT_ADDRESS, SUI_STDLIB_ADDRESS, SUI_FRAMEWORK_ADDRESS} \<or>
     bytes_le GENESIS_L2_LOWEST_ADDRESS a \<and> bytes_le a GENESIS_L2_HIGHEST_ADDRESS"

text \<open>What the virtual machine documents: a verified bundle holds modules of the account it was staged
  for, and a session that publishes nothing has no module changes.\<close>

definition bundle_laws :: "('r, 's) framework_ops \<Rightarrow> bool" where
  "bundle_laws fo \<longleftrightarrow>
     (\<forall>r a code b. fo_stage fo r a code = Inr b \<longrightarrow> list_all (\<lambda>(i, _). mid_address i = a) b) \<and>
     (\<forall>s cs i. fo_finish fo s = Inr cs \<longrightarrow> module_of cs i = None)"

definition only_reserved :: "change_set \<Rightarrow> bool" where
  "only_reserved cs \<longleftrightarrow> (\<forall>i. module_of cs i \<noteq> None \<longrightarrow> reserved_address (mid_address i))"

lemma only_reserved_empty: "only_reserved []"
  by (simp add: only_reserved_def module_of_def)

lemma only_reserved_squash:
  assumes "change_set_laws co" "co_squash co cs ds = Some es" "only_reserved cs" "only_reserved ds"
  shows "only_reserved es"
  using assms unfolding change_set_laws_def only_reserved_def by metis

lemma or_panic_Inr [simp]: "or_panic x m = Inr y \<longleftrightarrow> x = Some y"
  by (simp add: or_panic_def)

lemma lift_vm_Inr [simp]: "lift_vm r = Inr y \<longleftrightarrow> r = Inr y"
  by (cases r) (simp_all add: lift_vm_def)

lemma bundle_ops_reserved:
  assumes "change_set_laws co" "list_all (\<lambda>(i, _). reserved_address (mid_address i)) b"
    and "bundle_ops co b w = Inr w'" "only_reserved w"
  shows "only_reserved w'"
  using assms(2-4)
proof (induction b arbitrary: w)
  case (Cons x b)
  obtain i code where x: "x = (i, code)" by fastforce
  obtain w1 where w1: "co_add_module_op co i (New code) w = Some w1" "bundle_ops co b w1 = Inr w'"
    using Cons.prems(2) by (auto simp: x rbind_Inr_iff)
  have "module_of w i = None" using assms(1) w1(1) unfolding change_set_laws_def by (metis option.distinct(1))
  then obtain w2 where "co_add_module_op co i (New code) w = Some w2"
    "\<And>j. module_of w2 j = (if j = i then Some (New code) else module_of w j)"
    using add_module_op_new [OF assms(1)] by metis
  then have "only_reserved w1"
    using w1(1) Cons.prems(1,3) by (auto simp: only_reserved_def x split: if_splits)
  with Cons.IH w1(2) Cons.prems(1) show ?case by simp
qed simp

lemma stage_modules_reserved:
  assumes "change_set_laws co" "bundle_laws fo" "stage_modules fo co r a code = Inr w" "reserved_address a"
  shows "only_reserved w"
proof -
  obtain b where b: "fo_stage fo r a code = Inr b" "bundle_ops co b [] = Inr w"
    using assms(3) by (auto simp: stage_modules_def convert_bundle_into_module_ops_def rbind_Inr_iff)
  then have "list_all (\<lambda>(i, _). mid_address i = a) b" using assms(2) by (simp add: bundle_laws_def)
  then have "list_all (\<lambda>(i, _). reserved_address (mid_address i)) b"
    using assms(4) by (auto simp: list_all_iff)
  from bundle_ops_reserved [OF assms(1) this b(2) only_reserved_empty] show ?thesis .
qed

lemma l2_package_reserved:
  assumes "change_set_laws co" "bundle_laws fo" "l2_package_writes fo co r ms w = Inr w'" "only_reserved w"
  shows "only_reserved w'"
  using assms(3,4)
proof (induction ms arbitrary: w)
  case (Cons x ms)
  obtain code i where x: "x = (code, i)" by fastforce
  have "reserved_address (mid_address i)"
    using Cons.prems(1) by (auto simp: x Let_def reserved_address_def split: if_splits)
  moreover obtain single w1 where "stage_modules fo co r (mid_address i) [code] = Inr single"
    "co_squash co w single = Some w1" "l2_package_writes fo co r ms w1 = Inr w'"
    using Cons.prems(1) by (auto simp: x Let_def rbind_Inr_iff split: if_splits)
  ultimately show ?case
    using Cons.IH Cons.prems(2) only_reserved_squash [OF assms(1)] stage_modules_reserved [OF assms(1,2)] by blast
qed simp

lemma package_writes_reserved:
  assumes "change_set_laws co" "bundle_laws fo" "package_writes fo co r p = Inr w"
  shows "only_reserved w"
proof (cases "rp_name p = L2_PACKAGE_NAME")
  case True
  then show ?thesis
    using assms(3) l2_package_reserved [OF assms(1,2) _ only_reserved_empty] by (simp add: package_writes_def)
next
  case False
  then show ?thesis
    using assms(3) stage_modules_reserved [OF assms(1,2)]
    by (auto simp: package_writes_def reserved_address_def rbind_Inr_iff split: if_splits)
qed

lemma publish_packages_reserved:
  assumes "change_set_laws co" "bundle_laws fo" "publish_packages fo co so ps w st = Inr (w', st')" "only_reserved w"
  shows "only_reserved w'"
  using assms(3,4)
proof (induction ps arbitrary: w st)
  case (Cons p ps)
  obtain pw st1 w1 where "package_writes fo co (im_resolver st) p = Inr pw" "co_squash co w pw = Some w1"
    "publish_packages fo co so ps w1 st1 = Inr (w', st')"
    using Cons.prems(1) by (auto simp: rbind_Inr_iff)
  then show ?case
    using Cons.IH Cons.prems(2) only_reserved_squash [OF assms(1)] package_writes_reserved [OF assms(1,2)] by blast
qed simp

lemma finish_reserved: "bundle_laws fo \<Longrightarrow> fo_finish fo s = Inr cs \<Longrightarrow> only_reserved cs"
  by (simp add: bundle_laws_def only_reserved_def)

lemma sui_package_reserved:
  assumes "change_set_laws co" "bundle_laws fo"
    and "deploy_sui_package fo co so k a m m' w st = Inr (w', st')" "only_reserved w" "reserved_address a"
  shows "only_reserved w'"
  using assms(3-5) only_reserved_squash [OF assms(1)] stage_modules_reserved [OF assms(1,2)]
  by (auto simp: deploy_sui_package_def rbind_Inr_iff)

lemma eth_token_finishes:
  assumes "initialize_eth_token fo st = Inr cs"
  shows "\<exists>s. fo_finish fo s = Inr cs"
proof -
  let ?run = "\<lambda>args. execute_function_bypass_visibility (fo_vm fo)
    \<lparr>mid_address = FRAMEWORK_ADDRESS, mid_name = ''eth_token''\<rparr> ''init_module'' [] [args] Unmetered
    (fo_new_session fo (im_resolver st))"
  obtain args where "(case ?run args of (Inl e, _) \<Rightarrow> Inl (GenesisVm e) | (Inr _, s) \<Rightarrow> lift_vm (fo_finish fo s)) = Inr cs"
    using assms by (auto simp: initialize_eth_token_def rbind_Inr_iff)
  then show ?thesis by (cases "?run args"; cases "fst (?run args)") auto
qed

text \<open>C38. Genesis publishes code under reserved addresses only: every module that the deployment of the
  frameworks writes belongs to the framework, the token packages, the two Sui packages or the address
  range of the L2 contracts, whatever the packages contain.\<close>

theorem framework_addresses_are_reserved:
  assumes "change_set_laws co" "bundle_laws fo" "deploy_framework fo co so st = Inr (cs, st')"
    and "module_of cs i \<noteq> None"
  shows "mid_address i \<in> {FRAMEWORK_ADDRESS, TOKEN_ADDRESS, TOKEN_OBJECT_ADDRESS, SUI_STDLIB_ADDRESS, SUI_FRAMEWORK_ADDRESS} \<or>
    bytes_le GENESIS_L2_LOWEST_ADDRESS (mid_address i) \<and> bytes_le (mid_address i) GENESIS_L2_HIGHEST_ADDRESS"
proof -
  note squash = only_reserved_squash [OF assms(1)]
  obtain aptos st1 eth sui aptos' where parts: "deploy_aptos_framework fo co so st = Inr (aptos, st1)"
    "initialize_eth_token fo st1 = Inr eth" "deploy_sui_framework fo co so st1 = Inr (sui, st')"
    "co_squash co aptos eth = Some aptos'" "co_squash co aptos' sui = Some cs"
    using assms(3) by (auto simp: deploy_framework_def rbind_Inr_iff)
  have "only_reserved aptos"
    using parts(1) publish_packages_reserved [OF assms(1,2) _ only_reserved_empty] finish_reserved [OF assms(2)] squash
    by (auto simp: deploy_aptos_framework_def rbind_Inr_iff) blast
  moreover have "only_reserved eth"
    using eth_token_finishes [OF parts(2)] finish_reserved [OF assms(2)] by blast
  moreover have "reserved_address SUI_STDLIB_ADDRESS" "reserved_address SUI_FRAMEWORK_ADDRESS"
    by (simp_all add: reserved_address_def)
  then have "only_reserved sui"
    using parts(3) sui_package_reserved [OF assms(1,2)] only_reserved_empty
    by (auto simp: deploy_sui_framework_def rbind_Inr_iff) blast
  ultimately have "only_reserved cs" using squash parts(4,5) by blast
  then show ?thesis using assms(4) by (simp add: only_reserved_def reserved_address_def)
qed

section \<open>The state after genesis\<close>

lemma lift_panic_Inr [simp]: "lift_panic r = Inr y \<longleftrightarrow> r = Inr y"
  by (cases r) (simp_all add: lift_panic_def)

lemma map_err_Inr [simp]: "map_err f r = Inr y \<longleftrightarrow> r = Inr y"
  by (cases r) (simp_all add: map_err_def)

lemma apply_with_tables_Inr:
  assumes "apply_with_tables so cs tables st = Inr (Inr (), st')"
  shows "\<exists>st1. update_root so cs st = Inr st1 \<and> im_db st' = im_db st1 \<and> state_root st' = state_root st1"
proof -
  obtain st1 where st1: "update_root so cs st = Inr st1"
    using assms by (auto simp: apply_with_tables_def rbind_Inr_iff)
  with assms show ?thesis
    by (cases "so_resolver_apply_extended so cs tables (im_resolver st1)")
      (auto simp: apply_with_tables_def state_root_def)
qed

lemma genesis_apply_Inr:
  assumes "genesis_apply so ss cs tables tries cfg st repo = Inr (st', repo')"
  shows "apply_with_tables so cs tables st = Inr (Inr (), st')" "repository_apply ss tries repo = (Inr (), repo')"
    "state_root st' = gc_initial_state_root cfg"
proof -
  obtain st1 where st1: "apply_with_tables so cs tables st = Inr (Inr (), st1)"
    "(case repository_apply ss tries repo of
       (Inl _, _) \<Rightarrow> Inl (GenesisPanic ''EVM storage changes should be applicable'')
     | (Inr _, repo') \<Rightarrow>
         if state_root st1 \<noteq> gc_initial_state_root cfg
         then Inl (GenesisPanic ''Fatal Error: Genesis state root mismatch'')
         else Inr (st1, repo')) = Inr (st', repo')"
    using assms by (auto simp: genesis_apply_def rbind_Inr_iff)
  obtain r repo1 where r: "repository_apply ss tries repo = (r, repo1)" by fastforce
  show "apply_with_tables so cs tables st = Inr (Inr (), st')" "repository_apply ss tries repo = (Inr (), repo')"
    "state_root st' = gc_initial_state_root cfg"
    using st1 by (cases r; simp add: r split: if_splits)+
qed

text \<open>C37. A node that starts from genesis starts from the configured state: applying the changes of genesis
  returns only with the configured state root, the changes of the EVM storage are applied, and the
  trie at that root holds every module and every resource of genesis. A mismatch of the root stops
  the node.\<close>

theorem genesis_state_is_the_configured_one:
  assumes "genesis_apply so ss cs tables tries cfg st repo = Inr (st', repo')"
    and "trie_laws so rep holds" "value_laws so" "order_laws so" "state_holds holds st m"
    and "tree_entries so cs = Inr es" "distinct (map fst es)" "inj_on (key_hash so) K" "fst ` set es \<subseteq> K"
  shows "state_root st' = gc_initial_state_root cfg \<and> repository_apply ss tries repo = (Inr (), repo') \<and>
    (\<exists>t'. so_open so (im_db st') (Some (gc_initial_state_root cfg)) = Inr t' \<and>
      (\<forall>(a, c) \<in> set cs. \<forall>(n, op) \<in> set (ac_modules c).
         get_module so (im_db st') t' \<lparr>mid_address = a, mid_name = n\<rparr> = Inr (Inr (op_ok op))) \<and>
      (\<forall>(a, c) \<in> set cs. \<forall>(tag, op) \<in> set (ac_resources c).
         (is_evm_storage_or_account_key tag \<longrightarrow> op_ok op \<noteq> Some []) \<longrightarrow>
         get_resource so (im_db st') t' a tag
           = Inr (Inr (op_ok op, case op_ok op of None \<Rightarrow> 0 | Some b \<Rightarrow> length b))))"
proof -
  note run = genesis_apply_Inr [OF assms(1)]
  from apply_with_tables_Inr [OF run(1)] obtain st1 where st1: "update_root so cs st = Inr st1"
    and same: "im_db st' = im_db st1" "state_root st' = state_root st1" by blast
  have root: "gc_initial_state_root cfg = state_root st1" using run(3) same(2) by simp
  show ?thesis
    using update_root_reads [OF assms(2-9) st1] run(2,3) unfolding same(1) root by blast
qed

section \<open>Witnesses\<close>

definition example_framework :: "(unit, ledger) framework_ops" where
  "example_framework =
     \<lparr>fo_aptos = [\<lparr>rp_name = ''MoveStdlib'', rp_modules = [([7], \<lparr>mid_address = FRAMEWORK_ADDRESS, mid_name = ''m''\<rparr>)],
                   rp_metadata = Some []\<rparr>],
      fo_sui = (\<lambda>_. Some []), fo_stage = (\<lambda>_ a code. Inr (map (\<lambda>c. (\<lparr>mid_address = a, mid_name = ''m''\<rparr>, c)) code)),
      fo_create_vm = Inr (), fo_new_session = (\<lambda>_. example_ledger),
      fo_vm = example_vm\<lparr>execute_function_bypass_visibility := \<lambda>_ _ _ _ _ s. (Inr [], s),
        simple_serialize := \<lambda>_. Some [], bcs_to_bytes := \<lambda>_. Some []\<rparr>,
      fo_finish = (\<lambda>_. Inr []), fo_resolver = (\<lambda>_. changes_based_resolver [])\<rparr>"

lemma example_bundle_laws: "bundle_laws example_framework"
  by (auto simp: bundle_laws_def example_framework_def list_all_iff module_of_def)

abbreviation example_deployed_changes :: change_set where
  "example_deployed_changes \<equiv>
     example_merge (example_merge (example_merge (example_merge []
       [(FRAMEWORK_ADDRESS, \<lparr>ac_modules = [(''m'', New [7])], ac_resources = []\<rparr>)]) []) [])
       (example_merge (example_merge [] []) [])"

lemma example_deployed:
  "\<exists>st'. deploy_framework example_framework example_change_set_ops example_state_ops example_state
     = Inr (example_deployed_changes, st')"
  by (simp add: deploy_framework_def deploy_aptos_framework_def package_writes_def
      example_framework_def L2_PACKAGE_NAME_def package_sender_def stage_modules_def lift_vm_def
      convert_bundle_into_module_ops_def or_panic_def initialize_package_def initialize_eth_token_def
      deploy_sui_framework_def deploy_sui_package_def)
    (simp add: example_change_set_ops_def module_of_def changes_at_def Let_def apply_unwrap_def state_apply_def
      update_root_def tree_def insert_change_set_into_merkle_trie_def to_tree_values_def tree_entries_def
      module_entry_def example_state_ops_def lift_panic_def in_memory_state_new_def)

theorem framework_addresses_are_reserved_witness:
  "module_of example_deployed_changes \<lparr>mid_address = FRAMEWORK_ADDRESS, mid_name = ''m''\<rparr> = Some (New [7]) \<and>
   (FRAMEWORK_ADDRESS \<in> {FRAMEWORK_ADDRESS, TOKEN_ADDRESS, TOKEN_OBJECT_ADDRESS, SUI_STDLIB_ADDRESS, SUI_FRAMEWORK_ADDRESS} \<or>
    bytes_le GENESIS_L2_LOWEST_ADDRESS FRAMEWORK_ADDRESS \<and> bytes_le FRAMEWORK_ADDRESS GENESIS_L2_HIGHEST_ADDRESS)"
proof -
  have m: "module_of example_deployed_changes \<lparr>mid_address = FRAMEWORK_ADDRESS, mid_name = ''m''\<rparr> = Some (New [7])"
    by (simp add: of_changes_at changes_at_squash squashed_def) (simp add: changes_at_def)
  obtain st' where "deploy_framework example_framework example_change_set_ops example_state_ops example_state
      = Inr (example_deployed_changes, st')" using example_deployed by blast
  from framework_addresses_are_reserved [OF example_change_set_laws example_bundle_laws this,
      of "\<lparr>mid_address = FRAMEWORK_ADDRESS, mid_name = ''m''\<rparr>"] m
  show ?thesis by simp
qed

text \<open>The changes of the example state, applied by a node that is configured for their root.\<close>

definition example_genesis_config :: genesis_build_config where
  "example_genesis_config = \<lparr>gc_chain_id = CHAIN_ID, gc_initial_state_root = [], gc_treasury = [],
     gb_l2_contract_genesis = [], gb_token_list = []\<rparr>"

lemma example_genesis_applied:
  "\<exists>st'. genesis_apply example_state_ops ss example_changes () [] example_genesis_config example_state Map.empty
     = Inr (st', Map.empty)" if "ss_order ss [] = []"
  using that
  by (simp add: genesis_apply_def apply_with_tables_def update_root_def tree_def insert_change_set_into_merkle_trie_def
      to_tree_values_def example_entries repository_apply_def example_genesis_config_def)
    (simp add: example_state_ops_def lift_panic_def in_memory_state_new_def state_root_def map_err_def)

theorem genesis_state_is_the_configured_one_witness:
  "\<exists>st' t'. genesis_apply example_state_ops example_storage_ops example_changes () [] example_genesis_config
       example_state Map.empty = Inr (st', Map.empty) \<and>
     get_module example_state_ops (im_db st') t' \<lparr>mid_address = EVM_NATIVE_ADDRESS, mid_name = ''m''\<rparr>
       = Inr (Inr (Some [7]))"
proof -
  have "ss_order example_storage_ops [] = []" by (simp add: example_storage_ops_def Let_def)
  then obtain st' where run: "genesis_apply example_state_ops example_storage_ops example_changes () []
      example_genesis_config example_state Map.empty = Inr (st', Map.empty)"
    using example_genesis_applied by blast
  have "state_holds example_holds example_state Map.empty"
    by (simp add: state_holds_def in_memory_state_new_def)
  from genesis_state_is_the_configured_one [OF run example_state_laws this example_entries _ example_inj]
  obtain t' where "\<forall>(a, c) \<in> set example_changes. \<forall>(n, op) \<in> set (ac_modules c).
       get_module example_state_ops (im_db st') t' \<lparr>mid_address = a, mid_name = n\<rparr> = Inr (Inr (op_ok op))"
    by auto
  then show ?thesis using run by (intro exI [of _ st'] exI [of _ t']) (simp add: example_changes_def)
qed

end
