(* ===== verification/Iterators.thy ===== *)
theory Iterators
  imports Moved_Prelude "HOL-Library.While_Combinator" "HOL-Library.AList"
begin

text \<open>
  Extensions of iterators: \<^verbatim>\<open>shared/src/iter.rs\<close>. An iterator is the function that takes the next item
  from its state; it ends when there is none. Grouping consumes an iterator into a map from keys to
  the items with that key, pairing turns an iterator into one of pairs.
\<close>

section \<open>Iterators\<close>

type_synonym ('s, 'a) iter = "'s \<Rightarrow> ('a \<times> 's) option"

fun list_next :: "('a list, 'a) iter" where
  "list_next [] = None"
| "list_next (x # xs) = Some (x, xs)"

text \<open>A \<open>for\<close> loop over an iterator, with the body that folds an item into \<open>b\<close>.\<close>

definition for_loop :: "('s, 'a) iter \<Rightarrow> ('a \<Rightarrow> 'b \<Rightarrow> 'b) \<Rightarrow> 's \<Rightarrow> 'b \<Rightarrow> ('s \<times> 'b) option" where
  "for_loop nxt body s b =
     while_option (\<lambda>(s, _). nxt s \<noteq> None)
       (\<lambda>(s, b). case nxt s of Some (x, s') \<Rightarrow> (s', body x b) | None \<Rightarrow> (s, b)) (s, b)"

text \<open>An iterator that ends: its items, in order, are those of \<open>items\<close>.\<close>

locale finite_iterator =
  fixes nxt :: "('s, 'a) iter" and items :: "'s \<Rightarrow> 'a list"
  assumes next_None: "nxt s = None \<Longrightarrow> items s = []"
    and next_Some: "nxt s = Some (x, s') \<Longrightarrow> items s = x # items s'"
begin

lemma for_loop_ends: "\<exists>s'. for_loop nxt body s b = Some (s', fold body (items s) b) \<and> nxt s' = None"
proof (induction "items s" arbitrary: s b)
  case Nil
  then have "nxt s = None" using next_Some by (cases "nxt s") fastforce+
  then show ?case by (simp add: for_loop_def while_option_unfold flip: Nil)
next
  case (Cons x xs)
  then obtain s1 where s1: "nxt s = Some (x, s1)" "items s1 = xs"
    using next_None next_Some by (cases "nxt s") fastforce+
  have "for_loop nxt body s b = for_loop nxt body s1 (body x b)"
    unfolding for_loop_def by (subst while_option_unfold) (simp add: s1)
  with Cons.hyps(1) [of s1 "body x b"] s1 Cons.hyps(2) show ?case by (simp flip: Cons.hyps(2))
qed

end

interpretation list_iter: finite_iterator list_next "\<lambda>xs. xs"
proof
  fix s :: "'a list" and x s'
  show "list_next s = None \<Longrightarrow> s = []" by (cases s) auto
  show "list_next s = Some (x, s') \<Longrightarrow> s = x # s'" by (cases s) auto
qed

section \<open>Grouping\<close>

text \<open>The entry of the key is created when it is vacant, then the value is pushed.\<close>

definition group_push :: "('v \<Rightarrow> 'k) \<Rightarrow> 'v \<Rightarrow> ('k \<times> 'v list) list \<Rightarrow> ('k \<times> 'v list) list" where
  "group_push f v m = AList.update (f v) ((case map_of m (f v) of None \<Rightarrow> [] | Some vs \<Rightarrow> vs) @ [v]) m"

definition group_by :: "('s, 'v) iter \<Rightarrow> ('v \<Rightarrow> 'k) \<Rightarrow> 's \<Rightarrow> ('k \<times> 'v list) list option" where
  "group_by nxt f s = map_option snd (for_loop nxt (group_push f) s [])"

section \<open>Pairing\<close>

datatype 'a pair_or_single = Pair2 'a 'a | Single 'a

definition pair_next :: "('s, 'a) iter \<Rightarrow> ('s, 'a pair_or_single) iter" where
  "pair_next nxt s =
     (case nxt s of
        None \<Rightarrow> None
      | Some (first, s1) \<Rightarrow>
          (case nxt s1 of
             Some (second, s2) \<Rightarrow> Some (Pair2 first second, s2)
           | None \<Rightarrow> Some (Single first, s1)))"

fun pairs :: "'a list \<Rightarrow> 'a pair_or_single list" where
  "pairs (x # y # xs) = Pair2 x y # pairs xs"
| "pairs [x] = [Single x]"
| "pairs [] = []"

fun unpaired :: "'a pair_or_single \<Rightarrow> 'a list" where
  "unpaired (Pair2 x y) = [x, y]"
| "unpaired (Single x) = [x]"

fun is_pair :: "'a pair_or_single \<Rightarrow> bool" where
  "is_pair (Pair2 x y) = True"
| "is_pair (Single x) = False"

text \<open>Pairing a finite iterator gives a finite iterator.\<close>

context finite_iterator
begin

lemma pair_None: "pair_next nxt s = None \<Longrightarrow> pairs (items s) = []"
  using next_None by (auto simp: pair_next_def split: option.splits prod.splits)

lemma pair_Some:
  assumes "pair_next nxt s = Some (p, s')"
  shows "pairs (items s) = p # pairs (items s')"
proof -
  obtain x s1 where s1: "nxt s = Some (x, s1)" using assms by (auto simp: pair_next_def split: option.splits)
  show ?thesis
  proof (cases "nxt s1")
    case None
    then show ?thesis using assms s1 next_Some [OF s1] next_None [OF None] by (auto simp: pair_next_def)
  next
    case (Some y)
    then show ?thesis
      using assms s1 next_Some [OF s1] next_Some [of s1 "fst y" "snd y"]
      by (auto simp: pair_next_def split: prod.splits)
  qed
qed

end

interpretation pair_iter: finite_iterator "pair_next list_next" pairs
  by unfold_locales (fact list_iter.pair_None list_iter.pair_Some)+

section \<open>Properties\<close>

lemma map_of_group:
  "map_of (fold (group_push f) vs m) k =
     (if map_of m k = None \<and> filter (\<lambda>v. f v = k) vs = [] then None
      else Some ((case map_of m k of None \<Rightarrow> [] | Some us \<Rightarrow> us) @ filter (\<lambda>v. f v = k) vs))"
  by (induction vs arbitrary: m) (auto simp: group_push_def AList.update_conv' split: option.splits)

lemma group_by_list:
  "\<exists>m. group_by list_next f vs = Some m \<and>
     (\<forall>k. map_of m k = (if k \<in> f ` set vs then Some (filter (\<lambda>v. f v = k) vs) else None))"
  using list_iter.for_loop_ends [of "group_push f" vs "[]"]
  by (auto simp: group_by_def map_of_group filter_empty_conv)

lemma concat_unpaired: "concat (map unpaired (pairs xs)) = xs"
  by (induction xs rule: pairs.induct) auto

lemma length_pairs: "length (pairs xs) = (length xs + 1) div 2"
  by (induction xs rule: pairs.induct) auto

lemma pairs_are_full: "list_all is_pair (butlast (pairs xs))"
  by (induction xs rule: pairs.induct) auto

text \<open>C40. Every loop over a paired iterator ends: a loop over the pairs of a list runs its body on half as
  many items, rounded up, which hold the items of the list in their order, and of which only the last
  one can be a single item.\<close>

theorem pair_loop_ends:
  shows "\<exists>s ps. for_loop (pair_next list_next) (\<lambda>p acc. acc @ [p]) xs [] = Some (s, ps) \<and>
    pair_next list_next s = None \<and> concat (map unpaired ps) = xs \<and> length ps = (length xs + 1) div 2 \<and>
    list_all is_pair (butlast ps)"
proof -
  have snoc: "fold (\<lambda>p acc. acc @ [p]) ps acc = acc @ ps" for ps acc :: "'a pair_or_single list"
    by (induction ps arbitrary: acc) auto
  obtain s where "for_loop (pair_next list_next) (\<lambda>p acc. acc @ [p]) xs [] = Some (s, pairs xs)"
    "pair_next list_next s = None"
    using pair_iter.for_loop_ends [of "\<lambda>p acc. acc @ [p]" xs "[]"] by (auto simp: snoc)
  then show ?thesis using concat_unpaired length_pairs pairs_are_full by blast
qed

end
