(* ===== verification/Spec2Isabelle.thy ===== *)
theory Spec2Isabelle
  imports Engine Abi_Native Persistent_Backends Command_Queue Storage_Adapters Genesis Iterators
begin

text \<open>
  A verification library for the node: an execution layer of an OP-stack rollup whose virtual machine
  is the Move VM, with an EVM embedded in it as native functions.

  \<^bold>\<open>The program.\<close> A consensus client drives the node over JSON-RPC. The server (\<^verbatim>\<open>server\<close>) forwards a
  request to op-geth and then has it handled by the methods of the interface (\<^verbatim>\<open>api\<close>). Queries read the
  stores and the history of the state through the reader of the application; everything that changes
  the node is a command in a queue, handled one after the other by the application (\<^verbatim>\<open>app\<close>): a payload
  starts the building of a block, a transaction enters the mem pool, the genesis block is adopted. To
  build a block the application takes the transactions of the payload and of the mem pool, executes
  each of them (\<^verbatim>\<open>execution\<close>), applies its changes to the Merkle trie of the state (\<^verbatim>\<open>state\<close>) and to the
  storage tries of EVM accounts (\<^verbatim>\<open>evm-ext\<close>, \<^verbatim>\<open>trie\<close>), and publishes receipts, transactions and the block
  (\<^verbatim>\<open>blockchain\<close>), in memory or in a database (\<^verbatim>\<open>storage/rocksdb\<close>, \<^verbatim>\<open>storage/heed\<close>).

  \<^bold>\<open>Theories and sources\<close>, from the bottom up.

    \<^item> \<open>Moved_Prelude\<close>, \<open>Primitives\<close>, \<open>Errors\<close>, \<open>Move_Types\<close>: integers of fixed width, results, byte
      order, addresses, the error types and the data of Move; \<^verbatim>\<open>shared/src/primitives.rs\<close>, \<^verbatim>\<open>error.rs\<close>.
    \<^item> \<open>Transaction\<close>: envelopes, normalisation, interpretation of transaction data, receipt envelopes;
      \<^verbatim>\<open>execution/src/transaction.rs\<close>.
    \<^item> \<open>Base_Fee\<close>, \<open>Gas\<close>: base fee of a block, prices and fees of a transaction;
      \<^verbatim>\<open>blockchain/src/block/gas.rs\<close>, \<^verbatim>\<open>execution/src/gas.rs\<close>.
    \<^item> \<open>Vm_Session\<close>, \<open>Eth_Token\<close>, \<open>Nonces\<close>: calls into the Move VM, the base token and the nonces kept
      by Move modules, the recorder of EVM transfers; \<^verbatim>\<open>execution/src/eth_token.rs\<close>, \<^verbatim>\<open>nonces.rs\<close>,
      \<^verbatim>\<open>evm-ext/src/events.rs\<close>. \<open>Example_Vm\<close> is a concrete machine for the witnesses.
    \<^item> \<open>Tag_Validation\<close>, \<open>Execute\<close>, \<open>Canonical\<close>: checks of arguments, entry functions, scripts and
      deployments, verification and execution of canonical and deposited transactions;
      \<^verbatim>\<open>execution/src/tag_validation.rs\<close>, \<^verbatim>\<open>layout.rs\<close>, \<^verbatim>\<open>execute.rs\<close>, \<^verbatim>\<open>canonical.rs\<close>, \<^verbatim>\<open>deposited.rs\<close>, \<^verbatim>\<open>lib.rs\<close>,
      \<^verbatim>\<open>session_id.rs\<close>.
    \<^item> \<open>Evmap\<close>, \<open>Block_Memory\<close>, \<open>Transaction_Memory\<close>, \<open>Receipt_Memory\<close>, \<open>Block_Queries\<close>: the stores in
      memory with their concurrent readers, the queries and the payloads; \<^verbatim>\<open>blockchain/src/block\<close>,
      \<^verbatim>\<open>transaction\<close>, \<^verbatim>\<open>receipt\<close>, \<^verbatim>\<open>payload\<close> and \<^verbatim>\<open>in_memory.rs\<close>.
    \<^item> \<open>State\<close>: the state as a Merkle trie and its history; \<^verbatim>\<open>state/src\<close>, \<^verbatim>\<open>blockchain/src/state\<close>.
    \<^item> \<open>Evm_Values\<close>, \<open>Evm_Storage\<close>, \<open>Evm_Native\<close>, \<open>Solidity_Abi\<close>, \<open>Abi_Native\<close>: the EVM inside the Move VM, the storage
      of its accounts, and the conversion of values; \<^verbatim>\<open>evm-ext/src\<close>, \<^verbatim>\<open>trie/src/staging.rs\<close>.
    \<^item> \<open>App\<close>, \<open>App_Queries\<close>, \<open>Ledger\<close>: the commands and the queries of the application and what it
      promises as a ledger; \<^verbatim>\<open>app/src\<close>, \<^verbatim>\<open>execution/src/simulate.rs\<close>.
    \<^item> \<open>Json_Rpc\<close>, \<open>Engine_Schema\<close>, \<open>Rpc_Methods\<close>, \<open>Server\<close>, \<open>Engine\<close>: the envelope, the types and the
      methods of the interface, the routes of the server, and what the engine API promises;
      \<^verbatim>\<open>api/src\<close>, \<^verbatim>\<open>server/src/lib.rs\<close>, \<^verbatim>\<open>geth_genesis.rs\<close>.
    \<^item> \<open>Command_Queue\<close>: the channel in front of the application, its users and the actor, as a step
      relation; \<^verbatim>\<open>app/src/queue.rs\<close>, \<^verbatim>\<open>factory.rs\<close>, \<^verbatim>\<open>actor.rs\<close>.
    \<^item> \<open>Kv_Store\<close>, \<open>Chain_Backend\<close>, \<open>Rocks_Store\<close>, \<open>Rocks_Props\<close>, \<open>Heed_Store\<close>: the stores on RocksDB and LMDB;
      \<^verbatim>\<open>storage/rocksdb/src\<close>, \<^verbatim>\<open>storage/heed/src\<close>.
    \<^item> \<open>Storage_Adapters\<close>: the storage of EVM accounts in the databases; \<^verbatim>\<open>evm.rs\<close> of both,
      \<^verbatim>\<open>evm-ext/src/state/storage.rs\<close>.
    \<^item> \<open>Persistent_Node\<close>, \<open>Persistent_Backends\<close>: the application over a database, with the callbacks that
      keep the history of the state and the payloads; \<^verbatim>\<open>app/src/dependency.rs\<close>, \<^verbatim>\<open>server/src/dependency\<close>.
    \<^item> \<open>Genesis_Image\<close>, \<open>Genesis_Tokens\<close>, \<open>Genesis\<close>: the image of genesis, the bridged tokens, the
      frameworks and the L2 contracts, and the start of the application; \<^verbatim>\<open>genesis/src\<close>, \<^verbatim>\<open>genesis-image\<close>,
      \<^verbatim>\<open>server/src/lib.rs\<close>.
    \<^item> \<open>Iterators\<close>: grouping and pairing of iterators; \<^verbatim>\<open>shared/src/iter.rs\<close>.

  A structure of the sources is a record, an enumeration a datatype, and a function or method a
  definition of the same name; a name that several modules use carries a prefix. Methods that change
  their receiver return the changed state.

  \<^bold>\<open>What the lemmas show.\<close> \<open>Ledger\<close> refines the application to an append-only list of valid blocks:
  every command sequence that does not panic extends the list by valid children of its head or leaves
  it alone, at no moment does a concurrent reader find a block without its transactions, a payload is
  built once, a transaction executes once, and an empty payload yields a block when the gas limit of its
  parent admits a base fee. The states it speaks of are those reached from a genesis block with number 0
  and no transactions, by payloads, transactions and any repetition of that genesis block, which the server
  sends for every request of block 0. Adopting another genesis block is excluded (\<open>other_genesis\<close>): the
  stores in memory would keep it beside the first, and the choice between the two is open. \<open>App\<close> accounts
  for cumulative gas, indices and log offsets of the receipts. \<open>Engine\<close> follows a payload through
  fork choice, building, retrieval and validation, and shows that the head commits to the state;
  \<open>Server\<close> shows that only the authenticated port can start a block. \<open>Rpc_Methods\<close> gives the shape of
  responses and the exact condition under which a payload is valid. \<open>Rocks_Props\<close> and \<open>Heed_Store\<close>
  show that after every chain of writes the databases answer as the memory does; \<open>Persistent_Backends\<close>
  lifts this to whole nodes: over RocksDB and over LMDB a sequence of commands does what it does in
  memory, as long as every block it builds has a new hash, transactions with new and different hashes and an
  encoding that reads back (\<open>publishable_all\<close>; a transaction that was skipped and comes again is not
  covered, since there the memory keeps two records and a database the later one), so that what \<open>Ledger\<close> and \<open>Engine\<close> show holds there too, and the history of the state is that
  of the chain; it also shows what a crash between two writes does to that history. \<open>Storage_Adapters\<close>
  does the same for the storage of EVM accounts, which share two families of the database.
  \<open>Command_Queue\<close> shows that the concurrent node is the sequential one of \<open>Ledger\<close>, that the actor can
  always handle the accepted commands, and what waiting for them means, for channels as the runtime
  documents them. \<open>Genesis\<close> shows that a node starts from the configured state root and
  publishes code under reserved addresses only, \<open>Genesis_Image\<close> that the image is faithful. The theories
  of execution show what verification of a transaction charges, checks and increments, which
  arguments reach Move code (exactly those whose signers, strings, options and objects are in order), what transfers do to balances, and that an error of a user never aborts
  a block. The theories of fees give exact formulas and bounds; those of the state and of the EVM show
  that what was written is read back at its height, and when it is not.

  \<^bold>\<open>Conventions and bounds.\<close> Machine integers are words and wrap around as in a release build; where
  the sources saturate, check or panic, so do the definitions. A theorem about heights, indices or
  gas assumes that they do not exceed their width, as its statement says. All loops of the sources
  that are modelled end, by recursion on their data or by a measure, so that no definition uses fuel;
  a loop over an arbitrary iterator is \<open>while_option\<close>, and \<open>finite_iterator\<close> shows when it ends.
  An error of the sources is \<open>Inl\<close> of their error type; panics are values of type \<open>panic\<close>.

  \<^bold>\<open>Third-party code\<close> is an argument, and what the theorems rely on is stated by named predicates:
  the Move VM (\<open>vm_ops\<close>, \<open>machine\<close>; \<open>token_laws\<close>, \<open>nonce_laws\<close>, \<open>gas_laws\<close>, \<open>codec_laws\<close>,
  \<open>resource_laws\<close>), the channels of the runtime (\<open>tokio_ops\<close>; \<open>mpsc_laws\<close>), Merkle
  tries, state keys and BCS (\<open>state_ops\<close>, \<open>storage_ops\<close>; \<open>trie_laws\<close>, \<open>value_laws\<close>, \<open>order_laws\<close>,
  \<open>storage_laws\<close>, \<open>rlp_laws\<close>), the EVM (\<open>evm_machine\<close>, \<open>evm_ops\<close>), the gas
  of native functions (\<open>native_gas\<close>, \<open>abi_context\<close>; \<open>meter_laws\<close>), the concurrent map (\<open>picks_member\<close>),
  the databases (\<open>kv_ops\<close>, \<open>heed_ops\<close>; \<open>kv_laws\<close>, \<open>kv_reliable\<close>) and encodings (\<open>codec\<close>, \<open>wire\<close>,
  \<open>server_ops\<close>), the change sets and packages of genesis (\<open>change_set_ops\<close>, \<open>framework_ops\<close>;
  \<open>change_set_laws\<close>, \<open>bundle_laws\<close>). A concrete instance in the same theory shows that they can hold.

  \<^bold>\<open>Interfaces.\<close> Five locales state what the sources' traits promise to their clients. \<open>keyed_memory\<close>
  (\<open>Evmap\<close>): a store of values under their own key, interpreted by the stores of transactions and of
  receipts. \<open>chain_backend\<close> (\<open>Chain_Backend\<close>): a persistent store of blocks and transactions that
  represents the memory, interpreted by the stores on RocksDB and on LMDB; what holds for one block is
  lifted to every chain there. \<open>finite_iterator\<close> (\<open>Iterators\<close>): an iterator whose items are a list,
  interpreted by lists and by pairs of a list. \<open>account_store\<close> (\<open>Storage_Adapters\<close>): a database that
  gives every account a part of its own. \<open>node_backend\<close> (\<open>Persistent_Node\<close>): the stores of a node with
  what they hold of the node in memory; commands, sequences of them and restarts are treated there once.
  Both are interpreted by RocksDB and by LMDB.

  \<^bold>\<open>Not modelled.\<close> The traits that bound the threads of dependencies and the test doubles of
  \<^verbatim>\<open>app/src/dependency.rs\<close> have no behaviour; opening and purging the database files of
  \<^verbatim>\<open>server/src/dependency\<close> is left out, and so is the binding of ports in \<^verbatim>\<open>server/src/lib.rs\<close>. The gas
  schedule and the construction of the virtual machine (\<^verbatim>\<open>genesis/src/config.rs\<close>, \<^verbatim>\<open>vm.rs\<close>) set parameters
  of third-party code, and \<^verbatim>\<open>genesis-builder\<close> generates Move sources from templates. Of the server, HTTP,
  the proxy, compression and the signature of tokens are left out. Tests, benchmarks and display strings are left out.
\<close>

end
